(* ===== verification/Kyn_Prelude.thy ===== *)
theory Kyn_Prelude
  imports Complex_Main "HOL-Library.Word"
begin

text \<open>
  Shared vocabulary of the development.

  \<^item> the fragments of the JavaScript standard library the sources use: \<^verbatim>\<open>Math.ceil\<close>,
    \<^verbatim>\<open>Math.round\<close>, \<^verbatim>\<open>toLowerCase\<close>, \<^verbatim>\<open>includes\<close>, \<^verbatim>\<open>substring\<close>, number-to-string
    conversion;
  \<^item> SQL statements on tables kept as lists of rows;
  \<^item> the collections of rules for actions, which \<open>Kyn_Effects\<close> fills.

  JavaScript numbers are modelled by exact integers and rationals: the rounding of
  IEEE doubles is not modelled.
\<close>

named_theorems steps_rules \<comment> \<open>rules that derive \<open>steps R m\<close> from the parts of \<open>m\<close>\<close>
named_theorems calm_rules \<comment> \<open>rules that derive that an action never throws\<close>
named_theorems orderly_rules \<comment> \<open>rules that derive that an action keeps the clock\<close>
named_theorems wp_rules \<comment> \<open>weakest preconditions of the action combinators\<close>
named_theorems act_defs \<comment> \<open>definitions of the action combinators\<close>

section \<open>Numbers\<close>

text \<open>\<^verbatim>\<open>Math.ceil(a / b)\<close> for non-negative integers.\<close>

definition ceil_div :: "nat \<Rightarrow> nat \<Rightarrow> nat" where
  "ceil_div a b = (a + b - 1) div b"

text \<open>\<^verbatim>\<open>Math.round\<close>: the nearest integer, halves towards plus infinity.\<close>

definition js_round :: "rat \<Rightarrow> int" where
  "js_round x = \<lfloor>x + 1 / 2\<rfloor>"

lemma js_round_of_int [simp]: "js_round (of_int k) = k"
  by (simp add: js_round_def floor_eq_iff)

lemma ceil_div_0 [simp]: "0 < b \<Longrightarrow> ceil_div 0 b = 0"
  by (simp add: ceil_div_def)

lemma ceil_div_mult [simp]: "0 < b \<Longrightarrow> ceil_div (b * q) b = q"
proof -
  assume b: "0 < b"
  have "b * q + b - 1 = (b - 1) + q * b" using b by (simp add: mult.commute)
  then have "ceil_div (b * q) b = ((b - 1) + q * b) div b" by (simp add: ceil_div_def)
  also have "\<dots> = q + (b - 1) div b" by (rule div_mult_self1) (use b in simp)
  also have "(b - 1) div b = 0" using b by simp
  finally show ?thesis by simp
qed

lemma ceil_div_ge: "0 < b \<Longrightarrow> a \<le> b * ceil_div a b"
proof -
  assume b: "0 < b"
  let ?n = "a + b - 1"
  have "b * (?n div b) + ?n mod b = ?n" by simp
  moreover have "?n mod b < b" using b by simp
  ultimately show ?thesis using b unfolding ceil_div_def by linarith
qed

lemma ceil_div_less: "0 < b \<Longrightarrow> b * ceil_div a b < a + b"
proof -
  assume b: "0 < b"
  let ?n = "a + b - 1"
  have "b * (?n div b) \<le> ?n" by simp
  then show ?thesis using b unfolding ceil_div_def by linarith
qed

section \<open>Strings\<close>

text \<open>\<^verbatim>\<open>toLowerCase\<close> on the ASCII range the addresses use.\<close>

definition lower_char :: "char \<Rightarrow> char" where
  "lower_char c = (let n = (of_char c :: nat) in if 65 \<le> n \<and> n \<le> 90 then char_of (n + 32) else c)"

definition to_lower :: "string \<Rightarrow> string" where
  "to_lower s = map lower_char s"

text \<open>\<^verbatim>\<open>toUpperCase\<close>, on the same range.\<close>

definition upper_char :: "char \<Rightarrow> char" where
  "upper_char c = (let n = (of_char c :: nat) in if 97 \<le> n \<and> n \<le> 122 then char_of (n - 32) else c)"

definition to_upper :: "string \<Rightarrow> string" where
  "to_upper s = map upper_char s"

lemma lower_char_idem [simp]: "lower_char (lower_char c) = lower_char c"
  by (auto simp: lower_char_def Let_def)

lemma to_lower_idem [simp]: "to_lower (to_lower s) = to_lower s"
  by (simp add: to_lower_def)

lemma length_to_lower [simp]: "length (to_lower s) = length s"
  by (simp add: to_lower_def)

text \<open>\<^verbatim>\<open>s.includes(t)\<close>.\<close>

fun starts_with :: "'a list \<Rightarrow> 'a list \<Rightarrow> bool" where
  "starts_with s [] = True"
| "starts_with [] (t # ts) = False"
| "starts_with (s # ss) (t # ts) = (s = t \<and> starts_with ss ts)"

fun str_includes :: "'a list \<Rightarrow> 'a list \<Rightarrow> bool" where
  "str_includes [] t = (t = [])"
| "str_includes (s # ss) t = (starts_with (s # ss) t \<or> str_includes ss t)"

lemma starts_with_iff: "starts_with s t \<longleftrightarrow> (\<exists>r. s = t @ r)"
  by (induction s t rule: starts_with.induct) auto

text \<open>\<^verbatim>\<open>s.substring(a, b)\<close> for \<open>a \<le> b\<close>.\<close>

definition substring :: "nat \<Rightarrow> nat \<Rightarrow> 'a list \<Rightarrow> 'a list" where
  "substring a b s = drop a (take b s)"

text \<open>Decimal rendering of a non-negative integer.\<close>

definition digit :: "nat \<Rightarrow> char" where
  "digit d = char_of (48 + d)"

fun nat_str :: "nat \<Rightarrow> string" where
  "nat_str n = (if n < 10 then [digit n] else nat_str (n div 10) @ [digit (n mod 10)])"

declare nat_str.simps [simp del]

lemma nat_str_nonempty [simp]: "nat_str n \<noteq> []"
  by (subst nat_str.simps) simp

lemma digit_inj: "a < 10 \<Longrightarrow> b < 10 \<Longrightarrow> digit a = digit b \<longleftrightarrow> a = b"
  by (auto simp: digit_def char_of_eq_iff take_bit_eq_mod)

lemma nat_str_inj: "nat_str a = nat_str b \<Longrightarrow> a = b"
proof (induction a arbitrary: b rule: nat_str.induct)
  case (1 a)
  show ?case
  proof (cases "a < 10")
    case True
    have "nat_str b = [digit a]" using True "1.prems" nat_str.simps[of a] by simp
    then have "b < 10 \<and> digit a = digit b"
      by (subst (asm) nat_str.simps) (auto split: if_splits)
    then show ?thesis using True digit_inj by blast
  next
    case False
    have eq: "nat_str b = nat_str (a div 10) @ [digit (a mod 10)]"
      using False "1.prems" nat_str.simps[of a] by simp
    have b: "\<not> b < 10"
    proof
      assume "b < 10"
      then have "nat_str b = [digit b]" by (subst nat_str.simps) simp
      with eq show False by (metis append_eq_Cons_conv nat_str_nonempty Nil_is_append_conv not_Cons_self2 list.inject)
    qed
    then have "nat_str b = nat_str (b div 10) @ [digit (b mod 10)]"
      by (subst nat_str.simps) simp
    with eq have "nat_str (a div 10) = nat_str (b div 10)" and "digit (a mod 10) = digit (b mod 10)"
      by auto
    then have "a div 10 = b div 10" and "a mod 10 = b mod 10"
      using "1.IH"[OF False] digit_inj[of "a mod 10" "b mod 10"] by auto
    then show ?thesis by (metis div_mult_mod_eq)
  qed
qed

lemma nat_str_digits: "set (nat_str n) \<subseteq> digit ` {..<10}"
proof (induction n rule: nat_str.induct)
  case (1 n)
  have "digit (n mod 10) \<in> digit ` {..<10}" by (intro imageI) simp
  then show ?case using 1 by (subst nat_str.simps) auto
qed

lemma nat_str_eq_iff [simp]: "nat_str a = nat_str b \<longleftrightarrow> a = b"
  using nat_str_inj by blast

lemma not_distinct_map:
  "a \<in> set xs \<Longrightarrow> b \<in> set xs \<Longrightarrow> a \<noteq> b \<Longrightarrow> f a = f b \<Longrightarrow> \<not> distinct (map f xs)"
  by (auto simp: distinct_map inj_on_def)

section \<open>SQL on lists of rows\<close>

definition sql_update :: "('r \<Rightarrow> bool) \<Rightarrow> ('r \<Rightarrow> 'r) \<Rightarrow> 'r list \<Rightarrow> 'r list" where
  "sql_update p f rs = map (\<lambda>r. if p r then f r else r) rs"

definition sql_delete :: "('r \<Rightarrow> bool) \<Rightarrow> 'r list \<Rightarrow> 'r list" where
  "sql_delete p rs = filter (\<lambda>r. \<not> p r) rs"

lemma length_sql_update [simp]: "length (sql_update p f rs) = length rs"
  by (simp add: sql_update_def)

lemma sql_update_Nil [simp]: "sql_update p f [] = []"
  by (simp add: sql_update_def)

lemma sql_update_Cons [simp]:
  "sql_update p f (r # rs) = (if p r then f r else r) # sql_update p f rs"
  by (simp add: sql_update_def)

lemma sql_update_append [simp]: "sql_update p f (rs @ rs') = sql_update p f rs @ sql_update p f rs'"
  by (simp add: sql_update_def)

lemma set_sql_update: "set (sql_update p f rs) = {f r |r. r \<in> set rs \<and> p r} \<union> {r \<in> set rs. \<not> p r}"
  by (auto simp: sql_update_def)

lemma sql_update_in: "r \<in> set rs \<Longrightarrow> (if p r then f r else r) \<in> set (sql_update p f rs)"
  by (simp add: sql_update_def)

lemma sql_update_all:
  "(\<And>r. r \<in> set rs \<Longrightarrow> p r \<Longrightarrow> q (f r)) \<Longrightarrow> (\<And>r. r \<in> set rs \<Longrightarrow> \<not> p r \<Longrightarrow> q r) \<Longrightarrow>
     \<forall>r \<in> set (sql_update p f rs). q r"
  by (induction rs) auto

lemma sql_update_id: "(\<And>r. r \<in> set rs \<Longrightarrow> \<not> p r) \<Longrightarrow> sql_update p f rs = rs"
  by (induction rs) auto

lemma map_sql_update:
  "(\<And>r. k (f r) = k r) \<Longrightarrow> map k (sql_update p f rs) = map k rs"
  by (simp add: sql_update_def)

lemma filter_sql_update_none:
  "(\<And>r. p r \<Longrightarrow> \<not> q r) \<Longrightarrow> (\<And>r. p r \<Longrightarrow> \<not> q (f r)) \<Longrightarrow> filter q (sql_update p f rs) = filter q rs"
  by (induction rs) auto

lemma filter_sql_update_gone:
  "(\<And>r. p r \<Longrightarrow> \<not> q (f r)) \<Longrightarrow> (\<And>r. q r \<Longrightarrow> p r) \<Longrightarrow> filter q (sql_update p f rs) = []"
  by (induction rs) auto

lemma set_sql_delete [simp]: "set (sql_delete p rs) = {r \<in> set rs. \<not> p r}"
  by (auto simp: sql_delete_def)

lemma sql_delete_Nil [simp]: "sql_delete p [] = []"
  by (simp add: sql_delete_def)

lemma sql_delete_Cons [simp]:
  "sql_delete p (r # rs) = (if p r then sql_delete p rs else r # sql_delete p rs)"
  by (simp add: sql_delete_def)

text \<open>\<^verbatim>\<open>ORDER BY key ASC\<close>: a stable insertion sort.\<close>

fun insert_by :: "('r \<Rightarrow> 'k::linorder) \<Rightarrow> 'r \<Rightarrow> 'r list \<Rightarrow> 'r list" where
  "insert_by k r [] = [r]"
| "insert_by k r (x # xs) = (if k r \<le> k x then r # x # xs else x # insert_by k r xs)"

fun order_by :: "('r \<Rightarrow> 'k::linorder) \<Rightarrow> 'r list \<Rightarrow> 'r list" where
  "order_by k [] = []"
| "order_by k (r # rs) = insert_by k r (order_by k rs)"

lemma set_insert_by [simp]: "set (insert_by k r xs) = insert r (set xs)"
  by (induction xs) auto

lemma length_insert_by [simp]: "length (insert_by k r xs) = Suc (length xs)"
  by (induction xs) auto

lemma set_order_by [simp]: "set (order_by k rs) = set rs"
  by (induction rs) auto

lemma length_order_by [simp]: "length (order_by k rs) = length rs"
  by (induction rs) auto

lemma distinct_insert_by: "distinct (insert_by k r xs) \<longleftrightarrow> r \<notin> set xs \<and> distinct xs"
  by (induction xs) auto

lemma distinct_order_by [simp]: "distinct (order_by k rs) \<longleftrightarrow> distinct rs"
  by (induction rs) (auto simp: distinct_insert_by)

lemma sorted_insert_by: "sorted (map k xs) \<Longrightarrow> sorted (map k (insert_by k r xs))"
  by (induction xs) auto

lemma sorted_order_by [simp]: "sorted (map k (order_by k rs))"
  by (induction rs) (auto intro: sorted_insert_by)

end
