(* ===== verification/Kyn_Effects.thy ===== *)
theory Kyn_Effects
  imports Kyn_Prelude
begin

text \<open>
  Asynchronous JavaScript as actions. An action runs on a world: the shared state
  (a database, a page), the clock that \<^verbatim>\<open>Date.now()\<close> and \<^verbatim>\<open>NOW()\<close> read, and a
  script that says which of the effects still to come fail (\<open>True\<close>: the awaited
  promise rejects before it changes anything; an exhausted script: it succeeds). Every
  theorem about an action holds for every script, so for every pattern of failures.

  The second half is the reasoning principle: a relation between the states before and
  after that is reflexive and transitive is kept by an action as soon as every single
  effect in it keeps it.
\<close>

record 's world =
  db :: 's
  clock :: int
  script :: "bool list"

type_synonym ('s, 'a) act = "'s world \<Rightarrow> (string + 'a) \<times> 's world"

section \<open>Combinators\<close>

definition ret :: "'a \<Rightarrow> ('s, 'a) act" where
  [act_defs]: "ret x w = (Inr x, w)"

definition throw :: "string \<Rightarrow> ('s, 'a) act" where
  [act_defs]: "throw e w = (Inl e, w)"

definition bind :: "('s, 'a) act \<Rightarrow> ('a \<Rightarrow> ('s, 'b) act) \<Rightarrow> ('s, 'b) act" where
  [act_defs]: "bind m f w = (case m w of (Inl e, w') \<Rightarrow> (Inl e, w') | (Inr x, w') \<Rightarrow> f x w')"

definition andthen :: "('s, 'a) act \<Rightarrow> ('s, 'b) act \<Rightarrow> ('s, 'b) act" where
  [act_defs]: "andthen m k = bind m (\<lambda>_. k)"

definition try_catch :: "('s, 'a) act \<Rightarrow> (string \<Rightarrow> ('s, 'a) act) \<Rightarrow> ('s, 'a) act" where
  [act_defs]: "try_catch m h w = (case m w of (Inl e, w') \<Rightarrow> h e w' | (Inr x, w') \<Rightarrow> (Inr x, w'))"

text \<open>
  An awaited effect on the shared state. It fails when the script says so, and also when
  the effect itself is refused (\<open>None\<close>: a violated constraint, a reverted transaction).
\<close>

definition effect :: "('s \<Rightarrow> ('a \<times> 's) option) \<Rightarrow> ('s, 'a) act" where
  [act_defs]: "effect f w =
     (case script w of
        True # r \<Rightarrow> (Inl ''rejected'', w\<lparr>script := r\<rparr>)
      | _ \<Rightarrow> (let w' = w\<lparr>script := tl (script w)\<rparr> in
              case f (db w) of
                None \<Rightarrow> (Inl ''refused'', w')
              | Some (x, s) \<Rightarrow> (Inr x, w'\<lparr>db := s\<rparr>)))"

text \<open>The two common shapes: a read, and a write that is never refused.\<close>

definition reads :: "('s \<Rightarrow> 'a) \<Rightarrow> ('s, 'a) act" where
  [act_defs]: "reads g = effect (\<lambda>s. Some (g s, s))"

definition writes :: "('s \<Rightarrow> 's) \<Rightarrow> ('s, unit) act" where
  [act_defs]: "writes g = effect (\<lambda>s. Some ((), g s))"

definition now :: "('s, int) act" where
  [act_defs]: "now w = (Inr (clock w), w)"

primrec for_each :: "'a list \<Rightarrow> ('a \<Rightarrow> ('s, unit) act) \<Rightarrow> ('s, unit) act" where
  "for_each [] f = ret ()"
| "for_each (x # xs) f = andthen (f x) (for_each xs f)"

text \<open>\<^verbatim>\<open>try { m } catch { log }\<close>: the exception is logged and dropped.\<close>

definition logged :: "('s, unit) act \<Rightarrow> ('s, unit) act" where
  [act_defs]: "logged m = try_catch m (\<lambda>_. ret ())"

definition final :: "('s, 'a) act \<Rightarrow> 's world \<Rightarrow> 's" where
  "final m w = db (snd (m w))"

section \<open>Never throwing\<close>

definition calm :: "('s, 'a) act \<Rightarrow> bool" where
  "calm m \<longleftrightarrow> (\<forall>w. \<exists>x w'. m w = (Inr x, w'))"

lemma calm_ret [calm_rules, simp]: "calm (ret x)"
  by (simp add: calm_def ret_def)

lemma calm_now [calm_rules, simp]: "calm now"
  by (simp add: calm_def now_def)

lemma calm_bind [calm_rules]: "calm m \<Longrightarrow> (\<And>x. calm (f x)) \<Longrightarrow> calm (bind m f)"
  unfolding calm_def bind_def by (metis (no_types, lifting) case_prod_conv sum.case(2))

lemma calm_andthen [calm_rules]: "calm m \<Longrightarrow> calm k \<Longrightarrow> calm (andthen m k)"
  unfolding andthen_def by (rule calm_bind)

lemma calm_try_catch [calm_rules]: "(\<And>e. calm (h e)) \<Longrightarrow> calm (try_catch m h)"
  unfolding calm_def try_catch_def by (auto split: prod.splits sum.splits)

lemma calm_logged [calm_rules, simp]: "calm (logged m)"
  unfolding logged_def by (rule calm_try_catch) simp

lemma calm_for_each [calm_rules]: "(\<And>x. calm (f x)) \<Longrightarrow> calm (for_each xs f)"
  by (induction xs) (auto intro: calm_rules)

section \<open>Relations kept by an action\<close>

definition steps :: "('s \<Rightarrow> 's \<Rightarrow> bool) \<Rightarrow> ('s, 'a) act \<Rightarrow> bool" where
  "steps R m \<longleftrightarrow> (\<forall>w. R (db w) (final m w))"

lemma stepsD: "steps R m \<Longrightarrow> R (db w) (final m w)"
  by (simp add: steps_def)

lemma stepsI: "(\<And>w. R (db w) (final m w)) \<Longrightarrow> steps R m"
  by (simp add: steps_def)

text \<open>The clock stands still inside an action, and effects only consume the script.\<close>

definition orderly :: "('s, 'a) act \<Rightarrow> bool" where
  "orderly m \<longleftrightarrow> (\<forall>w. clock (snd (m w)) = clock w \<and> (\<exists>k. script (snd (m w)) = drop k (script w)))"

lemma orderly_ret [orderly_rules]: "orderly (ret x)"
  by (auto simp: orderly_def ret_def intro: exI[of _ 0])

lemma orderly_throw [orderly_rules]: "orderly (throw e)"
  by (auto simp: orderly_def throw_def intro: exI[of _ 0])

lemma orderly_now [orderly_rules]: "orderly now"
  by (auto simp: orderly_def now_def intro: exI[of _ 0])

lemma orderly_bind [orderly_rules]:
  assumes m: "orderly m" and f: "\<And>x. orderly (f x)"
  shows "orderly (bind m f)"
proof -
  have "clock (snd (bind m f w)) = clock w \<and> (\<exists>k. script (snd (bind m f w)) = drop k (script w))" for w
  proof (cases "m w")
    case (Pair r w')
    then have w': "clock w' = clock w" "\<exists>k. script w' = drop k (script w)"
      using m unfolding orderly_def by (metis snd_conv)+
    then show ?thesis
    proof (cases r)
      case (Inr x)
      have "clock (snd (f x w')) = clock w'" "\<exists>k. script (snd (f x w')) = drop k (script w')"
        using f[of x] unfolding orderly_def by auto
      then show ?thesis using w' Inr Pair by (auto simp: bind_def)
    qed (use Pair in \<open>auto simp: bind_def\<close>)
  qed
  then show ?thesis by (simp add: orderly_def)
qed

lemma orderly_andthen [orderly_rules]: "orderly m \<Longrightarrow> orderly k \<Longrightarrow> orderly (andthen m k)"
  unfolding andthen_def by (rule orderly_bind)

lemma orderly_try_catch [orderly_rules]:
  assumes m: "orderly m" and h: "\<And>e. orderly (h e)"
  shows "orderly (try_catch m h)"
proof -
  have "clock (snd (try_catch m h w)) = clock w \<and> (\<exists>k. script (snd (try_catch m h w)) = drop k (script w))" for w
  proof (cases "m w")
    case (Pair r w')
    then have w': "clock w' = clock w" "\<exists>k. script w' = drop k (script w)"
      using m unfolding orderly_def by (metis snd_conv)+
    then show ?thesis
    proof (cases r)
      case (Inl e)
      have "clock (snd (h e w')) = clock w'" "\<exists>k. script (snd (h e w')) = drop k (script w')"
        using h[of e] unfolding orderly_def by auto
      then show ?thesis using w' Inl Pair by (auto simp: try_catch_def)
    qed (use Pair in \<open>auto simp: try_catch_def\<close>)
  qed
  then show ?thesis by (simp add: orderly_def)
qed

lemma orderly_logged [orderly_rules]: "orderly m \<Longrightarrow> orderly (logged m)"
  unfolding logged_def by (intro orderly_rules)

lemma orderly_effect [orderly_rules]: "orderly (effect f)"
proof -
  have "script w = [] \<or> (\<exists>b r. script w = b # r)" for w :: "'a world" by (cases "script w") auto
  then show ?thesis
    by (auto simp: orderly_def effect_def Let_def drop_Suc split: list.splits bool.splits option.splits
        intro: exI[of _ 0] exI[of _ 1])
qed

lemma orderly_reads [orderly_rules]: "orderly (reads g)"
  unfolding reads_def by (rule orderly_effect)

lemma orderly_writes [orderly_rules]: "orderly (writes g)"
  unfolding writes_def by (rule orderly_effect)

lemma orderly_for_each [orderly_rules]: "(\<And>x. orderly (f x)) \<Longrightarrow> orderly (for_each xs f)"
  by (induction xs) (auto intro: orderly_rules)

lemma orderly_quiet: "orderly m \<Longrightarrow> script w = [] \<Longrightarrow> script (snd (m w)) = []"
  unfolding orderly_def by (metis drop_Nil)

lemma final_logged: "final (logged m) w = final m w"
  by (simp add: final_def logged_def try_catch_def ret_def split: prod.splits sum.splits)

lemma final_bind_now: "final (bind now f) w = final (f (clock w)) w"
  by (simp add: final_def bind_def now_def)

lemma final_bind_reads:
  obtains (failed) "final (bind (reads g) f) w = db w"
    | (went_on) w' where "db w' = db w" "clock w' = clock w"
      "final (bind (reads g) f) w = final (f (g (db w))) w'"
proof (cases "\<exists>r. script w = True # r")
  case True
  then show ?thesis
    using failed by (auto simp: final_def bind_def reads_def effect_def Let_def)
next
  case False
  let ?w = "w\<lparr>script := tl (script w)\<rparr>"
  have "bind (reads g) f w = f (g (db w)) ?w"
    using False by (auto simp: bind_def reads_def effect_def Let_def split: list.splits bool.splits)
  then show ?thesis using went_on[of ?w] by (simp add: final_def)
qed

text \<open>
  A loop over calm, orderly steps refines a fold, on any abstraction of the state that
  each step refines when no effect fails.
\<close>

lemma for_each_refines:
  assumes calm: "\<And>x. calm (f x)" and ord: "\<And>x. orderly (f x)"
    and step: "\<And>x w. script w = [] \<Longrightarrow> view (final (f x) w) = g x (view (db w))"
  shows "script w = [] \<Longrightarrow> view (final (for_each xs f) w) = fold g xs (view (db w))"
proof (induction xs arbitrary: w)
  case Nil
  then show ?case by (simp add: final_def ret_def)
next
  case (Cons x xs)
  obtain u w' where run: "f x w = (Inr u, w')" using calm[of x] unfolding calm_def by blast
  then have "script w' = []" using orderly_quiet[OF ord Cons.prems, of x] by simp
  moreover have "view (db w') = g x (view (db w))" using step[OF Cons.prems, of x] run by (simp add: final_def)
  ultimately show ?case using Cons.IH[of w'] run by (simp add: final_def andthen_def bind_def)
qed

text \<open>The same at a fixed reading of the clock, for relations that speak about time.\<close>

definition timed :: "int \<Rightarrow> ('s \<Rightarrow> 's \<Rightarrow> bool) \<Rightarrow> ('s, 'a) act \<Rightarrow> bool" where
  "timed t R m \<longleftrightarrow>
     (\<forall>w. clock w = t \<longrightarrow> clock (snd (m w)) = t \<and> R (db w) (final m w))"

lemma timedD: "timed t R m \<Longrightarrow> clock w = t \<Longrightarrow> R (db w) (final m w)"
  by (simp add: timed_def)

text \<open>
  The contract: a reflexive and transitive relation on states. The rules of the locale
  push it through every combinator; what remains are the single effects.
\<close>

locale step_rel =
  fixes R :: "'s \<Rightarrow> 's \<Rightarrow> bool"
  assumes refl: "R s s"
    and trans: "R a b \<Longrightarrow> R b c \<Longrightarrow> R a c"
begin

lemma ret_steps: "steps R (ret x)"
  by (simp add: steps_def final_def ret_def refl)

lemma throw_steps: "steps R (throw e)"
  by (simp add: steps_def final_def throw_def refl)

lemma now_steps: "steps R now"
  by (simp add: steps_def final_def now_def refl)

lemma bind_steps:
  assumes m: "steps R m" and f: "\<And>x. steps R (f x)"
  shows "steps R (bind m f)"
proof (rule stepsI)
  fix w :: "'s world"
  obtain r w' where run: "m w = (r, w')" by (cases "m w")
  have first: "R (db w) (db w')"
    using stepsD[OF m, of w] run by (simp add: final_def)
  show "R (db w) (final (bind m f) w)"
  proof (cases r)
    case (Inl e)
    with run first show ?thesis by (simp add: final_def bind_def)
  next
    case (Inr x)
    with run have "final (bind m f) w = final (f x) w'" by (simp add: final_def bind_def)
    with stepsD[OF f, of w' x] first show ?thesis by (auto intro: trans)
  qed
qed

lemma andthen_steps: "steps R m \<Longrightarrow> steps R k \<Longrightarrow> steps R (andthen m k)"
  unfolding andthen_def by (rule bind_steps)

lemma try_catch_steps:
  assumes m: "steps R m" and h: "\<And>e. steps R (h e)"
  shows "steps R (try_catch m h)"
proof (rule stepsI)
  fix w :: "'s world"
  obtain r w' where run: "m w = (r, w')" by (cases "m w")
  have first: "R (db w) (db w')"
    using stepsD[OF m, of w] run by (simp add: final_def)
  show "R (db w) (final (try_catch m h) w)"
  proof (cases r)
    case (Inl e)
    with run have "final (try_catch m h) w = final (h e) w'" by (simp add: final_def try_catch_def)
    with stepsD[OF h, of w' e] first show ?thesis by (auto intro: trans)
  next
    case (Inr x)
    with run first show ?thesis by (simp add: final_def try_catch_def)
  qed
qed

lemma logged_steps: "steps R m \<Longrightarrow> steps R (logged m)"
  unfolding logged_def by (rule try_catch_steps) (auto intro: ret_steps)

lemma effect_steps:
  assumes "\<And>s x s'. f s = Some (x, s') \<Longrightarrow> R s s'"
  shows "steps R (effect f)"
proof (rule stepsI)
  fix w :: "'s world"
  show "R (db w) (final (effect f) w)"
    using assms[of "db w"] refl
    by (auto simp: final_def effect_def Let_def split: list.splits bool.splits option.splits)
qed

lemma reads_steps: "steps R (reads g)"
  unfolding reads_def by (rule effect_steps) (simp add: refl)

lemma writes_steps: "(\<And>s. R s (g s)) \<Longrightarrow> steps R (writes g)"
  unfolding writes_def by (rule effect_steps) auto

lemma for_each_steps: "(\<And>x. steps R (f x)) \<Longrightarrow> steps R (for_each xs f)"
  by (induction xs) (auto intro: ret_steps andthen_steps)

lemma timed_ret: "timed t R (ret x)"
  by (simp add: timed_def final_def ret_def refl)

lemma timed_throw: "timed t R (throw e)"
  by (simp add: timed_def final_def throw_def refl)

lemma timed_bind:
  assumes m: "timed t R m" and f: "\<And>x. timed t R (f x)"
  shows "timed t R (bind m f)"
  unfolding timed_def
proof (intro allI impI)
  fix w :: "'s world"
  assume t: "clock w = t"
  obtain r w' where run: "m w = (r, w')" by (cases "m w")
  then have first: "clock w' = t" "R (db w) (db w')"
    using m t unfolding timed_def final_def by (metis snd_conv)+
  show "clock (snd (bind m f w)) = t \<and> R (db w) (final (bind m f) w)"
  proof (cases r)
    case (Inr x)
    then have "clock (snd (f x w')) = t" "R (db w') (final (f x) w')"
      using f[of x] first unfolding timed_def by auto
    then show ?thesis using Inr run first by (auto simp: final_def bind_def intro: trans)
  qed (use run first in \<open>auto simp: final_def bind_def\<close>)
qed

lemma timed_now: "timed t R (f t) \<Longrightarrow> timed t R (bind now f)"
  by (simp add: timed_def final_def bind_def now_def)

lemma timed_andthen: "timed t R m \<Longrightarrow> timed t R k \<Longrightarrow> timed t R (andthen m k)"
  unfolding andthen_def by (rule timed_bind)

lemma timed_try_catch:
  assumes m: "timed t R m" and h: "\<And>e. timed t R (h e)"
  shows "timed t R (try_catch m h)"
  unfolding timed_def
proof (intro allI impI)
  fix w :: "'s world"
  assume t: "clock w = t"
  obtain r w' where run: "m w = (r, w')" by (cases "m w")
  then have first: "clock w' = t" "R (db w) (db w')"
    using m t unfolding timed_def final_def by (metis snd_conv)+
  show "clock (snd (try_catch m h w)) = t \<and> R (db w) (final (try_catch m h) w)"
  proof (cases r)
    case (Inl e)
    then have "clock (snd (h e w')) = t" "R (db w') (final (h e) w')"
      using h[of e] first unfolding timed_def by auto
    then show ?thesis using Inl run first by (auto simp: final_def try_catch_def intro: trans)
  qed (use run first in \<open>auto simp: final_def try_catch_def\<close>)
qed

lemma timed_logged: "timed t R m \<Longrightarrow> timed t R (logged m)"
  unfolding logged_def by (rule timed_try_catch) (auto intro: timed_ret)

lemma timed_effect:
  assumes "\<And>s x s'. f s = Some (x, s') \<Longrightarrow> R s s'"
  shows "timed t R (effect f)"
proof -
  have "steps R (effect f)" using assms by (rule effect_steps)
  then show ?thesis using orderly_effect[of f] by (auto simp: timed_def steps_def orderly_def)
qed

lemma timed_reads: "timed t R (reads g)"
  unfolding reads_def by (rule timed_effect) (simp add: refl)

lemma timed_writes: "(\<And>s. R s (g s)) \<Longrightarrow> timed t R (writes g)"
  unfolding writes_def by (rule timed_effect) auto

lemma final_after_reads:
  assumes "timed (clock w) R (f (g (db w)))"
  shows "R (db w) (final (bind (reads g) f) w)"
proof (rule final_bind_reads[of g f w])
  fix w'
  assume "db w' = db w" "clock w' = clock w"
    and "final (bind (reads g) f) w = final (f (g (db w))) w'"
  then show ?thesis using timedD[OF assms, of w'] by simp
qed (simp add: refl)

text \<open>
  A read followed by the rest: where the relation only speaks about states in \<open>J\<close>, the
  rest may rely on the value having been read in such a state.
\<close>

lemma timed_bind_reads:
  assumes f: "\<And>s. J s \<Longrightarrow> timed t R (f (g s))" and triv: "\<And>s s'. \<not> J s \<Longrightarrow> R s s'"
    and ord: "\<And>x. orderly (f x)"
  shows "timed t R (bind (reads g) f)"
  unfolding timed_def
proof (intro allI impI conjI)
  fix w :: "'s world"
  assume t: "clock w = t"
  have "orderly (bind (reads g) f)" using ord by (intro orderly_rules)
  then show "clock (snd (bind (reads g) f w)) = t" using t by (simp add: orderly_def)
  show "R (db w) (final (bind (reads g) f) w)"
  proof (cases "J (db w)")
    case True
    then show ?thesis using final_after_reads[of w f g] f t by simp
  qed (use triv in blast)
qed

lemma timed_for_each: "(\<And>x. x \<in> set xs \<Longrightarrow> timed t R (f x)) \<Longrightarrow> timed t R (for_each xs f)"
  by (induction xs) (auto intro: timed_ret timed_andthen)

lemmas timed_intros = timed_ret timed_throw timed_now timed_andthen timed_try_catch timed_logged
  timed_reads

lemmas step_intros = ret_steps throw_steps now_steps bind_steps andthen_steps try_catch_steps
  logged_steps reads_steps for_each_steps

end

text \<open>An invariant is the relation "if it held before, it holds after".\<close>

definition keeps :: "('s \<Rightarrow> bool) \<Rightarrow> 's \<Rightarrow> 's \<Rightarrow> bool" where
  "keeps I s s' \<longleftrightarrow> (I s \<longrightarrow> I s')"

interpretation keeps: step_rel "keeps I" for I
  by unfold_locales (auto simp: keeps_def)

text \<open>A quantity that no effect changes.\<close>

definition same :: "('s \<Rightarrow> 'b) \<Rightarrow> 's \<Rightarrow> 's \<Rightarrow> bool" where
  "same g s s' \<longleftrightarrow> g s' = g s"

interpretation same: step_rel "same g" for g
  by unfold_locales (auto simp: same_def)

section \<open>Weakest preconditions\<close>

text \<open>
  \<open>wp t m Q E s\<close>: started in state \<open>s\<close> at time \<open>t\<close>, under every pattern of failures, \<open>m\<close>
  returns a value with \<open>Q\<close> or throws with \<open>E\<close>. Used where a later step relies on what an
  earlier one read or wrote.
\<close>

definition wp :: "int \<Rightarrow> ('s, 'a) act \<Rightarrow> ('a \<Rightarrow> 's \<Rightarrow> bool) \<Rightarrow> (string \<Rightarrow> 's \<Rightarrow> bool) \<Rightarrow> 's \<Rightarrow> bool" where
  "wp t m Q E s \<longleftrightarrow> (\<forall>w. clock w = t \<longrightarrow> db w = s \<longrightarrow> clock (snd (m w)) = t \<and>
     (case fst (m w) of Inl e \<Rightarrow> E e (db (snd (m w))) | Inr x \<Rightarrow> Q x (db (snd (m w)))))"

lemma wp_final: "wp t m (\<lambda>_. P) (\<lambda>_. P) (db w) \<Longrightarrow> clock w = t \<Longrightarrow> P (final m w)"
  by (auto simp: wp_def final_def split: sum.splits)

lemma wp_final_now: "wp (clock w) m (\<lambda>_. P) (\<lambda>_. P) (db w) \<Longrightarrow> P (final m w)"
  by (rule wp_final[OF _ refl])

lemma wp_mono:
  "wp t m Q E s \<Longrightarrow> (\<And>x s'. Q x s' \<Longrightarrow> Q' x s') \<Longrightarrow> (\<And>e s'. E e s' \<Longrightarrow> E' e s') \<Longrightarrow> wp t m Q' E' s"
  by (force simp: wp_def split: sum.splits)

lemma wp_ret [wp_rules]: "Q x s \<Longrightarrow> wp t (ret x) Q E s"
  by (simp add: wp_def ret_def)

lemma wp_throw [wp_rules]: "E e s \<Longrightarrow> wp t (throw e) Q E s"
  by (simp add: wp_def throw_def)

lemma wp_now [wp_rules]: "Q t s \<Longrightarrow> wp t now Q E s"
  by (simp add: wp_def now_def)

lemma wp_bind [wp_rules]: "wp t m (\<lambda>x. wp t (f x) Q E) E s \<Longrightarrow> wp t (bind m f) Q E s"
  unfolding wp_def bind_def by (auto split: prod.splits sum.splits)

lemma wp_andthen [wp_rules]: "wp t m (\<lambda>_. wp t k Q E) E s \<Longrightarrow> wp t (andthen m k) Q E s"
  unfolding andthen_def by (rule wp_bind)

lemma wp_try_catch [wp_rules]: "wp t m Q (\<lambda>e. wp t (h e) Q E) s \<Longrightarrow> wp t (try_catch m h) Q E s"
  unfolding wp_def try_catch_def by (auto split: prod.splits sum.splits)

lemma wp_logged [wp_rules]: "wp t m Q (\<lambda>_. Q ()) s \<Longrightarrow> wp t (logged m) Q E s"
  unfolding logged_def by (intro wp_try_catch) (auto elim!: wp_mono intro: wp_ret)

lemma wp_effect:
  "E ''rejected'' s \<Longrightarrow> (f s = None \<Longrightarrow> E ''refused'' s) \<Longrightarrow>
   (\<And>x s'. f s = Some (x, s') \<Longrightarrow> Q x s') \<Longrightarrow> wp t (effect f) Q E s"
  by (auto simp: wp_def effect_def Let_def split: list.splits bool.splits option.splits)

lemma wp_reads [wp_rules]: "E ''rejected'' s \<Longrightarrow> Q (g s) s \<Longrightarrow> wp t (reads g) Q E s"
  unfolding reads_def by (rule wp_effect) auto

lemma wp_writes [wp_rules]: "E ''rejected'' s \<Longrightarrow> Q () (g s) \<Longrightarrow> wp t (writes g) Q E s"
  unfolding writes_def by (rule wp_effect) auto

lemma wp_for_each:
  assumes "I s" and "\<And>x s. x \<in> set xs \<Longrightarrow> I s \<Longrightarrow> wp t (f x) (\<lambda>_. I) E s"
    and "\<And>s. I s \<Longrightarrow> Q () s"
  shows "wp t (for_each xs f) Q E s"
  using assms(1,2)
proof (induction xs arbitrary: s)
  case Nil
  then show ?case using assms(3) by (auto intro: wp_ret)
next
  case (Cons x xs)
  have "wp t (f x) (\<lambda>_. wp t (for_each xs f) Q E) E s"
    by (rule wp_mono[OF Cons.prems(2)]) (use Cons in auto)
  then show ?case by (auto intro: wp_andthen)
qed

text \<open>Both styles agree: a kept relation is a weakest precondition.\<close>

lemma steps_wp:
  "steps R m \<Longrightarrow> orderly m \<Longrightarrow> (\<And>x s'. R s s' \<Longrightarrow> Q x s') \<Longrightarrow> (\<And>e s'. R s s' \<Longrightarrow> E e s') \<Longrightarrow> wp t m Q E s"
  by (auto simp: wp_def steps_def orderly_def final_def split: sum.splits)

lemma wp_orderly:
  "orderly m \<Longrightarrow> (\<And>x s'. Q x s') \<Longrightarrow> (\<And>e s'. E e s') \<Longrightarrow> wp t m Q E s"
  by (auto simp: wp_def orderly_def split: sum.splits)

section \<open>Parts of a state\<close>

text \<open>
  An action on one part of a larger state, and access to local state, which cannot fail.
\<close>

definition zoom :: "('s \<Rightarrow> 'p) \<Rightarrow> ('p \<Rightarrow> 's \<Rightarrow> 's) \<Rightarrow> ('p, 'a) act \<Rightarrow> ('s, 'a) act" where
  "zoom get put m w =
     (case m \<lparr>db = get (db w), clock = clock w, script = script w\<rparr> of
        (r, u) \<Rightarrow> (r, \<lparr>db = put (db u) (db w), clock = clock u, script = script u\<rparr>))"

definition local_get :: "('s \<Rightarrow> 'a) \<Rightarrow> ('s, 'a) act" where
  "local_get g w = (Inr (g (db w)), w)"

definition local_set :: "('s \<Rightarrow> 's) \<Rightarrow> ('s, unit) act" where
  "local_set f w = (Inr (), w\<lparr>db := f (db w)\<rparr>)"

lemma wp_zoom [wp_rules]:
  fixes s :: 's
  shows "wp t m (\<lambda>x p. Q x (put p s)) (\<lambda>e p. E e (put p s)) (get s) \<Longrightarrow> wp t (zoom get put m) Q E s"
  unfolding wp_def
proof (intro allI impI)
  fix w :: "'s world"
  assume m: "\<forall>u. clock u = t \<longrightarrow> db u = get s \<longrightarrow> clock (snd (m u)) = t \<and>
      (case fst (m u) of Inl e \<Rightarrow> E e (put (db (snd (m u))) s) | Inr x \<Rightarrow> Q x (put (db (snd (m u))) s))"
    and w: "clock w = t" "db w = s"
  let ?u = "\<lparr>db = get (db w), clock = clock w, script = script w\<rparr>"
  obtain r u where run: "m ?u = (r, u)" by (cases "m ?u")
  have "clock ?u = t" "db ?u = get s" using w by simp_all
  from m[rule_format, OF this]
  have post: "clock u = t" "case r of Inl e \<Rightarrow> E e (put (db u) s) | Inr x \<Rightarrow> Q x (put (db u) s)"
    unfolding run fst_conv snd_conv by blast+
  have "zoom get put m w = (r, \<lparr>db = put (db u) s, clock = clock u, script = script u\<rparr>)"
    using run w(2) by (simp add: zoom_def)
  then show "clock (snd (zoom get put m w)) = t \<and>
      (case fst (zoom get put m w) of Inl e \<Rightarrow> E e (db (snd (zoom get put m w)))
       | Inr x \<Rightarrow> Q x (db (snd (zoom get put m w))))"
    using post by (cases r) simp_all
qed

lemma wp_local_get [wp_rules]: "Q (g s) s \<Longrightarrow> wp t (local_get g) Q E s"
  by (simp add: wp_def local_get_def)

lemma wp_local_set [wp_rules]: "Q () (f s) \<Longrightarrow> wp t (local_set f) Q E s"
  by (simp add: wp_def local_set_def)

lemma local_run [simp]:
  "local_get g w = (Inr (g (db w)), w)" "local_set f w = (Inr (), w\<lparr>db := f (db w)\<rparr>)"
  by (simp_all add: local_get_def local_set_def)

lemma zoom_run:
  "m \<lparr>db = get (db w), clock = clock w, script = script w\<rparr> = (r, \<lparr>db = p, clock = clock w, script = script w\<rparr>) \<Longrightarrow>
   zoom get put m w = (r, w\<lparr>db := put p (db w)\<rparr>)"
  by (simp add: zoom_def)

context step_rel
begin

lemma zoom_steps: "(\<And>p s. R s (put p s)) \<Longrightarrow> steps R (zoom get put m)"
  by (auto simp: steps_def final_def zoom_def split: prod.splits)

lemma local_get_steps: "steps R (local_get g)"
  by (simp add: steps_def final_def local_get_def refl)

lemma local_set_steps: "(\<And>s. R s (f s)) \<Longrightarrow> steps R (local_set f)"
  by (simp add: steps_def final_def local_set_def)

end

lemma orderly_local [orderly_rules]: "orderly (local_get g)" "orderly (local_set f)"
  by (auto simp: orderly_def local_get_def local_set_def intro: exI[of _ 0])

lemma orderly_zoom [orderly_rules]:
  assumes "orderly m"
  shows "orderly (zoom get put m)"
proof -
  have "clock (snd (zoom get put m w)) = clock w \<and> (\<exists>k. script (snd (zoom get put m w)) = drop k (script w))" for w
    using assms[unfolded orderly_def, rule_format, of "\<lparr>db = get (db w), clock = clock w, script = script w\<rparr>"]
    by (cases "m \<lparr>db = get (db w), clock = clock w, script = script w\<rparr>") (simp add: zoom_def)
  then show ?thesis by (simp add: orderly_def)
qed

section \<open>Running single effects\<close>

lemma effect_Nil:
  "script w = [] \<Longrightarrow> effect f w =
     (case f (db w) of None \<Rightarrow> (Inl ''refused'', w) | Some (x, s) \<Rightarrow> (Inr x, w\<lparr>db := s\<rparr>))"
  by (simp add: effect_def Let_def split: option.splits)

lemma writes_Nil [simp]: "script w = [] \<Longrightarrow> writes g w = (Inr (), w\<lparr>db := g (db w)\<rparr>)"
  by (simp add: writes_def effect_Nil)

lemma reads_Nil [simp]: "script w = [] \<Longrightarrow> reads g w = (Inr (g (db w)), w)"
  by (simp add: reads_def effect_Nil)

lemma bind_Inr [simp]: "m w = (Inr x, w') \<Longrightarrow> bind m f w = f x w'"
  by (simp add: bind_def)

lemma bind_Inl [simp]: "m w = (Inl e, w') \<Longrightarrow> bind m f w = (Inl e, w')"
  by (simp add: bind_def)

lemma andthen_Inr [simp]: "m w = (Inr x, w') \<Longrightarrow> andthen m k w = k w'"
  by (simp add: andthen_def)

lemma andthen_Inl [simp]: "m w = (Inl e, w') \<Longrightarrow> andthen m k w = (Inl e, w')"
  by (simp add: andthen_def)

lemma try_catch_Inr [simp]: "m w = (Inr x, w') \<Longrightarrow> try_catch m h w = (Inr x, w')"
  by (simp add: try_catch_def)

lemma try_catch_Inl [simp]: "m w = (Inl e, w') \<Longrightarrow> try_catch m h w = h e w'"
  by (simp add: try_catch_def)

lemma now_run [simp]: "now w = (Inr (clock w), w)"
  by (simp add: now_def)

lemma ret_run [simp]: "ret x w = (Inr x, w)"
  by (simp add: ret_def)

lemma throw_run [simp]: "throw e w = (Inl e, w)"
  by (simp add: throw_def)

section \<open>When nothing fails\<close>

text \<open>
  Total correctness of an action in a world whose script is exhausted: it returns, keeps the clock,
  and leaves a state with the postcondition.
\<close>

named_theorems quiet_rules \<comment> \<open>rules that derive \<open>quietly t m Q s\<close> from the parts of \<open>m\<close>\<close>

definition quietly :: "int \<Rightarrow> ('s, 'a) act \<Rightarrow> ('a \<Rightarrow> 's \<Rightarrow> bool) \<Rightarrow> 's \<Rightarrow> bool" where
  "quietly t m Q s \<longleftrightarrow> (\<forall>w. db w = s \<longrightarrow> clock w = t \<longrightarrow> script w = [] \<longrightarrow>
     (\<exists>x w'. m w = (Inr x, w') \<and> clock w' = t \<and> script w' = [] \<and> Q x (db w')))"

lemma quietlyD:
  "quietly (clock w) m Q (db w) \<Longrightarrow> script w = [] \<Longrightarrow> \<exists>x w'. m w = (Inr x, w') \<and> clock w' = clock w \<and> script w' = [] \<and> Q x (db w')"
  by (auto simp: quietly_def)

lemma quietly_final: "quietly (clock w) m (\<lambda>_. P) (db w) \<Longrightarrow> script w = [] \<Longrightarrow> P (final m w)"
  by (drule quietlyD) (auto simp: final_def)

lemma quietly_mono: "quietly t m Q s \<Longrightarrow> (\<And>x s'. Q x s' \<Longrightarrow> Q' x s') \<Longrightarrow> quietly t m Q' s"
  unfolding quietly_def by blast

lemma quietly_ret [quiet_rules]: "Q x s \<Longrightarrow> quietly t (ret x) Q s"
  by (auto simp: quietly_def)

lemma quietly_now [quiet_rules]: "Q t s \<Longrightarrow> quietly t now Q s"
  by (auto simp: quietly_def)

lemma quietly_reads [quiet_rules]: "Q (g s) s \<Longrightarrow> quietly t (reads g) Q s"
  by (auto simp: quietly_def)

lemma quietly_writes [quiet_rules]: "Q () (g s) \<Longrightarrow> quietly t (writes g) Q s"
  by (auto simp: quietly_def)

lemma quietly_local [quiet_rules]:
  "Q (g s) s \<Longrightarrow> quietly t (local_get g) Q s" "Q' () (f s) \<Longrightarrow> quietly t (local_set f) Q' s"
  by (auto simp: quietly_def)

lemma quietly_bind [quiet_rules]: "quietly t m (\<lambda>x. quietly t (f x) Q) s \<Longrightarrow> quietly t (bind m f) Q s"
  unfolding quietly_def by (metis bind_Inr)

lemma quietly_andthen [quiet_rules]: "quietly t m (\<lambda>_. quietly t k Q) s \<Longrightarrow> quietly t (andthen m k) Q s"
  unfolding andthen_def by (rule quietly_bind)

lemma quietly_try_catch [quiet_rules]: "quietly t m Q s \<Longrightarrow> quietly t (try_catch m h) Q s"
  unfolding quietly_def by (metis try_catch_Inr)

lemma quietly_logged [quiet_rules]: "quietly t m Q s \<Longrightarrow> quietly t (logged m) Q s"
  unfolding logged_def by (rule quietly_try_catch)

text \<open>An action that never throws is covered by its weakest precondition.\<close>

lemma quietly_wp:
  assumes "wp t m Q (\<lambda>_ _. False) s" and "orderly m"
  shows "quietly t m Q s"
  unfolding quietly_def
proof (intro allI impI)
  fix w :: "'a world"
  assume w: "db w = s" "clock w = t" "script w = []"
  obtain r w' where r: "m w = (r, w')" by (cases "m w")
  have "script w' = []" using orderly_quiet[OF assms(2) w(3)] r by simp
  moreover have "clock w' = t \<and> (case r of Inl e \<Rightarrow> False | Inr x \<Rightarrow> Q x (db w'))"
    using assms(1) w r unfolding wp_def by (metis fst_conv snd_conv)
  ultimately show "\<exists>x w'. m w = (Inr x, w') \<and> clock w' = t \<and> script w' = [] \<and> Q x (db w')"
    using r by (auto split: sum.splits)
qed

lemma quietly_zoom [quiet_rules]:
  fixes s :: 's
  assumes "quietly t m (\<lambda>x p. Q x (put p s)) (get s)"
  shows "quietly t (zoom get put m) Q s"
  unfolding quietly_def
proof (intro allI impI)
  fix w :: "'s world"
  assume w: "db w = s" "clock w = t" "script w = []"
  then obtain x u where "m \<lparr>db = get s, clock = t, script = []\<rparr> = (Inr x, u)" "clock u = t" "script u = []" "Q x (put (db u) s)"
    using assms unfolding quietly_def by force
  then show "\<exists>x w'. zoom get put m w = (Inr x, w') \<and> clock w' = t \<and> script w' = [] \<and> Q x (db w')"
    using w by (simp add: zoom_def)
qed

lemma reads_refused [simp]: "script w = True # r \<Longrightarrow> reads g w = (Inl ''rejected'', w\<lparr>script := r\<rparr>)"
  by (simp add: reads_def effect_def)

end
