(* ===== verification/Kyn_Database.thy ===== *)
theory Kyn_Database
  imports Kyn_Effects
begin

text \<open>
  The relational store all services share (\<^verbatim>\<open>config/database-schema.sql\<close>, its
  migration, and the columns the services use beyond them): one record per table row,
  one field of \<open>database\<close> per table, rows in insertion order. Timestamps are
  milliseconds; \<open>None\<close> is SQL's \<^verbatim>\<open>NULL\<close>.

  The primary keys the schema declares are enforced: an insert that violates one is
  refused. Its foreign keys and \<^verbatim>\<open>NOT NULL\<close> constraints are not part of the state;
  a statement they reject is one of the failures the script of the world can hold.
\<close>

section \<open>JSON values\<close>

datatype json =
    JNull
  | JBool bool
  | JNum rat
  | JStr string
  | JArr "json list"
  | JObj "(string \<times> json) list"

section \<open>Rows\<close>

datatype deal_status = Active | Completed | Failed | Cancelled | InGracePeriod

datatype repair_status = Pending | InProgress | RepairCompleted | RepairFailed

record provider_row =
  p_address :: string
  p_peer_id :: string
  p_endpoint :: "string option"
  p_region :: "string option"
  p_reputation :: int
  p_active :: bool
  p_last_heartbeat :: "int option"
  p_last_proof_at :: "int option"
  p_registered_at :: int
  p_pledged_gb :: rat
  p_used_gb :: rat

record pledge_row =
  c_provider :: string
  c_pledge_id :: nat
  c_capacity_gb :: rat
  c_duration :: nat
  c_collateral :: nat
  c_utilization_gb :: rat
  c_active :: bool
  c_created_at :: int
  c_last_payment_at :: "int option"

record deal_row =
  d_id :: string
  d_client :: string
  d_file_cid :: "string option"
  d_size_gb :: rat
  d_duration_days :: "nat option"
  d_price :: "rat option"
  d_total_cost :: rat
  d_provider_payment :: "rat option"
  d_protocol_fee :: "rat option"
  d_status :: deal_status
  d_created_at :: int
  d_completed_at :: "int option"
  d_cancelled_at :: "int option"
  d_is_encrypted :: bool
  d_key :: "string option"
  d_iv :: "string option"
  d_tag :: "string option"
  d_payment_processed :: bool
  d_block :: "int option"

record shard_row =
  s_deal :: string
  s_provider :: string
  s_index :: nat
  s_cid :: string
  s_size :: "nat option"
  s_is_data :: "bool option"
  s_active :: bool
  s_created_at :: int
  s_lost_at :: "int option"
  s_deleted_at :: "int option"

record report_row =
  l_deal :: string
  l_provider :: string
  l_index :: nat
  l_cid :: string
  l_reported_at :: int

record repair_row =
  r_id :: nat
  r_deal :: string
  r_old_provider :: string
  r_index :: nat
  r_cid :: string
  r_status :: repair_status
  r_new_provider :: "string option"
  r_new_cid :: "string option"
  r_error :: "string option"
  r_created_at :: int
  r_started_at :: "int option"
  r_completed_at :: "int option"

record event_row =
  e_type :: string
  e_description :: string
  e_data :: json
  e_created_at :: int

record miss_row =
  m_provider :: string
  m_challenge :: string
  m_missed_at :: int

record slash_row =
  x_provider :: string
  x_amount :: nat
  x_reason :: string
  x_slashed_at :: int

record withdrawal_row =
  w_provider :: string
  w_amount :: nat
  w_at :: int

record proof_row =
  f_provider :: string
  f_submitted_at :: int
  f_bonus_paid :: bool

record challenge_row =
  h_id :: string
  h_provider :: string
  h_deadline :: int
  h_submitted :: bool
  h_checked :: bool

text \<open>A transaction sent to a contract: contract, method, arguments.\<close>

datatype chain_call = Tx string string "json list"

type_synonym byte = "8 word"

text \<open>
  The state the services share: the tables, the blocks of the IPFS cluster, the
  transactions sent so far, and the messages sent over web sockets (room, event,
  payload; the empty room is everybody).
\<close>

record database =
  t_providers :: "provider_row list"
  t_pledges :: "pledge_row list"
  t_deals :: "deal_row list"
  t_shards :: "shard_row list"
  t_reports :: "report_row list"
  t_repairs :: "repair_row list"
  t_events :: "event_row list"
  t_misses :: "miss_row list"
  t_slashes :: "slash_row list"
  t_withdrawals :: "withdrawal_row list"
  t_proofs :: "proof_row list"
  t_challenges :: "challenge_row list"
  t_metadata_cid :: "string option"
  blocks :: "string \<Rightarrow> byte list option"
  txs :: "chain_call list"
  emits :: "(string \<times> string \<times> json) list"

type_synonym 'a sql = "(database, 'a) act"

definition empty_db :: database where
  "empty_db = \<lparr>t_providers = [], t_pledges = [], t_deals = [], t_shards = [], t_reports = [],
     t_repairs = [], t_events = [], t_misses = [], t_slashes = [], t_withdrawals = [],
     t_proofs = [], t_challenges = [], t_metadata_cid = None,
     blocks = (\<lambda>_. None), txs = [], emits = []\<rparr>"

section \<open>Statements several services issue\<close>

text \<open>
  \<^verbatim>\<open>INSERT\<close> into a table with a primary key is refused when the key is taken.
\<close>

definition insert_provider :: "provider_row \<Rightarrow> database \<Rightarrow> (unit \<times> database) option" where
  "insert_provider r s =
     (if p_address r \<in> set (map p_address (t_providers s)) then None
      else Some ((), s\<lparr>t_providers := t_providers s @ [r]\<rparr>))"

definition insert_deal :: "deal_row \<Rightarrow> database \<Rightarrow> (unit \<times> database) option" where
  "insert_deal r s =
     (if d_id r \<in> set (map d_id (t_deals s)) then None
      else Some ((), s\<lparr>t_deals := t_deals s @ [r]\<rparr>))"

definition insert_pledge :: "pledge_row \<Rightarrow> database \<Rightarrow> (unit \<times> database) option" where
  "insert_pledge r s =
     (if (c_provider r, c_pledge_id r) \<in> set (map (\<lambda>c. (c_provider c, c_pledge_id c)) (t_pledges s))
      then None
      else Some ((), s\<lparr>t_pledges := t_pledges s @ [r]\<rparr>))"

definition shard_key :: "shard_row \<Rightarrow> string \<times> string" where
  "shard_key h = (s_deal h, s_provider h)"

definition insert_shard :: "shard_row \<Rightarrow> database \<Rightarrow> (unit \<times> database) option" where
  "insert_shard r s =
     (if shard_key r \<in> set (map shard_key (t_shards s)) then None
      else Some ((), s\<lparr>t_shards := t_shards s @ [r]\<rparr>))"

definition set_deal_status :: "deal_status \<Rightarrow> (deal_row \<Rightarrow> deal_row) \<Rightarrow> string \<Rightarrow> database \<Rightarrow> database" where
  "set_deal_status st stamp i s =
     s\<lparr>t_deals := sql_update (\<lambda>d. d_id d = i) (\<lambda>d. stamp (d\<lparr>d_status := st\<rparr>)) (t_deals s)\<rparr>"

text \<open>\<^verbatim>\<open>UPDATE shards SET active = false, deleted_at = NOW() WHERE deal_id = $1 AND active = true\<close>\<close>

definition deactivate_deal_shards :: "int \<Rightarrow> string \<Rightarrow> database \<Rightarrow> database" where
  "deactivate_deal_shards t i s =
     s\<lparr>t_shards := sql_update (\<lambda>h. s_deal h = i \<and> s_active h)
        (\<lambda>h. h\<lparr>s_active := False, s_deleted_at := Some t\<rparr>) (t_shards s)\<rparr>"

definition add_event :: "string \<Rightarrow> string \<Rightarrow> json \<Rightarrow> int \<Rightarrow> database \<Rightarrow> database" where
  "add_event ty de da t s =
     s\<lparr>t_events := t_events s @ [\<lparr>e_type = ty, e_description = de, e_data = da, e_created_at = t\<rparr>]\<rparr>"

text \<open>
  IPFS: \<^verbatim>\<open>add\<close> stores a block under its content identifier, \<^verbatim>\<open>cat\<close> reads one (a missing
  block is a failed read). The identifier function is the cluster's and a parameter.
\<close>

definition ipfs_cat :: "string \<Rightarrow> byte list sql" where
  "ipfs_cat cid = effect (\<lambda>s. map_option (\<lambda>b. (b, s)) (blocks s cid))"

definition ipfs_add :: "(byte list \<Rightarrow> string) \<Rightarrow> byte list \<Rightarrow> string sql" where
  "ipfs_add cid_of b = effect (\<lambda>s. Some (cid_of b, s\<lparr>blocks := (blocks s)(cid_of b \<mapsto> b)\<rparr>))"

definition send_tx :: "chain_call \<Rightarrow> unit sql" where
  "send_tx c = writes (\<lambda>s. s\<lparr>txs := txs s @ [c]\<rparr>)"

section \<open>Keys\<close>

text \<open>The primary keys of \<^verbatim>\<open>providers\<close>, \<^verbatim>\<open>deals\<close>, \<^verbatim>\<open>capacity_pledges\<close>,
  \<^verbatim>\<open>shards\<close> and \<^verbatim>\<open>shard_loss_reports\<close>.\<close>

definition keys_ok :: "database \<Rightarrow> bool" where
  "keys_ok s \<longleftrightarrow> distinct (map p_address (t_providers s)) \<and> distinct (map d_id (t_deals s)) \<and>
     distinct (map (\<lambda>c. (c_provider c, c_pledge_id c)) (t_pledges s)) \<and>
     distinct (map shard_key (t_shards s)) \<and>
     distinct (map (\<lambda>l. (l_deal l, l_provider l)) (t_reports s))"

lemma keys_ok_empty [simp]: "keys_ok empty_db"
  by (simp add: keys_ok_def empty_db_def)

lemma insert_provider_keys: "insert_provider r s = Some (u, s') \<Longrightarrow> keys_ok s \<Longrightarrow> keys_ok s'"
  by (auto simp: insert_provider_def keys_ok_def split: if_splits)

lemma insert_deal_keys: "insert_deal r s = Some (u, s') \<Longrightarrow> keys_ok s \<Longrightarrow> keys_ok s'"
  by (auto simp: insert_deal_def keys_ok_def split: if_splits)

lemma insert_shard_keys: "insert_shard r s = Some (u, s') \<Longrightarrow> keys_ok s \<Longrightarrow> keys_ok s'"
  by (auto simp: insert_shard_def keys_ok_def split: if_splits)

lemma insert_pledge_keys: "insert_pledge r s = Some (u, s') \<Longrightarrow> keys_ok s \<Longrightarrow> keys_ok s'"
  by (auto simp: insert_pledge_def keys_ok_def split: if_splits)

text \<open>
  No service ever removes a row of the ledger tables or rewrites a logged event: the
  relation between two states of the store that records it.
\<close>

definition ledger_grows :: "database \<Rightarrow> database \<Rightarrow> bool" where
  "ledger_grows s s' \<longleftrightarrow>
     (\<exists>e. t_events s' = t_events s @ e) \<and> (\<exists>m. t_misses s' = t_misses s @ m) \<and>
     (\<exists>x. t_slashes s' = t_slashes s @ x) \<and> (\<exists>w. t_withdrawals s' = t_withdrawals s @ w) \<and>
     set (map d_id (t_deals s)) \<subseteq> set (map d_id (t_deals s')) \<and>
     set (map p_address (t_providers s)) \<subseteq> set (map p_address (t_providers s'))"

interpretation ledger: step_rel ledger_grows
proof unfold_locales
  fix s :: database
  show "ledger_grows s s" by (simp add: ledger_grows_def)
next
  fix a b c :: database
  assume "ledger_grows a b" and "ledger_grows b c"
  then show "ledger_grows a c" unfolding ledger_grows_def by (auto 0 3)
qed

section \<open>Statements that keep the keys and the ledger\<close>

named_theorems kept \<comment> \<open>statements that keep the keys and the ledger\<close>

lemma set_deal_status_keys [kept]:
  "(\<And>d. d_id (stamp d) = d_id d) \<Longrightarrow> keys_ok (set_deal_status st stamp i s) = keys_ok s"
  by (simp add: keys_ok_def set_deal_status_def map_sql_update)

lemma deactivate_deal_shards_keys [kept]: "keys_ok (deactivate_deal_shards t i s) = keys_ok s"
  by (simp add: keys_ok_def deactivate_deal_shards_def map_sql_update shard_key_def)

lemma add_event_keys [kept]: "keys_ok (add_event ty de da t s) = keys_ok s"
  by (simp add: keys_ok_def add_event_def)

lemma set_deal_status_ledger [kept]:
  "(\<And>d. d_id (stamp d) = d_id d) \<Longrightarrow> ledger_grows s (set_deal_status st stamp i s)"
  by (simp add: ledger_grows_def set_deal_status_def map_sql_update del: set_map)

lemma deactivate_deal_shards_ledger [kept]: "ledger_grows s (deactivate_deal_shards t i s)"
  by (simp add: ledger_grows_def deactivate_deal_shards_def)

lemma add_event_ledger [kept]: "ledger_grows s (add_event ty de da t s)"
  by (simp add: ledger_grows_def add_event_def)

lemma insert_ledger:
  "insert_provider p s = Some (u, s') \<Longrightarrow> ledger_grows s s'"
  "insert_deal d s = Some (u, s') \<Longrightarrow> ledger_grows s s'"
  "insert_pledge c s = Some (u, s') \<Longrightarrow> ledger_grows s s'"
  "insert_shard h s = Some (u, s') \<Longrightarrow> ledger_grows s s'"
  by (auto simp: ledger_grows_def insert_provider_def insert_deal_def insert_pledge_def
      insert_shard_def split: if_splits)

lemmas insert_keys = insert_provider_keys insert_deal_keys insert_pledge_keys insert_shard_keys

lemma shard_key_update [simp]:
  "shard_key (h\<lparr>s_active := b\<rparr>) = shard_key h"
  "shard_key (h\<lparr>s_lost_at := t\<rparr>) = shard_key h"
  "shard_key (h\<lparr>s_deleted_at := t\<rparr>) = shard_key h"
  by (simp_all add: shard_key_def)

lemma table_keys [kept]:
  "keys_ok (s\<lparr>t_events := e\<rparr>) = keys_ok s"
  "keys_ok (s\<lparr>t_misses := m\<rparr>) = keys_ok s"
  "keys_ok (s\<lparr>t_slashes := x\<rparr>) = keys_ok s"
  "keys_ok (s\<lparr>t_withdrawals := wd\<rparr>) = keys_ok s"
  "keys_ok (s\<lparr>t_repairs := rs\<rparr>) = keys_ok s"
  "keys_ok (s\<lparr>t_proofs := ps\<rparr>) = keys_ok s"
  "keys_ok (s\<lparr>t_challenges := cs\<rparr>) = keys_ok s"
  "keys_ok (s\<lparr>t_metadata_cid := mc\<rparr>) = keys_ok s"
  "keys_ok (s\<lparr>blocks := bl\<rparr>) = keys_ok s"
  "keys_ok (s\<lparr>txs := tx\<rparr>) = keys_ok s"
  "keys_ok (s\<lparr>emits := em\<rparr>) = keys_ok s"
  by (simp_all add: keys_ok_def)

lemma row_keys [kept]:
  "(\<And>h. shard_key (f h) = shard_key h) \<Longrightarrow>
     keys_ok (s\<lparr>t_shards := sql_update p f (t_shards s)\<rparr>) = keys_ok s"
  "(\<And>d. d_id (g d) = d_id d) \<Longrightarrow> keys_ok (s\<lparr>t_deals := sql_update q g (t_deals s)\<rparr>) = keys_ok s"
  "(\<And>d. p_address (g' d) = p_address d) \<Longrightarrow>
     keys_ok (s\<lparr>t_providers := sql_update q' g' (t_providers s)\<rparr>) = keys_ok s"
  by (simp_all add: keys_ok_def map_sql_update)

lemma delete_reports_keys [kept]:
  "keys_ok s \<Longrightarrow> keys_ok (s\<lparr>t_reports := sql_delete p (t_reports s)\<rparr>)"
  unfolding keys_ok_def by (simp add: sql_delete_def distinct_map_filter)

lemma table_ledger [kept]:
  "ledger_grows s (s\<lparr>t_misses := t_misses s @ m\<rparr>)"
  "ledger_grows s (s\<lparr>t_slashes := t_slashes s @ x\<rparr>)"
  "ledger_grows s (s\<lparr>t_withdrawals := t_withdrawals s @ wd\<rparr>)"
  "ledger_grows s (s\<lparr>t_shards := sh\<rparr>)"
  "ledger_grows s (s\<lparr>t_reports := re\<rparr>)"
  "ledger_grows s (s\<lparr>t_repairs := rs\<rparr>)"
  "ledger_grows s (s\<lparr>t_proofs := ps\<rparr>)"
  "ledger_grows s (s\<lparr>t_challenges := cs\<rparr>)"
  "ledger_grows s (s\<lparr>t_metadata_cid := mc\<rparr>)"
  "ledger_grows s (s\<lparr>blocks := bl\<rparr>)"
  "ledger_grows s (s\<lparr>txs := tx\<rparr>)"
  "ledger_grows s (s\<lparr>emits := em\<rparr>)"
  by (simp_all add: ledger_grows_def)

lemma external_steps [kept]:
  "steps (keeps keys_ok) (ipfs_cat cid)" "steps (keeps keys_ok) (ipfs_add cid_of b)"
  "steps (keeps keys_ok) (send_tx c)"
  "steps ledger_grows (ipfs_cat cid)" "steps ledger_grows (ipfs_add cid_of b)"
  "steps ledger_grows (send_tx c)"
  by (auto simp: ipfs_cat_def ipfs_add_def send_tx_def keeps_def kept
      intro!: keeps.effect_steps ledger.effect_steps keeps.writes_steps ledger.writes_steps ledger.refl)

lemma orderly_external [orderly_rules]:
  "orderly (ipfs_cat cid)" "orderly (ipfs_add cid_of b)" "orderly (send_tx c)"
  by (simp_all add: ipfs_cat_def ipfs_add_def send_tx_def orderly_rules)

lemma ipfs_cat_run [simp]:
  "script w = [] \<Longrightarrow> blocks (db w) cid = Some b \<Longrightarrow> ipfs_cat cid w = (Inr b, w)"
  by (simp add: ipfs_cat_def effect_Nil)

lemma ipfs_add_run [simp]:
  "script w = [] \<Longrightarrow> ipfs_add cid_of b w =
     (Inr (cid_of b), w\<lparr>db := (db w)\<lparr>blocks := (blocks (db w))(cid_of b \<mapsto> b)\<rparr>\<rparr>)"
  by (simp add: ipfs_add_def effect_Nil)

lemma wp_ipfs_cat [wp_rules]:
  "E ''rejected'' s \<Longrightarrow> E ''refused'' s \<Longrightarrow> (\<And>b. blocks s cid = Some b \<Longrightarrow> Q b s) \<Longrightarrow> wp t (ipfs_cat cid) Q E s"
  unfolding ipfs_cat_def by (rule wp_effect) auto

lemma wp_ipfs_add [wp_rules]:
  "E ''rejected'' s \<Longrightarrow> Q (cid_of b) (s\<lparr>blocks := (blocks s)(cid_of b \<mapsto> b)\<rparr>) \<Longrightarrow>
     wp t (ipfs_add cid_of b) Q E s"
  unfolding ipfs_add_def by (rule wp_effect) auto

lemma wp_send_tx [wp_rules]:
  "E ''rejected'' s \<Longrightarrow> Q () (s\<lparr>txs := txs s @ [c]\<rparr>) \<Longrightarrow> wp t (send_tx c) Q E s"
  unfolding send_tx_def by (rule wp_writes)

section \<open>Looking up a deal\<close>

definition find_deal :: "string \<Rightarrow> database \<Rightarrow> deal_row option" where
  "find_deal i s = find (\<lambda>d. d_id d = i) (t_deals s)"

definition status_of :: "database \<Rightarrow> string \<rightharpoonup> deal_status" where
  "status_of s i = map_option d_status (find_deal i s)"

lemma find_append: "find p (xs @ ys) = (case find p xs of None \<Rightarrow> find p ys | Some x \<Rightarrow> Some x)"
  by (induction xs) auto

lemma find_sql_update:
  assumes "\<And>r. q (f r) = q r"
  shows "find q (sql_update p f rs) = map_option (\<lambda>r. if p r then f r else r) (find q rs)"
  using assms by (induction rs) auto

lemma find_deal_None: "find_deal i s = None \<longleftrightarrow> i \<notin> set (map d_id (t_deals s))"
  by (auto simp: find_deal_def find_None_iff)

lemma find_deal_Some: "find_deal i s = Some d \<Longrightarrow> d_id d = i \<and> d \<in> set (t_deals s)"
  unfolding find_deal_def by (auto simp: find_Some_iff)

lemma find_deal_set:
  assumes "\<And>d. d_id (stamp d) = d_id d"
  shows "find_deal j (set_deal_status st stamp i s) =
     map_option (\<lambda>d. if j = i then stamp (d\<lparr>d_status := st\<rparr>) else d) (find_deal j s)"
proof -
  have "find_deal j (set_deal_status st stamp i s) =
     map_option (\<lambda>d. if d_id d = i then stamp (d\<lparr>d_status := st\<rparr>) else d) (find_deal j s)"
    using assms by (simp add: find_deal_def set_deal_status_def find_sql_update)
  also have "\<dots> = map_option (\<lambda>d. if j = i then stamp (d\<lparr>d_status := st\<rparr>) else d) (find_deal j s)"
    by (cases "find_deal j s") (auto dest: find_deal_Some)
  finally show ?thesis .
qed

lemma status_of_set [simp]:
  assumes "\<And>d. d_id (stamp d) = d_id d" and "\<And>d. d_status (stamp d) = d_status d"
  shows "status_of (set_deal_status st stamp i s) j =
     (if j = i then map_option (\<lambda>_. st) (status_of s j) else status_of s j)"
  unfolding status_of_def find_deal_set[of stamp, OF assms(1)]
  using assms(2) by (cases "find_deal j s") auto

lemma status_of_other [simp]:
  "status_of (deactivate_deal_shards t i s) = status_of s"
  "status_of (add_event ty de da t s) = status_of s"
  "status_of (s\<lparr>txs := x\<rparr>) = status_of s"
  "status_of (s\<lparr>blocks := b\<rparr>) = status_of s"
  "status_of (s\<lparr>emits := em\<rparr>) = status_of s"
  by (auto simp: fun_eq_iff status_of_def find_deal_def deactivate_deal_shards_def add_event_def)

text \<open>The active shards of a deal.\<close>

definition active_shards :: "string \<Rightarrow> database \<Rightarrow> shard_row list" where
  "active_shards i s = filter (\<lambda>h. s_deal h = i \<and> s_active h) (t_shards s)"

lemma active_after_deactivate [simp]:
  "active_shards j (deactivate_deal_shards t i s) = (if j = i then [] else active_shards j s)"
proof (cases "j = i")
  case True
  then show ?thesis
    by (simp add: active_shards_def deactivate_deal_shards_def filter_sql_update_gone)
next
  case False
  then show ?thesis
    by (auto simp: active_shards_def deactivate_deal_shards_def intro!: filter_sql_update_none)
qed

lemma active_after_other [simp]:
  "active_shards j (set_deal_status st stamp i s) = active_shards j s"
  "active_shards j (add_event ty de da t s) = active_shards j s"
  "active_shards j (s\<lparr>txs := x\<rparr>) = active_shards j s"
  "active_shards j (s\<lparr>blocks := b\<rparr>) = active_shards j s"
  "active_shards j (s\<lparr>emits := em\<rparr>) = active_shards j s"
  by (auto simp: active_shards_def set_deal_status_def add_event_def)

lemma set_deal_status_tables [simp]:
  "t_events (set_deal_status st stamp i s) = t_events s" "emits (set_deal_status st stamp i s) = emits s"
  "t_shards (set_deal_status st stamp i s) = t_shards s" "blocks (set_deal_status st stamp i s) = blocks s"
  "t_providers (set_deal_status st stamp i s) = t_providers s"
  by (simp_all add: set_deal_status_def)

lemma deactivate_deal_shards_tables [simp]:
  "t_events (deactivate_deal_shards t i s) = t_events s" "emits (deactivate_deal_shards t i s) = emits s"
  "t_deals (deactivate_deal_shards t i s) = t_deals s" "blocks (deactivate_deal_shards t i s) = blocks s"
  "t_providers (deactivate_deal_shards t i s) = t_providers s"
  by (simp_all add: deactivate_deal_shards_def)

lemma add_event_tables [simp]:
  "t_events (add_event ty de da t s) = t_events s @
     [\<lparr>e_type = ty, e_description = de, e_data = da, e_created_at = t\<rparr>]"
  "emits (add_event ty de da t s) = emits s" "t_deals (add_event ty de da t s) = t_deals s"
  "t_shards (add_event ty de da t s) = t_shards s" "blocks (add_event ty de da t s) = blocks s"
  "t_providers (add_event ty de da t s) = t_providers s"
  by (simp_all add: add_event_def)

end
