(* ===== verification/Chain_Listener.thy ===== *)
theory Chain_Listener
  imports Kyn_Database
begin

text \<open>
  The blockchain listener (\<^verbatim>\<open>services/blockchain-listener/src\<close>): one handler per contract
  event, each a few statements on the store inside its own \<^verbatim>\<open>try\<close>/\<^verbatim>\<open>catch\<close>.

  The directory holds the TypeScript source and a compiled \<^verbatim>\<open>index.js\<close> that was built from
  an earlier version. The handlers both have in common are defined once, for the compiled
  file, and named again for the source; the ones that differ are defined twice.
\<close>

section \<open>Events\<close>

datatype chain_event =
    DealCreated nat string nat nat int        \<comment> \<open>deal, client, size, cost, block number\<close>
  | ShardAssigned nat string nat string
  | DealCompleted nat
  | DealCancelled nat string
  | ShardLost nat string nat
  | ProviderRegistered string string string
  | ReputationUpdated string nat string
  | PledgeCreated string nat nat nat nat
  | PoStSubmitted nat string
  | PoStMissed nat string
  | ProviderSlashed string nat string
  | RewardsWithdrawn string nat

section \<open>Handlers of the compiled listener\<close>

definition js_handleDealCreated :: "nat \<Rightarrow> string \<Rightarrow> nat \<Rightarrow> nat \<Rightarrow> int \<Rightarrow> unit sql" where
  "js_handleDealCreated dealId client fileSizeGB totalCost blockNumber =
     logged (bind now (\<lambda>t. effect (insert_deal
       \<lparr>d_id = nat_str dealId, d_client = client, d_file_cid = None, d_size_gb = of_nat fileSizeGB,
        d_duration_days = None, d_price = None, d_total_cost = of_nat totalCost,
        d_provider_payment = None, d_protocol_fee = None, d_status = Active, d_created_at = t,
        d_completed_at = None, d_cancelled_at = None, d_is_encrypted = True, d_key = None,
        d_iv = None, d_tag = None, d_payment_processed = False, d_block = Some blockNumber\<rparr>)))"

definition js_handleShardAssigned :: "nat \<Rightarrow> string \<Rightarrow> nat \<Rightarrow> string \<Rightarrow> unit sql" where
  "js_handleShardAssigned dealId prov shardIndex shardCID =
     logged (bind now (\<lambda>t. effect (insert_shard
       \<lparr>s_deal = nat_str dealId, s_provider = prov, s_index = shardIndex, s_cid = shardCID,
        s_size = None, s_is_data = None, s_active = True, s_created_at = t, s_lost_at = None,
        s_deleted_at = None\<rparr>)))"

definition js_handleDealCompleted :: "nat \<Rightarrow> unit sql" where
  "js_handleDealCompleted dealId =
     logged (bind now (\<lambda>t. writes
       (set_deal_status Completed (\<lambda>d. d\<lparr>d_completed_at := Some t\<rparr>) (nat_str dealId))))"

definition js_handleShardLost :: "nat \<Rightarrow> string \<Rightarrow> nat \<Rightarrow> unit sql" where
  "js_handleShardLost dealId prov shardIndex =
     logged (bind now (\<lambda>t. writes (\<lambda>s. s\<lparr>t_shards :=
       sql_update (\<lambda>h. s_deal h = nat_str dealId \<and> s_provider h = prov)
         (\<lambda>h. h\<lparr>s_active := False, s_lost_at := Some t\<rparr>) (t_shards s)\<rparr>)))"

text \<open>\<^verbatim>\<open>INSERT ... ON CONFLICT (address) DO NOTHING\<close>\<close>

definition register_provider :: "string \<Rightarrow> string \<Rightarrow> string \<Rightarrow> int \<Rightarrow> database \<Rightarrow> database" where
  "register_provider addr peerId region t s =
     (if addr \<in> set (map p_address (t_providers s)) then s
      else s\<lparr>t_providers := t_providers s @
        [\<lparr>p_address = addr, p_peer_id = peerId, p_endpoint = None, p_region = Some region,
          p_reputation = 50, p_active = True, p_last_heartbeat = None, p_last_proof_at = None,
          p_registered_at = t, p_pledged_gb = 0, p_used_gb = 0\<rparr>]\<rparr>)"

definition js_handleProviderRegistered :: "string \<Rightarrow> string \<Rightarrow> string \<Rightarrow> unit sql" where
  "js_handleProviderRegistered prov peerId region =
     logged (bind now (\<lambda>t. writes (register_provider prov peerId region t)))"

definition update_provider :: "string \<Rightarrow> (provider_row \<Rightarrow> provider_row) \<Rightarrow> database \<Rightarrow> database" where
  "update_provider addr f s =
     s\<lparr>t_providers := sql_update (\<lambda>p. p_address p = addr) f (t_providers s)\<rparr>"

definition js_handleReputationUpdated :: "string \<Rightarrow> nat \<Rightarrow> string \<Rightarrow> unit sql" where
  "js_handleReputationUpdated prov newScore reason =
     logged (writes (update_provider prov (\<lambda>p. p\<lparr>p_reputation := int newScore\<rparr>)))"

definition js_handlePledgeCreated :: "string \<Rightarrow> nat \<Rightarrow> nat \<Rightarrow> nat \<Rightarrow> nat \<Rightarrow> unit sql" where
  "js_handlePledgeCreated prov pledgeId capacityGB dur collateral =
     logged (bind now (\<lambda>t. effect (insert_pledge
       \<lparr>c_provider = prov, c_pledge_id = pledgeId, c_capacity_gb = of_nat capacityGB,
        c_duration = dur, c_collateral = collateral, c_utilization_gb = 0, c_active = True,
        c_created_at = t, c_last_payment_at = None\<rparr>)))"

definition js_handlePoStSubmitted :: "nat \<Rightarrow> string \<Rightarrow> unit sql" where
  "js_handlePoStSubmitted challengeId prov =
     logged (bind now (\<lambda>t. writes (update_provider prov (\<lambda>p. p\<lparr>p_last_proof_at := Some t\<rparr>))))"

definition js_handlePoStMissed :: "nat \<Rightarrow> string \<Rightarrow> unit sql" where
  "js_handlePoStMissed challengeId prov =
     logged (bind now (\<lambda>t. writes (\<lambda>s. s\<lparr>t_misses := t_misses s @
       [\<lparr>m_provider = prov, m_challenge = nat_str challengeId, m_missed_at = t\<rparr>]\<rparr>)))"

definition js_handleProviderSlashed :: "string \<Rightarrow> nat \<Rightarrow> string \<Rightarrow> unit sql" where
  "js_handleProviderSlashed prov amount reason =
     logged (bind now (\<lambda>t. writes (\<lambda>s. s\<lparr>t_slashes := t_slashes s @
       [\<lparr>x_provider = prov, x_amount = amount, x_reason = reason, x_slashed_at = t\<rparr>]\<rparr>)))"

definition js_handleRewardsWithdrawn :: "string \<Rightarrow> nat \<Rightarrow> unit sql" where
  "js_handleRewardsWithdrawn prov amount =
     logged (bind now (\<lambda>t. writes (\<lambda>s. s\<lparr>t_withdrawals := t_withdrawals s @
       [\<lparr>w_provider = prov, w_amount = amount, w_at = t\<rparr>]\<rparr>)))"

text \<open>\<^verbatim>\<open>start()\<close> of the compiled file: no subscription to \<^verbatim>\<open>DealCancelled\<close>.\<close>

fun js_start :: "chain_event \<Rightarrow> unit sql" where
  "js_start (DealCreated i c g k b) = js_handleDealCreated i c g k b"
| "js_start (ShardAssigned i p n cid) = js_handleShardAssigned i p n cid"
| "js_start (DealCompleted i) = js_handleDealCompleted i"
| "js_start (DealCancelled i c) = ret ()"
| "js_start (ShardLost i p n) = js_handleShardLost i p n"
| "js_start (ProviderRegistered p pe re) = js_handleProviderRegistered p pe re"
| "js_start (ReputationUpdated p n r) = js_handleReputationUpdated p n r"
| "js_start (PledgeCreated p i g du co) = js_handlePledgeCreated p i g du co"
| "js_start (PoStSubmitted i p) = js_handlePoStSubmitted i p"
| "js_start (PoStMissed i p) = js_handlePoStMissed i p"
| "js_start (ProviderSlashed p a r) = js_handleProviderSlashed p a r"
| "js_start (RewardsWithdrawn p a) = js_handleRewardsWithdrawn p a"

section \<open>Handlers of the TypeScript source\<close>

text \<open>The dash of the logged descriptions, in UTF-8.\<close>

definition em_dash :: string where
  "em_dash = [CHR 0xE2, CHR 0x80, CHR 0x94]"

definition handleDealCreated :: "nat \<Rightarrow> string \<Rightarrow> nat \<Rightarrow> nat \<Rightarrow> int \<Rightarrow> unit sql" where
  "handleDealCreated = js_handleDealCreated"

definition handleShardAssigned :: "nat \<Rightarrow> string \<Rightarrow> nat \<Rightarrow> string \<Rightarrow> unit sql" where
  "handleShardAssigned = js_handleShardAssigned"

definition handleDealCompleted :: "nat \<Rightarrow> unit sql" where
  "handleDealCompleted dealId = logged (bind now (\<lambda>t.
     andthen (writes (set_deal_status Completed (\<lambda>d. d\<lparr>d_completed_at := Some t\<rparr>) (nat_str dealId)))
    (andthen (writes (deactivate_deal_shards t (nat_str dealId)))
             (writes (add_event ''DEAL_COMPLETED''
                (''Deal #'' @ nat_str dealId @ '' completed '' @ em_dash @ '' shards marked for cleanup'')
                (JObj [(''dealId'', JStr (nat_str dealId))]) t)))))"

definition handleDealCancelled :: "nat \<Rightarrow> string \<Rightarrow> unit sql" where
  "handleDealCancelled dealId client = logged (bind now (\<lambda>t.
     andthen (writes (set_deal_status Cancelled (\<lambda>d. d\<lparr>d_cancelled_at := Some t\<rparr>) (nat_str dealId)))
    (andthen (writes (deactivate_deal_shards t (nat_str dealId)))
             (writes (add_event ''DEAL_CANCELLED''
                (''Deal #'' @ nat_str dealId @ '' cancelled by client '' @ substring 0 10 client @ ''...'')
                (JObj [(''dealId'', JStr (nat_str dealId)), (''client'', JStr client)]) t)))))"

definition handleShardLost :: "nat \<Rightarrow> string \<Rightarrow> nat \<Rightarrow> unit sql" where
  "handleShardLost = js_handleShardLost"

definition handleProviderRegistered :: "string \<Rightarrow> string \<Rightarrow> string \<Rightarrow> unit sql" where
  "handleProviderRegistered prov peerId region =
     logged (bind now (\<lambda>t. writes (register_provider (to_lower prov) peerId region t)))"

definition handleReputationUpdated :: "string \<Rightarrow> nat \<Rightarrow> string \<Rightarrow> unit sql" where
  "handleReputationUpdated = js_handleReputationUpdated"

definition handlePledgeCreated :: "string \<Rightarrow> nat \<Rightarrow> nat \<Rightarrow> nat \<Rightarrow> nat \<Rightarrow> unit sql" where
  "handlePledgeCreated = js_handlePledgeCreated"

definition handlePoStSubmitted :: "nat \<Rightarrow> string \<Rightarrow> unit sql" where
  "handlePoStSubmitted = js_handlePoStSubmitted"

definition handlePoStMissed :: "nat \<Rightarrow> string \<Rightarrow> unit sql" where
  "handlePoStMissed = js_handlePoStMissed"

definition handleProviderSlashed :: "string \<Rightarrow> nat \<Rightarrow> string \<Rightarrow> unit sql" where
  "handleProviderSlashed = js_handleProviderSlashed"

definition handleRewardsWithdrawn :: "string \<Rightarrow> nat \<Rightarrow> unit sql" where
  "handleRewardsWithdrawn = js_handleRewardsWithdrawn"

fun listener_start :: "chain_event \<Rightarrow> unit sql" where
  "listener_start (DealCreated i c g k b) = handleDealCreated i c g k b"
| "listener_start (ShardAssigned i p n cid) = handleShardAssigned i p n cid"
| "listener_start (DealCompleted i) = handleDealCompleted i"
| "listener_start (DealCancelled i c) = handleDealCancelled i c"
| "listener_start (ShardLost i p n) = handleShardLost i p n"
| "listener_start (ProviderRegistered p pe re) = handleProviderRegistered p pe re"
| "listener_start (ReputationUpdated p n r) = handleReputationUpdated p n r"
| "listener_start (PledgeCreated p i g du co) = handlePledgeCreated p i g du co"
| "listener_start (PoStSubmitted i p) = handlePoStSubmitted i p"
| "listener_start (PoStMissed i p) = handlePoStMissed i p"
| "listener_start (ProviderSlashed p a r) = handleProviderSlashed p a r"
| "listener_start (RewardsWithdrawn p a) = handleRewardsWithdrawn p a"

text \<open>A block of events, in the order the chain delivers them.\<close>

definition listen :: "chain_event list \<Rightarrow> unit sql" where
  "listen evs = for_each evs listener_start"

definition js_listen :: "chain_event list \<Rightarrow> unit sql" where
  "js_listen evs = for_each evs js_start"

lemmas js_handler_defs = js_handleDealCreated_def js_handleShardAssigned_def
  js_handleDealCompleted_def js_handleShardLost_def js_handleProviderRegistered_def
  js_handleReputationUpdated_def js_handlePledgeCreated_def js_handlePoStSubmitted_def
  js_handlePoStMissed_def js_handleProviderSlashed_def js_handleRewardsWithdrawn_def

lemmas ts_handler_defs = handleDealCreated_def handleShardAssigned_def handleDealCompleted_def
  handleDealCancelled_def handleShardLost_def handleProviderRegistered_def
  handleReputationUpdated_def handlePledgeCreated_def handlePoStSubmitted_def
  handlePoStMissed_def handleProviderSlashed_def handleRewardsWithdrawn_def

section \<open>The keys and the ledger\<close>

lemma provider_statements [kept]:
  "keys_ok s \<Longrightarrow> keys_ok (register_provider a pe re t s)"
  "(\<And>p. p_address (f p) = p_address p) \<Longrightarrow> keys_ok (update_provider a f s) = keys_ok s"
  "ledger_grows s (register_provider a pe re t s)"
  "(\<And>p. p_address (f p) = p_address p) \<Longrightarrow> ledger_grows s (update_provider a f s)"
  by (auto simp: keys_ok_def ledger_grows_def register_provider_def update_provider_def
      map_sql_update simp del: set_map)

lemma js_start_keys: "steps (keeps keys_ok) (js_start e)"
  by (cases e)
     (auto simp: js_handler_defs keeps_def kept
       intro!: keeps.step_intros keeps.writes_steps keeps.effect_steps
       dest: insert_keys)

lemma js_start_ledger: "steps ledger_grows (js_start e)"
  by (cases e)
     (auto simp: js_handler_defs kept intro!: ledger.step_intros ledger.writes_steps ledger.effect_steps
       dest: insert_ledger)

lemma listener_start_keys: "steps (keeps keys_ok) (listener_start e)"
  using js_start_keys[of e]
  by (cases e)
     (auto simp: ts_handler_defs keeps_def kept
       intro!: keeps.step_intros keeps.writes_steps)

lemma listener_start_ledger: "steps ledger_grows (listener_start e)"
  using js_start_ledger[of e]
  by (cases e) (auto simp: ts_handler_defs kept intro!: ledger.step_intros ledger.writes_steps)

lemma start_calm: "calm (listener_start e)" "calm (js_start e)"
  by (cases e; simp add: ts_handler_defs js_handler_defs)+

lemma listener_start_orderly: "orderly (listener_start e)"
  by (cases e) (auto simp: ts_handler_defs js_handler_defs intro!: orderly_rules)

text \<open>
  C9. Whatever block of events arrives and whatever database statements fail, the
  listener returns normally, no primary key is ever duplicated, no deal or provider
  disappears, and the event, proof-miss, slashing and withdrawal logs only grow at
  their end.
\<close>

theorem listen_safe:
  assumes "keys_ok (db w)"
  shows "(\<exists>w'. listen evs w = (Inr (), w')) \<and> keys_ok (final (listen evs) w) \<and>
    ledger_grows (db w) (final (listen evs) w)"
proof (intro conjI)
  have "calm (listen evs)" unfolding listen_def by (intro calm_for_each start_calm)
  then show "\<exists>w'. listen evs w = (Inr (), w')" unfolding calm_def by (metis old.unit.exhaust)
  have "steps (keeps keys_ok) (listen evs)"
    unfolding listen_def by (intro keeps.for_each_steps listener_start_keys)
  then show "keys_ok (final (listen evs) w)"
    using assms stepsD by (force simp: keeps_def)
  have "steps ledger_grows (listen evs)"
    unfolding listen_def by (intro ledger.for_each_steps listener_start_ledger)
  then show "ledger_grows (db w) (final (listen evs) w)" by (rule stepsD)
qed

theorem listen_safe_witness:
  "keys_ok (final (listen [DealCreated 1 ''0xA'' 2 30 7, DealCreated 1 ''0xB'' 2 30 8])
     \<lparr>db = empty_db, clock = 5, script = [False, True]\<rparr>)"
  using listen_safe[of "\<lparr>db = empty_db, clock = 5, script = [False, True]\<rparr>"
      "[DealCreated 1 ''0xA'' 2 30 7, DealCreated 1 ''0xB'' 2 30 8]"] by simp

section \<open>The life of a deal\<close>

text \<open>
  What the mirror of the marketplace promises about deals: the status machine driven by
  the events, on nothing but deal numbers and statuses.
\<close>

fun deal_spec :: "chain_event \<Rightarrow> (string \<rightharpoonup> deal_status) \<Rightarrow> (string \<rightharpoonup> deal_status)" where
  "deal_spec (DealCreated i c g k b) m = (if m (nat_str i) = None then m(nat_str i \<mapsto> Active) else m)"
| "deal_spec (DealCompleted i) m =
     (if m (nat_str i) = None then m else m(nat_str i \<mapsto> Completed))"
| "deal_spec (DealCancelled i c) m =
     (if m (nat_str i) = None then m else m(nat_str i \<mapsto> Cancelled))"
| "deal_spec _ m = m"

lemma final_logged_now: "final (logged (bind now f)) w = final (logged (f (clock w))) w"
  by (simp add: final_def logged_def try_catch_def bind_def now_def)

lemma final_logged_effect:
  "script w = [] \<Longrightarrow> final (logged (effect f)) w = (case f (db w) of None \<Rightarrow> db w | Some (x, s) \<Rightarrow> s)"
  by (simp add: final_def logged_def try_catch_def effect_Nil ret_def split: option.splits)

lemma final_logged_writes: "script w = [] \<Longrightarrow> final (logged (writes g)) w = g (db w)"
  by (simp add: writes_def final_logged_effect)

lemma insert_deal_refused: "insert_deal r s = None \<longleftrightarrow> status_of s (d_id r) \<noteq> None"
  using find_deal_None[of "d_id r" s] by (auto simp: insert_deal_def status_of_def)

lemma insert_deal_status:
  assumes "insert_deal r s = Some (u, s')"
  shows "status_of s (d_id r) = None \<and> status_of s' = (status_of s)(d_id r \<mapsto> d_status r)"
proof -
  from assms have new: "find_deal (d_id r) s = None" and s': "t_deals s' = t_deals s @ [r]"
    using find_deal_None[of "d_id r" s] by (auto simp: insert_deal_def split: if_splits)
  then show ?thesis
    by (auto simp: fun_eq_iff status_of_def find_deal_def find_append split: option.splits)
qed

lemma status_of_rest [simp]:
  "status_of (register_provider a pe re t s) = status_of s"
  "status_of (update_provider a f s) = status_of s"
  "status_of (s\<lparr>t_shards := sh\<rparr>) = status_of s"
  "status_of (s\<lparr>t_misses := m\<rparr>) = status_of s"
  "status_of (s\<lparr>t_slashes := x\<rparr>) = status_of s"
  "status_of (s\<lparr>t_withdrawals := wd\<rparr>) = status_of s"
  "insert_shard h s = Some (u, s') \<Longrightarrow> status_of s' = status_of s"
  "insert_pledge c s = Some (u, s') \<Longrightarrow> status_of s' = status_of s"
  by (auto simp: fun_eq_iff status_of_def find_deal_def register_provider_def update_provider_def
      insert_shard_def insert_pledge_def split: if_splits)

lemma final_logged_seq:
  "script w = [] \<Longrightarrow>
     final (logged (andthen (writes f) (andthen (writes g) (writes h)))) w = h (g (f (db w)))"
  by (simp add: final_def logged_def)

lemma listener_status:
  assumes "script w = []"
  shows "status_of (final (listener_start e) w) = deal_spec e (status_of (db w))"
  using assms
  by (cases e)
     (auto simp: ts_handler_defs js_handler_defs final_logged_now final_logged_effect
       final_logged_writes final_logged_seq insert_deal_refused fun_eq_iff split: option.splits
       dest!: insert_deal_status)

text \<open>
  C8. The listener implements the status machine of deals: after any sequence of events,
  when no statement fails, the status of every deal in the store is the one the machine
  computes from the events alone.
\<close>

theorem listen_refines_deal_spec:
  assumes "script w = []"
  shows "status_of (final (listen evs) w) = fold deal_spec evs (status_of (db w))"
  unfolding listen_def
  by (rule for_each_refines[where view = status_of and g = deal_spec,
      OF start_calm(1) listener_start_orderly listener_status assms])

theorem listen_refines_deal_spec_witness:
  "status_of (final (listen [DealCreated 4 ''0xA'' 2 30 7, DealCancelled 4 ''0xA'',
       DealCreated 4 ''0xB'' 1 1 9]) \<lparr>db = empty_db, clock = 5, script = []\<rparr>) ''4'' = Some Cancelled"
proof -
  have "nat_str 4 = ''4''" by code_simp
  then show ?thesis
    using listen_refines_deal_spec[of "\<lparr>db = empty_db, clock = 5, script = []\<rparr>"
      "[DealCreated 4 ''0xA'' 2 30 7, DealCancelled 4 ''0xA'', DealCreated 4 ''0xB'' 1 1 9]"]
    by (simp add: status_of_def find_deal_def empty_db_def)
qed

lemma active_other_tables [simp]:
  "active_shards j (register_provider a pe re t s) = active_shards j s"
  "active_shards j (update_provider a f s) = active_shards j s"
  by (simp_all add: active_shards_def register_provider_def update_provider_def)

text \<open>
  When a deal is completed or cancelled on chain and no statement fails, none of its
  shards is active afterwards, one event is logged, and the active shards of every other
  deal are untouched.
\<close>

theorem deal_end_frees_shards:
  assumes "script w = []" and "e = DealCompleted i \<or> e = DealCancelled i c"
  shows "active_shards (nat_str i) (final (listener_start e) w) = [] \<and>
    (\<forall>j. j \<noteq> nat_str i \<longrightarrow>
       active_shards j (final (listener_start e) w) = active_shards j (db w)) \<and>
    length (t_events (final (listener_start e) w)) = Suc (length (t_events (db w)))"
  using assms
  by (auto simp: handleDealCompleted_def handleDealCancelled_def final_logged_now final_logged_seq)

theorem deal_end_frees_shards_witness:
  "active_shards (nat_str 3) (final (listener_start (DealCancelled 3 ''0xA''))
     \<lparr>db = empty_db\<lparr>t_shards := [\<lparr>s_deal = nat_str 3, s_provider = ''0xP'', s_index = 0,
        s_cid = ''c'', s_size = None, s_is_data = None, s_active = True, s_created_at = 0,
        s_lost_at = None, s_deleted_at = None\<rparr>]\<rparr>, clock = 9, script = []\<rparr>) = []"
  using deal_end_frees_shards[where i = 3 and c = "''0xA''" and e = "DealCancelled 3 ''0xA''"] by simp

section \<open>Where the two listeners and the two spellings of an address part\<close>

text \<open>
  The checked-in compiled listener has no handler for \<^verbatim>\<open>DealCancelled\<close>: the event
  changes nothing, while the source marks the deal cancelled.
\<close>

theorem compiled_listener_ignores_cancel:
  assumes "script w = []" and "status_of (db w) (nat_str i) = Some Active"
  shows "status_of (final (js_listen [DealCancelled i c]) w) (nat_str i) = Some Active \<and>
    status_of (final (listen [DealCancelled i c]) w) (nat_str i) = Some Cancelled"
proof
  show "status_of (final (js_listen [DealCancelled i c]) w) (nat_str i) = Some Active"
    using assms by (simp add: js_listen_def final_def)
  have "final (listen [DealCancelled i c]) w = final (listener_start (DealCancelled i c)) w"
    using start_calm(1)[of "DealCancelled i c"]
    by (auto simp: listen_def final_def calm_def andthen_def bind_def ret_def split: prod.splits sum.splits)
  then show "status_of (final (listen [DealCancelled i c]) w) (nat_str i) = Some Cancelled"
    using listener_status[OF assms(1), of "DealCancelled i c"] assms(2) by simp
qed

text \<open>
  The source registers a provider under its lower-case address but later events are
  matched with the address as the chain spells it: for an address with an upper-case
  letter, a reputation or proof event that follows the registration changes no row.
\<close>

theorem checksummed_updates_lost:
  assumes "script w = []" and "to_lower p \<noteq> p" and "p \<notin> set (map p_address (t_providers (db w)))"
  shows "final (listen [ProviderRegistered p pe re, ReputationUpdated p n r, PoStSubmitted k p]) w =
    register_provider (to_lower p) pe re (clock w) (db w)"
proof -
  let ?s = "register_provider (to_lower p) pe re (clock w) (db w)"
  have "p \<notin> set (map p_address (t_providers ?s))"
    using assms(2,3) by (auto simp: register_provider_def)
  then have same: "update_provider p f ?s = ?s" for f
    by (force simp: update_provider_def intro!: database.equality sql_update_id)
  show ?thesis
    using assms(1) same
    by (simp add: listen_def ts_handler_defs js_handler_defs final_def logged_def)
qed

theorem compiled_listener_ignores_cancel_witness:
  "status_of (final (js_listen [DealCancelled 7 ''0xC'']) (\<lparr>db = final (listen [DealCreated 7 ''0xC'' 1 1 1])
      \<lparr>db = empty_db, clock = 1, script = []\<rparr>, clock = 2, script = []\<rparr>)) (nat_str 7) = Some Active"
proof -
  let ?w = "\<lparr>db = final (listen [DealCreated 7 ''0xC'' 1 1 1])
      \<lparr>db = empty_db, clock = 1, script = []\<rparr>, clock = 2, script = []\<rparr>"
  have "status_of (db ?w) (nat_str 7) = Some Active"
    by (simp add: listen_def ts_handler_defs js_handler_defs final_def logged_def effect_Nil
        insert_deal_def empty_db_def status_of_def find_deal_def)
  then show ?thesis using compiled_listener_ignores_cancel[of ?w 7 "''0xC''"] by simp
qed

theorem checksummed_updates_lost_witness:
  "map p_reputation (t_providers (final (listen [ProviderRegistered ''0xAb'' ''peer'' ''eu'',
      ReputationUpdated ''0xAb'' 90 ''ok'', PoStSubmitted 1 ''0xAb''])
      \<lparr>db = empty_db, clock = 3, script = []\<rparr>)) = [50]"
proof -
  have "to_lower ''0xAb'' \<noteq> ''0xAb''" by code_simp
  then show ?thesis
    using checksummed_updates_lost[of "\<lparr>db = empty_db, clock = 3, script = []\<rparr>" "''0xAb''"
      "''peer''" "''eu''" 90 "''ok''" 1]
    by (simp add: register_provider_def empty_db_def)
qed

end
