(* ===== verification/Shard_Codec.thy ===== *)
theory Shard_Codec
  imports Kyn_Database
begin

text \<open>
  The shard manager (\<^verbatim>\<open>services/erasure-coding/src/shard-manager.ts\<close>): a file is padded to
  ten equal data shards, extended by five parity shards and stored shard by shard; a lost
  shard is recomputed from the remaining ones.

  The Reed-Solomon module is a package outside the sources. It is a parameter, a record
  of its two functions on a contiguous buffer (\<open>None\<close>: a non-zero result code), with two
  named hypotheses: encoding is systematic, and a given pattern of available shards is
  recoverable.
\<close>

record rs_lib =
  rs_encode :: "byte list \<Rightarrow> nat \<Rightarrow> nat \<Rightarrow> byte list option"
  rs_reconstruct :: "byte list \<Rightarrow> nat \<Rightarrow> nat \<Rightarrow> bool list \<Rightarrow> byte list option"

definition DATA_SHARDS :: nat where "DATA_SHARDS = 10"
definition PARITY_SHARDS :: nat where "PARITY_SHARDS = 5"
definition TOTAL_SHARDS :: nat where "TOTAL_SHARDS = 15"

lemmas shard_consts [simp] = DATA_SHARDS_def PARITY_SHARDS_def TOTAL_SHARDS_def

record shard_info =
  shardIndex :: nat
  shardCID :: string
  sizeBytes :: nat
  isDataShard :: bool
  originalFileCID :: string

section \<open>Splitting and joining\<close>

text \<open>\<^verbatim>\<open>buffer.subarray(i * shardSize, (i + 1) * shardSize)\<close>\<close>

definition chunk :: "nat \<Rightarrow> nat \<Rightarrow> 'a list \<Rightarrow> 'a list" where
  "chunk ss i b = take ss (drop (i * ss) b)"

definition applyErasureCoding :: "rs_lib \<Rightarrow> byte list \<Rightarrow> byte list list option" where
  "applyErasureCoding lib data =
     (let shardSize = ceil_div (length data) DATA_SHARDS;
          totalSize = shardSize * TOTAL_SHARDS;
          contiguousBuffer = data @ replicate (totalSize - length data) 0
      in case rs_encode lib contiguousBuffer DATA_SHARDS PARITY_SHARDS of
           None \<Rightarrow> None
         | Some b \<Rightarrow> Some (map (\<lambda>i. chunk shardSize i b) [0..<TOTAL_SHARDS]))"

text \<open>\<^verbatim>\<open>src.copy(target, off)\<close>: bytes that do not fit are dropped.\<close>

definition copy_at :: "'a list \<Rightarrow> nat \<Rightarrow> 'a list \<Rightarrow> 'a list" where
  "copy_at src off target =
     take off target @ take (length target - off) src @ drop (off + length src) target"

text \<open>A sparse JavaScript array of buffers.\<close>

type_synonym shard_array = "nat \<Rightarrow> byte list option"

primrec fill_buffer :: "shard_array \<Rightarrow> nat \<Rightarrow> nat \<Rightarrow> byte list \<Rightarrow> byte list" where
  "fill_buffer shards ss 0 b = b"
| "fill_buffer shards ss (Suc n) b =
     (let b' = fill_buffer shards ss n b
      in case shards n of None \<Rightarrow> b' | Some d \<Rightarrow> copy_at d (n * ss) b')"

definition reconstructFromShards :: "rs_lib \<Rightarrow> shard_array \<Rightarrow> nat list \<Rightarrow> byte list option" where
  "reconstructFromShards lib shards availableIndices =
     (if length (filter (\<lambda>i. i < DATA_SHARDS) availableIndices) = DATA_SHARDS
      then Some (concat (map the (filter (\<lambda>d. d \<noteq> None) (map shards [0..<DATA_SHARDS]))))
      else case availableIndices of
             [] \<Rightarrow> None
           | i0 # _ \<Rightarrow>
               (case shards i0 of
                  None \<Rightarrow> None
                | Some d0 \<Rightarrow>
                    (let shardSize = length d0;
                         buf = fill_buffer shards shardSize TOTAL_SHARDS
                                 (replicate (shardSize * TOTAL_SHARDS) 0);
                         shardsAvailable = map (\<lambda>i. shards i \<noteq> None) [0..<TOTAL_SHARDS]
                     in case rs_reconstruct lib buf DATA_SHARDS PARITY_SHARDS shardsAvailable of
                          None \<Rightarrow> None
                        | Some b \<Rightarrow> Some (concat (map (\<lambda>i. chunk shardSize i b) [0..<DATA_SHARDS])))))"

section \<open>The manager's operations\<close>

definition or_throw :: "'a option \<Rightarrow> 'a sql" where
  "or_throw v = (case v of None \<Rightarrow> throw ''erasure coding failed'' | Some x \<Rightarrow> ret x)"

definition uploadShard :: "(byte list \<Rightarrow> string) \<Rightarrow> byte list \<Rightarrow> string sql" where
  "uploadShard cid_of shard = ipfs_add cid_of shard"

primrec upload_all :: "(byte list \<Rightarrow> string) \<Rightarrow> string \<Rightarrow> nat \<Rightarrow> byte list list \<Rightarrow> shard_info list sql" where
  "upload_all cid_of fileCID i [] = ret []"
| "upload_all cid_of fileCID i (d # ds) =
     bind (uploadShard cid_of d) (\<lambda>c.
     bind (upload_all cid_of fileCID (Suc i) ds) (\<lambda>rest.
       ret (\<lparr>shardIndex = i, shardCID = c, sizeBytes = length d, isDataShard = i < DATA_SHARDS,
             originalFileCID = fileCID\<rparr> # rest)))"

definition encodeFile :: "rs_lib \<Rightarrow> (byte list \<Rightarrow> string) \<Rightarrow> string \<Rightarrow> shard_info list sql" where
  "encodeFile lib cid_of fileCID =
     bind (ipfs_cat fileCID) (\<lambda>fileData.
     bind (or_throw (applyErasureCoding lib fileData)) (\<lambda>shards.
       upload_all cid_of fileCID 0 shards))"

text \<open>\<^verbatim>\<open>shards[index] = ...\<close>; an undefined index stores no element.\<close>

primrec download_shards :: "(string \<times> nat option) list \<Rightarrow> shard_array \<Rightarrow> shard_array sql" where
  "download_shards [] acc = ret acc"
| "download_shards (s # ss) acc =
     bind (ipfs_cat (fst s)) (\<lambda>d. download_shards ss
       (case snd s of None \<Rightarrow> acc | Some i \<Rightarrow> acc(i := Some d)))"

definition reconstructFile :: "rs_lib \<Rightarrow> (byte list \<Rightarrow> string) \<Rightarrow> string list \<Rightarrow> nat list \<Rightarrow> string sql" where
  "reconstructFile lib cid_of shardCIDs shardIndices =
     (if length shardCIDs < DATA_SHARDS then throw ''Insufficient shards''
      else bind (download_shards
             (map (\<lambda>i. (shardCIDs ! i, if i < length shardIndices then Some (shardIndices ! i) else None))
               [0..<length shardCIDs]) (\<lambda>_. None)) (\<lambda>shards.
           bind (or_throw (reconstructFromShards lib shards shardIndices)) (\<lambda>reconstructedData.
             ipfs_add cid_of reconstructedData)))"

definition reconstructShard :: "rs_lib \<Rightarrow> (string \<times> nat) list \<Rightarrow> nat \<Rightarrow> byte list option sql" where
  "reconstructShard lib availableShards targetShardIndex =
     (if length availableShards < DATA_SHARDS then throw ''Need at least 10 shards to reconstruct''
      else bind (download_shards (map (\<lambda>a. (fst a, Some (snd a))) availableShards) (\<lambda>_. None)) (\<lambda>shards.
           bind (or_throw (reconstructFromShards lib shards (map snd availableShards))) (\<lambda>data.
           bind (or_throw (applyErasureCoding lib data)) (\<lambda>allShards.
             ret (if targetShardIndex < length allShards then Some (allShards ! targetShardIndex)
                  else None)))))"

text \<open>Reconstruction only reads.\<close>

lemma wp_or_throw [wp_rules]:
  "(\<And>x. v = Some x \<Longrightarrow> Q x s) \<Longrightarrow> E ''erasure coding failed'' s \<Longrightarrow> wp t (or_throw v) Q E s"
  by (cases v) (auto simp: or_throw_def intro: wp_rules)

lemma wp_download_shards:
  "(\<And>a. Q a s) \<Longrightarrow> (\<And>e. E e s) \<Longrightarrow> wp t (download_shards l acc) Q E s"
  by (induction l arbitrary: acc) (auto intro!: wp_rules)

lemma wp_reconstructShard:
  "(\<And>r. Q r s) \<Longrightarrow> (\<And>e. E e s) \<Longrightarrow> wp t (reconstructShard lib av i) Q E s"
  by (auto simp: reconstructShard_def intro!: wp_rules wp_download_shards)

section \<open>Hypotheses on the Reed-Solomon module\<close>

text \<open>The code is systematic: encoding leaves the data part alone and fills the parity part.\<close>

definition rs_systematic :: "rs_lib \<Rightarrow> bool" where
  "rs_systematic lib \<longleftrightarrow> (\<forall>ss data rest. length data = 10 * ss \<longrightarrow> length rest = 5 * ss \<longrightarrow>
     (\<exists>par. length par = 5 * ss \<and> rs_encode lib (data @ rest) 10 5 = Some (data @ par)))"

text \<open>
  A pattern of available shards is recoverable: from a buffer that agrees with an encoded
  one on the available shards, the encoded buffer is restored. For Reed-Solomon these are
  the patterns with at least ten shards.
\<close>

definition rs_recovers :: "rs_lib \<Rightarrow> bool list \<Rightarrow> bool" where
  "rs_recovers lib avail \<longleftrightarrow> (\<forall>ss data rest b c.
     length data = 10 * ss \<longrightarrow> length rest = 5 * ss \<longrightarrow> rs_encode lib (data @ rest) 10 5 = Some b \<longrightarrow>
     length c = 15 * ss \<longrightarrow> (\<forall>i < 15. avail ! i \<longrightarrow> chunk ss i c = chunk ss i b) \<longrightarrow>
     rs_reconstruct lib c 10 5 avail = Some b)"

section \<open>Chunks\<close>

lemma concat_chunks: "concat (map (\<lambda>i. chunk ss i b) [0..<n]) = take (n * ss) b"
proof (induction n)
  case (Suc n)
  have "take (Suc n * ss) b = take (n * ss) b @ take ss (drop (n * ss) b)"
    by (metis take_add add.commute mult_Suc)
  then show ?case using Suc by (simp add: chunk_def)
qed simp

lemma length_chunk: "Suc i * ss \<le> length b \<Longrightarrow> length (chunk ss i b) = ss"
  by (simp add: chunk_def)

lemma length_copy_at [simp]: "length (copy_at src off t) = length t"
  by (simp add: copy_at_def min_def)

lemma chunk_fits: "i < n \<Longrightarrow> Suc i * ss \<le> n * (ss::nat)"
  by (rule mult_le_mono1) simp

lemma chunk_copy_at:
  assumes "length t = n * ss" and "length d = ss" and "i < n" and "j < n"
  shows "chunk ss j (copy_at d (i * ss) t) = (if j = i then d else chunk ss j t)"
proof -
  have i: "Suc i * ss \<le> n * ss" using chunk_fits[OF assms(3)] .
  have len: "length (take (i * ss) t) = i * ss" using assms(1) i by simp
  have copy: "copy_at d (i * ss) t = take (i * ss) t @ d @ drop (Suc i * ss) t"
    using assms(1,2) i by (simp add: copy_at_def add.commute)
  consider "j < i" | "j = i" | "i < j" by linarith
  then show ?thesis
  proof cases
    case 1
    then have "Suc j * ss \<le> i * ss" by (intro mult_le_mono1) simp
    then have "j * ss + ss \<le> i * ss" by simp
    then show ?thesis
      using 1 len unfolding copy chunk_def by (simp add: take_drop min_def)
  next
    case 2
    then show ?thesis using len assms(2) unfolding copy chunk_def by simp
  next
    case 3
    then obtain k where k: "j = Suc i + k" using less_iff_Suc_add by auto
    then have "j * ss = i * ss + ss + k * ss" by (simp add: algebra_simps)
    then show ?thesis
      using 3 len assms(2) unfolding copy chunk_def by (simp add: add.commute add.left_commute)
  qed
qed

lemma length_fill_buffer [simp]: "length (fill_buffer shards ss n b) = length b"
  by (induction n) (auto simp: Let_def split: option.splits)

lemma chunk_fill_buffer:
  assumes "length b = N * ss" and "n \<le> N" and "j < N"
    and "\<And>i d. i < n \<Longrightarrow> shards i = Some d \<Longrightarrow> length d = ss"
  shows "chunk ss j (fill_buffer shards ss n b) =
    (if j < n then (case shards j of None \<Rightarrow> chunk ss j b | Some d \<Rightarrow> d) else chunk ss j b)"
  using assms(2,4)
proof (induction n)
  case (Suc n)
  let ?b = "fill_buffer shards ss n b"
  have IH: "chunk ss j ?b = (if j < n then (case shards j of None \<Rightarrow> chunk ss j b | Some d \<Rightarrow> d)
      else chunk ss j b)"
    using Suc.IH Suc.prems(1) Suc.prems(2)[OF less_SucI] by simp
  show ?case
  proof (cases "shards n")
    case None
    then show ?thesis using IH by (auto simp: less_Suc_eq)
  next
    case (Some d)
    have "chunk ss j (copy_at d (n * ss) ?b) = (if j = n then d else chunk ss j ?b)"
      by (rule chunk_copy_at[where n = N]) (use Suc.prems Some assms(1,3) in auto)
    then show ?thesis using Some IH by (auto simp: less_Suc_eq Let_def)
  qed
qed simp

lemma chunk_shift: "chunk ss (m + i) b = chunk ss i (drop (m * ss) b)"
  by (simp add: chunk_def algebra_simps)

lemma drop_eq_of_chunks:
  assumes "length b = n * ss" and "length c = n * ss" and "m \<le> n"
    and eq: "\<And>i. m \<le> i \<Longrightarrow> i < n \<Longrightarrow> chunk ss i c = chunk ss i b"
  shows "drop (m * ss) c = drop (m * ss) b"
proof -
  have part: "drop (m * ss) x = concat (map (\<lambda>i. chunk ss (m + i) x) [0..<n - m])"
    if "length x = n * ss" for x :: "'a list"
    using that unfolding chunk_shift concat_chunks by (simp add: diff_mult_distrib)
  have "map (\<lambda>i. chunk ss (m + i) c) [0..<n - m] = map (\<lambda>i. chunk ss (m + i) b) [0..<n - m]"
    using eq by simp
  then show ?thesis using part[OF assms(1)] part[OF assms(2)] by argo
qed

section \<open>Encoding\<close>

text \<open>The file with its zero padding.\<close>

definition padded :: "byte list \<Rightarrow> byte list" where
  "padded data = data @ replicate (10 * ceil_div (length data) 10 - length data) 0"

lemma length_padded: "length (padded data) = 10 * ceil_div (length data) 10"
  using ceil_div_ge[of 10 "length data"] by (simp add: padded_def)

lemma padded_unpadded: "length data mod 10 = 0 \<Longrightarrow> padded data = data"
proof -
  assume "length data mod 10 = 0"
  then have "length data = 10 * (length data div 10)" by presburger
  then have "ceil_div (length data) 10 = length data div 10" by (metis ceil_div_mult zero_less_numeral)
  then show ?thesis using \<open>length data = 10 * (length data div 10)\<close> by (simp add: padded_def)
qed

lemma encoding_buffer:
  "data @ replicate (ceil_div (length data) 10 * 15 - length data) 0 =
     padded data @ replicate (5 * ceil_div (length data) 10) (0 :: byte)"
proof -
  let ?n = "10 * ceil_div (length data) 10 - length data"
  have "ceil_div (length data) 10 * 15 - length data = ?n + 5 * ceil_div (length data) 10"
    using ceil_div_ge[of 10 "length data"] by simp
  then show ?thesis by (simp only: padded_def replicate_add append_assoc)
qed

lemma encode_Some:
  assumes "rs_systematic lib"
  obtains par where "length par = 5 * ceil_div (length data) 10"
    and "rs_encode lib (padded data @ replicate (5 * ceil_div (length data) 10) 0) 10 5 =
      Some (padded data @ par)"
    and "applyErasureCoding lib data =
      Some (map (\<lambda>i. chunk (ceil_div (length data) 10) i (padded data @ par)) [0..<15])"
proof -
  let ?ss = "ceil_div (length data) 10"
  obtain par where par: "length par = 5 * ?ss"
    and enc: "rs_encode lib (padded data @ replicate (5 * ?ss) 0) 10 5 = Some (padded data @ par)"
    using assms length_padded unfolding rs_systematic_def by (meson length_replicate)
  then show ?thesis
    using that[of par] by (simp only: applyErasureCoding_def Let_def shard_consts encoding_buffer option.case)
qed

lemma length_shards: "applyErasureCoding lib data = Some sh \<Longrightarrow> length sh = 15"
  by (auto simp: applyErasureCoding_def Let_def simp del: upt_rec_numeral split: option.splits)

text \<open>Encoding the padded file gives the same shards again.\<close>

lemma applyErasureCoding_padded: "applyErasureCoding lib (padded data) = applyErasureCoding lib data"
proof -
  let ?ss = "ceil_div (length data) 10"
  have "length (padded data) = 10 * ?ss" by (rule length_padded)
  moreover have "padded data @ replicate (?ss * 15 - 10 * ?ss) 0 =
      data @ replicate (?ss * 15 - length data) (0 :: byte)"
    by (simp add: encoding_buffer)
  ultimately show ?thesis by (simp add: applyErasureCoding_def Let_def)
qed

section \<open>Reconstruction\<close>

text \<open>A sparse array holding some of the shards of an encoded file.\<close>

definition shards_of :: "shard_array \<Rightarrow> nat list \<Rightarrow> byte list list \<Rightarrow> bool" where
  "shards_of shards idx sh \<longleftrightarrow>
     distinct idx \<and> set idx \<subseteq> {0..<15} \<and> 10 \<le> length idx \<and>
     shards = (\<lambda>i. if i \<in> set idx then Some (sh ! i) else None)"

lemma all_data_present:
  assumes "distinct idx" and "length (filter (\<lambda>i. i < (10::nat)) idx) = 10"
  shows "{0..<10} \<subseteq> set idx"
proof -
  let ?f = "filter (\<lambda>i. i < 10) idx"
  have "card (set ?f) = 10" using assms by (metis distinct_card distinct_filter)
  moreover have "set ?f \<subseteq> {0..<10}" by auto
  ultimately have "set ?f = {0..<10}" by (intro card_subset_eq) auto
  then show ?thesis by auto
qed

lemma reconstructFromShards_padded:
  assumes sys: "rs_systematic lib"
    and enc: "applyErasureCoding lib data = Some sh"
    and arr: "shards_of shards idx sh"
    and rec: "rs_recovers lib (map (\<lambda>i. i \<in> set idx) [0..<15])"
  shows "reconstructFromShards lib shards idx = Some (padded data)"
proof -
  define ss where "ss = ceil_div (length data) 10"
  obtain par where par: "length par = 5 * ss"
    and b: "rs_encode lib (padded data @ replicate (5 * ss) 0) 10 5 = Some (padded data @ par)"
    and sh: "sh = map (\<lambda>i. chunk ss i (padded data @ par)) [0..<15]"
    using encode_Some[OF sys, of data] enc unfolding ss_def by (metis option.inject)
  have len: "length (padded data) = 10 * ss" by (simp add: length_padded ss_def)
  have data_part: "concat (map (\<lambda>i. chunk ss i (padded data @ par)) [0..<10]) = padded data"
    unfolding concat_chunks using len by simp
  have idx: "distinct idx" "set idx \<subseteq> {0..<15}" "10 \<le> length idx"
    and shards: "shards = (\<lambda>i. if i \<in> set idx then Some (sh ! i) else None)"
    using arr by (auto simp: shards_of_def)
  have sh_i: "sh ! i = chunk ss i (padded data @ par)" if "i < 15" for i
    using that sh by (simp del: upt_rec_numeral)
  show ?thesis
  proof (cases "length (filter (\<lambda>i. i < 10) idx) = 10")
    case True
    then have "{0..<10} \<subseteq> set idx" using all_data_present idx(1) by blast
    then have "map shards [0..<10] = map (\<lambda>i. Some (chunk ss i (padded data @ par))) [0..<10]"
      using shards sh_i by (intro map_cong) (auto simp del: upt_rec_numeral)
    then have "map the (filter (\<lambda>d. d \<noteq> None) (map shards [0..<10])) =
        map (\<lambda>i. chunk ss i (padded data @ par)) [0..<10]"
      by (simp add: filter_map comp_def del: upt_rec_numeral)
    then show ?thesis using True data_part
      by (simp add: reconstructFromShards_def del: upt_rec_numeral)
  next
    case False
    obtain i0 rest where i0: "idx = i0 # rest" using idx(3) by (cases idx) auto
    have "i0 < 15" using idx(2) i0 by auto
    have whole: "length (padded data @ par) = 15 * ss" using len par by simp
    have d0: "shards i0 = Some (sh ! i0)" "length (sh ! i0) = ss"
      using shards i0 sh_i[OF \<open>i0 < 15\<close>] length_chunk[of i0 ss "padded data @ par"]
        chunk_fits[OF \<open>i0 < 15\<close>, of ss] whole by (auto simp: mult.commute)
    define buf where "buf = fill_buffer shards ss 15 (replicate (ss * 15) (0 :: byte))"
    have agree: "chunk ss i buf = chunk ss i (padded data @ par)" if "i < 15" "i \<in> set idx" for i
    proof -
      have "length d = ss" if "j < 15" "shards j = Some d" for j d
        using that shards sh_i[OF that(1)] length_chunk[of j ss "padded data @ par"]
          chunk_fits[OF that(1), of ss] whole by (auto split: if_splits simp: mult.commute)
      then show ?thesis
        using chunk_fill_buffer[of "replicate (ss * 15) 0" 15 ss 15 i shards] that shards sh_i[OF that(1)]
        by (simp add: buf_def)
    qed
    have "length buf = 15 * ss" by (simp add: buf_def)
    then have "rs_reconstruct lib buf 10 5 (map (\<lambda>i. i \<in> set idx) [0..<15]) = Some (padded data @ par)"
      using rec len b agree unfolding rs_recovers_def
      by (metis (no_types, lifting) add_0 diff_zero length_replicate nth_map_upt)
    moreover have "map (\<lambda>i. shards i \<noteq> None) [0..<15] = map (\<lambda>i. i \<in> set idx) [0..<15]"
      using shards by (simp del: upt_rec_numeral)
    moreover have "reconstructFromShards lib shards idx =
        (case rs_reconstruct lib buf 10 5 (map (\<lambda>i. shards i \<noteq> None) [0..<15]) of
           None \<Rightarrow> None | Some b \<Rightarrow> Some (concat (map (\<lambda>i. chunk ss i b) [0..<10])))"
      unfolding reconstructFromShards_def shard_consts
      using False i0 d0 by (simp add: Let_def buf_def del: upt_rec_numeral not_None_eq)
    ultimately show ?thesis using data_part by (simp only: option.case)
  qed
qed

lemma download_run:
  assumes "script w = []" and "\<And>c i. (c, i) \<in> set avail \<Longrightarrow> blocks (db w) c = Some (sh ! i)"
  shows "download_shards (map (\<lambda>a. (fst a, Some (snd a))) avail) acc w =
    (Inr (\<lambda>i. if i \<in> snd ` set avail then Some (sh ! i) else acc i), w)"
  using assms(2)
proof (induction avail arbitrary: acc)
  case (Cons a avail)
  then have "blocks (db w) (fst a) = Some (sh ! snd a)" by (cases a) simp
  then have "download_shards (map (\<lambda>a. (fst a, Some (snd a))) (a # avail)) acc w =
      download_shards (map (\<lambda>a. (fst a, Some (snd a))) avail) (acc(snd a \<mapsto> sh ! snd a)) w"
    using assms(1) by simp
  also have "\<dots> = (Inr (\<lambda>i. if i \<in> snd ` set avail then Some (sh ! i)
      else (acc(snd a \<mapsto> sh ! snd a)) i), w)"
    by (rule Cons.IH) (use Cons.prems in auto)
  finally show ?case by (simp add: fun_eq_iff)
qed (simp add: fun_eq_iff)

text \<open>The shards of an encoded file that the cluster still serves.\<close>

definition available :: "(string \<times> nat) list \<Rightarrow> byte list list \<Rightarrow> database \<Rightarrow> bool" where
  "available avail sh s \<longleftrightarrow>
     distinct (map snd avail) \<and> snd ` set avail \<subseteq> {0..<15} \<and> 10 \<le> length avail \<and>
     (\<forall>(c, i) \<in> set avail. blocks s c = Some (sh ! i))"

lemma download_available:
  assumes "script w = []" and "available avail sh (db w)"
  obtains shards where
    "download_shards (map (\<lambda>a. (fst a, Some (snd a))) avail) (\<lambda>_. None) w = (Inr shards, w)"
    and "shards_of shards (map snd avail) sh"
proof -
  have "download_shards (map (\<lambda>a. (fst a, Some (snd a))) avail) (\<lambda>_. None) w =
      (Inr (\<lambda>i. if i \<in> snd ` set avail then Some (sh ! i) else None), w)"
    by (rule download_run) (use assms in \<open>auto simp: available_def\<close>)
  then show ?thesis using that assms(2) by (auto simp: available_def shards_of_def)
qed



lemma reconstructShard_run:
  assumes "rs_systematic lib" and "applyErasureCoding lib data = Some sh"
    and "script w = []" and "available avail sh (db w)"
    and "rs_recovers lib (map (\<lambda>i. i \<in> snd ` set avail) [0..<15])" and "t < 15"
  shows "reconstructShard lib avail t w = (Inr (Some (sh ! t)), w)"
proof -
  obtain shards where dl:
      "download_shards (map (\<lambda>a. (fst a, Some (snd a))) avail) (\<lambda>_. None) w = (Inr shards, w)"
    and arr: "shards_of shards (map snd avail) sh"
    using download_available[OF assms(3,4)] .
  have "reconstructFromShards lib shards (map snd avail) = Some (padded data)"
    using reconstructFromShards_padded[OF assms(1,2) arr] assms(5) by simp
  moreover have "length sh = 15" using length_shards[OF assms(2)] .
  ultimately show ?thesis
    using dl assms(2,4,6)
    by (simp add: reconstructShard_def or_throw_def applyErasureCoding_padded available_def)
qed

text \<open>
  C2. Repairing a shard is a round trip. Whatever file was encoded, and whichever ten or
  more of its shards the cluster still serves (as long as the Reed-Solomon module recovers
  that pattern), \<^verbatim>\<open>reconstructShard\<close> returns exactly the shard that was stored under the
  requested index, and changes nothing.
\<close>

theorem reconstructShard_roundtrip:
  assumes "rs_systematic lib" and "applyErasureCoding lib data = Some sh"
    and "script w = []" and "available avail sh (db w)"
    and "rs_recovers lib (map (\<lambda>i. i \<in> snd ` set avail) [0..<15])" and "t < 15"
  shows "reconstructShard lib avail t w = (Inr (Some (sh ! t)), w)"
  by (rule reconstructShard_run[OF assms])

lemma pair_up:
  "length cs = length is \<Longrightarrow>
   map (\<lambda>i. (cs ! i, if i < length is then Some (is ! i) else None)) [0..<length cs] =
   map (\<lambda>a. (fst a, Some (snd a))) (zip cs is)"
  by (rule nth_equalityI) auto

text \<open>
  Reconstructing a whole file from the served shards stores the file followed by the zero
  padding of the last data shard: the length of the file is not recorded, so the result
  is the original file only when its length is a multiple of ten.
\<close>

theorem reconstructFile_pads:
  assumes "rs_systematic lib" and "applyErasureCoding lib data = Some sh"
    and "script w = []" and "length cs = length is" and "available (zip cs is) sh (db w)"
    and "rs_recovers lib (map (\<lambda>i. i \<in> set is) [0..<15])"
  shows "\<exists>w'. reconstructFile lib cid_of cs is w = (Inr (cid_of (padded data)), w') \<and>
    blocks (db w') (cid_of (padded data)) = Some (padded data) \<and>
    (padded data = data \<longleftrightarrow> length data mod 10 = 0)"
proof -
  obtain shards where dl:
      "download_shards (map (\<lambda>a. (fst a, Some (snd a))) (zip cs is)) (\<lambda>_. None) w = (Inr shards, w)"
    and arr: "shards_of shards (map snd (zip cs is)) sh"
    using download_available[OF assms(3,5)] .
  have "reconstructFromShards lib shards is = Some (padded data)"
    using reconstructFromShards_padded[OF assms(1,2) arr] assms(4,6) by simp
  moreover have "padded data = data \<longleftrightarrow> length data mod 10 = 0"
    using length_padded[of data] padded_unpadded[of data] by (metis mod_mult_self1_is_0)
  moreover have "10 \<le> length cs" using assms(4,5) by (simp add: available_def)
  ultimately show ?thesis
    using dl assms(3) by (simp add: reconstructFile_def or_throw_def pair_up[OF assms(4)])
qed

section \<open>Uploading\<close>

definition info_of :: "(byte list \<Rightarrow> string) \<Rightarrow> string \<Rightarrow> nat \<times> byte list \<Rightarrow> shard_info" where
  "info_of cid_of f x = \<lparr>shardIndex = fst x, shardCID = cid_of (snd x), sizeBytes = length (snd x),
     isDataShard = fst x < 10, originalFileCID = f\<rparr>"

lemma upload_all_run:
  "script w = [] \<Longrightarrow> upload_all cid_of f i ds w =
     (Inr (map (info_of cid_of f) (enumerate i ds)),
      w\<lparr>db := (db w)\<lparr>blocks := fold (\<lambda>d m. m(cid_of d \<mapsto> d)) ds (blocks (db w))\<rparr>\<rparr>)"
  by (induction ds arbitrary: i w) (simp_all add: uploadShard_def info_of_def)

lemma stored_block:
  assumes "inj cid_of"
  shows "d \<in> set ds \<or> m (cid_of d) = Some d \<Longrightarrow> fold (\<lambda>d m. m(cid_of d \<mapsto> d)) ds m (cid_of d) = Some d"
proof (induction ds arbitrary: m)
  case (Cons e ds)
  then have "d \<in> set ds \<or> (m(cid_of e \<mapsto> e)) (cid_of d) = Some d"
    using inj_eq[OF assms] by auto
  then show ?case unfolding fold_simps by (rule Cons.IH)
qed simp

lemma encodeFile_run:
  assumes sys: "rs_systematic lib" and "script w = []" and stored: "blocks (db w) f = Some data"
  obtains sh where "applyErasureCoding lib data = Some sh" and "length sh = 15"
    and "\<forall>i < 15. length (sh ! i) = ceil_div (length data) 10"
    and "concat (take 10 sh) = padded data"
    and "encodeFile lib cid_of f w = (Inr (map (info_of cid_of f) (enumerate 0 sh)),
      w\<lparr>db := (db w)\<lparr>blocks := fold (\<lambda>d m. m(cid_of d \<mapsto> d)) sh (blocks (db w))\<rparr>\<rparr>)"
proof -
  let ?ss = "ceil_div (length data) 10"
  obtain par where par: "length par = 5 * ?ss"
    and enc: "applyErasureCoding lib data = Some (map (\<lambda>i. chunk ?ss i (padded data @ par)) [0..<15])"
    using encode_Some[OF sys] by metis
  define sh where "sh = map (\<lambda>i. chunk ?ss i (padded data @ par)) [0..<15]"
  have run: "encodeFile lib cid_of f w = (Inr (map (info_of cid_of f) (enumerate 0 sh)),
      w\<lparr>db := (db w)\<lparr>blocks := fold (\<lambda>d m. m(cid_of d \<mapsto> d)) sh (blocks (db w))\<rparr>\<rparr>)"
    using assms(2) stored enc by (simp add: encodeFile_def or_throw_def upload_all_run sh_def del: upt_rec_numeral)
  have len: "length sh = 15" by (simp add: sh_def del: upt_rec_numeral)
  have size: "length (sh ! i) = ?ss" if "i < 15" for i
    using that par length_chunk[of i ?ss "padded data @ par"] chunk_fits[OF that, of ?ss]
    by (simp add: sh_def length_padded del: upt_rec_numeral)
  have "take 10 sh = map (\<lambda>i. chunk ?ss i (padded data @ par)) [0..<10]"
    unfolding sh_def take_map by (simp del: upt_rec_numeral)
  then have "concat (take 10 sh) = padded data"
    by (simp add: concat_chunks length_padded del: upt_rec_numeral)
  then show ?thesis using that[of sh] enc len size run by (simp add: sh_def del: upt_rec_numeral)
qed

text \<open>
  C25. Encoding a stored file: with a systematic module and collision-free content
  identifiers, \<^verbatim>\<open>encodeFile\<close> returns fifteen descriptions, the i-th for index i, each of
  ceil(length/10) bytes, the first ten marked as data; every described identifier is served
  by the cluster, and the ten data shards concatenated are the file and at most nine bytes
  of zero padding.
\<close>

theorem encodeFile_stores:
  assumes sys: "rs_systematic lib" and inj: "inj cid_of" and "script w = []"
    and stored: "blocks (db w) f = Some data"
  shows "\<exists>infos w' sh. encodeFile lib cid_of f w = (Inr infos, w') \<and> applyErasureCoding lib data = Some sh \<and>
    length infos = 15 \<and>
    (\<forall>i<15. shardIndex (infos ! i) = i \<and> isDataShard (infos ! i) = (i < 10) \<and>
       sizeBytes (infos ! i) = ceil_div (length data) 10 \<and>
       blocks (db w') (shardCID (infos ! i)) = Some (sh ! i)) \<and>
    (\<exists>n. n < 10 \<and> concat (take 10 sh) = data @ replicate n 0)"
proof -
  let ?ss = "ceil_div (length data) 10"
  obtain sh where sh: "applyErasureCoding lib data = Some sh" "length sh = 15"
    "\<forall>i < 15. length (sh ! i) = ?ss" "concat (take 10 sh) = padded data"
    "encodeFile lib cid_of f w = (Inr (map (info_of cid_of f) (enumerate 0 sh)),
      w\<lparr>db := (db w)\<lparr>blocks := fold (\<lambda>d m. m(cid_of d \<mapsto> d)) sh (blocks (db w))\<rparr>\<rparr>)"
    by (rule encodeFile_run[OF sys assms(3) stored, where cid_of = cid_of])
  let ?infos = "map (info_of cid_of f) (enumerate 0 sh)"
  let ?w = "w\<lparr>db := (db w)\<lparr>blocks := fold (\<lambda>d m. m(cid_of d \<mapsto> d)) sh (blocks (db w))\<rparr>\<rparr>"
  have "blocks (db ?w) (cid_of (sh ! i)) = Some (sh ! i)" if "i < 15" for i
    using stored_block[OF inj, of "sh ! i" sh] that sh(2) by simp
  then have rows: "\<forall>i<15. shardIndex (?infos ! i) = i \<and> isDataShard (?infos ! i) = (i < 10) \<and>
      sizeBytes (?infos ! i) = ?ss \<and> blocks (db ?w) (shardCID (?infos ! i)) = Some (sh ! i)"
    using sh(2,3) by (simp add: nth_enumerate_eq info_of_def)
  have "10 * ?ss - length data < 10" using ceil_div_less[of 10 "length data"] by linarith
  then have pad: "\<exists>n. n < 10 \<and> concat (take 10 sh) = data @ replicate n 0"
    unfolding sh(4) padded_def by blast
  show ?thesis
    using sh(1,2,5) rows pad by (intro exI[of _ ?infos] exI[of _ ?w] exI[of _ sh]) simp
qed

section \<open>A module that satisfies the hypotheses\<close>

text \<open>
  The parity shards repeat the first five data shards: systematic, and it recovers the
  pattern in which the shards 5 to 14 are available.
\<close>

definition copy_code :: rs_lib where
  "copy_code = \<lparr>
     rs_encode = (\<lambda>b d p. let ss = length b div 15 in
        Some (take (10 * ss) b @ take (5 * ss) b)),
     rs_reconstruct = (\<lambda>c d p avail. let ss = length c div 15; t = drop (5 * ss) c in
        Some (drop (5 * ss) t @ t))\<rparr>"

lemma copy_code_systematic: "rs_systematic copy_code"
  by (auto simp: rs_systematic_def copy_code_def Let_def)

lemma copy_code_recovers: "rs_recovers copy_code (map (\<lambda>i. 5 \<le> i) [0..<15])"
  unfolding rs_recovers_def
proof (intro allI impI)
  fix ss and data rest b c :: "byte list"
  assume len: "length data = 10 * ss" "length rest = 5 * ss" "length c = 15 * ss"
    and enc: "rs_encode copy_code (data @ rest) 10 5 = Some b"
    and agree: "\<forall>i<15. map (\<lambda>i. 5 \<le> i) [0..<15] ! i \<longrightarrow> chunk ss i c = chunk ss i b"
  have b: "b = data @ take (5 * ss) data" using enc len by (simp add: copy_code_def Let_def)
  have "drop (5 * ss) c = drop (5 * ss) b"
  proof (rule drop_eq_of_chunks[where n = 15])
    show "chunk ss i c = chunk ss i b" if "5 \<le> i" "i < 15" for i
      using agree that by (simp del: upt_rec_numeral)
  qed (use len b in auto)
  then have t: "drop (5 * ss) c = drop (5 * ss) data @ take (5 * ss) data" using b len by simp
  then have "drop (5 * ss) (drop (5 * ss) c) = take (5 * ss) data" unfolding t using len by simp
  then show "rs_reconstruct copy_code c 10 5 (map (\<lambda>i. 5 \<le> i) [0..<15]) = Some b"
    using len b t by (simp add: copy_code_def Let_def del: drop_drop)
qed

lemma copy_code_recovers': "rs_recovers copy_code (map (\<lambda>i. i \<in> set [5..<15]) [0..<15])"
proof -
  have "map (\<lambda>i. i \<in> set [5..<15]) [0..<15] = map (\<lambda>i::nat. 5 \<le> i) [0..<15]"
    by (rule map_cong) (auto simp del: upt_rec_numeral)
  then show ?thesis using copy_code_recovers by (simp only:)
qed

text \<open>Identifiers that spell out the content.\<close>

definition plain_cid :: "byte list \<Rightarrow> string" where
  "plain_cid b = map (\<lambda>x. char_of (unat x)) b"

lemma inj_plain_cid: "inj plain_cid"
proof (rule injI)
  have "unat x < 256" for x :: byte using unsigned_less[of x] by simp
  then have rt: "of_char (char_of (unat x)) = unat x" for x :: byte by (simp add: of_char_of)
  have "inj (\<lambda>x :: byte. (char_of (unat x) :: char))"
  proof (rule injI)
    fix x y :: byte
    assume "(char_of (unat x) :: char) = char_of (unat y)"
    then have "of_char (char_of (unat x) :: char) = (of_char (char_of (unat y) :: char) :: nat)"
      by (rule arg_cong)
    then have "unat x = unat y" unfolding rt .
    then show "x = y" by (rule word_unat_eq_iff[THEN iffD2])
  qed
  then show "plain_cid a = plain_cid b \<Longrightarrow> a = b" for a b
    unfolding plain_cid_def by (metis inj_map_eq_map)
qed

definition sample_file :: "byte list" where
  "sample_file = map of_nat [1..<13]"

definition sample_shards :: "byte list list" where
  "sample_shards = the (applyErasureCoding copy_code sample_file)"

definition sample_db :: database where
  "sample_db = empty_db\<lparr>blocks := (\<lambda>c. if length c < 15 then Some (sample_shards ! length c) else None)\<rparr>"

definition sample_avail :: "(string \<times> nat) list" where
  "sample_avail = map (\<lambda>i. (replicate i CHR ''s'', i)) [5..<15]"

lemma sample_encoded: "applyErasureCoding copy_code sample_file = Some sample_shards"
  by (auto simp: sample_shards_def applyErasureCoding_def copy_code_def Let_def)

lemma sample_available: "available sample_avail sample_shards sample_db"
  by (simp add: available_def sample_avail_def sample_db_def del: upt_rec_numeral)
     (auto simp: distinct_map inj_on_def comp_def)

abbreviation sample_world :: "database world" where
  "sample_world \<equiv> \<lparr>db = sample_db, clock = 0, script = []\<rparr>"

lemma sample_avail_maps:
  "map snd sample_avail = [5..<15]" "snd ` set sample_avail = set [5..<15]"
  "length (map fst sample_avail) = length (map snd sample_avail)"
proof -
  show maps: "map snd sample_avail = [5..<15]"
    by (simp add: sample_avail_def comp_def del: upt_rec_numeral)
  show "snd ` set sample_avail = set [5..<15]" unfolding maps[symmetric] by simp
qed simp

theorem reconstructShard_roundtrip_witness:
  "reconstructShard copy_code sample_avail 2 sample_world = (Inr (Some (sample_shards ! 2)), sample_world)"
proof (rule reconstructShard_roundtrip[OF copy_code_systematic sample_encoded])
  show "rs_recovers copy_code (map (\<lambda>i. i \<in> snd ` set sample_avail) [0..<15])"
    unfolding sample_avail_maps by (rule copy_code_recovers')
qed (use sample_available in simp_all)

theorem reconstructFile_pads_witness:
  "\<exists>w'. reconstructFile copy_code plain_cid (map fst sample_avail) (map snd sample_avail)
      sample_world = (Inr (plain_cid (padded sample_file)), w') \<and> padded sample_file \<noteq> sample_file"
proof -
  have p1: "script sample_world = []" by simp
  have p3: "available (zip (map fst sample_avail) (map snd sample_avail)) sample_shards (db sample_world)"
    using sample_available by (simp add: zip_map_fst_snd)
  have p4: "rs_recovers copy_code (map (\<lambda>i. i \<in> set (map snd sample_avail)) [0..<15])"
    unfolding sample_avail_maps by (rule copy_code_recovers')
  have "length sample_file mod 10 \<noteq> 0" by (simp add: sample_file_def)
  then show ?thesis
    using reconstructFile_pads[OF copy_code_systematic sample_encoded p1 sample_avail_maps(3) p3 p4,
        where cid_of = plain_cid] by (elim exE conjE) (intro exI conjI, assumption, simp only: not_False_eq_True)
qed

theorem encodeFile_stores_witness:
  "\<exists>infos w'. encodeFile copy_code plain_cid ''f''
     \<lparr>db = empty_db\<lparr>blocks := [''f'' \<mapsto> sample_file]\<rparr>, clock = 0, script = []\<rparr> = (Inr infos, w') \<and>
     length infos = 15"
proof -
  let ?w = "\<lparr>db = empty_db\<lparr>blocks := [''f'' \<mapsto> sample_file]\<rparr>, clock = 0, script = []\<rparr>"
  have "script ?w = []" "blocks (db ?w) ''f'' = Some sample_file" by simp_all
  from encodeFile_stores[OF copy_code_systematic inj_plain_cid this] show ?thesis by blast
qed

end
