(* ===== verification/Health_Monitor.thy ===== *)
theory Health_Monitor
  imports Kyn_Database
begin

text \<open>
  The health monitor (\<^verbatim>\<open>services/erasure-coding/src/health-monitor.ts\<close>): every thirty
  seconds the shards of providers silent for more than a minute are reported; a report
  older than five minutes confirms the loss and queues a repair.
\<close>

definition OFFLINE_THRESHOLD :: int where "OFFLINE_THRESHOLD = 60000"
definition COOLDOWN :: int where "COOLDOWN = 300000"

section \<open>Operations\<close>

record monitor_row =
  q_provider :: string
  q_deal :: string
  q_index :: nat
  q_cid :: string
  q_heartbeat :: "int option"
  q_endpoint :: "string option"

text \<open>The join of the active shards with the active providers.\<close>

definition monitored :: "database \<Rightarrow> monitor_row list" where
  "monitored s = remdups (concat (map
     (\<lambda>h. map (\<lambda>p. \<lparr>q_provider = s_provider h, q_deal = s_deal h, q_index = s_index h,
                    q_cid = s_cid h, q_heartbeat = p_last_heartbeat p, q_endpoint = p_endpoint p\<rparr>)
            (filter (\<lambda>p. p_address p = s_provider h \<and> p_active p) (t_providers s)))
     (filter s_active (t_shards s))))"

text \<open>\<^verbatim>\<open>new Date(null).getTime()\<close> is 0: a provider without a heartbeat counts as silent since 1970.\<close>

definition heartbeat_time :: "int option \<Rightarrow> int" where
  "heartbeat_time h = (case h of None \<Rightarrow> 0 | Some t \<Rightarrow> t)"

definition next_repair_id :: "database \<Rightarrow> nat" where
  "next_repair_id s = Suc (fold max (map r_id (t_repairs s)) 0)"

definition enqueue_repair :: "string \<Rightarrow> string \<Rightarrow> nat \<Rightarrow> string \<Rightarrow> int \<Rightarrow> database \<Rightarrow> database" where
  "enqueue_repair dealId oldProvider shardIndex shardCID t s =
     s\<lparr>t_repairs := t_repairs s @ [\<lparr>r_id = next_repair_id s, r_deal = dealId,
        r_old_provider = oldProvider, r_index = shardIndex, r_cid = shardCID, r_status = Pending,
        r_new_provider = None, r_new_cid = None, r_error = None, r_created_at = t,
        r_started_at = None, r_completed_at = None\<rparr>]\<rparr>"

definition triggerRepair :: "string \<Rightarrow> string \<Rightarrow> nat \<Rightarrow> string \<Rightarrow> unit sql" where
  "triggerRepair dealId oldProvider shardIndex shardCID =
     logged (bind now (\<lambda>t. writes (enqueue_repair dealId oldProvider shardIndex shardCID t)))"

definition lose_shards :: "string \<Rightarrow> string \<Rightarrow> int \<Rightarrow> database \<Rightarrow> database" where
  "lose_shards dealId prov t s =
     s\<lparr>t_shards := sql_update (\<lambda>h. s_deal h = dealId \<and> s_provider h = prov)
        (\<lambda>h. h\<lparr>s_active := False, s_lost_at := Some t\<rparr>) (t_shards s)\<rparr>"

definition delete_reports :: "(report_row \<Rightarrow> bool) \<Rightarrow> database \<Rightarrow> database" where
  "delete_reports p s = s\<lparr>t_reports := sql_delete p (t_reports s)\<rparr>"

definition insert_report :: "report_row \<Rightarrow> database \<Rightarrow> (unit \<times> database) option" where
  "insert_report r s =
     (if (l_deal r, l_provider r) \<in> set (map (\<lambda>l. (l_deal l, l_provider l)) (t_reports s)) then None
      else Some ((), s\<lparr>t_reports := t_reports s @ [r]\<rparr>))"

text \<open>The branch of a report whose five minutes have elapsed.\<close>

definition confirm_loss :: "string \<Rightarrow> string \<Rightarrow> nat \<Rightarrow> string \<Rightarrow> int \<Rightarrow> unit sql" where
  "confirm_loss dealId providerAddress shardIndex shardCID t =
     andthen (triggerRepair dealId providerAddress shardIndex shardCID)
    (andthen (writes (lose_shards dealId providerAddress t))
             (writes (delete_reports (\<lambda>l. l_deal l = dealId \<and> l_provider l = providerAddress))))"

definition reportPotentialShardLoss :: "string \<Rightarrow> string \<Rightarrow> nat \<Rightarrow> string \<Rightarrow> unit sql" where
  "reportPotentialShardLoss dealId providerAddress shardIndex shardCID = logged (
     bind (reads (\<lambda>s. filter (\<lambda>l. l_deal l = dealId \<and> l_provider l = providerAddress \<and>
                                 l_index l = shardIndex) (t_reports s))) (\<lambda>existing.
     bind now (\<lambda>t.
       case existing of
         r # _ \<Rightarrow>
           if t - l_reported_at r > COOLDOWN
           then confirm_loss dealId providerAddress shardIndex shardCID t
           else ret ()
       | [] \<Rightarrow> effect (insert_report \<lparr>l_deal = dealId, l_provider = providerAddress,
                  l_index = shardIndex, l_cid = shardCID, l_reported_at = t\<rparr>))))"

definition checkAllProviders :: "unit sql" where
  "checkAllProviders = logged (
     bind (reads monitored) (\<lambda>rows.
     bind now (\<lambda>currentTime.
       for_each rows (\<lambda>row.
         if currentTime - heartbeat_time (q_heartbeat row) > OFFLINE_THRESHOLD
         then reportPotentialShardLoss (q_deal row) (q_provider row) (q_index row) (q_cid row)
         else ret ()))))"

definition recordHeartbeat :: "string \<Rightarrow> unit sql" where
  "recordHeartbeat providerAddress = logged (bind now (\<lambda>t.
     andthen (writes (\<lambda>s. s\<lparr>t_providers := sql_update (\<lambda>p. p_address p = providerAddress)
                         (\<lambda>p. p\<lparr>p_last_heartbeat := Some t\<rparr>) (t_providers s)\<rparr>))
             (writes (delete_reports (\<lambda>l. l_provider l = providerAddress)))))"

datatype health = Healthy | Degraded | Critical

record deal_health =
  dh_total :: nat
  dh_active :: nat
  dh_lost :: nat
  dh_isHealthy :: bool
  dh_status :: health

definition getDealHealth :: "string \<Rightarrow> deal_health sql" where
  "getDealHealth dealId = reads (\<lambda>s.
     let rows = filter (\<lambda>h. s_deal h = dealId) (t_shards s);
         active = length (filter s_active rows);
         isHealthy = (active \<ge> 10)
     in \<lparr>dh_total = length rows, dh_active = active,
         dh_lost = length (filter (\<lambda>h. \<not> s_active h) rows), dh_isHealthy = isHealthy,
         dh_status = (if isHealthy then Healthy else if active \<ge> 10 then Degraded else Critical)\<rparr>)"

record network_health =
  nh_totalDeals :: nat
  nh_averageActiveShards :: rat
  nh_totalProviders :: nat
  nh_onlineProviders :: nat

definition getNetworkHealth :: "network_health sql" where
  "getNetworkHealth =
     bind (reads (\<lambda>s. let ids = remdups (map s_deal (t_shards s));
                          counts = map (\<lambda>i. length (active_shards i s)) ids
                      in (length ids, counts))) (\<lambda>(total, counts).
     bind now (\<lambda>t.
     bind (reads (\<lambda>s. filter p_active (t_providers s))) (\<lambda>ps.
       ret \<lparr>nh_totalDeals = total,
            nh_averageActiveShards = (if counts = [] then 0
               else of_nat (sum_list counts) / of_nat (length counts)),
            nh_totalProviders = length ps,
            nh_onlineProviders = length (filter (\<lambda>p. case p_last_heartbeat p of
               None \<Rightarrow> False | Some h \<Rightarrow> h > t - 120000) ps)\<rparr>)))"

section \<open>A loss is confirmed only after the cooldown\<close>

definition old_report :: "int \<Rightarrow> report_row \<Rightarrow> bool" where
  "old_report t l \<longleftrightarrow> t - l_reported_at l > COOLDOWN"

text \<open>
  Starting from reports in \<open>L\<close>, a row of the shard table is left alone, or it is marked
  lost, its provider is in \<open>off\<close> and an old report in \<open>L\<close> names it.
\<close>

definition reports_within :: "int \<Rightarrow> report_row set \<Rightarrow> database \<Rightarrow> bool" where
  "reports_within t L s \<longleftrightarrow> (\<forall>l \<in> set (t_reports s). old_report t l \<longrightarrow> l \<in> L)"

definition lost_row :: "int \<Rightarrow> report_row set \<Rightarrow> (string \<Rightarrow> bool) \<Rightarrow> shard_row \<Rightarrow> bool" where
  "lost_row t L off h \<longleftrightarrow> off (s_provider h) \<and>
     (\<exists>l \<in> L. l_deal l = s_deal h \<and> l_provider l = s_provider h \<and> old_report t l)"

definition row_step :: "int \<Rightarrow> report_row set \<Rightarrow> (string \<Rightarrow> bool) \<Rightarrow> shard_row \<Rightarrow> shard_row \<Rightarrow> bool" where
  "row_step t L off h h' \<longleftrightarrow>
     h' = h \<or> (h' = h\<lparr>s_active := False, s_lost_at := Some t\<rparr> \<and> lost_row t L off h)"

lemma row_step_refl [simp]: "row_step t L off h h"
  by (simp add: row_step_def)

lemma row_step_trans: "row_step t L off a b \<Longrightarrow> row_step t L off b c \<Longrightarrow> row_step t L off a c"
  by (auto simp: row_step_def lost_row_def)

lemma rows_trans:
  "list_all2 (row_step t L off) x y \<Longrightarrow> list_all2 (row_step t L off) y z \<Longrightarrow>
     list_all2 (row_step t L off) x z"
  by (rule list_all2_trans[OF row_step_trans])

definition confirmed_loss ::
  "int \<Rightarrow> report_row set \<Rightarrow> (string \<Rightarrow> bool) \<Rightarrow> database \<Rightarrow> database \<Rightarrow> bool" where
  "confirmed_loss t L off s s' \<longleftrightarrow> (reports_within t L s \<longrightarrow> reports_within t L s' \<and>
     list_all2 (row_step t L off) (t_shards s) (t_shards s'))"

interpretation loss: step_rel "confirmed_loss t L off" for t L off
proof unfold_locales
  fix s
  show "confirmed_loss t L off s s"
    by (simp add: confirmed_loss_def list_all2_same)
next
  fix a b c
  assume "confirmed_loss t L off a b" and "confirmed_loss t L off b c"
  then show "confirmed_loss t L off a c"
    unfolding confirmed_loss_def using rows_trans by blast
qed

lemma insert_report_steps:
  "timed t (confirmed_loss t L off) (effect (insert_report \<lparr>l_deal = i, l_provider = p, l_index = n,
     l_cid = c, l_reported_at = t\<rparr>))"
  by (rule loss.timed_effect)
     (auto simp: insert_report_def confirmed_loss_def reports_within_def old_report_def COOLDOWN_def
       list_all2_same split: if_splits)

lemma confirm_steps:
  assumes "off p" and "l \<in> L" and "l_deal l = i" and "l_provider l = p" and "old_report t l"
  shows "timed t (confirmed_loss t L off) (confirm_loss i p n c t)"
proof -
  have "confirmed_loss t L off s (enqueue_repair i p n c t s)" for s
    by (simp add: confirmed_loss_def enqueue_repair_def reports_within_def list_all2_same)
  moreover have "confirmed_loss t L off s (lose_shards i p t s)" for s
    using assms
    by (auto simp: confirmed_loss_def lose_shards_def reports_within_def sql_update_def
        list_all2_map2 list_all2_same lost_row_def row_step_def)
  moreover have "confirmed_loss t L off s (delete_reports q s)" for s q
    by (auto simp: confirmed_loss_def delete_reports_def reports_within_def list_all2_same)
  ultimately show ?thesis
    unfolding confirm_loss_def triggerRepair_def
    by (intro loss.timed_intros loss.timed_writes)
qed

lemma report_steps:
  assumes "off p"
  shows "timed t (confirmed_loss t L off) (reportPotentialShardLoss i p n c)"
  unfolding reportPotentialShardLoss_def
proof (intro loss.timed_logged loss.timed_bind_reads[where J = "reports_within t L"] loss.timed_now)
  fix s
  assume within: "reports_within t L s"
  let ?rs = "filter (\<lambda>l. l_deal l = i \<and> l_provider l = p \<and> l_index l = n) (t_reports s)"
  have "timed t (confirmed_loss t L off) (confirm_loss i p n c t)"
    if "r \<in> set ?rs" and "t - l_reported_at r > COOLDOWN" for r
    by (rule confirm_steps[of off p r]) (use assms within that in \<open>auto simp: reports_within_def old_report_def\<close>)
  then show "timed t (confirmed_loss t L off) (case ?rs of
      r # _ \<Rightarrow> if t - l_reported_at r > COOLDOWN then confirm_loss i p n c t else ret ()
    | [] \<Rightarrow> effect (insert_report \<lparr>l_deal = i, l_provider = p, l_index = n, l_cid = c,
        l_reported_at = t\<rparr>))"
    by (cases ?rs) (auto intro: insert_report_steps loss.timed_ret)
qed (auto split: list.splits simp: confirm_loss_def triggerRepair_def confirmed_loss_def intro!: orderly_rules)

text \<open>
  C4. The monitor never declares a shard lost too early, whatever statements fail: a shard
  that is active before a round and inactive after it belongs to an active provider whose
  last heartbeat is more than sixty seconds old, and a loss report for that deal and
  provider had been on file for more than five minutes.
\<close>

theorem loss_needs_cooldown:
  assumes "k < length (t_shards (db w))" and "s_active (t_shards (db w) ! k)"
    and "\<not> s_active (t_shards (final checkAllProviders w) ! k)"
  shows "(\<exists>p \<in> set (t_providers (db w)). p_address p = s_provider (t_shards (db w) ! k) \<and> p_active p \<and>
      clock w - heartbeat_time (p_last_heartbeat p) > 60000) \<and>
    (\<exists>l \<in> set (t_reports (db w)). l_deal l = s_deal (t_shards (db w) ! k) \<and>
      l_provider l = s_provider (t_shards (db w) ! k) \<and> clock w - l_reported_at l > 300000)"
proof -
  let ?t = "clock w" and ?L = "set (t_reports (db w))"
  let ?off = "\<lambda>a. \<exists>p \<in> set (t_providers (db w)). p_address p = a \<and> p_active p \<and>
      ?t - heartbeat_time (p_last_heartbeat p) > 60000"
  have row: "?off (q_provider r)"
    if "r \<in> set (monitored (db w))" "?t - heartbeat_time (q_heartbeat r) > OFFLINE_THRESHOLD" for r
    using that by (auto simp: monitored_def OFFLINE_THRESHOLD_def)
  have "timed ?t (confirmed_loss ?t ?L ?off) (for_each (monitored (db w)) (\<lambda>row.
         if ?t - heartbeat_time (q_heartbeat row) > OFFLINE_THRESHOLD
         then reportPotentialShardLoss (q_deal row) (q_provider row) (q_index row) (q_cid row)
         else ret ()))"
    by (rule loss.timed_for_each) (auto intro!: report_steps row loss.timed_ret)
  then have "confirmed_loss ?t ?L ?off (db w) (final checkAllProviders w)"
    unfolding checkAllProviders_def final_logged
    by (intro loss.final_after_reads loss.timed_now)
  then have "list_all2 (row_step ?t ?L ?off) (t_shards (db w)) (t_shards (final checkAllProviders w))"
    by (simp add: confirmed_loss_def reports_within_def)
  then have "lost_row ?t ?L ?off (t_shards (db w) ! k)"
    using assms by (auto simp: list_all2_conv_all_nth row_step_def)
  then show ?thesis by (auto simp: lost_row_def old_report_def COOLDOWN_def)
qed

section \<open>What a confirmed loss does\<close>

definition overdue :: "string \<Rightarrow> string \<Rightarrow> nat \<Rightarrow> database world \<Rightarrow> bool" where
  "overdue i p n w \<longleftrightarrow>
     (\<exists>r rest. filter (\<lambda>l. l_deal l = i \<and> l_provider l = p \<and> l_index l = n) (t_reports (db w)) = r # rest \<and>
       clock w - l_reported_at r > 300000)"

lemma lose_shards_inactive:
  "\<forall>h \<in> set (t_shards (lose_shards i p t s)). shard_key h = (i, p) \<longrightarrow> \<not> s_active h"
proof -
  have "\<forall>h \<in> set (sql_update (\<lambda>h. s_deal h = i \<and> s_provider h = p)
      (\<lambda>h. h\<lparr>s_active := False, s_lost_at := Some t\<rparr>) (t_shards s)). shard_key h = (i, p) \<longrightarrow> \<not> s_active h"
    by (rule sql_update_all) (auto simp: shard_key_def)
  then show ?thesis by (simp add: lose_shards_def)
qed

lemma report_overdue_run:
  assumes "overdue i p n w" and "script w = []"
  shows "final (reportPotentialShardLoss i p n c) w =
    delete_reports (\<lambda>l. l_deal l = i \<and> l_provider l = p)
      (lose_shards i p (clock w) (enqueue_repair i p n c (clock w) (db w)))"
  using assms
  by (auto simp: overdue_def reportPotentialShardLoss_def final_logged final_def COOLDOWN_def
      confirm_loss_def triggerRepair_def logged_def)

text \<open>
  A confirmed loss is handed over completely when no statement fails: one pending repair
  for exactly this shard is appended to the queue, every row of that deal and provider is
  inactive, their report is gone, and the rows of all other deals and providers are as before.
\<close>

theorem confirmed_loss_queues_repair:
  assumes "overdue i p n w" and "script w = []"
    and s'_def: "s' = final (reportPotentialShardLoss i p n c) w"
  shows "(\<exists>r. t_repairs s' = t_repairs (db w) @ [r] \<and> r_deal r = i \<and> r_old_provider r = p \<and>
       r_index r = n \<and> r_cid r = c \<and> r_status r = Pending) \<and>
    (\<forall>h \<in> set (t_shards s'). shard_key h = (i, p) \<longrightarrow> \<not> s_active h) \<and>
    (\<forall>l \<in> set (t_reports s'). (l_deal l, l_provider l) \<noteq> (i, p)) \<and>
    filter (\<lambda>h. shard_key h \<noteq> (i, p)) (t_shards s') = filter (\<lambda>h. shard_key h \<noteq> (i, p)) (t_shards (db w))"
proof -
  have s': "s' = delete_reports (\<lambda>l. l_deal l = i \<and> l_provider l = p)
      (lose_shards i p (clock w) (enqueue_repair i p n c (clock w) (db w)))"
    unfolding s'_def using report_overdue_run[OF assms(1,2)] .
  have shards: "t_shards s' = sql_update (\<lambda>h. s_deal h = i \<and> s_provider h = p)
      (\<lambda>h. h\<lparr>s_active := False, s_lost_at := Some (clock w)\<rparr>) (t_shards (db w))"
    by (simp add: s' delete_reports_def lose_shards_def enqueue_repair_def)
  have "filter (\<lambda>h. shard_key h \<noteq> (i, p)) (t_shards s') = filter (\<lambda>h. shard_key h \<noteq> (i, p)) (t_shards (db w))"
    unfolding shards by (rule filter_sql_update_none) (auto simp: shard_key_def)
  moreover have "\<forall>h \<in> set (t_shards s'). shard_key h = (i, p) \<longrightarrow> \<not> s_active h"
    using lose_shards_inactive[of i p "clock w" "db w"] shards by (simp add: lose_shards_def)
  moreover have "\<exists>r. t_repairs s' = t_repairs (db w) @ [r] \<and> r_deal r = i \<and> r_old_provider r = p \<and>
       r_index r = n \<and> r_cid r = c \<and> r_status r = Pending"
    by (simp add: s' delete_reports_def lose_shards_def enqueue_repair_def)
  moreover have "\<forall>l \<in> set (t_reports s'). (l_deal l, l_provider l) \<noteq> (i, p)"
    by (auto simp: s' delete_reports_def)
  ultimately show ?thesis by blast
qed

text \<open>
  The hand-over is not atomic: when only the insert into the repair queue fails, its error is
  swallowed, and the shard is still marked lost and its report deleted with nothing queued.
\<close>

theorem loss_without_repair:
  assumes "overdue i p n w" and "script w = [False, True]"
  shows "t_repairs (final (reportPotentialShardLoss i p n c) w) = t_repairs (db w) \<and>
    (\<forall>h \<in> set (t_shards (final (reportPotentialShardLoss i p n c) w)).
       shard_key h = (i, p) \<longrightarrow> \<not> s_active h) \<and>
    (\<forall>l \<in> set (t_reports (final (reportPotentialShardLoss i p n c) w)).
       (l_deal l, l_provider l) \<noteq> (i, p))"
proof -
  have "final (reportPotentialShardLoss i p n c) w =
      delete_reports (\<lambda>l. l_deal l = i \<and> l_provider l = p) (lose_shards i p (clock w) (db w))"
    using assms
    by (auto simp: overdue_def reportPotentialShardLoss_def final_logged final_def COOLDOWN_def
        confirm_loss_def triggerRepair_def act_defs)
  moreover note lose_shards_inactive[of i p "clock w" "db w"]
  ultimately show ?thesis by (simp add: delete_reports_def lose_shards_def)
qed

text \<open>
  The health verdict of a deal: it is healthy exactly when ten or more of its shards are
  active and critical otherwise; the third verdict, degraded, is never given; active and
  lost shards add up to all of them.
\<close>

theorem deal_health_verdict:
  assumes "script w = []"
  obtains h where "getDealHealth i w = (Inr h, w)" and "dh_active h = length (active_shards i (db w))"
    and "dh_total h = dh_active h + dh_lost h"
    and "dh_status h = (if 10 \<le> length (active_shards i (db w)) then Healthy else Critical)"
proof -
  let ?rows = "filter (\<lambda>h. s_deal h = i) (t_shards (db w))"
  have act: "filter s_active ?rows = active_shards i (db w)"
    by (simp add: active_shards_def conj_commute)
  have "length ?rows = length (filter s_active ?rows) + length (filter (\<lambda>h. \<not> s_active h) ?rows)"
    by (rule sum_length_filter_compl[symmetric])
  then show ?thesis
    using that assms act by (simp add: getDealHealth_def Let_def)
qed

section \<open>Witnesses\<close>

definition sample_shard :: "string \<Rightarrow> string \<Rightarrow> nat \<Rightarrow> shard_row" where
  "sample_shard i p n = \<lparr>s_deal = i, s_provider = p, s_index = n, s_cid = ''c'', s_size = None,
     s_is_data = None, s_active = True, s_created_at = 0, s_lost_at = None, s_deleted_at = None\<rparr>"

definition sample_provider :: "string \<Rightarrow> provider_row" where
  "sample_provider a = \<lparr>p_address = a, p_peer_id = ''peer'', p_endpoint = None, p_region = Some ''eu'',
     p_reputation = 50, p_active = True, p_last_heartbeat = Some 1000, p_last_proof_at = None,
     p_registered_at = 0, p_pledged_gb = 0, p_used_gb = 0\<rparr>"

definition sick_db :: database where
  "sick_db = empty_db\<lparr>t_providers := [sample_provider ''p''], t_shards := [sample_shard ''1'' ''p'' 3],
     t_reports := [\<lparr>l_deal = ''1'', l_provider = ''p'', l_index = 3, l_cid = ''c'', l_reported_at = 2000\<rparr>]\<rparr>"

abbreviation sick_world :: "bool list \<Rightarrow> database world" where
  "sick_world sc \<equiv> \<lparr>db = sick_db, clock = 400000, script = sc\<rparr>"

lemma sick_overdue: "overdue ''1'' ''p'' 3 (sick_world sc)"
  by (simp add: overdue_def sick_db_def)

theorem loss_needs_cooldown_witness:
  "\<exists>l \<in> set (t_reports sick_db). 400000 - l_reported_at l > 300000"
proof -
  have "\<not> s_active (t_shards (final checkAllProviders (sick_world [])) ! 0)"
    by (simp add: checkAllProviders_def final_logged final_def monitored_def sick_db_def empty_db_def
        sample_shard_def sample_provider_def heartbeat_time_def OFFLINE_THRESHOLD_def COOLDOWN_def
        reportPotentialShardLoss_def confirm_loss_def triggerRepair_def logged_def lose_shards_def
        enqueue_repair_def delete_reports_def)
  moreover have "0 < length (t_shards (db (sick_world [])))" "s_active (t_shards (db (sick_world [])) ! 0)"
    by (simp_all add: sick_db_def sample_shard_def)
  ultimately show ?thesis using loss_needs_cooldown[of 0 "sick_world []"] by auto
qed

theorem confirmed_loss_queues_repair_witness:
  "\<exists>r. t_repairs (final (reportPotentialShardLoss ''1'' ''p'' 3 ''c'') (sick_world [])) = [r] \<and>
     r_status r = Pending"
  using confirmed_loss_queues_repair[OF sick_overdue[of "[]"] _ refl, of "''c''"]
  by (auto simp: sick_db_def empty_db_def)

theorem loss_without_repair_witness:
  "t_repairs (final (reportPotentialShardLoss ''1'' ''p'' 3 ''c'') (sick_world [False, True])) = []"
  using loss_without_repair[OF sick_overdue[of "[False, True]"], of "''c''"]
  by (simp add: sick_db_def empty_db_def)

theorem deal_health_verdict_witness:
  "dh_status (projr (fst (getDealHealth ''1'' (sick_world [])))) = Critical"
  by (rule deal_health_verdict[of "sick_world []" "''1''"])
     (simp_all add: active_shards_def sick_db_def sample_shard_def)

end
