(* ===== verification/Repair_Service.thy ===== *)
theory Repair_Service
  imports Shard_Codec Health_Monitor
begin

text \<open>
  The repair service (\<^verbatim>\<open>services/erasure-coding/src/repair-service.ts\<close>): takes pending
  repairs from the queue, recomputes the lost shard, places it with a new provider and
  records the outcome.

  Parameters: the Reed-Solomon module, the identifier function of IPFS, the column
  \<^verbatim>\<open>available_capacity\<close> the query reads from a pledge (the checked-in schema has no such
  column), the draw behind \<^verbatim>\<open>ORDER BY ... RANDOM()\<close>, and whether the blockchain settings
  are present in the environment.
\<close>

record repair_env =
  rs_module :: rs_lib
  cid_of :: "byte list \<Rightarrow> string"
  available_capacity :: "pledge_row \<Rightarrow> rat"
  draw :: nat
  chain_configured :: bool

section \<open>Operations\<close>

text \<open>Candidates: the join of eligible providers with their active pledges.\<close>

definition candidates :: "(pledge_row \<Rightarrow> rat) \<Rightarrow> string list \<Rightarrow> database \<Rightarrow> provider_row list" where
  "candidates cap excluded s = concat (map
     (\<lambda>p. map (\<lambda>_. p) (filter (\<lambda>c. c_provider c = p_address p \<and> c_active c \<and> cap c > 0) (t_pledges s)))
     (filter (\<lambda>p. p_active p \<and> p_reputation p \<ge> 50 \<and> p_address p \<notin> set excluded) (t_providers s)))"

text \<open>\<^verbatim>\<open>ORDER BY reputation_score DESC, RANDOM() LIMIT 1\<close>\<close>

definition pick_best :: "nat \<Rightarrow> provider_row list \<Rightarrow> string option" where
  "pick_best r ps =
     (let best = filter (\<lambda>p. \<forall>q \<in> set ps. p_reputation q \<le> p_reputation p) ps
      in if best = [] then None else Some (p_address (best ! (r mod length best))))"

definition selectNewProvider :: "repair_env \<Rightarrow> string \<Rightarrow> string \<Rightarrow> string option sql" where
  "selectNewProvider env dealId excludeProvider =
     bind (reads (\<lambda>s. remdups (map s_provider (active_shards dealId s)))) (\<lambda>existing.
     reads (\<lambda>s. pick_best (draw env) (candidates (available_capacity env) (excludeProvider # existing) s)))"

definition updateBlockchainShardAllocation ::
  "repair_env \<Rightarrow> string \<Rightarrow> string \<Rightarrow> string \<Rightarrow> string \<Rightarrow> unit sql" where
  "updateBlockchainShardAllocation env dealId oldProvider newProvider newShardCID =
     (if \<not> chain_configured env
      then throw ''Missing blockchain configuration (PRIVATE_KEY, MARKETPLACE_ADDRESS, RPC_URL)''
      else send_tx (Tx ''StorageMarketplace'' ''repairShard''
             [JStr dealId, JStr oldProvider, JStr newProvider, JStr newShardCID]))"

definition update_repair :: "nat \<Rightarrow> (repair_row \<Rightarrow> repair_row) \<Rightarrow> database \<Rightarrow> database" where
  "update_repair i f s = s\<lparr>t_repairs := sql_update (\<lambda>r. r_id r = i) f (t_repairs s)\<rparr>"

definition new_shard_row :: "string \<Rightarrow> string \<Rightarrow> nat \<Rightarrow> string \<Rightarrow> nat \<Rightarrow> int \<Rightarrow> shard_row" where
  "new_shard_row dealId prov idx cid n t =
     \<lparr>s_deal = dealId, s_provider = prov, s_index = idx, s_cid = cid, s_size = Some n,
      s_is_data = None, s_active = True, s_created_at = t, s_lost_at = None, s_deleted_at = None\<rparr>"

text \<open>Steps 3 to 7 of a repair: placement of the recomputed shard.\<close>

definition place_shard :: "repair_env \<Rightarrow> nat \<Rightarrow> string \<Rightarrow> string \<Rightarrow> nat \<Rightarrow> byte list \<Rightarrow> unit sql" where
  "place_shard env repairId dealId oldProvider shardIdx shard =
     bind (selectNewProvider env dealId oldProvider) (\<lambda>np.
       case np of
         None \<Rightarrow> throw ''No available provider for shard placement''
       | Some newProvider \<Rightarrow>
           bind (ipfs_add (cid_of env) shard) (\<lambda>newShardCID.
           bind now (\<lambda>t.
           andthen (effect (insert_shard (new_shard_row dealId newProvider shardIdx newShardCID (length shard) t)))
          (andthen (updateBlockchainShardAllocation env dealId oldProvider newProvider newShardCID)
                   (writes (update_repair repairId (\<lambda>r. r\<lparr>r_status := RepairCompleted,
                      r_completed_at := Some t, r_new_provider := Some newProvider,
                      r_new_cid := Some newShardCID\<rparr>)))))))"

definition repair_body :: "repair_env \<Rightarrow> nat \<Rightarrow> string \<Rightarrow> string \<Rightarrow> nat \<Rightarrow> unit sql" where
  "repair_body env repairId dealId oldProvider shardIdx =
     bind now (\<lambda>t.
     andthen (writes (update_repair repairId (\<lambda>r. r\<lparr>r_status := InProgress, r_started_at := Some t\<rparr>)))
    (bind (reads (\<lambda>s. order_by s_index (active_shards dealId s))) (\<lambda>rows.
       if length rows < 10 then throw ''Insufficient shards to reconstruct''
       else bind (reconstructShard (rs_module env) (map (\<lambda>h. (s_cid h, s_index h)) rows) shardIdx) (\<lambda>res.
         case res of
           None \<Rightarrow> throw ''Cannot read properties of undefined''
         | Some shard \<Rightarrow> place_shard env repairId dealId oldProvider shardIdx shard))))"

definition repairShard :: "repair_env \<Rightarrow> nat \<Rightarrow> string \<Rightarrow> string \<Rightarrow> nat \<Rightarrow> unit sql" where
  "repairShard env repairId dealId oldProvider shardIdx =
     try_catch (repair_body env repairId dealId oldProvider shardIdx)
       (\<lambda>e. writes (update_repair repairId (\<lambda>r. r\<lparr>r_status := RepairFailed, r_error := Some e\<rparr>)))"

definition pending_repairs :: "database \<Rightarrow> repair_row list" where
  "pending_repairs s = take 10 (order_by r_created_at (filter (\<lambda>r. r_status r = Pending) (t_repairs s)))"

definition processRepairQueue :: "repair_env \<Rightarrow> unit sql" where
  "processRepairQueue env = logged (
     bind (reads pending_repairs) (\<lambda>rows.
       for_each rows (\<lambda>r. repairShard env (r_id r) (r_deal r) (r_old_provider r) (r_index r))))"

record repair_stats =
  rp_pending :: nat
  rp_inProgress :: nat
  rp_completed :: nat
  rp_failed :: nat
  rp_averageSeconds :: rat

definition getRepairStats :: "repair_stats sql" where
  "getRepairStats = bind now (\<lambda>t. reads (\<lambda>s.
     let rows = filter (\<lambda>r. r_created_at r > t - 24 * 3600 * 1000) (t_repairs s);
         count = (\<lambda>st. length (filter (\<lambda>r. r_status r = st) rows));
         times = List.map_filter (\<lambda>r. if r_status r = RepairCompleted
                   then map_option (\<lambda>c. c - r_created_at r) (r_completed_at r) else None) rows
     in \<lparr>rp_pending = count Pending, rp_inProgress = count InProgress, rp_completed = count RepairCompleted,
         rp_failed = count RepairFailed,
         rp_averageSeconds = (if times = [] then 0
           else of_int (sum_list times) / of_nat (length times) / 1000)\<rparr>))"

section \<open>Choice of the new provider\<close>

lemma pick_best_sound:
  assumes "pick_best r ps = Some a"
  shows "\<exists>p \<in> set ps. p_address p = a \<and> (\<forall>q \<in> set ps. p_reputation q \<le> p_reputation p)"
proof -
  let ?best = "filter (\<lambda>p. \<forall>q \<in> set ps. p_reputation q \<le> p_reputation p) ps"
  from assms have ne: "?best \<noteq> []" and a: "a = p_address (?best ! (r mod length ?best))"
    by (auto simp: pick_best_def Let_def split: if_splits)
  then have "?best ! (r mod length ?best) \<in> set ?best" by (intro nth_mem) simp
  then show ?thesis using a by auto
qed

lemma pick_best_None: "pick_best r ps = None \<longleftrightarrow> ps = []"
proof
  assume none: "pick_best r ps = None"
  show "ps = []"
  proof (rule ccontr)
    assume "ps \<noteq> []"
    then have "Max (p_reputation ` set ps) \<in> p_reputation ` set ps" by (intro Max_in) auto
    then obtain p where "p \<in> set ps" and "p_reputation p = Max (p_reputation ` set ps)" by auto
    moreover have "\<forall>q \<in> set ps. p_reputation q \<le> Max (p_reputation ` set ps)" by simp
    ultimately have "p \<in> set (filter (\<lambda>p. \<forall>q \<in> set ps. p_reputation q \<le> p_reputation p) ps)" by simp
    then have "filter (\<lambda>p. \<forall>q \<in> set ps. p_reputation q \<le> p_reputation p) ps \<noteq> []" by fastforce
    then show False using none by (simp add: pick_best_def Let_def)
  qed
qed (simp add: pick_best_def)

lemma candidates_iff:
  "p \<in> set (candidates cap ex s) \<longleftrightarrow> p \<in> set (t_providers s) \<and> p_active p \<and> p_reputation p \<ge> 50 \<and>
     p_address p \<notin> set ex \<and> (\<exists>c \<in> set (t_pledges s). c_provider c = p_address p \<and> c_active c \<and> cap c > 0)"
  by (auto simp: candidates_def)

text \<open>
  The provider chosen for a repaired shard is active, has a reputation of at least fifty and an
  active pledge with capacity left, is neither the old provider nor any provider that still
  holds an active shard of the deal, and no eligible provider has a higher reputation; and
  nobody is chosen only when nobody is eligible.
\<close>

theorem selectNewProvider_eligible:
  assumes "script w = []"
  shows "\<exists>r. selectNewProvider env i old w = (Inr r, w) \<and>
    (let elig = (\<lambda>p. p \<in> set (t_providers (db w)) \<and> p_active p \<and> p_reputation p \<ge> 50 \<and>
           p_address p \<noteq> old \<and> (\<forall>h \<in> set (active_shards i (db w)). s_provider h \<noteq> p_address p) \<and>
           (\<exists>c \<in> set (t_pledges (db w)). c_provider c = p_address p \<and> c_active c \<and> available_capacity env c > 0))
     in case r of
          None \<Rightarrow> (\<forall>p. \<not> elig p)
        | Some a \<Rightarrow> (\<exists>p. elig p \<and> p_address p = a \<and> (\<forall>q. elig q \<longrightarrow> p_reputation q \<le> p_reputation p)))"
proof -
  let ?c = "candidates (available_capacity env) (old # remdups (map s_provider (active_shards i (db w)))) (db w)"
  have run: "selectNewProvider env i old w = (Inr (pick_best (draw env) ?c), w)"
    using assms by (simp add: selectNewProvider_def)
  have elig: "p \<in> set ?c \<longleftrightarrow> p \<in> set (t_providers (db w)) \<and> p_active p \<and> p_reputation p \<ge> 50 \<and>
           p_address p \<noteq> old \<and> (\<forall>h \<in> set (active_shards i (db w)). s_provider h \<noteq> p_address p) \<and>
           (\<exists>c \<in> set (t_pledges (db w)). c_provider c = p_address p \<and> c_active c \<and> available_capacity env c > 0)" for p
    unfolding candidates_iff by (auto simp: image_iff)
  show ?thesis
  proof (cases "pick_best (draw env) ?c")
    case None
    then have "\<forall>p. p \<notin> set ?c" using pick_best_None[of "draw env" ?c] by simp
    then show ?thesis using run None unfolding elig by (simp add: Let_def)
  next
    case (Some a)
    from pick_best_sound[OF this] show ?thesis using run Some unfolding elig Bex_def Ball_def
      by (simp add: Let_def)
  qed
qed

section \<open>Completed repairs are backed by a shard\<close>

definition repairs_sound :: "database \<Rightarrow> bool" where
  "repairs_sound s \<longleftrightarrow> (\<forall>r \<in> set (t_repairs s). r_status r = RepairCompleted \<longrightarrow>
     (\<exists>h \<in> set (t_shards s). r_new_provider r = Some (s_provider h) \<and> r_new_cid r = Some (s_cid h) \<and>
        s_provider h \<noteq> r_old_provider r \<and> s_deal h = r_deal r \<and> s_index h = r_index r))"

definition repair_static :: "repair_row \<Rightarrow> nat \<times> string \<times> string \<times> nat" where
  "repair_static r = (r_id r, r_deal r, r_old_provider r, r_index r)"

text \<open>The invariant of a run that started with the static columns \<open>S\<close>.\<close>

definition repair_inv :: "(nat \<times> string \<times> string \<times> nat) list \<Rightarrow> database \<Rightarrow> bool" where
  "repair_inv S s \<longleftrightarrow> repairs_sound s \<and> map repair_static (t_repairs s) = S"

lemma repair_inv_other [simp]:
  "repair_inv S (s\<lparr>blocks := bl\<rparr>) = repair_inv S s"
  "repair_inv S (s\<lparr>txs := tx\<rparr>) = repair_inv S s"
  by (simp_all add: repair_inv_def repairs_sound_def)

lemma repair_inv_shard: "insert_shard h s = Some (u, s') \<Longrightarrow> repair_inv S s \<Longrightarrow> repair_inv S s' \<and> h \<in> set (t_shards s')"
  by (fastforce simp: insert_shard_def repair_inv_def repairs_sound_def split: if_splits)

lemma repair_inv_update:
  assumes "repair_inv S s" and "\<And>r. repair_static (f r) = repair_static r"
    and "\<And>r. r_status (f r) \<noteq> RepairCompleted"
  shows "repair_inv S (update_repair i f s)"
proof -
  have "\<forall>r \<in> set (sql_update (\<lambda>r. r_id r = i) f (t_repairs s)). r_status r = RepairCompleted \<longrightarrow>
     (\<exists>h \<in> set (t_shards s). r_new_provider r = Some (s_provider h) \<and> r_new_cid r = Some (s_cid h) \<and>
        s_provider h \<noteq> r_old_provider r \<and> s_deal h = r_deal r \<and> s_index h = r_index r)"
    by (rule sql_update_all) (use assms in \<open>auto simp: repair_inv_def repairs_sound_def\<close>)
  then show ?thesis
    using assms(1,2) by (simp add: repair_inv_def repairs_sound_def update_repair_def map_sql_update)
qed

lemma repair_inv_complete:
  assumes inv: "repair_inv S s" and S: "distinct (map fst S)" "(i, d, old, n) \<in> set S"
    and h: "h \<in> set (t_shards s)" "s_deal h = d" "s_index h = n" "s_provider h \<noteq> old"
  shows "repair_inv S (update_repair i (\<lambda>r. r\<lparr>r_status := RepairCompleted, r_completed_at := Some t,
    r_new_provider := Some (s_provider h), r_new_cid := Some (s_cid h)\<rparr>) s)"
proof -
  let ?f = "\<lambda>r. r\<lparr>r_status := RepairCompleted, r_completed_at := Some t,
    r_new_provider := Some (s_provider h), r_new_cid := Some (s_cid h)\<rparr>"
  let ?ok = "\<lambda>r. r_status r = RepairCompleted \<longrightarrow> (\<exists>h \<in> set (t_shards s).
      r_new_provider r = Some (s_provider h) \<and> r_new_cid r = Some (s_cid h) \<and>
      s_provider h \<noteq> r_old_provider r \<and> s_deal h = r_deal r \<and> s_index h = r_index r)"
  have args: "r_deal r = d \<and> r_old_provider r = old \<and> r_index r = n"
    if "r \<in> set (t_repairs s)" "r_id r = i" for r
  proof -
    have "repair_static r \<in> set S" using that(1) inv by (auto simp: repair_inv_def)
    then have "(i, r_deal r, r_old_provider r, r_index r) \<in> set S"
      using that(2) by (simp add: repair_static_def)
    then show ?thesis using S eq_key_imp_eq_value by fastforce
  qed
  have "\<forall>r \<in> set (sql_update (\<lambda>r. r_id r = i) ?f (t_repairs s)). ?ok r"
    by (rule sql_update_all) (use args h inv in \<open>auto simp: repair_inv_def repairs_sound_def\<close>)
  moreover have "map repair_static (sql_update (\<lambda>r. r_id r = i) ?f (t_repairs s)) = S"
    using inv by (simp add: repair_inv_def map_sql_update repair_static_def)
  ultimately show ?thesis by (simp add: repair_inv_def repairs_sound_def update_repair_def)
qed

lemma wp_selectNewProvider:
  assumes "\<And>r. (\<forall>a. r = Some a \<longrightarrow> a \<noteq> old) \<Longrightarrow> Q r s" and "\<And>e. E e s"
  shows "wp t (selectNewProvider env i old) Q E s"
proof -
  have "a \<noteq> old" if "pick_best r (candidates c (old # ex) s) = Some a" for a r c ex
    using pick_best_sound[OF that] by (auto simp: candidates_iff)
  then show ?thesis unfolding selectNewProvider_def using assms by (auto intro!: wp_rules)
qed

lemma repair_place_inv:
  assumes inv: "repair_inv S s" and S: "distinct (map fst S)" "(i, d, old, n) \<in> set S"
  shows "wp t (place_shard env i d old n shard) (\<lambda>_. repair_inv S) (\<lambda>_. repair_inv S) s"
  unfolding place_shard_def
proof (rule wp_bind, rule wp_selectNewProvider)
  fix r assume r: "\<forall>a. r = Some a \<longrightarrow> a \<noteq> old"
  have tail: "repair_inv S (update_repair i (\<lambda>r. r\<lparr>r_status := RepairCompleted, r_completed_at := Some t,
      r_new_provider := Some a, r_new_cid := Some c\<rparr>) s1)"
    if "repair_inv S s1" "new_shard_row d a n c k t \<in> set (t_shards s1)" "r = Some a" for s1 a c k
    using repair_inv_complete[OF that(1) S that(2)] r that(3) by (simp add: new_shard_row_def)
  show "wp t (case r of None \<Rightarrow> throw ''No available provider for shard placement''
     | Some newProvider \<Rightarrow>
         bind (ipfs_add (cid_of env) shard) (\<lambda>newShardCID.
         bind now (\<lambda>t.
         andthen (effect (insert_shard (new_shard_row d newProvider n newShardCID (length shard) t)))
        (andthen (updateBlockchainShardAllocation env d old newProvider newShardCID)
                 (writes (update_repair i (\<lambda>r. r\<lparr>r_status := RepairCompleted,
                    r_completed_at := Some t, r_new_provider := Some newProvider,
                    r_new_cid := Some newShardCID\<rparr>)))))))
      (\<lambda>_. repair_inv S) (\<lambda>_. repair_inv S) s"
    using inv by (cases r)
      (auto simp: updateBlockchainShardAllocation_def intro!: wp_rules wp_effect tail dest!: repair_inv_shard)
qed (rule inv)

lemma repairShard_inv:
  assumes inv: "repair_inv S s" and S: "distinct (map fst S)" "(i, d, old, n) \<in> set S"
  shows "wp t (repairShard env i d old n) (\<lambda>_. repair_inv S) (\<lambda>_. repair_inv S) s"
proof -
  have upd: "repair_inv S (update_repair i (\<lambda>r. r\<lparr>r_status := InProgress, r_started_at := Some t\<rparr>) s')"
    "repair_inv S (update_repair i (\<lambda>r. r\<lparr>r_status := RepairFailed, r_error := e\<rparr>) s')"
    if "repair_inv S s'" for s' e
    using that by (auto intro!: repair_inv_update simp: repair_static_def)
  have "wp t (repair_body env i d old n) (\<lambda>_. repair_inv S) (\<lambda>_. repair_inv S) s"
    unfolding repair_body_def using inv upd(1) repair_place_inv[OF _ S]
    by (auto intro!: wp_rules wp_reconstructShard split: option.split)
  then show ?thesis
    unfolding repairShard_def using upd(2) by (auto intro!: wp_try_catch elim!: wp_mono intro: wp_rules)
qed

text \<open>
  C3. Whatever fails during a pass over the repair queue, a repair is recorded as completed
  only if the shard table holds the replacement it names: a row of the same deal and index,
  with the recorded provider and identifier, placed with somebody other than the provider
  that lost the shard. No queue entry appears, disappears or changes its job.
\<close>

theorem processRepairQueue_sound:
  assumes "distinct (map r_id (t_repairs (db w)))" and "repairs_sound (db w)"
  shows "repairs_sound (final (processRepairQueue env) w) \<and>
    map repair_static (t_repairs (final (processRepairQueue env) w)) = map repair_static (t_repairs (db w))"
proof -
  let ?S = "map repair_static (t_repairs (db w))"
  have S: "distinct (map fst ?S)" using assms(1) by (simp add: repair_static_def comp_def)
  have rows: "repair_static r \<in> set ?S" if "r \<in> set (pending_repairs (db w))" for r
    using in_set_takeD[OF that[unfolded pending_repairs_def]] by simp
  have "repair_inv ?S (final (processRepairQueue env) w)"
    unfolding processRepairQueue_def
  proof (rule wp_final_now, intro wp_rules)
    show "wp (clock w) (for_each (pending_repairs (db w)) (\<lambda>r. repairShard env (r_id r) (r_deal r)
        (r_old_provider r) (r_index r))) (\<lambda>_. repair_inv ?S) (\<lambda>_. repair_inv ?S) (db w)"
      by (rule wp_for_each[where I = "repair_inv ?S"])
         (use assms(2) rows in \<open>auto simp: repair_inv_def repair_static_def intro!: repairShard_inv[OF _ S]
           simp del: set_map\<close>)
  qed (use assms(2) in \<open>auto simp: repair_inv_def\<close>)
  then show ?thesis by (simp add: repair_inv_def)
qed

section \<open>A repair that goes through, and one that cannot\<close>

lemma active_update_repair [simp]: "active_shards j (update_repair i f s) = active_shards j s"
  by (simp add: active_shards_def update_repair_def)

lemma tables_update_repair [simp]:
  "t_shards (update_repair i f s) = t_shards s" "blocks (update_repair i f s) = blocks s"
  "t_providers (update_repair i f s) = t_providers s" "t_pledges (update_repair i f s) = t_pledges s"
  "txs (update_repair i f s) = txs s"
  by (simp_all add: update_repair_def)

lemma candidates_update_repair [simp]: "candidates cap ex (update_repair i f s) = candidates cap ex s"
  by (simp add: candidates_def)

definition chosen :: "repair_env \<Rightarrow> string \<Rightarrow> string \<Rightarrow> database \<Rightarrow> string option" where
  "chosen env d old s = pick_best (draw env)
     (candidates (available_capacity env) (old # remdups (map s_provider (active_shards d s))) s)"

lemma available_update_repair [simp]: "available av sh (update_repair i f s) = available av sh s"
  by (simp add: available_def)

text \<open>The shards a repair of deal \<open>d\<close> can read.\<close>

definition repair_sources :: "string \<Rightarrow> database \<Rightarrow> (string \<times> nat) list" where
  "repair_sources d s = map (\<lambda>h. (s_cid h, s_index h)) (order_by s_index (active_shards d s))"

definition in_progress :: "nat \<Rightarrow> int \<Rightarrow> database \<Rightarrow> database" where
  "in_progress i t = update_repair i (\<lambda>r. r\<lparr>r_status := InProgress, r_started_at := Some t\<rparr>)"

lemma repair_body_run:
  assumes "rs_systematic (rs_module env)" and "applyErasureCoding (rs_module env) data = Some sh"
    and "script w = []" and "available (repair_sources d (db w)) sh (db w)"
    and "rs_recovers (rs_module env) (map (\<lambda>j. j \<in> snd ` set (repair_sources d (db w))) [0..<15])"
    and "n < 15"
  shows "repair_body env i d old n w =
    place_shard env i d old n (sh ! n) (w\<lparr>db := in_progress i (clock w) (db w)\<rparr>)"
proof -
  let ?w = "w\<lparr>db := in_progress i (clock w) (db w)\<rparr>"
  have src: "map (\<lambda>h. (s_cid h, s_index h)) (order_by s_index (active_shards d (db ?w))) =
      repair_sources d (db w)"
    by (simp add: repair_sources_def in_progress_def)
  have "reconstructShard (rs_module env) (repair_sources d (db w)) n ?w = (Inr (Some (sh ! n)), ?w)"
    by (rule reconstructShard_run[OF assms(1,2)]) (use assms in \<open>simp_all add: in_progress_def\<close>)
  moreover have "10 \<le> length (order_by s_index (active_shards d (db ?w)))"
    using assms(4) by (simp add: available_def repair_sources_def in_progress_def)
  ultimately show ?thesis
    using assms(3) src by (simp add: repair_body_def in_progress_def[symmetric])
qed

lemma repair_restores:
  assumes "rs_systematic (rs_module env)" and "applyErasureCoding (rs_module env) data = Some sh"
    and "script w = []" and "available (repair_sources d (db w)) sh (db w)"
    and "rs_recovers (rs_module env) (map (\<lambda>j. j \<in> snd ` set (repair_sources d (db w))) [0..<15])"
    and "n < 15" and "chosen env d old (db w) = Some p"
    and "(d, p) \<notin> set (map shard_key (t_shards (db w)))" and "chain_configured env"
  shows "\<exists>h. t_shards (final (repairShard env i d old n) w) = t_shards (db w) @ [h] \<and>
    s_active h \<and> s_deal h = d \<and> s_provider h = p \<and> s_index h = n \<and>
    blocks (final (repairShard env i d old n) w) (s_cid h) = Some (sh ! n) \<and>
    (\<forall>r \<in> set (t_repairs (final (repairShard env i d old n) w)). r_id r = i \<longrightarrow>
       r_status r = RepairCompleted \<and> r_new_provider r = Some p \<and> r_new_cid r = Some (s_cid h)) \<and>
    txs (final (repairShard env i d old n) w) = txs (db w) @
      [Tx ''StorageMarketplace'' ''repairShard'' [JStr d, JStr old, JStr p, JStr (s_cid h)]]"
proof -
  let ?c = "cid_of env (sh ! n)" and ?t = "clock w"
  let ?h = "new_shard_row d p n ?c (length (sh ! n)) ?t"
  let ?done = "\<lambda>r. r\<lparr>r_status := RepairCompleted, r_completed_at := Some ?t,
      r_new_provider := Some p, r_new_cid := Some ?c\<rparr>"
  let ?s = "in_progress i ?t (db w)"
  let ?s' = "update_repair i ?done (?s\<lparr>blocks := (blocks ?s)(?c \<mapsto> sh ! n), t_shards := t_shards ?s @ [?h],
      txs := txs ?s @ [Tx ''StorageMarketplace'' ''repairShard'' [JStr d, JStr old, JStr p, JStr ?c]]\<rparr>)"
  have sel: "selectNewProvider env d old (w\<lparr>db := ?s\<rparr>) = (Inr (Some p), w\<lparr>db := ?s\<rparr>)"
    using assms(3,7) by (simp add: selectNewProvider_def in_progress_def chosen_def)
  have new: "insert_shard ?h (?s\<lparr>blocks := bl\<rparr>) = Some ((), ?s\<lparr>blocks := bl, t_shards := t_shards ?s @ [?h]\<rparr>)" for bl
    using assms(8) by (simp add: insert_shard_def in_progress_def new_shard_row_def shard_key_def)
  have "place_shard env i d old n (sh ! n) (w\<lparr>db := ?s\<rparr>) = (Inr (), w\<lparr>db := ?s'\<rparr>)"
    using sel assms(3,9)
    by (simp add: place_shard_def effect_Nil new updateBlockchainShardAllocation_def send_tx_def)
  then have fin: "final (repairShard env i d old n) w = ?s'"
    using repair_body_run[OF assms(1-6), of i old] by (simp add: repairShard_def final_def)
  have "\<forall>r \<in> set (t_repairs ?s'). r_id r = i \<longrightarrow>
      r_status r = RepairCompleted \<and> r_new_provider r = Some p \<and> r_new_cid r = Some ?c"
    unfolding update_repair_def by (simp, rule sql_update_all) auto
  then show ?thesis unfolding fin by (intro exI[of _ ?h]) (simp add: new_shard_row_def in_progress_def)
qed

text \<open>
  C1. End to end: if at least ten shards of an encoded file are still served, the code recovers
  that pattern, a provider is eligible who never held a shard of the deal, and nothing fails,
  then the repair completes: the new row points to an identifier under which the cluster serves
  exactly the bytes of the lost shard, the entry is marked completed with that provider, and
  the marketplace contract is told once.
\<close>

theorem repairShard_restores:
  assumes "rs_systematic (rs_module env)" and "applyErasureCoding (rs_module env) data = Some sh"
    and "script w = []" and "available (repair_sources d (db w)) sh (db w)"
    and "rs_recovers (rs_module env) (map (\<lambda>j. j \<in> snd ` set (repair_sources d (db w))) [0..<15])"
    and "n < 15" and "chosen env d old (db w) = Some p"
    and "(d, p) \<notin> set (map shard_key (t_shards (db w)))" and "chain_configured env"
  shows "\<exists>h. t_shards (final (repairShard env i d old n) w) = t_shards (db w) @ [h] \<and>
    s_active h \<and> s_deal h = d \<and> s_provider h = p \<and> s_index h = n \<and>
    blocks (final (repairShard env i d old n) w) (s_cid h) = Some (sh ! n) \<and>
    (\<forall>r \<in> set (t_repairs (final (repairShard env i d old n) w)). r_id r = i \<longrightarrow>
       r_status r = RepairCompleted \<and> r_new_provider r = Some p \<and> r_new_cid r = Some (s_cid h)) \<and>
    txs (final (repairShard env i d old n) w) = txs (db w) @
      [Tx ''StorageMarketplace'' ''repairShard'' [JStr d, JStr old, JStr p, JStr (s_cid h)]]"
  using assms by (rule repair_restores)

lemma failed_run:
  assumes "repair_body env i d old n w = (Inl e, w')" and "script w' = []"
  shows "final (repairShard env i d old n) w =
    update_repair i (\<lambda>r. r\<lparr>r_status := RepairFailed, r_error := Some e\<rparr>) (db w')"
  using assms by (simp add: repairShard_def final_def)

lemma update_repair_failed:
  "\<forall>r \<in> set (t_repairs (update_repair i (\<lambda>r. r\<lparr>r_status := RepairFailed, r_error := Some e\<rparr>) s)).
     r_id r = i \<longrightarrow> r_status r = RepairFailed \<and> r_error r = Some e"
  unfolding update_repair_def by (simp, rule sql_update_all) auto

text \<open>
  With fewer than ten active shards left a repair is marked failed with the reason, and neither
  the shard table, nor the cluster, nor the chain sees a change.
\<close>

theorem repairShard_insufficient:
  assumes "script w = []" and "length (active_shards d (db w)) < 10"
  shows "(\<forall>r \<in> set (t_repairs (final (repairShard env i d old n) w)). r_id r = i \<longrightarrow>
       r_status r = RepairFailed \<and> r_error r = Some ''Insufficient shards to reconstruct'') \<and>
    t_shards (final (repairShard env i d old n) w) = t_shards (db w) \<and>
    blocks (final (repairShard env i d old n) w) = blocks (db w) \<and>
    txs (final (repairShard env i d old n) w) = txs (db w)"
proof -
  have "repair_body env i d old n w =
      (Inl ''Insufficient shards to reconstruct'', w\<lparr>db := in_progress i (clock w) (db w)\<rparr>)"
    using assms by (simp add: repair_body_def in_progress_def)
  from failed_run[OF this] show ?thesis
    using assms(1) update_repair_failed by (simp add: in_progress_def)
qed

text \<open>
  The choice of a new provider looks only at active shards, but the shard table keeps the rows of
  lost ones and is keyed by deal and provider: when the chosen provider has already lost a
  shard of this deal, the insert is refused and the repair fails although the shard was recomputed.
\<close>

theorem repair_refused_for_former_holder:
  assumes "rs_systematic (rs_module env)" and "applyErasureCoding (rs_module env) data = Some sh"
    and "script w = []" and "available (repair_sources d (db w)) sh (db w)"
    and "rs_recovers (rs_module env) (map (\<lambda>j. j \<in> snd ` set (repair_sources d (db w))) [0..<15])"
    and "n < 15" and "chosen env d old (db w) = Some p"
    and "h \<in> set (t_shards (db w))" and "shard_key h = (d, p)" and "\<not> s_active h"
  shows "(\<forall>r \<in> set (t_repairs (final (repairShard env i d old n) w)). r_id r = i \<longrightarrow> r_status r = RepairFailed) \<and>
    t_shards (final (repairShard env i d old n) w) = t_shards (db w)"
proof -
  let ?s = "in_progress i (clock w) (db w)"
  let ?s' = "?s\<lparr>blocks := (blocks ?s)(cid_of env (sh ! n) \<mapsto> sh ! n)\<rparr>"
  have sel: "selectNewProvider env d old (w\<lparr>db := ?s\<rparr>) = (Inr (Some p), w\<lparr>db := ?s\<rparr>)"
    using assms(3,7) by (simp add: selectNewProvider_def in_progress_def chosen_def)
  have "(d, p) \<in> shard_key ` set (t_shards (db w))" using assms(8,9) by force
  then have "insert_shard (new_shard_row d p n c k t) ?s' = None" for c k t
    by (simp add: insert_shard_def in_progress_def new_shard_row_def shard_key_def image_iff)
  then have "place_shard env i d old n (sh ! n) (w\<lparr>db := ?s\<rparr>) = (Inl ''refused'', w\<lparr>db := ?s'\<rparr>)"
    using sel assms(3) by (simp add: place_shard_def effect_Nil)
  then have "repair_body env i d old n w = (Inl ''refused'', w\<lparr>db := ?s'\<rparr>)"
    using repair_body_run[OF assms(1-6)] by simp
  from failed_run[OF this] show ?thesis
    using assms(3) update_repair_failed[of i "''refused''" ?s'] by (simp add: in_progress_def)
qed

section \<open>Witnesses\<close>

definition repair_env0 :: repair_env where
  "repair_env0 = \<lparr>rs_module = copy_code, cid_of = plain_cid,
     available_capacity = (\<lambda>c. c_capacity_gb c - c_utilization_gb c), draw = 3, chain_configured = True\<rparr>"

definition pledge0 :: "string \<Rightarrow> pledge_row" where
  "pledge0 a = \<lparr>c_provider = a, c_pledge_id = 0, c_capacity_gb = 10, c_duration = 1, c_collateral = 1,
     c_utilization_gb = 0, c_active = True, c_created_at = 0, c_last_payment_at = None\<rparr>"

definition repair_db0 :: "shard_row list \<Rightarrow> database" where
  "repair_db0 extra = sample_db\<lparr>
     t_providers := [sample_provider ''new''], t_pledges := [pledge0 ''new''],
     t_shards := map (\<lambda>i. (sample_shard ''d'' (CHR ''p'' # nat_str i) i)\<lparr>s_cid := replicate i CHR ''s''\<rparr>) [5..<15] @ extra\<rparr>"

abbreviation repair_world0 :: "shard_row list \<Rightarrow> database world" where
  "repair_world0 extra \<equiv> \<lparr>db = repair_db0 extra, clock = 7, script = []\<rparr>"

lemma active0:
  assumes "\<forall>h \<in> set extra. \<not> s_active h"
  shows "active_shards ''d'' (repair_db0 extra) =
    map (\<lambda>i. (sample_shard ''d'' (CHR ''p'' # nat_str i) i)\<lparr>s_cid := replicate i CHR ''s''\<rparr>) [5..<15]"
  using assms by (simp add: active_shards_def repair_db0_def sample_shard_def filter_empty_conv)

lemma sources0:
  assumes "\<forall>h \<in> set extra. \<not> s_active h"
  shows "repair_sources ''d'' (repair_db0 extra) = sample_avail"
  unfolding repair_sources_def active0[OF assms] by (simp add: sample_shard_def sample_avail_def)

lemma available0:
  assumes "\<forall>h \<in> set extra. \<not> s_active h"
  shows "available (repair_sources ''d'' (repair_db0 extra)) sample_shards (repair_db0 extra)"
proof -
  have "blocks (repair_db0 extra) = blocks sample_db" by (simp add: repair_db0_def)
  then show ?thesis using sample_available unfolding sources0[OF assms] by (simp add: available_def)
qed

lemma chosen0:
  assumes "\<forall>h \<in> set extra. \<not> s_active h"
  shows "chosen repair_env0 ''d'' ''old'' (repair_db0 extra) = Some ''new''"
proof -
  show ?thesis
    unfolding chosen_def active0[OF assms]
    by (simp add: repair_env0_def candidates_def repair_db0_def sample_provider_def pledge0_def
        pick_best_def Let_def sample_shard_def)
qed

lemma recovers0:
  assumes "\<forall>h \<in> set extra. \<not> s_active h"
  shows "rs_recovers (rs_module repair_env0)
    (map (\<lambda>j. j \<in> snd ` set (repair_sources ''d'' (repair_db0 extra))) [0..<15])"
  unfolding sources0[OF assms] sample_avail_maps using copy_code_recovers' by (simp add: repair_env0_def del: upt_rec_numeral)

lemma module0:
  "rs_systematic (rs_module repair_env0)"
  "applyErasureCoding (rs_module repair_env0) sample_file = Some sample_shards"
  using copy_code_systematic sample_encoded by (simp_all add: repair_env0_def)

theorem selectNewProvider_eligible_witness:
  "\<exists>r. selectNewProvider repair_env0 ''d'' ''old'' (repair_world0 []) = (Inr r, repair_world0 [])"
  using selectNewProvider_eligible[of "repair_world0 []" repair_env0 "''d''" "''old''"] by auto

theorem processRepairQueue_sound_witness:
  "repairs_sound (final (processRepairQueue repair_env0) \<lparr>db = (repair_db0 [])\<lparr>t_repairs :=
     t_repairs (enqueue_repair ''d'' ''old'' 2 ''c'' 0 empty_db)\<rparr>, clock = 7, script = [False, False, True]\<rparr>)"
proof -
  let ?w = "\<lparr>db = (repair_db0 [])\<lparr>t_repairs := t_repairs (enqueue_repair ''d'' ''old'' 2 ''c'' 0 empty_db)\<rparr>,
    clock = 7, script = [False, False, True]\<rparr>"
  have "distinct (map r_id (t_repairs (db ?w)))" "repairs_sound (db ?w)"
    by (simp_all add: enqueue_repair_def empty_db_def repairs_sound_def)
  from processRepairQueue_sound[OF this] show ?thesis by blast
qed

theorem repairShard_restores_witness:
  "\<exists>h. t_shards (final (repairShard repair_env0 1 ''d'' ''old'' 2) (repair_world0 [])) =
      t_shards (repair_db0 []) @ [h] \<and>
    blocks (final (repairShard repair_env0 1 ''d'' ''old'' 2) (repair_world0 [])) (s_cid h) =
      Some (sample_shards ! 2)"
proof -
  have none: "\<forall>h \<in> set ([] :: shard_row list). \<not> s_active h" by simp
  have p1: "script (repair_world0 []) = []" "(2::nat) < 15" "chain_configured repair_env0"
    by (simp_all add: repair_env0_def)
  have p2: "available (repair_sources ''d'' (db (repair_world0 []))) sample_shards (db (repair_world0 []))"
    "rs_recovers (rs_module repair_env0)
      (map (\<lambda>j. j \<in> snd ` set (repair_sources ''d'' (db (repair_world0 [])))) [0..<15])"
    "chosen repair_env0 ''d'' ''old'' (db (repair_world0 [])) = Some ''new''"
    using available0[OF none] recovers0[OF none] chosen0[OF none] by (simp_all del: upt_rec_numeral)
  have p3: "(''d'', ''new'') \<notin> set (map shard_key (t_shards (db (repair_world0 []))))"
    by (simp add: repair_db0_def shard_key_def sample_shard_def)
  from repairShard_restores[OF module0 p1(1) p2(1,2) p1(2) p2(3) p3 p1(3)] show ?thesis by fastforce
qed

theorem repairShard_insufficient_witness:
  "t_shards (final (repairShard repair_env0 1 ''e'' ''old'' 2) (repair_world0 [])) = t_shards (repair_db0 [])"
proof -
  have "length (active_shards ''e'' (db (repair_world0 []))) < 10"
    by (simp add: active_shards_def repair_db0_def sample_shard_def)
  then show ?thesis using repairShard_insufficient[of "repair_world0 []" "''e''"] by simp
qed

theorem repair_refused_for_former_holder_witness:
  "t_shards (final (repairShard repair_env0 1 ''d'' ''old'' 2)
     (repair_world0 [(sample_shard ''d'' ''new'' 3)\<lparr>s_active := False\<rparr>])) =
   t_shards (repair_db0 [(sample_shard ''d'' ''new'' 3)\<lparr>s_active := False\<rparr>])"
proof -
  let ?h = "(sample_shard ''d'' ''new'' 3)\<lparr>s_active := False\<rparr>"
  have none: "\<forall>h \<in> set [?h]. \<not> s_active h" by simp
  have p1: "script (repair_world0 [?h]) = []" "(2::nat) < 15" by simp_all
  have p2: "available (repair_sources ''d'' (db (repair_world0 [?h]))) sample_shards (db (repair_world0 [?h]))"
    "rs_recovers (rs_module repair_env0)
      (map (\<lambda>j. j \<in> snd ` set (repair_sources ''d'' (db (repair_world0 [?h])))) [0..<15])"
    "chosen repair_env0 ''d'' ''old'' (db (repair_world0 [?h])) = Some ''new''"
    using available0[OF none] recovers0[OF none] chosen0[OF none] by (simp_all del: upt_rec_numeral)
  have p3: "?h \<in> set (t_shards (db (repair_world0 [?h])))" "shard_key ?h = (''d'', ''new'')" "\<not> s_active ?h"
    by (simp_all add: repair_db0_def shard_key_def sample_shard_def)
  from repair_refused_for_former_holder[OF module0 p1(1) p2(1,2) p1(2) p2(3) p3] show ?thesis by simp
qed

end
