(* ===== verification/Replica_Selection.thy ===== *)
theory Replica_Selection
  imports Kyn_Database
begin

text \<open>
  The replication orchestrator (\<^verbatim>\<open>services/replication-orchestrator/src/index.ts\<close>): fifteen
  providers for a deal, spread over regions.

  A query returns fresh row objects and the code compares them by reference, so a row
  carries the reference \<open>k_ref\<close> that tells equal-looking rows apart. The \<^verbatim>\<open>WHERE\<close> clause reads
  a column \<^verbatim>\<open>reput_score\<close> the checked-in schema does not have; it is a parameter, like the
  order \<^verbatim>\<open>RANDOM()\<close> puts equal reputations in.
\<close>

record candidate =
  k_ref :: nat
  k_address :: string
  k_peer_id :: string
  k_endpoint :: "string option"
  k_region :: "string option"
  k_reputation :: int

record selection =
  sel_index :: nat
  sel_address :: string
  sel_peer_id :: string
  sel_endpoint :: "string option"
  sel_region :: "string option"
  sel_reputation :: int

definition REQUIRED_SHARDS :: nat where "REQUIRED_SHARDS = 15"
definition MIN_REPUTATION :: int where "MIN_REPUTATION = 30"

section \<open>Selection with diversity\<close>

text \<open>\<^verbatim>\<open>[...new Set(xs)]\<close>: first occurrences, in order.\<close>

fun uniq :: "'a list \<Rightarrow> 'a list" where
  "uniq [] = []"
| "uniq (x # xs) = x # filter (\<lambda>y. y \<noteq> x) (uniq xs)"

definition find_in :: "candidate list \<Rightarrow> candidate list \<Rightarrow> string option \<Rightarrow> candidate option" where
  "find_in providers selected region =
     find (\<lambda>p. k_region p = region \<and> p \<notin> set selected) providers"

type_synonym region_counts = "string option \<Rightarrow> nat"

fun first_pass :: "candidate list \<Rightarrow> nat \<Rightarrow> string option list \<Rightarrow> candidate list \<Rightarrow> region_counts \<Rightarrow>
    candidate list \<times> region_counts" where
  "first_pass providers count [] selected counts = (selected, counts)"
| "first_pass providers count (region # regions) selected counts =
     (if length selected \<ge> count then (selected, counts)
      else case find_in providers selected region of
             Some p \<Rightarrow> first_pass providers count regions (selected @ [p]) (counts(region := 1))
           | None \<Rightarrow> first_pass providers count regions selected counts)"

fun pick_region :: "candidate list \<Rightarrow> candidate list \<Rightarrow> string option list \<Rightarrow> (string option \<times> candidate) option" where
  "pick_region providers selected [] = None"
| "pick_region providers selected (region # regions) =
     (case find_in providers selected region of
        Some p \<Rightarrow> Some (region, p)
      | None \<Rightarrow> pick_region providers selected regions)"

function second_pass :: "candidate list \<Rightarrow> nat \<Rightarrow> string option list \<Rightarrow> candidate list \<Rightarrow> region_counts \<Rightarrow>
    candidate list" where
  "second_pass providers count regions selected counts =
     (if length selected < count then
        let sortedRegions = order_by counts regions in
        case pick_region providers selected sortedRegions of
          Some (region, p) \<Rightarrow>
            second_pass providers count sortedRegions (selected @ [p]) (counts(region := counts region + 1))
        | None \<Rightarrow>
            (case find (\<lambda>p. p \<notin> set selected) providers of
               Some p \<Rightarrow> second_pass providers count sortedRegions (selected @ [p]) counts
             | None \<Rightarrow> selected)
      else selected)"
  by pat_completeness auto
termination by (relation "measure (\<lambda>(providers, count, regions, selected, counts). count - length selected)") auto

declare second_pass.simps [simp del]

definition selectWithDiversity :: "candidate list \<Rightarrow> nat \<Rightarrow> candidate list" where
  "selectWithDiversity providers count =
     (let regions = uniq (map k_region providers);
          (selected, counts) = first_pass providers count regions [] (\<lambda>_. 0)
      in take count (second_pass providers count regions selected counts))"

section \<open>Selecting for a deal\<close>

record selection_env =
  reput_score :: "provider_row \<Rightarrow> int"
  shuffle :: "candidate list \<Rightarrow> candidate list"

text \<open>The rows of the query before \<^verbatim>\<open>ORDER BY\<close>, numbered as the objects they become.\<close>

definition eligible_rows :: "selection_env \<Rightarrow> rat \<Rightarrow> database \<Rightarrow> candidate list" where
  "eligible_rows env perShardSize s =
     map (\<lambda>(n, p). \<lparr>k_ref = n, k_address = p_address p, k_peer_id = p_peer_id p,
            k_endpoint = p_endpoint p, k_region = p_region p, k_reputation = p_reputation p\<rparr>)
       (enumerate 0 (concat (map
          (\<lambda>p. map (\<lambda>_. p) (filter (\<lambda>c. c_provider c = p_address p \<and> c_active c \<and>
                                       c_capacity_gb c - c_utilization_gb c \<ge> perShardSize) (t_pledges s)))
          (filter (\<lambda>p. p_active p \<and> reput_score env p \<ge> MIN_REPUTATION) (t_providers s)))))"

definition selectProvidersForDeal :: "selection_env \<Rightarrow> rat \<Rightarrow> selection list sql" where
  "selectProvidersForDeal env requiredCapacityGB =
     (let encodedSize = requiredCapacityGB * 3 / 2;
          perShardSize = encodedSize / of_nat REQUIRED_SHARDS
      in bind (reads (\<lambda>s. order_by (\<lambda>c. - k_reputation c) (shuffle env (eligible_rows env perShardSize s)))) (\<lambda>rows.
         if length rows < REQUIRED_SHARDS then throw ''Insufficient providers''
         else ret (map (\<lambda>(index, p). \<lparr>sel_index = index, sel_address = k_address p, sel_peer_id = k_peer_id p,
                      sel_endpoint = k_endpoint p, sel_region = k_region p, sel_reputation = k_reputation p\<rparr>)
                    (enumerate 0 (selectWithDiversity rows REQUIRED_SHARDS)))))"

text \<open>\<^verbatim>\<open>rebalanceShards\<close>: the over-utilised providers it finds and logs; nothing is moved.\<close>

definition rebalanceShards :: "string list sql" where
  "rebalanceShards = reads (\<lambda>s.
     let holders = uniq (map s_provider (filter s_active (t_shards s)));
         count = (\<lambda>a. length (filter (\<lambda>h. s_active h \<and> s_provider h = a) (t_shards s)));
         average = (of_nat (sum_list (map count holders)) / of_nat (length holders) :: rat)
     in filter (\<lambda>a. a \<in> p_address ` set (t_providers s) \<and> of_nat (count a) > average * 12 / 10) holders)"

section \<open>Lemmas\<close>

lemma set_uniq [simp]: "set (uniq xs) = set xs"
  by (induction xs) auto

lemma distinct_uniq [simp]: "distinct (uniq xs)"
  by (induction xs) auto

lemma find_in_Some:
  "find_in ps sel r = Some p \<Longrightarrow> p \<in> set ps \<and> p \<notin> set sel \<and> k_region p = r"
  by (auto simp: find_in_def find_Some_iff)

lemma pick_region_Some:
  "pick_region ps sel rs = Some (r, p) \<Longrightarrow> p \<in> set ps \<and> p \<notin> set sel"
  by (induction rs) (auto split: option.splits dest: find_in_Some)

definition partial_pick :: "candidate list \<Rightarrow> candidate list \<Rightarrow> bool" where
  "partial_pick ps sel \<longleftrightarrow> distinct sel \<and> set sel \<subseteq> set ps"

lemma partial_pick_add:
  "partial_pick ps sel \<Longrightarrow> p \<in> set ps \<Longrightarrow> p \<notin> set sel \<Longrightarrow> partial_pick ps (sel @ [p])"
  by (simp add: partial_pick_def)

text \<open>The first pass takes one provider from each region still to be visited.\<close>

lemma first_pass_regions:
  assumes "partial_pick ps sel" and "distinct rs" and "set rs \<subseteq> k_region ` set ps"
    and "k_region ` set sel \<inter> set rs = {}" and "length sel \<le> n"
  shows "\<exists>new. fst (first_pass ps n rs sel c) = sel @ new \<and> map k_region new = take (n - length sel) rs \<and>
    partial_pick ps (sel @ new)"
  using assms
proof (induction rs arbitrary: sel c)
  case Nil
  then show ?case by simp
next
  case (Cons r rs)
  show ?case
  proof (cases "length sel \<ge> n")
    case True
    then show ?thesis using Cons.prems by (auto intro: exI[of _ "[]"])
  next
    case False
    have "\<exists>p \<in> set ps. k_region p = r \<and> p \<notin> set sel" using Cons.prems by auto
    then obtain p where p: "find_in ps sel r = Some p"
      unfolding find_in_def by (metis (mono_tags, lifting) find_None_iff option.exhaust)
    note sel = find_in_Some[OF p]
    have "\<exists>new. fst (first_pass ps n rs (sel @ [p]) (c(r := 1))) = (sel @ [p]) @ new \<and>
        map k_region new = take (n - length (sel @ [p])) rs \<and> partial_pick ps ((sel @ [p]) @ new)"
      by (rule Cons.IH) (use Cons.prems sel False in \<open>auto intro: partial_pick_add\<close>)
    then obtain new where "fst (first_pass ps n rs (sel @ [p]) (c(r := 1))) = (sel @ [p]) @ new"
      "map k_region new = take (n - length (sel @ [p])) rs" "partial_pick ps ((sel @ [p]) @ new)" by blast
    then show ?thesis
      using False p sel
      by (intro exI[of _ "p # new"]) (auto simp: take_Cons' Suc_diff_Suc[symmetric] split: nat_diff_split)
  qed
qed

definition filled :: "candidate list \<Rightarrow> nat \<Rightarrow> candidate list \<Rightarrow> bool" where
  "filled ps n sel \<longleftrightarrow> partial_pick ps sel \<and> length sel \<le> n \<and> (length sel = n \<or> set sel = set ps)"

lemma second_pass_fills:
  assumes "partial_pick ps sel" and "length sel \<le> n"
  shows "\<exists>new. second_pass ps n rs sel c = sel @ new \<and> filled ps n (sel @ new)"
  using assms
proof (induction ps n rs sel c rule: second_pass.induct)
  case (1 ps n rs sel c)
  let ?rs = "order_by c rs"
  have step: "\<exists>new. res = sel @ new \<and> filled ps n (sel @ new)"
    if "\<exists>new. res = (sel @ [p]) @ new \<and> filled ps n ((sel @ [p]) @ new)" for res p
    using that by (metis append.assoc)
  show ?case
  proof (cases "length sel < n")
    case less: True
    show ?thesis
    proof (cases "pick_region ps sel ?rs")
      case (Some rp)
      obtain r p where rp: "rp = (r, p)" by (cases rp)
      have "partial_pick ps (sel @ [p])"
        using pick_region_Some Some rp "1.prems" by (auto intro: partial_pick_add)
      then have "\<exists>new. second_pass ps n ?rs (sel @ [p]) (c(r := c r + 1)) = (sel @ [p]) @ new \<and>
          filled ps n ((sel @ [p]) @ new)"
        using "1.IH"(2)[OF less refl Some rp[symmetric]] less by (simp add: fun_upd_def)
      from step[OF this] show ?thesis
        using less Some rp by (subst (1) second_pass.simps) (simp add: Let_def)
    next
      case None
      show ?thesis
      proof (cases "find (\<lambda>p. p \<notin> set sel) ps")
        case (Some p)
        then have "partial_pick ps (sel @ [p])"
          using "1.prems" by (auto simp: find_Some_iff intro!: partial_pick_add)
        then have "\<exists>new. second_pass ps n ?rs (sel @ [p]) c = (sel @ [p]) @ new \<and> filled ps n ((sel @ [p]) @ new)"
          using "1.IH"(1)[OF less refl None Some] less by simp
        from step[OF this] show ?thesis
          using less None Some by (subst (1) second_pass.simps) (simp add: Let_def)
      next
        case none: None
        then have "set ps \<subseteq> set sel" by (auto simp: find_None_iff)
        then show ?thesis
          using less None none "1.prems"
          by (subst (1) second_pass.simps) (auto simp: Let_def filled_def partial_pick_def intro!: exI[of _ "[]"])
      qed
    qed
  next
    case False
    then show ?thesis
      using "1.prems" by (subst second_pass.simps) (auto simp: filled_def intro!: exI[of _ "[]"])
  qed
qed

lemma regions_covered:
  assumes "map k_region new = take n (uniq (map k_region ps))"
  shows "length (uniq (map k_region ps)) \<le> n \<Longrightarrow> k_region ` set ps \<subseteq> k_region ` set new"
    and "distinct (map k_region new)"
proof -
  show "distinct (map k_region new)" unfolding assms by (rule distinct_take) simp
  assume "length (uniq (map k_region ps)) \<le> n"
  then have "set (map k_region new) = set (map k_region ps)" unfolding assms by simp
  then show "k_region ` set ps \<subseteq> k_region ` set new" by simp
qed



lemma spreads:
  assumes "distinct ps"
  shows "distinct (selectWithDiversity ps n) \<and> set (selectWithDiversity ps n) \<subseteq> set ps \<and>
    length (selectWithDiversity ps n) = min n (length ps) \<and>
    (if length (uniq (map k_region ps)) \<le> n
     then k_region ` set (selectWithDiversity ps n) = k_region ` set ps
     else distinct (map k_region (selectWithDiversity ps n)))"
proof -
  let ?rs = "uniq (map k_region ps)"
  obtain new where fp: "fst (first_pass ps n ?rs [] (\<lambda>_. 0)) = new"
    and new: "map k_region new = take n ?rs" and pick: "partial_pick ps new"
    using first_pass_regions[of ps "[]" ?rs n "\<lambda>_. 0"] by (auto simp: partial_pick_def)
  have len: "length new = min n (length ?rs)" using arg_cong[OF new, of length] by simp
  obtain more where sp: "second_pass ps n ?rs new (snd (first_pass ps n ?rs [] (\<lambda>_. 0))) = new @ more"
    and all: "filled ps n (new @ more)"
    using second_pass_fills[OF pick, of n] len by fastforce
  have res: "selectWithDiversity ps n = new @ more"
    using fp sp all by (auto simp: selectWithDiversity_def Let_def filled_def split: prod.splits)
  have sub: "set (new @ more) \<subseteq> set ps" "distinct (new @ more)" "length (new @ more) \<le> n"
    using all by (auto simp: filled_def partial_pick_def)
  have "length (new @ more) = min n (length ps)"
  proof (cases "length (new @ more) = n")
    case True
    moreover have "length (new @ more) \<le> length ps"
      using sub by (metis assms card_mono distinct_card List.finite_set)
    ultimately show ?thesis by simp
  next
    case False
    then have "set (new @ more) = set ps" using all by (simp add: filled_def)
    then have "length (new @ more) = length ps" using sub(2) assms by (metis distinct_card)
    then show ?thesis using sub(3) by simp
  qed
  moreover have "if length ?rs \<le> n then k_region ` set (new @ more) = k_region ` set ps
     else distinct (map k_region (new @ more))"
  proof (cases "length ?rs \<le> n")
    case True
    then show ?thesis using regions_covered(1)[OF new] sub(1) by auto
  next
    case False
    then have "more = []" using len sub(3) by simp
    then show ?thesis using False regions_covered(2)[OF new] by simp
  qed
  ultimately show ?thesis unfolding res using sub by blast
qed

text \<open>
  C30. The choice of providers: for a list of distinct rows, \<^verbatim>\<open>selectWithDiversity\<close> returns as many
  rows as asked for (or all of them when there are fewer), each at most once and only rows
  that were offered; and it spreads them: every region is represented when there are no
  more regions than slots, and otherwise all chosen rows are from different regions. The
  \<^verbatim>\<open>while\<close> loop always ends.
\<close>

theorem selectWithDiversity_spreads:
  assumes "distinct ps"
  shows "distinct (selectWithDiversity ps n) \<and> set (selectWithDiversity ps n) \<subseteq> set ps \<and>
    length (selectWithDiversity ps n) = min n (length ps) \<and>
    (if length (uniq (map k_region ps)) \<le> n
     then k_region ` set (selectWithDiversity ps n) = k_region ` set ps
     else distinct (map k_region (selectWithDiversity ps n)))"
  by (rule spreads[OF assms])

lemma eligible_distinct: "distinct (eligible_rows env g s)"
proof -
  have "distinct (map k_ref (eligible_rows env g s))"
    by (simp add: eligible_rows_def comp_def case_prod_unfold)
  then show ?thesis by (simp add: distinct_map)
qed

lemma eligible_row:
  assumes "c \<in> set (eligible_rows env g s)"
  shows "\<exists>p \<in> set (t_providers s). p_address p = k_address c \<and> p_active p \<and> reput_score env p \<ge> 30 \<and>
    (\<exists>l \<in> set (t_pledges s). c_provider l = k_address c \<and> c_active l \<and> c_capacity_gb l - c_utilization_gb l \<ge> g)"
  using assms
  by (auto simp: eligible_rows_def MIN_REPUTATION_def enumerate_eq_zip dest!: set_zip_rightD) blast

text \<open>Reordering neither loses nor repeats rows.\<close>

definition fair_shuffle :: "(candidate list \<Rightarrow> candidate list) \<Rightarrow> bool" where
  "fair_shuffle f \<longleftrightarrow> (\<forall>xs. set (f xs) = set xs \<and> length (f xs) = length xs \<and> (distinct xs \<longrightarrow> distinct (f xs)))"

text \<open>
  A deal of \<open>g\<close> gigabytes gets its providers, or a refusal: with fewer than fifteen eligible rows
  the call throws; otherwise it returns exactly fifteen placements numbered from 0, each with an
  active provider of reputation score at least 30 and an active pledge that has a tenth of the
  deal's size free. The store is not changed.
\<close>

theorem selectProvidersForDeal_result:
  assumes "script w = []" and "fair_shuffle (shuffle env)"
  shows "(if length (eligible_rows env (g / 10) (db w)) < 15
     then selectProvidersForDeal env g w = (Inl ''Insufficient providers'', w)
     else \<exists>sels. selectProvidersForDeal env g w = (Inr sels, w) \<and> map sel_index sels = [0..<15] \<and>
       (\<forall>sl \<in> set sels. \<exists>p \<in> set (t_providers (db w)). p_address p = sel_address sl \<and> p_active p \<and>
          reput_score env p \<ge> 30 \<and> (\<exists>l \<in> set (t_pledges (db w)). c_provider l = sel_address sl \<and>
            c_active l \<and> c_capacity_gb l - c_utilization_gb l \<ge> g / 10)))"
proof -
  let ?rows = "order_by (\<lambda>c. - k_reputation c) (shuffle env (eligible_rows env (g / 10) (db w)))"
  have rows: "length ?rows = length (eligible_rows env (g / 10) (db w))" "distinct ?rows"
    "set ?rows = set (eligible_rows env (g / 10) (db w))"
    using assms(2) eligible_distinct by (auto simp: fair_shuffle_def)
  have size: "g * 3 / 2 / of_nat REQUIRED_SHARDS = g / 10" by (simp add: REQUIRED_SHARDS_def)
  have run: "selectProvidersForDeal env g w =
      (if length ?rows < 15 then throw ''Insufficient providers'' w
       else ret (map (\<lambda>(index, p). \<lparr>sel_index = index, sel_address = k_address p, sel_peer_id = k_peer_id p,
              sel_endpoint = k_endpoint p, sel_region = k_region p, sel_reputation = k_reputation p\<rparr>)
            (enumerate 0 (selectWithDiversity ?rows 15))) w)"
    unfolding selectProvidersForDeal_def Let_def size using assms(1) by (simp add: REQUIRED_SHARDS_def)
  show ?thesis
  proof (cases "length ?rows < 15")
    case True
    then show ?thesis using run rows(1) by simp
  next
    case False
    have "length (selectWithDiversity ?rows 15) = 15" "set (selectWithDiversity ?rows 15) \<subseteq> set ?rows"
      using spreads[OF rows(2), of 15] False by auto
    then show ?thesis
      using run rows False eligible_row[of _ env "g / 10" "db w"]
      by (auto simp: comp_def case_prod_unfold enumerate_eq_zip dest!: set_zip_rightD)
  qed
qed

text \<open>
  The rows are providers joined with their pledges, and only rows are compared: a provider with
  two eligible pledges is offered twice and can be chosen for two shards of the same deal, which
  the primary key of the shard table (deal, provider) then forbids to store.
\<close>

theorem one_provider_chosen_twice:
  assumes "k_address a = k_address b" and "a \<noteq> b"
  shows "\<not> distinct (map k_address (selectWithDiversity [a, b] 2))"
proof -
  have "length (selectWithDiversity [a, b] 2) = 2" "set (selectWithDiversity [a, b] 2) \<subseteq> {a, b}"
    "distinct (selectWithDiversity [a, b] 2)"
    using spreads[of "[a, b]" 2] assms(2) by auto
  then obtain x y where "selectWithDiversity [a, b] 2 = [x, y]" "x \<in> {a, b}" "y \<in> {a, b}"
    by (auto simp: length_Suc_conv numeral_2_eq_2)
  then show ?thesis using assms(1) by auto
qed

section \<open>Witnesses\<close>

definition sample_candidate :: "nat \<Rightarrow> string \<Rightarrow> candidate" where
  "sample_candidate n r = \<lparr>k_ref = n, k_address = ''0xa'', k_peer_id = ''p'', k_endpoint = None,
     k_region = Some r, k_reputation = 50\<rparr>"

theorem selectWithDiversity_spreads_witness:
  "k_region ` set (selectWithDiversity [sample_candidate 0 ''eu'', sample_candidate 1 ''eu'', sample_candidate 2 ''us''] 2) =
     {Some ''eu'', Some ''us''}"
  using selectWithDiversity_spreads[of "[sample_candidate 0 ''eu'', sample_candidate 1 ''eu'', sample_candidate 2 ''us'']" 2]
  by (simp add: sample_candidate_def)

theorem one_provider_chosen_twice_witness:
  "\<not> distinct (map k_address (selectWithDiversity [sample_candidate 0 ''eu'', sample_candidate 1 ''us''] 2))"
  by (rule one_provider_chosen_twice) (simp_all add: sample_candidate_def)

definition wide_provider :: "nat \<Rightarrow> provider_row" where
  "wide_provider n = \<lparr>p_address = nat_str n, p_peer_id = ''peer'', p_endpoint = None, p_region = Some (nat_str n),
     p_reputation = 60, p_active = True, p_last_heartbeat = None, p_last_proof_at = None,
     p_registered_at = 0, p_pledged_gb = 0, p_used_gb = 0\<rparr>"

definition wide_pledge :: "nat \<Rightarrow> pledge_row" where
  "wide_pledge n = \<lparr>c_provider = nat_str n, c_pledge_id = 0, c_capacity_gb = 10, c_duration = 1, c_collateral = 1,
     c_utilization_gb = 0, c_active = True, c_created_at = 0, c_last_payment_at = None\<rparr>"

definition wide_db :: database where
  "wide_db = empty_db\<lparr>t_providers := map wide_provider [0..<16], t_pledges := map wide_pledge [0..<16]\<rparr>"

definition wide_env :: selection_env where
  "wide_env = \<lparr>reput_score = p_reputation, shuffle = rev\<rparr>"

theorem selectProvidersForDeal_result_witness:
  "\<exists>sels. selectProvidersForDeal wide_env 20 \<lparr>db = wide_db, clock = 0, script = []\<rparr> =
     (Inr sels, \<lparr>db = wide_db, clock = 0, script = []\<rparr>) \<and> map sel_index sels = [0..<15]"
proof -
  let ?w = "\<lparr>db = wide_db, clock = 0, script = []\<rparr>"
  have "length (eligible_rows wide_env (20 / 10) (db ?w)) = 16"
    by (simp add: eligible_rows_def wide_db_def wide_env_def MIN_REPUTATION_def wide_provider_def
        wide_pledge_def upt_conv_Cons)
  moreover have "fair_shuffle (shuffle wide_env)" by (simp add: fair_shuffle_def wide_env_def)
  ultimately show ?thesis
    using selectProvidersForDeal_result[of ?w wide_env 20] by auto
qed

end
