(* ===== verification/Deal_Orchestrator.thy ===== *)
theory Deal_Orchestrator
  imports Shard_Codec Replica_Selection
begin

text \<open>
  The deal orchestrator (\<^verbatim>\<open>services/deal-orchestrator/src/index.ts\<close>): creation of a deal from a
  stored file, termination, and repair of a deal through the marketplace contract.

  The contract is reached through transactions; the deal number it assigns is read from the
  receipt's \<^verbatim>\<open>DealCreated\<close> log and is a parameter (\<open>None\<close>: the log is missing, a TypeError).
\<close>

record orchestrator_env =
  oe_rs :: rs_lib
  oe_cid :: "byte list \<Rightarrow> string"
  oe_select :: selection_env
  oe_receipt :: "chain_call \<Rightarrow> string option"

definition GB :: nat where "GB = 1024 ^ 3"

definition create_call :: "string \<Rightarrow> nat \<Rightarrow> nat \<Rightarrow> rat \<Rightarrow> string list \<Rightarrow> shard_info list \<Rightarrow> chain_call" where
  "create_call fileCID tot durationDays pricePerGBMonth addresses infos =
     Tx ''StorageMarketplace'' ''createDeal''
       [JStr fileCID, JNum (of_int \<lceil>of_nat tot / of_nat GB / (3 / 2) :: rat\<rceil>), JNum (of_nat durationDays),
        JNum (pricePerGBMonth * 10 ^ 18), JArr (map JStr addresses),
        JArr (map (\<lambda>i. JStr (shardCID i)) infos),
        JArr (map (\<lambda>i. JNum (of_nat (ceil_div (sizeBytes i) GB))) infos)]"

definition createDeal :: "orchestrator_env \<Rightarrow> string \<Rightarrow> nat \<Rightarrow> rat \<Rightarrow> string sql" where
  "createDeal env fileCID durationDays pricePerGBMonth =
     bind (encodeFile (oe_rs env) (oe_cid env) fileCID) (\<lambda>shardInfos.
     let tot = sum_list (map sizeBytes shardInfos);
         fileSizeGB = of_nat tot / of_nat GB in
     bind (selectProvidersForDeal (oe_select env) (fileSizeGB / (3 / 2))) (\<lambda>providers.
     let call = create_call fileCID tot durationDays pricePerGBMonth (map sel_address providers) shardInfos in
     andthen (send_tx call)
       (case oe_receipt env call of
          Some dealId \<Rightarrow> ret dealId
        | None \<Rightarrow> throw ''Cannot read properties of undefined'')))"

definition terminateDeal :: "string \<Rightarrow> unit sql" where
  "terminateDeal dealId =
     andthen (send_tx (Tx ''StorageMarketplace'' ''cancelDeal'' [JStr dealId]))
    (bind now (\<lambda>t.
     andthen (writes (set_deal_status Cancelled (\<lambda>d. d\<lparr>d_cancelled_at := Some t\<rparr>) dealId))
    (andthen (writes (deactivate_deal_shards t dealId))
             (writes (add_event ''DEAL_TERMINATED'' (''Deal #'' @ dealId @ '' terminated via orchestrator'')
                (JObj [(''dealId'', JStr dealId)]) t)))))"

text \<open>
  \<^verbatim>\<open>UPDATE shards SET provider_address, shard_cid, active = true WHERE deal_id AND shard_index\<close>,
  refused when it would duplicate a primary key.
\<close>

definition reassign_shard :: "string \<Rightarrow> nat \<Rightarrow> string \<Rightarrow> string \<Rightarrow> database \<Rightarrow> (unit \<times> database) option" where
  "reassign_shard dealId idx prov cid s =
     (let rows = sql_update (\<lambda>h. s_deal h = dealId \<and> s_index h = idx)
                   (\<lambda>h. h\<lparr>s_provider := prov, s_cid := cid, s_active := True\<rparr>) (t_shards s)
      in if distinct (map shard_key rows) then Some ((), s\<lparr>t_shards := rows\<rparr>) else None)"

definition repair_one :: "orchestrator_env \<Rightarrow> string \<Rightarrow> (string \<times> nat) list \<Rightarrow> shard_row \<Rightarrow> unit sql" where
  "repair_one env dealId availableShards missing =
     bind (reconstructShard (oe_rs env) availableShards (s_index missing)) (\<lambda>shardData.
     case shardData of
       None \<Rightarrow> throw ''Unexpected input: undefined''
     | Some d \<Rightarrow>
        bind (ipfs_add (oe_cid env) d) (\<lambda>newShardCID.
        bind (selectProvidersForDeal (oe_select env) (1 / 10)) (\<lambda>newProviders.
        case newProviders of
          [] \<Rightarrow> throw ''Cannot read properties of undefined''
        | np # _ \<Rightarrow>
           andthen (send_tx (Tx ''StorageMarketplace'' ''repairShard''
               [JStr dealId, JStr (s_provider missing), JStr (sel_address np), JStr newShardCID]))
             (effect (reassign_shard dealId (s_index missing) (sel_address np) newShardCID)))))"

definition repairDeal :: "orchestrator_env \<Rightarrow> string \<Rightarrow> shard_row list \<Rightarrow> unit sql" where
  "repairDeal env dealId shards = logged (
     let missingShards = filter (\<lambda>h. \<not> s_active h) shards;
         availableShards = map (\<lambda>h. (s_cid h, s_index h)) (filter s_active shards)
     in if length availableShards < 10 then throw ''Cannot repair deal: insufficient shards available''
        else for_each missingShards (repair_one env dealId availableShards))"

definition monitorDeal :: "orchestrator_env \<Rightarrow> string \<Rightarrow> unit sql" where
  "monitorDeal env dealId =
     bind (reads (\<lambda>s. filter (\<lambda>h. s_deal h = dealId) (t_shards s))) (\<lambda>shards.
       if length (filter s_active shards) < 15 then repairDeal env dealId shards else ret ())"

section \<open>Creating a deal\<close>

lemma selectProviders_fifteen:
  assumes "script w = []" and "fair_shuffle (shuffle env)" and "15 \<le> length (eligible_rows env (g / 10) (db w))"
  shows "\<exists>sels. selectProvidersForDeal env g w = (Inr sels, w) \<and> length sels = 15"
proof -
  let ?rows = "order_by (\<lambda>c. - k_reputation c) (shuffle env (eligible_rows env (g / 10) (db w)))"
  have rows: "15 \<le> length ?rows" "distinct ?rows"
    using assms eligible_distinct by (auto simp: fair_shuffle_def)
  have size: "g * 3 / 2 / of_nat REQUIRED_SHARDS = g / 10" by (simp add: REQUIRED_SHARDS_def)
  show ?thesis
    unfolding selectProvidersForDeal_def Let_def size
    using assms(1) rows spreads[OF rows(2), of 15] by (simp add: REQUIRED_SHARDS_def)
qed

text \<open>
  A deal is created in one contract call: if the file is stored, the erasure code is systematic, the
  identifiers are collision-free, enough providers are eligible and nothing fails, then exactly one
  transaction is sent, it names fifteen providers and fifteen shard identifiers, each served by the
  cluster, and the number from the receipt is returned.
\<close>

theorem createDeal_one_call:
  assumes "rs_systematic (oe_rs env)" and "inj (oe_cid env)" and "script w = []"
    and "blocks (db w) f = Some data" and "fair_shuffle (shuffle (oe_select env))"
    and "\<And>c. oe_receipt env c = Some i"
    and "15 \<le> length (eligible_rows (oe_select env)
      (of_nat (15 * ceil_div (length data) 10) / of_nat GB / (3 / 2) / 10) (db w))"
  shows "\<exists>provs infos w'. createDeal env f n price w = (Inr i, w') \<and> length provs = 15 \<and> length infos = 15 \<and>
    txs (db w') = txs (db w) @ [create_call f (15 * ceil_div (length data) 10) n price provs infos] \<and>
    (\<forall>s \<in> set infos. \<exists>b. blocks (db w') (shardCID s) = Some b \<and> length b = ceil_div (length data) 10)"
proof -
  let ?ss = "ceil_div (length data) 10"
  obtain sh where sh: "applyErasureCoding (oe_rs env) data = Some sh" "length sh = 15"
    "\<forall>i < 15. length (sh ! i) = ?ss" "concat (take 10 sh) = padded data"
    and run: "encodeFile (oe_rs env) (oe_cid env) f w = (Inr (map (info_of (oe_cid env) f) (enumerate 0 sh)),
      w\<lparr>db := (db w)\<lparr>blocks := fold (\<lambda>d m. m(oe_cid env d \<mapsto> d)) sh (blocks (db w))\<rparr>\<rparr>)"
    by (rule encodeFile_run[OF assms(1,3,4), where cid_of = "oe_cid env"])
  let ?infos = "map (info_of (oe_cid env) f) (enumerate 0 sh)"
  let ?bl = "fold (\<lambda>d m. m(oe_cid env d \<mapsto> d)) sh (blocks (db w))"
  let ?w = "w\<lparr>db := (db w)\<lparr>blocks := ?bl\<rparr>\<rparr>"
  have lens: "length b = ?ss" if "b \<in> set sh" for b using that sh(2,3) by (auto simp: in_set_conv_nth)
  have "sizeBytes \<circ> info_of (oe_cid env) f = length \<circ> snd" by (simp add: fun_eq_iff info_of_def)
  then have "map sizeBytes ?infos = map length (map snd (enumerate 0 sh))" by (simp del: map_snd_enumerate)
  also have "\<dots> = map (\<lambda>_. ?ss) sh" using lens by simp
  finally have tot: "sum_list (map sizeBytes ?infos) = 15 * ?ss"
    using sh(2) by (simp only: map_replicate_const sum_list_replicate) simp
  have same: "eligible_rows (oe_select env) g (db ?w) = eligible_rows (oe_select env) g (db w)" for g
    by (simp add: eligible_rows_def)
  obtain sels where sels: "selectProvidersForDeal (oe_select env) (of_nat (15 * ?ss) / of_nat GB / (3 / 2)) ?w = (Inr sels, ?w)"
    "length sels = 15"
    using selectProviders_fifteen[of ?w "oe_select env"] assms(3,5,7) unfolding same by fastforce
  let ?call = "create_call f (15 * ?ss) n price (map sel_address sels) ?infos"
  have "createDeal env f n price w = (Inr i, ?w\<lparr>db := (db ?w)\<lparr>txs := txs (db ?w) @ [?call]\<rparr>\<rparr>)"
    using run sels(1) assms(3,6) tot by (simp add: createDeal_def Let_def send_tx_def)
  moreover have "\<exists>b. ?bl (shardCID s) = Some b \<and> length b = ?ss" if "s \<in> set ?infos" for s
  proof -
    from that obtain b where "b \<in> set sh" "shardCID s = oe_cid env b"
      by (auto simp: info_of_def enumerate_eq_zip dest: set_zip_rightD)
    then show ?thesis using stored_block[OF assms(2), of b sh] lens by auto
  qed
  ultimately show ?thesis
    using sels(2) sh(2) by (intro exI[of _ "map sel_address sels"] exI[of _ ?infos]) auto
qed
section \<open>Ending and repairing a deal\<close>

text \<open>
  Termination is chain first: whatever fails, the store is touched only after the cancel transaction
  has been sent, and at most one is sent; and if nothing fails, the deal is cancelled and no shard
  of it is active.
\<close>

theorem terminateDeal_chain_first:
  "(txs (final (terminateDeal i) w) = txs (db w) \<longrightarrow> final (terminateDeal i) w = db w) \<and>
   (txs (final (terminateDeal i) w) = txs (db w) \<or>
    txs (final (terminateDeal i) w) = txs (db w) @ [Tx ''StorageMarketplace'' ''cancelDeal'' [JStr i]]) \<and>
   (script w = [] \<longrightarrow> active_shards i (final (terminateDeal i) w) = [] \<and>
      status_of (final (terminateDeal i) w) i = map_option (\<lambda>_. Cancelled) (status_of (db w) i))"
proof (intro conjI impI)
  let ?c = "Tx ''StorageMarketplace'' ''cancelDeal'' [JStr i]"
  let ?P = "\<lambda>s'. s' = db w \<or> txs s' = txs (db w) @ [?c]"
  have "?P (final (terminateDeal i) w)"
    unfolding terminateDeal_def
    by (rule wp_final_now, intro wp_rules)
       (simp_all add: set_deal_status_def deactivate_deal_shards_def add_event_def)
  then show "txs (final (terminateDeal i) w) = txs (db w) \<Longrightarrow> final (terminateDeal i) w = db w"
    and "txs (final (terminateDeal i) w) = txs (db w) \<or> txs (final (terminateDeal i) w) = txs (db w) @ [?c]"
    by auto
  assume "script w = []"
  then have fin: "final (terminateDeal i) w = add_event ''DEAL_TERMINATED'' (''Deal #'' @ i @ '' terminated via orchestrator'')
      (JObj [(''dealId'', JStr i)]) (clock w) (deactivate_deal_shards (clock w) i
        (set_deal_status Cancelled (\<lambda>d. d\<lparr>d_cancelled_at := Some (clock w)\<rparr>) i ((db w)\<lparr>txs := txs (db w) @ [?c]\<rparr>)))"
    by (simp add: terminateDeal_def send_tx_def final_def)
  show "active_shards i (final (terminateDeal i) w) = []"
    "status_of (final (terminateDeal i) w) i = map_option (\<lambda>_. Cancelled) (status_of (db w) i)"
    unfolding fin by simp_all
qed

text \<open>
  Repairing through the orchestrator announces before it records: if the provider drawn for the
  missing shard already holds another shard of the deal, the repair transaction is sent and the
  recomputed shard uploaded, but the row update violates the shard table's key, so the shard stays
  inactive in the store.
\<close>

theorem repair_announced_not_recorded:
  assumes "script w = []" and "reconstructShard (oe_rs env) av (s_index m) w = (Inr (Some d), w)"
    and "w1 = w\<lparr>db := (db w)\<lparr>blocks := (blocks (db w))(oe_cid env d \<mapsto> d)\<rparr>\<rparr>"
    and "selectProvidersForDeal (oe_select env) (1 / 10) w1 = (Inr (np # rest), w1)"
    and "m \<in> set (t_shards (db w))" and "s_deal m = i"
    and "h \<in> set (t_shards (db w))" and "shard_key h = (i, sel_address np)" and "s_index h \<noteq> s_index m"
  shows "\<exists>w'. repair_one env i av m w = (Inl ''refused'', w') \<and> t_shards (db w') = t_shards (db w) \<and>
    txs (db w') = txs (db w) @ [Tx ''StorageMarketplace'' ''repairShard''
      [JStr i, JStr (s_provider m), JStr (sel_address np), JStr (oe_cid env d)]]"
proof -
  let ?f = "\<lambda>h. h\<lparr>s_provider := sel_address np, s_cid := oe_cid env d, s_active := True\<rparr>"
  let ?rows = "sql_update (\<lambda>h. s_deal h = i \<and> s_index h = s_index m) ?f (t_shards (db w))"
  have "?f m \<in> set ?rows" "h \<in> set ?rows"
    using sql_update_in[OF assms(5), of "\<lambda>h. s_deal h = i \<and> s_index h = s_index m" ?f]
      sql_update_in[OF assms(7), of "\<lambda>h. s_deal h = i \<and> s_index h = s_index m" ?f] assms(6,9)
    by simp_all
  moreover have "?f m \<noteq> h"
  proof
    assume "?f m = h"
    then have "s_index (?f m) = s_index h" by (rule arg_cong)
    then show False using assms(9) by simp
  qed
  moreover have "shard_key (?f m) = shard_key h" using assms(6,8) by (simp add: shard_key_def)
  ultimately have "\<not> distinct (map shard_key ?rows)" by (rule not_distinct_map)
  then have refuse: "reassign_shard i (s_index m) (sel_address np) (oe_cid env d)
      ((db w)\<lparr>blocks := bl, txs := tx\<rparr>) = None" for bl tx
    by (simp add: reassign_shard_def Let_def)
  show ?thesis
    using assms(1-4) refuse by (simp add: repair_one_def send_tx_def effect_Nil)
qed

section \<open>Witnesses\<close>

definition orch_env :: orchestrator_env where
  "orch_env = \<lparr>oe_rs = copy_code, oe_cid = plain_cid, oe_select = wide_env, oe_receipt = (\<lambda>_. Some ''42'')\<rparr>"

lemma wide_fair: "fair_shuffle (shuffle wide_env)"
  by (simp add: fair_shuffle_def wide_env_def)

lemma wide_eligible: "g \<le> 10 \<Longrightarrow> length (eligible_rows wide_env g wide_db) = 16"
  by (simp add: eligible_rows_def wide_db_def wide_env_def MIN_REPUTATION_def wide_provider_def
      wide_pledge_def upt_conv_Cons)

lemma eligible_other_tables:
  "eligible_rows env g (s\<lparr>blocks := bl\<rparr>) = eligible_rows env g s"
  "eligible_rows env g (s\<lparr>t_shards := sh\<rparr>) = eligible_rows env g s"
  by (simp_all add: eligible_rows_def)

theorem createDeal_one_call_witness:
  "\<exists>w'. createDeal orch_env ''f'' 30 1 \<lparr>db = wide_db\<lparr>blocks := [''f'' \<mapsto> sample_file]\<rparr>, clock = 0, script = []\<rparr> =
     (Inr ''42'', w')"
proof -
  let ?w = "\<lparr>db = wide_db\<lparr>blocks := [''f'' \<mapsto> sample_file]\<rparr>, clock = 0, script = []\<rparr>"
  have p1: "rs_systematic (oe_rs orch_env)" "inj (oe_cid orch_env)" "script ?w = []"
    "blocks (db ?w) ''f'' = Some sample_file" "fair_shuffle (shuffle (oe_select orch_env))"
    "oe_receipt orch_env c = Some ''42''" for c
    using copy_code_systematic inj_plain_cid wide_fair by (simp_all add: orch_env_def)
  have "ceil_div (length sample_file) 10 = 2" by (simp add: sample_file_def ceil_div_def)
  then have "of_nat (15 * ceil_div (length sample_file) 10) / of_nat GB / (3 / 2) / 10 \<le> (10 :: rat)"
    by (simp add: GB_def)
  then have "15 \<le> length (eligible_rows (oe_select orch_env)
      (of_nat (15 * ceil_div (length sample_file) 10) / of_nat GB / (3 / 2) / 10) (db ?w))"
    using wide_eligible by (simp add: orch_env_def eligible_other_tables)
  from createDeal_one_call[OF p1 this, of 30 1] show ?thesis by blast
qed

theorem terminateDeal_chain_first_witness:
  "active_shards ''1'' (final (terminateDeal ''1'') \<lparr>db = empty_db, clock = 0, script = []\<rparr>) = []"
  using terminateDeal_chain_first[of "''1''" "\<lparr>db = empty_db, clock = 0, script = []\<rparr>"] by simp

theorem repair_announced_not_recorded_witness:
  "\<exists>m w w'. repair_one orch_env ''d'' sample_avail m w = (Inl ''refused'', w') \<and> txs (db w') \<noteq> txs (db w)"
proof -
  define base where "base = wide_db\<lparr>blocks := blocks sample_db\<rparr>"
  define row where "row a n = \<lparr>s_deal = ''d'', s_provider = a, s_index = n, s_cid = ''c'', s_size = None,
    s_is_data = None, s_active = False, s_created_at = 0, s_lost_at = None, s_deleted_at = None\<rparr>" for a n
  obtain np rest where np: "\<And>bl sh. selectProvidersForDeal wide_env (1 / 10)
      \<lparr>db = wide_db\<lparr>t_shards := sh, blocks := bl\<rparr>, clock = 0, script = []\<rparr> =
      (Inr (np # rest), \<lparr>db = wide_db\<lparr>t_shards := sh, blocks := bl\<rparr>, clock = 0, script = []\<rparr>)"
  proof -
    obtain sels where "selectProvidersForDeal wide_env (1 / 10) \<lparr>db = wide_db, clock = 0, script = []\<rparr> =
        (Inr sels, \<lparr>db = wide_db, clock = 0, script = []\<rparr>)" "length sels = 15"
      using selectProviders_fifteen[of "\<lparr>db = wide_db, clock = 0, script = []\<rparr>" wide_env "1 / 10"]
        wide_fair wide_eligible[of "1 / 10 / 10"] by auto
    then show ?thesis
      using that[of "hd sels" "tl sels"]
      by (cases sels) (auto simp: selectProvidersForDeal_def Let_def eligible_other_tables split: if_splits)
  qed
  let ?m = "row ''x'' 2" and ?h = "row (sel_address np) 3"
  let ?w = "\<lparr>db = base\<lparr>t_shards := [?m, ?h]\<rparr>, clock = 0, script = []\<rparr>"
  have "available sample_avail sample_shards (db ?w)"
    using sample_available by (simp add: available_def base_def)
  moreover have "rs_recovers copy_code (map (\<lambda>i. i \<in> snd ` set sample_avail) [0..<15])"
    unfolding sample_avail_maps by (rule copy_code_recovers')
  ultimately have "reconstructShard copy_code sample_avail 2 ?w = (Inr (Some (sample_shards ! 2)), ?w)"
    by (intro reconstructShard_run[OF copy_code_systematic sample_encoded]) simp_all
  then have rc: "reconstructShard (oe_rs orch_env) sample_avail (s_index ?m) ?w = (Inr (Some (sample_shards ! 2)), ?w)"
    by (simp add: orch_env_def row_def)
  let ?w1 = "?w\<lparr>db := (db ?w)\<lparr>blocks := (blocks (db ?w))(oe_cid orch_env (sample_shards ! 2) \<mapsto> sample_shards ! 2)\<rparr>\<rparr>"
  have sel: "selectProvidersForDeal (oe_select orch_env) (1 / 10) ?w1 = (Inr (np # rest), ?w1)"
    using np by (simp add: orch_env_def base_def)
  have q: "script ?w = []" "?m \<in> set (t_shards (db ?w))" "s_deal ?m = ''d''" "?h \<in> set (t_shards (db ?w))"
    "shard_key ?h = (''d'', sel_address np)" "s_index ?h \<noteq> s_index ?m"
    by (simp_all add: row_def shard_key_def)
  from repair_announced_not_recorded[OF q(1) rc refl sel q(2-6)] show ?thesis
    by (elim exE conjE) (intro exI conjI, assumption, simp)
qed

end
