(* ===== verification/Settlement.thy ===== *)
theory Settlement
  imports Kyn_Database "HOL-Library.Sublist"
begin

text \<open>
  The pattern behind rewards, bonuses, missed proofs and slashing: read what is due, send one
  transaction per entry and mark the entry, each entry in its own \<^verbatim>\<open>try\<close>/\<^verbatim>\<open>catch\<close>.
  The locale states what such a service promises about its query, its transaction and its
  mark; the lemmas say what a pass pays and marks, with and without failures.
\<close>

definition limit :: "nat option \<Rightarrow> 'a list \<Rightarrow> 'a list" where
  "limit n xs = (case n of None \<Rightarrow> xs | Some k \<Rightarrow> take k xs)"

lemma limit_simps [simp]: "limit None xs = xs" "limit (Some k) xs = take k xs"
  by (simp_all add: limit_def)

lemma subseq_subset: "subseq xs ys \<Longrightarrow> set xs \<subseteq> set ys"
  by (induction rule: list_emb.induct) auto

lemma distinct_subseq: "subseq xs ys \<Longrightarrow> distinct ys \<Longrightarrow> distinct xs"
  by (induction rule: list_emb.induct) (auto dest: subseq_subset)

lemma subseq_limit: "subseq (limit n xs) xs"
  by (cases n) (auto simp: prefix_imp_subseq take_is_prefix)

lemma distinct_limit: "distinct xs \<Longrightarrow> distinct (limit n xs)"
  by (cases n) auto

lemma set_limit: "set (limit n xs) \<subseteq> set xs"
  by (cases n) (auto dest: in_set_takeD)

definition settle_one :: "('k \<Rightarrow> chain_call) \<Rightarrow> (int \<Rightarrow> 'k \<Rightarrow> database \<Rightarrow> database) \<Rightarrow> 'k \<Rightarrow> unit sql" where
  "settle_one tx mark k =
     logged (bind now (\<lambda>t. andthen (send_tx (tx k)) (writes (mark t k))))"

lemma settle_one_eta:
  "settle_one tx mark = (\<lambda>k. logged (bind now (\<lambda>t. andthen (send_tx (tx k)) (writes (mark t k)))))"
  by (rule ext) (rule settle_one_def)

definition settle_pass ::
  "(int \<Rightarrow> database \<Rightarrow> 'k list) \<Rightarrow> ('k \<Rightarrow> chain_call) \<Rightarrow> (int \<Rightarrow> 'k \<Rightarrow> database \<Rightarrow> database) \<Rightarrow>
     nat option \<Rightarrow> unit sql" where
  "settle_pass due tx mark n =
     logged (bind now (\<lambda>t. bind (reads (\<lambda>s. limit n (due t s))) (\<lambda>ks. for_each ks (settle_one tx mark))))"

locale settlement =
  fixes due :: "int \<Rightarrow> database \<Rightarrow> 'k list"
    and tx :: "'k \<Rightarrow> chain_call"
    and mark :: "int \<Rightarrow> 'k \<Rightarrow> database \<Rightarrow> database"
    and ok :: "database \<Rightarrow> bool"
  assumes due_tx: "due t (s\<lparr>txs := x\<rparr>) = due t s"
    and due_mark: "ok s \<Longrightarrow> k \<in> set (due t s) \<Longrightarrow> due t (mark t k s) = filter (\<lambda>j. j \<noteq> k) (due t s)"
    and mark_txs: "txs (mark t k s) = txs s"
    and due_distinct: "ok s \<Longrightarrow> distinct (due t s)"
    and ok_mark: "ok s \<Longrightarrow> ok (mark t k s)"
    and ok_tx: "ok s \<Longrightarrow> ok (s\<lparr>txs := x\<rparr>)"
begin

text \<open>What a run over the entries \<open>ks\<close> may have done: \<open>ps\<close> were paid, at most those are marked.\<close>

definition settled :: "int \<Rightarrow> 'k list \<Rightarrow> database \<Rightarrow> database \<Rightarrow> bool" where
  "settled t ks s s' \<longleftrightarrow> ok s' \<and> (\<exists>ps. subseq ps ks \<and> txs s' = txs s @ map tx ps \<and>
     set (due t s) - set ps \<subseteq> set (due t s') \<and> set (due t s') \<subseteq> set (due t s))"

lemma settle_one_any:
  assumes "ok s" and "k \<in> set (due t s)"
  shows "wp t (settle_one tx mark k) (\<lambda>_. settled t [k] s) E s"
proof -
  have "settled t [k] s s"
    using assms(1) by (auto simp: settled_def intro!: exI[of _ "[]"])
  moreover have "settled t [k] s (s\<lparr>txs := txs s @ [tx k]\<rparr>)"
    using assms(1) by (auto simp: settled_def due_tx ok_tx intro!: exI[of _ "[k]"])
  moreover have "settled t [k] s (mark t k (s\<lparr>txs := txs s @ [tx k]\<rparr>))"
    using assms
    by (auto simp: settled_def due_tx ok_tx ok_mark mark_txs due_mark intro!: exI[of _ "[k]"])
  ultimately show ?thesis
    unfolding settle_one_def by (intro wp_rules) auto
qed

lemma settle_loop_any:
  assumes "ok s" and "distinct ks" and "set ks \<subseteq> set (due t s)"
  shows "wp t (for_each ks (settle_one tx mark)) (\<lambda>_. settled t ks s) E s"
  using assms
proof (induction ks arbitrary: s)
  case Nil
  then show ?case
    unfolding for_each.simps by (intro wp_ret) (auto simp: settled_def intro!: exI[of _ "[]"])
next
  case (Cons k ks)
  have "wp t (settle_one tx mark k) (\<lambda>_. settled t [k] s) E s"
    by (rule settle_one_any) (use Cons.prems in auto)
  then have "wp t (settle_one tx mark k)
      (\<lambda>_. wp t (for_each ks (settle_one tx mark)) (\<lambda>_. settled t (k # ks) s) E) E s"
  proof (rule wp_mono)
    fix s1
    assume s1: "settled t [k] s s1"
    then obtain ps where ps: "subseq ps [k]" "txs s1 = txs s @ map tx ps"
      "set (due t s) - set ps \<subseteq> set (due t s1)" "set (due t s1) \<subseteq> set (due t s)" "ok s1"
      by (auto simp: settled_def)
    have "set ps \<subseteq> {k}" using subseq_subset[OF ps(1)] by simp
    then have "set ks \<subseteq> set (due t s1)" using ps(3) Cons.prems by auto
    then have "wp t (for_each ks (settle_one tx mark)) (\<lambda>_. settled t ks s1) E s1"
      using Cons ps(5) by simp
    then show "wp t (for_each ks (settle_one tx mark)) (\<lambda>_. settled t (k # ks) s) E s1"
    proof (rule wp_mono)
      fix s2
      assume "settled t ks s1 s2"
      then obtain qs where "subseq qs ks" "txs s2 = txs s1 @ map tx qs"
        "set (due t s1) - set qs \<subseteq> set (due t s2)" "set (due t s2) \<subseteq> set (due t s1)" "ok s2"
        by (auto simp: settled_def)
      moreover from this ps have "subseq (ps @ qs) (k # ks)"
        by (metis append_Cons append_Nil list_emb_append_mono)
      ultimately show "settled t (k # ks) s s2"
        using ps unfolding settled_def by (intro conjI exI[of _ "ps @ qs"]) auto
    qed simp
  qed simp
  then show ?case by (auto intro: wp_andthen)
qed

text \<open>
  Under every pattern of failures a pass pays a sublist of the due entries, each at most
  once, and an entry that is no longer due afterwards was paid.
\<close>

lemma pass_any:
  assumes "ok (db w)"
  obtains ps where "subseq ps (limit n (due (clock w) (db w)))" and "distinct ps"
    and "txs (final (settle_pass due tx mark n) w) = txs (db w) @ map tx ps"
    and "set (due (clock w) (db w)) - set (due (clock w) (final (settle_pass due tx mark n) w)) \<subseteq> set ps"
    and "set (due (clock w) (final (settle_pass due tx mark n) w)) \<subseteq> set (due (clock w) (db w))"
    and "ok (final (settle_pass due tx mark n) w)"
proof -
  let ?ks = "limit n (due (clock w) (db w))"
  have ks: "distinct ?ks" "set ?ks \<subseteq> set (due (clock w) (db w))"
    by (auto intro: distinct_limit due_distinct assms set_limit[THEN subsetD])
  have none: "settled (clock w) ?ks (db w) (db w)"
    using assms by (auto simp: settled_def intro!: exI[of _ "[]"])
  have "settled (clock w) ?ks (db w) (final (settle_pass due tx mark n) w)"
    unfolding settle_pass_def
    by (rule wp_final_now, intro wp_rules none settle_loop_any assms ks)
  then obtain ps where ps: "subseq ps ?ks" "txs (final (settle_pass due tx mark n) w) = txs (db w) @ map tx ps"
    "set (due (clock w) (db w)) - set ps \<subseteq> set (due (clock w) (final (settle_pass due tx mark n) w))"
    "set (due (clock w) (final (settle_pass due tx mark n) w)) \<subseteq> set (due (clock w) (db w))"
    "ok (final (settle_pass due tx mark n) w)"
    unfolding settled_def by blast
  then show thesis using that[OF ps(1) distinct_subseq[OF ps(1) ks(1)]] by blast
qed

lemma settle_one_run:
  "script w = [] \<Longrightarrow> settle_one tx mark k w =
     (Inr (), w\<lparr>db := mark (clock w) k ((db w)\<lparr>txs := txs (db w) @ [tx k]\<rparr>)\<rparr>)"
  by (simp add: settle_one_def logged_def send_tx_def)

lemma settle_loop_run:
  assumes "script w = []" and "ok (db w)" and "distinct ks" and "set ks \<subseteq> set (due (clock w) (db w))"
  shows "\<exists>s'. for_each ks (settle_one tx mark) w = (Inr (), w\<lparr>db := s'\<rparr>) \<and> ok s' \<and>
    txs s' = txs (db w) @ map tx ks \<and>
    due (clock w) s' = filter (\<lambda>j. j \<notin> set ks) (due (clock w) (db w))"
  using assms
proof (induction ks arbitrary: w)
  case Nil
  then show ?case by (auto intro!: exI[of _ "db w"])
next
  case (Cons k ks)
  let ?s = "mark (clock w) k ((db w)\<lparr>txs := txs (db w) @ [tx k]\<rparr>)"
  have s: "ok ?s" "txs ?s = txs (db w) @ [tx k]"
    "due (clock w) ?s = filter (\<lambda>j. j \<noteq> k) (due (clock w) (db w))"
    using Cons.prems by (auto simp: ok_mark ok_tx mark_txs due_mark due_tx)
  have "\<exists>s'. for_each ks (settle_one tx mark) (w\<lparr>db := ?s\<rparr>) = (Inr (), w\<lparr>db := ?s\<rparr>\<lparr>db := s'\<rparr>) \<and> ok s' \<and>
      txs s' = txs (db (w\<lparr>db := ?s\<rparr>)) @ map tx ks \<and>
      due (clock (w\<lparr>db := ?s\<rparr>)) s' = filter (\<lambda>j. j \<notin> set ks) (due (clock (w\<lparr>db := ?s\<rparr>)) (db (w\<lparr>db := ?s\<rparr>)))"
    by (rule Cons.IH) (use Cons.prems s in auto)
  then show ?case
    using Cons.prems s by (auto simp: settle_one_run conj_commute)
qed

text \<open>Without failures exactly the due entries (up to the limit) are paid, in order, and no longer due.\<close>

lemma pass_run:
  assumes "script w = []" and "ok (db w)"
  shows "txs (final (settle_pass due tx mark n) w) = txs (db w) @ map tx (limit n (due (clock w) (db w))) \<and>
    due (clock w) (final (settle_pass due tx mark n) w) =
      filter (\<lambda>j. j \<notin> set (limit n (due (clock w) (db w)))) (due (clock w) (db w))"
proof -
  let ?ks = "limit n (due (clock w) (db w))"
  have "distinct ?ks" "set ?ks \<subseteq> set (due (clock w) (db w))"
    by (auto intro: distinct_limit due_distinct assms set_limit[THEN subsetD])
  from settle_loop_run[OF assms this] show ?thesis
    using assms(1) by (auto simp: settle_pass_def final_def logged_def)
qed

end
end
