(* ===== verification/Payment_Processor.thy ===== *)
theory Payment_Processor
  imports Settlement
begin

text \<open>
  The payment processor (\<^verbatim>\<open>services/payment-processor/src/index.ts\<close>): monthly capacity rewards,
  usage rewards of completed deals and proof bonuses. The tables \<^verbatim>\<open>proof_submissions\<close> and the
  columns \<^verbatim>\<open>last_payment_at\<close> and \<^verbatim>\<open>payment_processed\<close> are not in the checked-in schema; they are
  part of the modelled store.
\<close>

definition days :: "int \<Rightarrow> int" where "days n = n * 24 * 60 * 60 * 1000"

section \<open>Capacity rewards\<close>

definition capacity_due :: "int \<Rightarrow> database \<Rightarrow> (string \<times> nat) list" where
  "capacity_due t s = map (\<lambda>c. (c_provider c, c_pledge_id c))
     (filter (\<lambda>c. c_active c \<and> (case c_last_payment_at c of None \<Rightarrow> True | Some p \<Rightarrow> p < t - days 30)) (t_pledges s))"

definition capacity_tx :: "string \<times> nat \<Rightarrow> chain_call" where
  "capacity_tx k = Tx ''Payments'' ''distributeCapacityRewards'' [JStr (fst k), JNum (of_nat (snd k))]"

definition capacity_mark :: "int \<Rightarrow> string \<times> nat \<Rightarrow> database \<Rightarrow> database" where
  "capacity_mark t k s = s\<lparr>t_pledges := sql_update (\<lambda>c. c_provider c = fst k \<and> c_pledge_id c = snd k)
     (\<lambda>c. c\<lparr>c_last_payment_at := Some t\<rparr>) (t_pledges s)\<rparr>"

definition processCapacityRewards :: "unit sql" where
  "processCapacityRewards = logged (bind now (\<lambda>t.
     bind (reads (\<lambda>s. limit (Some 50) (capacity_due t s))) (\<lambda>rows.
       for_each rows (\<lambda>row. logged (bind now (\<lambda>t.
         andthen (send_tx (capacity_tx row)) (writes (capacity_mark t row))))))))"

section \<open>Usage rewards\<close>

definition usage_due :: "int \<Rightarrow> database \<Rightarrow> string list" where
  "usage_due t s = map d_id (filter (\<lambda>d. d_status d = Completed \<and> d_status d \<noteq> Cancelled \<and>
     \<not> d_payment_processed d) (t_deals s))"

definition usage_tx :: "string \<Rightarrow> chain_call" where
  "usage_tx i = Tx ''Payments'' ''distributeUsageRewards'' [JStr i]"

definition usage_mark :: "int \<Rightarrow> string \<Rightarrow> database \<Rightarrow> database" where
  "usage_mark t i s = s\<lparr>t_deals := sql_update (\<lambda>d. d_id d = i) (\<lambda>d. d\<lparr>d_payment_processed := True\<rparr>) (t_deals s)\<rparr>"

definition processUsageRewards :: "unit sql" where
  "processUsageRewards = logged (bind now (\<lambda>t.
     bind (reads (\<lambda>s. limit (Some 50) (usage_due t s))) (\<lambda>rows.
       for_each rows (\<lambda>row. logged (bind now (\<lambda>t.
         andthen (send_tx (usage_tx row)) (writes (usage_mark t row))))))))"

section \<open>Proof bonuses\<close>

definition bonus_due :: "int \<Rightarrow> database \<Rightarrow> string list" where
  "bonus_due t s = remdups (map f_provider
     (filter (\<lambda>f. f_submitted_at f > t - days 1 \<and> \<not> f_bonus_paid f) (t_proofs s)))"

definition bonus_tx :: "string \<Rightarrow> chain_call" where
  "bonus_tx a = Tx ''Payments'' ''payProofBonus'' [JStr a]"

definition bonus_mark :: "int \<Rightarrow> string \<Rightarrow> database \<Rightarrow> database" where
  "bonus_mark t a s = s\<lparr>t_proofs := sql_update (\<lambda>f. f_provider f = a \<and> f_submitted_at f > t - days 1)
     (\<lambda>f. f\<lparr>f_bonus_paid := True\<rparr>) (t_proofs s)\<rparr>"

definition processProofBonuses :: "unit sql" where
  "processProofBonuses = logged (bind now (\<lambda>t.
     bind (reads (\<lambda>s. limit (Some 100) (bonus_due t s))) (\<lambda>rows.
       for_each rows (\<lambda>row. logged (bind now (\<lambda>t.
         andthen (send_tx (bonus_tx row)) (writes (bonus_mark t row))))))))"

definition processPayments :: "unit sql" where
  "processPayments = logged (andthen processCapacityRewards (andthen processUsageRewards processProofBonuses))"

section \<open>The three passes settle\<close>

lemma map_filter_update:
  assumes "\<And>r. key (f r) = key r" and "\<And>r. key r = k \<Longrightarrow> \<not> q (f r)" and "\<And>r. p r \<longleftrightarrow> key r = k"
  shows "map key (filter q (sql_update p f rs)) = filter (\<lambda>j. j \<noteq> k) (map key (filter q rs))"
  using assms by (induction rs) auto

interpretation capacity: settlement capacity_due capacity_tx capacity_mark keys_ok
proof unfold_locales
  fix t k s
  have "(case c_last_payment_at (c\<lparr>c_last_payment_at := Some t\<rparr>) of None \<Rightarrow> True | Some p \<Rightarrow> p < t - days 30) = False" for c :: pledge_row
    by (simp add: days_def)
  then show "capacity_due t (capacity_mark t k s) = filter (\<lambda>j. j \<noteq> k) (capacity_due t s)"
    unfolding capacity_due_def capacity_mark_def
    by (cases k) (simp, rule map_filter_update, auto)
  show "keys_ok s \<Longrightarrow> keys_ok (capacity_mark t k s)"
    by (simp add: capacity_mark_def keys_ok_def map_sql_update)
  show "keys_ok s \<Longrightarrow> distinct (capacity_due t s)"
    by (simp add: capacity_due_def keys_ok_def distinct_map_filter)
qed (simp_all add: capacity_due_def capacity_mark_def keys_ok_def)

interpretation usage: settlement usage_due usage_tx usage_mark keys_ok
proof unfold_locales
  fix t k s
  show "usage_due t (usage_mark t k s) = filter (\<lambda>j. j \<noteq> k) (usage_due t s)"
    unfolding usage_due_def usage_mark_def by (simp, rule map_filter_update) auto
  show "keys_ok s \<Longrightarrow> distinct (usage_due t s)"
    by (simp add: usage_due_def keys_ok_def distinct_map_filter)
  show "keys_ok s \<Longrightarrow> keys_ok (usage_mark t k s)"
    by (simp add: usage_mark_def keys_ok_def map_sql_update)
qed (simp_all add: usage_due_def usage_mark_def keys_ok_def)

interpretation bonus: settlement bonus_due bonus_tx bonus_mark "\<lambda>_. True"
proof unfold_locales
  fix t k s
  have keys: "map f_provider (filter (\<lambda>f. f_submitted_at f > t - days 1 \<and> \<not> f_bonus_paid f)
      (sql_update (\<lambda>f. f_provider f = k \<and> f_submitted_at f > t - days 1) (\<lambda>f. f\<lparr>f_bonus_paid := True\<rparr>) rs)) =
    filter (\<lambda>j. j \<noteq> k) (map f_provider (filter (\<lambda>f. f_submitted_at f > t - days 1 \<and> \<not> f_bonus_paid f) rs))" for rs
    by (induction rs) auto
  have "t_proofs (bonus_mark t k s) = sql_update (\<lambda>f. f_provider f = k \<and> f_submitted_at f > t - days 1)
      (\<lambda>f. f\<lparr>f_bonus_paid := True\<rparr>) (t_proofs s)"
    by (simp add: bonus_mark_def)
  then show "bonus_due t (bonus_mark t k s) = filter (\<lambda>j. j \<noteq> k) (bonus_due t s)"
    by (simp only: bonus_due_def keys remdups_filter)
qed (simp_all add: bonus_due_def bonus_mark_def)

lemma passes_settle:
  "processCapacityRewards = settle_pass capacity_due capacity_tx capacity_mark (Some 50)"
  "processUsageRewards = settle_pass usage_due usage_tx usage_mark (Some 50)"
  "processProofBonuses = settle_pass bonus_due bonus_tx bonus_mark (Some 100)"
  by (simp_all only: processCapacityRewards_def processUsageRewards_def processProofBonuses_def
      settle_pass_def settle_one_eta)
section \<open>What is paid\<close>

text \<open>
  C31. Usage rewards under any failures: a pass sends at most fifty reward transactions, each deal at most
  once, only for deals that are completed and unpaid (never a cancelled one), and a deal leaves
  the unpaid set only if its transaction was sent in this pass.
\<close>

theorem usage_rewards_safe:
  assumes "keys_ok (db w)"
  shows "\<exists>ps. txs (final processUsageRewards w) = txs (db w) @ map usage_tx ps \<and> distinct ps \<and> length ps \<le> 50 \<and>
    (\<forall>i \<in> set ps. \<exists>d \<in> set (t_deals (db w)). d_id d = i \<and> d_status d = Completed \<and> \<not> d_payment_processed d) \<and>
    (\<forall>i \<in> set (usage_due (clock w) (db w)). i \<notin> set ps \<longrightarrow> i \<in> set (usage_due (clock w) (final processUsageRewards w)))"
proof (rule usage.pass_any[OF assms, of "Some 50"])
  fix ps
  assume sub: "subseq ps (limit (Some 50) (usage_due (clock w) (db w)))" and "distinct ps"
    and "txs (final (settle_pass usage_due usage_tx usage_mark (Some 50)) w) = txs (db w) @ map usage_tx ps"
    and "set (usage_due (clock w) (db w)) -
      set (usage_due (clock w) (final (settle_pass usage_due usage_tx usage_mark (Some 50)) w)) \<subseteq> set ps"
  moreover have "length ps \<le> 50" using list_emb_length[OF sub] by simp
  moreover have "\<forall>i \<in> set ps. \<exists>d \<in> set (t_deals (db w)). d_id d = i \<and> d_status d = Completed \<and> \<not> d_payment_processed d"
    using subseq_subset[OF sub] by (force simp: usage_due_def dest: in_set_takeD)
  ultimately show ?thesis unfolding passes_settle by blast
qed

lemma capacity_loop_stamps:
  "script w = [] \<Longrightarrow> \<exists>s'. for_each ks (settle_one capacity_tx capacity_mark) w = (Inr (), w\<lparr>db := s'\<rparr>) \<and>
     txs s' = txs (db w) @ map capacity_tx ks \<and>
     t_pledges s' = map (\<lambda>c. if (c_provider c, c_pledge_id c) \<in> set ks
       then c\<lparr>c_last_payment_at := Some (clock w)\<rparr> else c) (t_pledges (db w))"
proof (induction ks arbitrary: w)
  case Nil
  then show ?case by (auto intro!: exI[of _ "db w"])
next
  case (Cons k ks)
  let ?w = "w\<lparr>db := capacity_mark (clock w) k ((db w)\<lparr>txs := txs (db w) @ [capacity_tx k]\<rparr>)\<rparr>"
  from Cons.IH[of ?w] Cons.prems obtain s' where s':
    "for_each ks (settle_one capacity_tx capacity_mark) ?w = (Inr (), ?w\<lparr>db := s'\<rparr>)"
    "txs s' = txs (db ?w) @ map capacity_tx ks"
    "t_pledges s' = map (\<lambda>c. if (c_provider c, c_pledge_id c) \<in> set ks
       then c\<lparr>c_last_payment_at := Some (clock ?w)\<rparr> else c) (t_pledges (db ?w))" by auto
  have "t_pledges s' = map (\<lambda>c. if (c_provider c, c_pledge_id c) \<in> set (k # ks)
       then c\<lparr>c_last_payment_at := Some (clock w)\<rparr> else c) (t_pledges (db w))"
    unfolding s'(3) by (cases k) (simp add: capacity_mark_def sql_update_def)
  then show ?case
    using Cons.prems s'(1,2) by (intro exI[of _ s']) (simp add: capacity.settle_one_run capacity.mark_txs)
qed

text \<open>
  Capacity rewards are monthly: after a pass in which nothing fails, the pledges it paid are exactly
  the first fifty due ones, and none of them is due again during the following thirty days.
\<close>

theorem capacity_rewards_monthly:
  assumes "script w = []" and "t' \<le> clock w + days 30"
  shows "\<exists>ps. txs (final processCapacityRewards w) = txs (db w) @ map capacity_tx ps \<and>
    ps = take 50 (capacity_due (clock w) (db w)) \<and>
    (\<forall>k \<in> set ps. k \<notin> set (capacity_due t' (final processCapacityRewards w)))"
proof -
  let ?ps = "take 50 (capacity_due (clock w) (db w))"
  obtain s' where run: "for_each ?ps (settle_one capacity_tx capacity_mark) w = (Inr (), w\<lparr>db := s'\<rparr>)"
    and tx: "txs s' = txs (db w) @ map capacity_tx ?ps"
    and pl: "t_pledges s' = map (\<lambda>c. if (c_provider c, c_pledge_id c) \<in> set ?ps
       then c\<lparr>c_last_payment_at := Some (clock w)\<rparr> else c) (t_pledges (db w))"
    using capacity_loop_stamps[OF assms(1)] by blast
  have fin: "final processCapacityRewards w = s'"
    using run assms(1) by (simp add: passes_settle settle_pass_def final_def logged_def)
  have "k \<notin> set (capacity_due t' s')" if "k \<in> set ?ps" for k
    using that assms(2) unfolding capacity_due_def pl by (auto split: if_splits)
  then show ?thesis unfolding fin using tx by (intro exI[of _ ?ps]) auto
qed

text \<open>
  Paying and marking are two steps: when the transaction goes through but the mark fails, the deal
  stays due, and the next pass pays it a second time.
\<close>

theorem usage_reward_paid_twice:
  assumes "keys_ok (db w)" and "usage_due (clock w) (db w) = [i]" and "script w = [False, False, True]"
  shows "txs (final (andthen processUsageRewards processUsageRewards) w) =
    txs (db w) @ [usage_tx i, usage_tx i]"
proof -
  let ?w = "w\<lparr>db := (db w)\<lparr>txs := txs (db w) @ [usage_tx i]\<rparr>, script := []\<rparr>"
  have first: "processUsageRewards w = (Inr (), ?w)"
    using assms(2,3)
    by (simp add: processUsageRewards_def send_tx_def act_defs)
  have "txs (final processUsageRewards ?w) = txs (db ?w) @ map usage_tx (limit (Some 50) (usage_due (clock ?w) (db ?w)))"
    unfolding passes_settle by (rule usage.pass_run[THEN conjunct1]) (use assms(1) in \<open>simp_all add: kept\<close>)
  moreover have "usage_due (clock ?w) (db ?w) = [i]" using assms(2) by (simp add: usage_due_def)
  ultimately have "txs (final processUsageRewards ?w) = txs (db w) @ [usage_tx i, usage_tx i]" by simp
  then show ?thesis using first by (simp add: final_def)
qed

section \<open>Witnesses\<close>

definition paid_deal :: "string \<Rightarrow> deal_status \<Rightarrow> deal_row" where
  "paid_deal i st = \<lparr>d_id = i, d_client = ''c'', d_file_cid = None, d_size_gb = 1, d_duration_days = None,
     d_price = None, d_total_cost = 1, d_provider_payment = None, d_protocol_fee = None, d_status = st,
     d_created_at = 0, d_completed_at = None, d_cancelled_at = None, d_is_encrypted = True, d_key = None,
     d_iv = None, d_tag = None, d_payment_processed = False, d_block = None\<rparr>"

definition pay_db :: database where
  "pay_db = empty_db\<lparr>t_deals := [paid_deal ''1'' Completed, paid_deal ''2'' Cancelled],
     t_pledges := [\<lparr>c_provider = ''p'', c_pledge_id = 0, c_capacity_gb = 1, c_duration = 1, c_collateral = 1,
       c_utilization_gb = 0, c_active = True, c_created_at = 0, c_last_payment_at = None\<rparr>]\<rparr>"

lemma pay_db_keys: "keys_ok pay_db"
  by (simp add: keys_ok_def pay_db_def empty_db_def paid_deal_def)

lemma pay_db_due: "usage_due t pay_db = [''1'']" "capacity_due t pay_db = [(''p'', 0)]"
  by (simp_all add: usage_due_def capacity_due_def pay_db_def paid_deal_def)

theorem usage_rewards_safe_witness:
  "\<exists>ps. txs (final processUsageRewards \<lparr>db = pay_db, clock = 0, script = [False, True]\<rparr>) = map usage_tx ps \<and> distinct ps"
  using usage_rewards_safe[of "\<lparr>db = pay_db, clock = 0, script = [False, True]\<rparr>"] pay_db_keys
  by (auto simp: pay_db_def empty_db_def)

theorem capacity_rewards_monthly_witness:
  "(''p'', 0) \<notin> set (capacity_due 2592000000 (final processCapacityRewards \<lparr>db = pay_db, clock = 0, script = []\<rparr>))"
  using capacity_rewards_monthly[of "\<lparr>db = pay_db, clock = 0, script = []\<rparr>" 2592000000]
  by (auto simp: pay_db_due days_def)

theorem usage_reward_paid_twice_witness:
  "txs (final (andthen processUsageRewards processUsageRewards)
     \<lparr>db = pay_db, clock = 0, script = [False, False, True]\<rparr>) = [usage_tx ''1'', usage_tx ''1'']"
  using usage_reward_paid_twice[of "\<lparr>db = pay_db, clock = 0, script = [False, False, True]\<rparr>" "''1''"]
    pay_db_keys by (simp add: pay_db_due) (simp add: pay_db_def empty_db_def)

end
