(* ===== verification/Proof_Generator.thy ===== *)
theory Proof_Generator
  imports Settlement
begin

text \<open>
  The proof generator (\<^verbatim>\<open>services/proof-generator/src/index.ts\<close>): hourly challenges for providers
  without a recent proof, and reports of missed ones. The random leaf indices are a parameter,
  a function that yields the i-th draw of \<^verbatim>\<open>randomInt(0, 100)\<close> for a challenge.
\<close>

definition CHALLENGE_SECTORS :: nat where "CHALLENGE_SECTORS = 10"

definition day_ms :: int where "day_ms = 24 * 60 * 60 * 1000"

definition challenge_rows :: "int \<Rightarrow> database \<Rightarrow> (string \<times> string \<times> int option) list" where
  "challenge_rows t s = take 50 (remdups (concat (map
     (\<lambda>h. map (\<lambda>p. (s_deal h, s_provider h, p_last_proof_at p))
            (filter (\<lambda>p. p_address p = s_provider h \<and>
               (case p_last_proof_at p of None \<Rightarrow> True | Some l \<Rightarrow> l < t - day_ms)) (t_providers s)))
     (filter s_active (t_shards s)))))"

definition challenge_tx :: "string \<Rightarrow> string \<Rightarrow> nat list \<Rightarrow> chain_call" where
  "challenge_tx dealId prov leafIndices =
     Tx ''Prover'' ''createPoStChallenge'' [JStr dealId, JStr prov, JArr (map (\<lambda>i. JNum (of_nat i)) leafIndices)]"

definition createChallenge :: "(string \<Rightarrow> string \<Rightarrow> nat \<Rightarrow> nat) \<Rightarrow> string \<Rightarrow> string \<Rightarrow> unit sql" where
  "createChallenge draws dealId prov =
     logged (send_tx (challenge_tx dealId prov (map (draws dealId prov) [0..<CHALLENGE_SECTORS])))"

definition generateChallenges :: "(string \<Rightarrow> string \<Rightarrow> nat \<Rightarrow> nat) \<Rightarrow> unit sql" where
  "generateChallenges draws = logged (bind now (\<lambda>t.
     bind (reads (challenge_rows t)) (\<lambda>rows.
       for_each rows (\<lambda>(dealId, prov, _). createChallenge draws dealId prov))))"

definition missed_due :: "int \<Rightarrow> database \<Rightarrow> string list" where
  "missed_due t s = map h_id (filter (\<lambda>h. h_deadline h < t \<and> \<not> h_submitted h \<and> \<not> h_checked h) (t_challenges s))"

definition missed_tx :: "string \<Rightarrow> chain_call" where
  "missed_tx i = Tx ''Prover'' ''checkMissedPoSt'' [JStr i]"

definition missed_mark :: "int \<Rightarrow> string \<Rightarrow> database \<Rightarrow> database" where
  "missed_mark t i s = s\<lparr>t_challenges := sql_update (\<lambda>h. h_id h = i) (\<lambda>h. h\<lparr>h_checked := True\<rparr>) (t_challenges s)\<rparr>"

definition reportMissedProof :: "string \<Rightarrow> unit sql" where
  "reportMissedProof i = logged (bind now (\<lambda>t. andthen (send_tx (missed_tx i)) (writes (missed_mark t i))))"

definition checkMissedProofs :: "unit sql" where
  "checkMissedProofs = logged (bind now (\<lambda>t.
     bind (reads (\<lambda>s. limit (Some 100) (missed_due t s))) (\<lambda>rows. for_each rows reportMissedProof)))"

section \<open>Missed proofs\<close>

definition challenges_ok :: "database \<Rightarrow> bool" where
  "challenges_ok s \<longleftrightarrow> distinct (map h_id (t_challenges s))"

interpretation missed: settlement missed_due missed_tx missed_mark challenges_ok
proof unfold_locales
  fix t k s
  have "map h_id (filter (\<lambda>h. h_deadline h < t \<and> \<not> h_submitted h \<and> \<not> h_checked h)
      (sql_update (\<lambda>h. h_id h = k) (\<lambda>h. h\<lparr>h_checked := True\<rparr>) rs)) =
    filter (\<lambda>j. j \<noteq> k) (map h_id (filter (\<lambda>h. h_deadline h < t \<and> \<not> h_submitted h \<and> \<not> h_checked h) rs))" for rs
    by (induction rs) auto
  then show "missed_due t (missed_mark t k s) = filter (\<lambda>j. j \<noteq> k) (missed_due t s)"
    by (simp add: missed_due_def missed_mark_def)
qed (simp_all add: missed_due_def missed_mark_def challenges_ok_def map_sql_update distinct_map_filter)

lemma checkMissedProofs_settles:
  "checkMissedProofs = settle_pass missed_due missed_tx missed_mark (Some 100)"
proof -
  have "reportMissedProof = settle_one missed_tx missed_mark"
    by (rule ext) (simp only: reportMissedProof_def settle_one_def)
  then show ?thesis by (simp only: checkMissedProofs_def settle_pass_def)
qed

text \<open>
  A missed proof is reported once: whatever fails, a round reports only challenges whose deadline
  has passed without a submission and that were not checked before, each at most once, and a
  challenge is marked checked only if it was reported in this round.
\<close>

theorem missed_proofs_reported_once:
  assumes "challenges_ok (db w)"
  shows "\<exists>ps. txs (final checkMissedProofs w) = txs (db w) @ map missed_tx ps \<and> distinct ps \<and> length ps \<le> 100 \<and>
    set ps \<subseteq> set (missed_due (clock w) (db w)) \<and>
    (\<forall>i \<in> set (missed_due (clock w) (db w)). i \<notin> set ps \<longrightarrow> i \<in> set (missed_due (clock w) (final checkMissedProofs w)))"
proof (rule missed.pass_any[OF assms, of "Some 100"])
  fix ps
  assume sub: "subseq ps (limit (Some 100) (missed_due (clock w) (db w)))" and "distinct ps"
    and "txs (final (settle_pass missed_due missed_tx missed_mark (Some 100)) w) = txs (db w) @ map missed_tx ps"
    and "set (missed_due (clock w) (db w)) -
      set (missed_due (clock w) (final (settle_pass missed_due missed_tx missed_mark (Some 100)) w)) \<subseteq> set ps"
  moreover have "length ps \<le> 100" using list_emb_length[OF sub] by simp
  moreover have "set ps \<subseteq> set (missed_due (clock w) (db w))"
    using subseq_subset[OF sub] by (auto dest: in_set_takeD)
  ultimately show ?thesis unfolding checkMissedProofs_settles by blast
qed

section \<open>Challenges\<close>

lemma challenge_row:
  assumes "(d, a, l) \<in> set (challenge_rows t s)"
  shows "\<exists>h \<in> set (t_shards s). s_deal h = d \<and> s_provider h = a \<and> s_active h \<and>
    (\<exists>p \<in> set (t_providers s). p_address p = a \<and> (\<forall>x. p_last_proof_at p = Some x \<longrightarrow> x < t - day_ms))"
  using assms[unfolded challenge_rows_def, THEN in_set_takeD]
  by (auto split: option.splits)

text \<open>A challenge a round may send.\<close>

definition fair_challenge :: "(string \<Rightarrow> string \<Rightarrow> nat \<Rightarrow> nat) \<Rightarrow> int \<Rightarrow> database \<Rightarrow> chain_call \<Rightarrow> bool" where
  "fair_challenge draws t s c \<longleftrightarrow> (\<exists>h \<in> set (t_shards s). \<exists>p \<in> set (t_providers s).
     s_active h \<and> p_address p = s_provider h \<and> (\<forall>x. p_last_proof_at p = Some x \<longrightarrow> x < t - day_ms) \<and>
     c = challenge_tx (s_deal h) (s_provider h) (map (draws (s_deal h) (s_provider h)) [0..<10]))"

definition only_fair :: "(string \<Rightarrow> string \<Rightarrow> nat \<Rightarrow> nat) \<Rightarrow> int \<Rightarrow> database \<Rightarrow> database \<Rightarrow> bool" where
  "only_fair draws t s s' \<longleftrightarrow> (\<exists>cs. s' = s\<lparr>txs := txs s @ cs\<rparr> \<and> (\<forall>c \<in> set cs. fair_challenge draws t s c))"

text \<open>
  Challenges go only to providers that hold an active shard of the deal and have not proved storage
  during the last 24 hours; each carries exactly ten leaf indices from the random source; nothing
  but these transactions happens, whatever fails.
\<close>

theorem challenges_fair:
  "\<exists>cs. final (generateChallenges draws) w = (db w)\<lparr>txs := txs (db w) @ cs\<rparr> \<and>
    (\<forall>c \<in> set cs. fair_challenge draws (clock w) (db w) c)"
proof -
  let ?t = "clock w"
  let ?f = "\<lambda>(dealId, prov, _). createChallenge draws dealId prov"
  let ?I = "only_fair draws ?t (db w)"
  have I: "?I (db w)" by (auto simp: only_fair_def intro!: exI[of _ "[]"])
  have add: "?I (s\<lparr>txs := txs s @ [c]\<rparr>)" if "?I s" "fair_challenge draws ?t (db w) c" for s c
    using that unfolding only_fair_def by (elim exE conjE) (rule exI[of _ "_ @ [c]"], auto)
  have one: "wp ?t (?f r) (\<lambda>_. ?I) (\<lambda>_. ?I) s" if r: "r \<in> set (challenge_rows ?t (db w))" and "?I s" for r s
  proof -
    obtain d a l where dal: "r = (d, a, l)" by (cases r)
    let ?idx = "map (draws d a) [0..<CHALLENGE_SECTORS]"
    have "fair_challenge draws ?t (db w) (challenge_tx d a ?idx)"
      using challenge_row[OF r[unfolded dal]] unfolding fair_challenge_def CHALLENGE_SECTORS_def by blast
    then show ?thesis
      using that(2) add unfolding dal createChallenge_def by (auto intro!: wp_rules)
  qed
  have "?I (final (generateChallenges draws) w)"
    unfolding generateChallenges_def
    by (rule wp_final_now, intro wp_rules wp_for_each[where I = ?I] I one)
  then show ?thesis by (auto simp: only_fair_def)
qed

section \<open>Witnesses\<close>

theorem challenges_fair_witness:
  "\<exists>cs. txs (final (generateChallenges (\<lambda>_ _ i. i)) \<lparr>db = empty_db, clock = 0, script = []\<rparr>) = cs \<and>
     (\<forall>c \<in> set cs. fair_challenge (\<lambda>_ _ i. i) 0 empty_db c)"
  using challenges_fair[of "\<lambda>_ _ i. i" "\<lparr>db = empty_db, clock = 0, script = []\<rparr>"]
  by (auto simp: empty_db_def)

definition late_db :: database where
  "late_db = empty_db\<lparr>t_challenges := [\<lparr>h_id = ''9'', h_provider = ''p'', h_deadline = 5, h_submitted = False, h_checked = False\<rparr>]\<rparr>"

theorem missed_proofs_reported_once_witness:
  "\<exists>ps. txs (final checkMissedProofs \<lparr>db = late_db, clock = 10, script = []\<rparr>) = map missed_tx ps \<and> set ps \<subseteq> {''9''}"
  using missed_proofs_reported_once[of "\<lparr>db = late_db, clock = 10, script = []\<rparr>"]
  by (auto simp: late_db_def challenges_ok_def missed_due_def empty_db_def)
end
