(* ===== verification/Uptime_Monitor.thy ===== *)
theory Uptime_Monitor
  imports Settlement
begin

text \<open>
  The uptime monitor (\<^verbatim>\<open>services/uptime-monitor/src/index.ts\<close>): active providers silent for
  24 hours are slashed by the sum of their active collateral and switched inactive.
\<close>

definition OFFLINE_THRESHOLD_MS :: int where "OFFLINE_THRESHOLD_MS = 24 * 60 * 60 * 1000"

definition total_collateral :: "database \<Rightarrow> string \<Rightarrow> nat" where
  "total_collateral s a = sum_list (map c_collateral (filter (\<lambda>c. c_provider c = a \<and> c_active c) (t_pledges s)))"

definition offline_due :: "int \<Rightarrow> database \<Rightarrow> (string \<times> nat) list" where
  "offline_due t s = map (\<lambda>p. (p_address p, total_collateral s (p_address p)))
     (filter (\<lambda>p. p_active p \<and> (case p_last_heartbeat p of None \<Rightarrow> False | Some h \<Rightarrow> h < t - OFFLINE_THRESHOLD_MS))
       (t_providers s))"

definition slash_tx :: "string \<times> nat \<Rightarrow> chain_call" where
  "slash_tx k = Tx ''SlashingManager'' ''slashMissedPost'' [JStr (fst k), JNum (of_nat (snd k))]"

definition slash_mark :: "int \<Rightarrow> string \<times> nat \<Rightarrow> database \<Rightarrow> database" where
  "slash_mark t k s = s\<lparr>t_providers := sql_update (\<lambda>p. p_address p = fst k) (\<lambda>p. p\<lparr>p_active := False\<rparr>) (t_providers s)\<rparr>"

definition runCheck :: "unit sql" where
  "runCheck = logged (bind now (\<lambda>t.
     bind (reads (\<lambda>s. limit None (offline_due t s))) (\<lambda>rows.
       for_each rows (\<lambda>row. logged (bind now (\<lambda>t.
         andthen (send_tx (slash_tx row)) (writes (slash_mark t row))))))))"

lemma offline_after_mark:
  assumes "k \<in> set (offline_due t s)"
  shows "offline_due t (slash_mark t k s) = filter (\<lambda>j. j \<noteq> k) (offline_due t s)"
proof -
  have coll: "total_collateral (slash_mark t k s) = total_collateral s"
    by (simp add: fun_eq_iff total_collateral_def slash_mark_def)
  have k: "k = (fst k, total_collateral s (fst k))" using assms by (auto simp: offline_due_def)
  let ?q = "\<lambda>p. p_active p \<and> (case p_last_heartbeat p of None \<Rightarrow> False | Some h \<Rightarrow> h < t - OFFLINE_THRESHOLD_MS)"
  have "map (\<lambda>p. (p_address p, c (p_address p))) (filter ?q
        (sql_update (\<lambda>p. p_address p = a) (\<lambda>p. p\<lparr>p_active := False\<rparr>) ps)) =
      filter (\<lambda>j. j \<noteq> (a, c a)) (map (\<lambda>p. (p_address p, c (p_address p))) (filter ?q ps))" for c :: "string \<Rightarrow> nat" and a ps
    by (induction ps) auto
  from this[of "total_collateral s" "fst k" "t_providers s"] show ?thesis
    unfolding offline_due_def coll k[symmetric] by (simp add: slash_mark_def)
qed

interpretation slash: settlement offline_due slash_tx slash_mark keys_ok
proof unfold_locales
  fix t k s
  show "k \<in> set (offline_due t s) \<Longrightarrow> offline_due t (slash_mark t k s) = filter (\<lambda>j. j \<noteq> k) (offline_due t s)"
    by (rule offline_after_mark)
  assume ok: "keys_ok s"
  then have "distinct (map p_address (t_providers s))" by (simp add: keys_ok_def)
  then have "distinct (map fst (offline_due t s))"
    by (simp add: offline_due_def comp_def distinct_map_filter)
  then show "distinct (offline_due t s)" by (simp add: distinct_map)
  show "keys_ok (slash_mark t k s)"
    using ok by (simp add: slash_mark_def keys_ok_def map_sql_update)
qed (simp_all add: offline_due_def slash_mark_def total_collateral_def keys_ok_def)

lemma runCheck_settles: "runCheck = settle_pass offline_due slash_tx slash_mark None"
  by (simp only: runCheck_def settle_pass_def settle_one_eta)

text \<open>
  C32. Slashing is confined to the silent: whatever fails, a check slashes only providers that are active
  and whose last heartbeat is more than 24 hours old, each at most once and for exactly the sum of
  its active pledges' collateral; a provider that never sent a heartbeat is not slashed.
\<close>

theorem slashing_confined:
  assumes "keys_ok (db w)"
  shows "\<exists>ks. txs (final runCheck w) = txs (db w) @ map slash_tx ks \<and> distinct (map fst ks) \<and>
    (\<forall>(a, c) \<in> set ks. c = total_collateral (db w) a \<and>
       (\<exists>p \<in> set (t_providers (db w)). p_address p = a \<and> p_active p \<and>
          (\<exists>h. p_last_heartbeat p = Some h \<and> h < clock w - OFFLINE_THRESHOLD_MS)))"
proof (rule slash.pass_any[OF assms, of None])
  fix ks
  assume sub: "subseq ks (limit None (offline_due (clock w) (db w)))"
    and "txs (final (settle_pass offline_due slash_tx slash_mark None) w) = txs (db w) @ map slash_tx ks"
  moreover have "subseq (map fst ks) (map fst (offline_due (clock w) (db w)))"
    using subseq_map[OF sub] by simp
  moreover have "distinct (map fst (offline_due (clock w) (db w)))"
    using assms by (simp add: offline_due_def comp_def distinct_map_filter keys_ok_def)
  moreover have "\<forall>(a, c) \<in> set ks. c = total_collateral (db w) a \<and>
       (\<exists>p \<in> set (t_providers (db w)). p_address p = a \<and> p_active p \<and>
          (\<exists>h. p_last_heartbeat p = Some h \<and> h < clock w - OFFLINE_THRESHOLD_MS))"
    using subseq_subset[OF sub] by (force simp: offline_due_def split: option.splits)
  ultimately show ?thesis unfolding runCheck_settles using distinct_subseq by blast
qed

text \<open>
  A check in which nothing fails slashes every offline provider, and none of them is active and
  overdue afterwards, so an immediate second check slashes nobody.
\<close>

theorem slashing_not_repeated:
  assumes "script w = []" and "keys_ok (db w)"
  shows "offline_due (clock w) (final runCheck w) = [] \<and>
    txs (final runCheck w) = txs (db w) @ map slash_tx (offline_due (clock w) (db w))"
  using slash.pass_run[OF assms, of None] unfolding runCheck_settles by (simp add: filter_empty_conv)

section \<open>Witnesses\<close>

definition silent_db :: database where
  "silent_db = empty_db\<lparr>t_providers := [\<lparr>p_address = ''a'', p_peer_id = '''', p_endpoint = None, p_region = None,
     p_reputation = 50, p_active = True, p_last_heartbeat = Some 0, p_last_proof_at = None, p_registered_at = 0,
     p_pledged_gb = 0, p_used_gb = 0\<rparr>]\<rparr>"

lemma silent_db_keys: "keys_ok silent_db"
  by (simp add: keys_ok_def silent_db_def empty_db_def)

theorem slashing_confined_witness:
  "\<exists>ks. txs (final runCheck \<lparr>db = silent_db, clock = 86400001, script = [False, False, True]\<rparr>) = map slash_tx ks \<and>
     distinct (map fst ks)"
  using slashing_confined[of "\<lparr>db = silent_db, clock = 86400001, script = [False, False, True]\<rparr>"] silent_db_keys
  by (auto simp: silent_db_def empty_db_def)

theorem slashing_not_repeated_witness:
  "txs (final runCheck \<lparr>db = silent_db, clock = 86400001, script = []\<rparr>) = [slash_tx (''a'', 0)]"
  using slashing_not_repeated[of "\<lparr>db = silent_db, clock = 86400001, script = []\<rparr>"] silent_db_keys
  by (simp add: offline_due_def total_collateral_def silent_db_def empty_db_def OFFLINE_THRESHOLD_MS_def)
end
