(* ===== verification/Rest_Api.thy ===== *)
theory Rest_Api
  imports Shard_Codec "HOL-Library.Product_Lexorder"
begin

text \<open>
  The REST API (\<^verbatim>\<open>api/rest-api/src/server.ts\<close>): every route as an action that answers with a
  payload or an error status. A missing string field of a request is the empty string, as the
  code treats both alike. Signature recovery (\<^verbatim>\<open>ethers.verifyMessage\<close>), the random part of deal
  numbers, the Reed-Solomon module and the identifier function of IPFS are parameters.
\<close>

datatype 'a reply = Ok 'a | Err nat string

type_synonym recovery = "string \<Rightarrow> string \<Rightarrow> string option"

definition verifySignature :: "recovery \<Rightarrow> string \<Rightarrow> string \<Rightarrow> string \<Rightarrow> bool" where
  "verifySignature recover message signature expectedAddress =
     (case recover message signature of None \<Rightarrow> False | Some a \<Rightarrow> to_lower a = to_lower expectedAddress)"

definition or_500 :: "string \<Rightarrow> 'a reply sql \<Rightarrow> 'a reply sql" where
  "or_500 msg m = try_catch m (\<lambda>_. ret (Err 500 msg))"

definition emit :: "string \<Rightarrow> string \<Rightarrow> json \<Rightarrow> database \<Rightarrow> database" where
  "emit room ev payload s = s\<lparr>emits := emits s @ [(room, ev, payload)]\<rparr>"

text \<open>A socket message is sent, not awaited: it cannot fail.\<close>

definition io_emit :: "string \<Rightarrow> string \<Rightarrow> json \<Rightarrow> unit sql" where
  "io_emit room ev payload w = (Inr (), w\<lparr>db := emit room ev payload (db w)\<rparr>)"

definition status_name :: "deal_status \<Rightarrow> string" where
  "status_name st = (case st of Active \<Rightarrow> ''active'' | Completed \<Rightarrow> ''completed'' | Failed \<Rightarrow> ''failed''
     | Cancelled \<Rightarrow> ''cancelled'' | InGracePeriod \<Rightarrow> ''in_grace_period'')"

section \<open>Reading routes\<close>

definition get_deals :: "string \<Rightarrow> string \<Rightarrow> deal_row list reply sql" where
  "get_deals status client = or_500 ''Internal server error'' (
     bind (reads (\<lambda>s. take 100 (order_by (\<lambda>d. - d_created_at d)
       (filter (\<lambda>d. (status \<noteq> [] \<longrightarrow> status_name (d_status d) = status) \<and>
                    (client \<noteq> [] \<longrightarrow> d_client d = client)) (t_deals s))))) (\<lambda>rows. ret (Ok rows)))"

definition get_deal :: "string \<Rightarrow> (deal_row \<times> (shard_row \<times> provider_row) list) reply sql" where
  "get_deal dealId = or_500 ''Internal server error'' (
     bind (reads (find_deal dealId)) (\<lambda>d.
       case d of
         None \<Rightarrow> ret (Err 404 ''Deal not found'')
       | Some deal \<Rightarrow>
           bind (reads (\<lambda>s. order_by (\<lambda>hp. s_index (fst hp)) (concat (map
             (\<lambda>h. map (\<lambda>p. (h, p)) (filter (\<lambda>p. p_address p = s_provider h) (t_providers s)))
             (filter (\<lambda>h. s_deal h = dealId) (t_shards s)))))) (\<lambda>shards. ret (Ok (deal, shards)))))"

definition get_providers :: "bool option \<Rightarrow> int option \<Rightarrow> provider_row list reply sql" where
  "get_providers active min_reputation = or_500 ''Internal server error'' (
     bind (reads (\<lambda>s. take 100 (order_by (\<lambda>p. - p_reputation p)
       (filter (\<lambda>p. (case active of None \<Rightarrow> True | Some b \<Rightarrow> p_active p = b) \<and>
                    (case min_reputation of None \<Rightarrow> True | Some n \<Rightarrow> p_reputation p \<ge> n)) (t_providers s)))))
       (\<lambda>rows. ret (Ok rows)))"

record provider_view =
  pv_provider :: provider_row
  pv_pledges :: "pledge_row list"
  pv_deals :: "deal_row list"

text \<open>\<^verbatim>\<open>ORDER BY last_heartbeat DESC NULLS LAST\<close>\<close>

definition heartbeat_rank :: "provider_row \<Rightarrow> int \<times> int" where
  "heartbeat_rank p = (case p_last_heartbeat p of None \<Rightarrow> (1, 0) | Some t \<Rightarrow> (0, - t))"

definition latest_provider :: "string \<Rightarrow> database \<Rightarrow> provider_row option" where
  "latest_provider addr s =
     (case order_by heartbeat_rank (filter (\<lambda>p. to_lower (p_address p) = to_lower addr) (t_providers s)) of
        [] \<Rightarrow> None | p # _ \<Rightarrow> Some p)"

definition get_provider :: "string \<Rightarrow> provider_view reply sql" where
  "get_provider addr = or_500 ''Internal server error'' (
     bind (reads (latest_provider addr)) (\<lambda>p.
       case p of
         None \<Rightarrow> ret (Err 404 ''Provider not found'')
       | Some prov \<Rightarrow>
           bind (reads (\<lambda>s. order_by (\<lambda>c. - c_created_at c)
                  (filter (\<lambda>c. to_lower (c_provider c) = to_lower addr) (t_pledges s)))) (\<lambda>pledges.
           bind (reads (\<lambda>s. take 20 (order_by (\<lambda>d. - d_created_at d)
                  (filter (\<lambda>d. \<exists>h \<in> set (t_shards s). s_deal h = d_id d \<and>
                                 to_lower (s_provider h) = to_lower addr) (t_deals s))))) (\<lambda>deals.
             ret (Ok \<lparr>pv_provider = prov, pv_pledges = pledges, pv_deals = deals\<rparr>)))))"

record net_stats =
  st_active_deals :: nat
  st_total_deals :: nat
  st_completed :: nat
  st_failed :: nat
  st_active_providers :: nat
  st_total_providers :: nat
  st_active_shards :: nat
  st_capacity_gb :: rat
  st_capacity_all_gb :: rat
  st_utilization_gb :: rat
  st_avg_reputation :: "rat option"
  st_revenue :: rat
  st_burned :: nat

definition online :: "int \<Rightarrow> provider_row \<Rightarrow> bool" where
  "online t p = (case p_last_heartbeat p of None \<Rightarrow> False | Some h \<Rightarrow> h > t - 45000)"

definition net_stats_of :: "int \<Rightarrow> database \<Rightarrow> net_stats" where
  "net_stats_of t s =
     (let pl = filter c_active (t_pledges s); ap = filter p_active (t_providers s);
          up = filter (online t) (t_providers s)
      in \<lparr>st_active_deals = length (filter (\<lambda>d. d_status d = Active) (t_deals s)),
          st_total_deals = length (t_deals s),
          st_completed = length (filter (\<lambda>d. d_status d = Completed) (t_deals s)),
          st_failed = length (filter (\<lambda>d. d_status d = Failed) (t_deals s)),
          st_active_providers = length (filter (online t) ap),
          st_total_providers = length (remdups (map c_provider pl)),
          st_active_shards = length (filter s_active (t_shards s)),
          st_capacity_gb = sum_list (map c_capacity_gb (filter (\<lambda>c.
             to_lower (c_provider c) \<in> set (map (\<lambda>p. to_lower (p_address p)) up) \<or> up \<noteq> []) pl)),
          st_capacity_all_gb = sum_list (map c_capacity_gb pl),
          st_utilization_gb = sum_list (map c_utilization_gb pl),
          st_avg_reputation = (if ap = [] then None
             else Some (of_int (sum_list (map p_reputation ap)) / of_nat (length ap))),
          st_revenue = sum_list (map (\<lambda>d. case d_protocol_fee d of None \<Rightarrow> 0 | Some f \<Rightarrow> f) (t_deals s)),
          st_burned = sum_list (map x_amount (t_slashes s))\<rparr>)"

definition get_stats :: "net_stats reply sql" where
  "get_stats = or_500 ''Internal server error'' (bind now (\<lambda>t. bind (reads (net_stats_of t)) (\<lambda>r. ret (Ok r))))"

definition get_events :: "event_row list reply sql" where
  "get_events = or_500 ''Internal server error''
     (bind (reads (\<lambda>s. take 50 (order_by (\<lambda>e. - e_created_at e) (t_events s)))) (\<lambda>r. ret (Ok r)))"

text \<open>The geolocation service is a parameter: \<open>None\<close> an exception, else its fields.\<close>

datatype geo = GeoFail string | GeoOk string string

definition region_of :: "string \<Rightarrow> string" where
  "region_of continent = (case map_of [(''NA'', ''na''), (''EU'', ''eu''), (''AS'', ''asia''), (''SA'', ''sa''),
     (''OC'', ''oc''), (''AF'', ''af'')] continent of None \<Rightarrow> ''na'' | Some r \<Rightarrow> r)"

definition detect_region :: "geo option \<Rightarrow> string \<times> bool" where
  "detect_region g = (case g of
       None \<Rightarrow> (''na'', False)
     | Some (GeoFail _) \<Rightarrow> (''na'', False)
     | Some (GeoOk continent _) \<Rightarrow> (region_of continent, True))"

record cleanup_row =
  cl_cid :: string
  cl_deal :: string
  cl_status :: deal_status
  cl_deleted_at :: "int option"

definition get_cleanup :: "string \<Rightarrow> cleanup_row list reply sql" where
  "get_cleanup addr = or_500 ''Internal server error'' (
     bind (reads (\<lambda>s. order_by (\<lambda>c. case cl_deleted_at c of None \<Rightarrow> (0 :: int, 0) | Some t \<Rightarrow> (1, - t)) (concat (map
       (\<lambda>h. map (\<lambda>d. \<lparr>cl_cid = s_cid h, cl_deal = s_deal h, cl_status = d_status d, cl_deleted_at = s_deleted_at h\<rparr>)
              (filter (\<lambda>d. d_id d = s_deal h \<and> d_status d \<in> {Cancelled, Completed, Failed}) (t_deals s)))
       (filter (\<lambda>h. to_lower (s_provider h) = to_lower addr \<and> \<not> s_active h) (t_shards s)))))) (\<lambda>rows.
     ret (Ok rows)))"
section \<open>Writing routes\<close>

record storage_metrics =
  sm_pledged :: rat
  sm_used :: "rat option"

text \<open>\<^verbatim>\<open>INSERT ... ON CONFLICT DO UPDATE\<close>: \<^verbatim>\<open>COALESCE(EXCLUDED.peer_id, ...)\<close> is always \<^verbatim>\<open>'pending'\<close>.\<close>

definition upsert_heartbeat :: "string \<Rightarrow> int \<Rightarrow> database \<Rightarrow> database" where
  "upsert_heartbeat addr t s =
     (if addr \<in> set (map p_address (t_providers s))
      then s\<lparr>t_providers := sql_update (\<lambda>p. p_address p = addr)
             (\<lambda>p. p\<lparr>p_last_heartbeat := Some t, p_active := True, p_peer_id := ''pending''\<rparr>) (t_providers s)\<rparr>
      else s\<lparr>t_providers := t_providers s @ [\<lparr>p_address = addr, p_peer_id = ''pending'', p_endpoint = None,
             p_region = None, p_reputation = 50, p_active = True, p_last_heartbeat = Some t,
             p_last_proof_at = None, p_registered_at = t, p_pledged_gb = 0, p_used_gb = 0\<rparr>]\<rparr>)"

definition post_heartbeat :: "recovery \<Rightarrow> string \<Rightarrow> storage_metrics option \<Rightarrow> string \<Rightarrow> unit reply sql" where
  "post_heartbeat recover provider_address storage signature = or_500 ''Internal server error'' (
     if provider_address = [] \<or> signature = [] then ret (Err 400 ''provider_address and signature required'')
     else if \<not> verifySignature recover ''Kyneto Provider Heartbeat'' signature provider_address
     then ret (Err 401 ''Invalid signature'')
     else bind now (\<lambda>t.
       andthen (writes (upsert_heartbeat (to_lower provider_address) t))
      (andthen (case storage of
           None \<Rightarrow> ret ()
         | Some m \<Rightarrow> logged (writes (\<lambda>s. s\<lparr>t_providers :=
              sql_update (\<lambda>p. to_lower (p_address p) = to_lower provider_address)
                (\<lambda>p. p\<lparr>p_pledged_gb := sm_pledged m,
                       p_used_gb := (case sm_used m of None \<Rightarrow> 0 | Some u \<Rightarrow> u)\<rparr>) (t_providers s)\<rparr>)))
      (andthen (io_emit [] ''heartbeat'' (JObj [(''provider'', JStr provider_address), (''timestamp'', JNum (of_int t))]))
               (ret (Ok ()))))))"

definition post_event :: "string \<Rightarrow> string \<Rightarrow> json \<Rightarrow> event_row reply sql" where
  "post_event event_type description payload = or_500 ''Internal server error'' (
     bind now (\<lambda>t.
     andthen (writes (add_event event_type description payload t))
    (andthen (io_emit [] ''protocol_event'' (JObj [(''event_type'', JStr event_type),
                (''description'', JStr description), (''data'', payload)]))
             (ret (Ok \<lparr>e_type = event_type, e_description = description, e_data = payload, e_created_at = t\<rparr>)))))"

record key_req =
  kr_key :: string
  kr_iv :: string
  kr_tag :: string
  kr_client :: string
  kr_signature :: string

definition post_key :: "recovery \<Rightarrow> string \<Rightarrow> key_req \<Rightarrow> string reply sql" where
  "post_key recover dealId r = or_500 ''Internal server error'' (
     if kr_client r = [] \<or> kr_signature r = [] then ret (Err 400 ''client_address and signature required'')
     else if kr_key r = [] \<or> kr_iv r = [] \<or> kr_tag r = [] then ret (Err 400 ''Missing required encryption fields'')
     else if \<not> verifySignature recover (''store-key-'' @ dealId) (kr_signature r) (kr_client r)
     then ret (Err 401 ''Invalid signature'')
     else andthen (writes (\<lambda>s. s\<lparr>t_deals := sql_update (\<lambda>d. d_id d = dealId \<and> d_client d = to_lower (kr_client r))
              (\<lambda>d. d\<lparr>d_is_encrypted := True, d_key := Some (kr_key r), d_iv := Some (kr_iv r),
                     d_tag := Some (kr_tag r)\<rparr>) (t_deals s)\<rparr>))
            (ret (Ok dealId)))"

record key_view =
  kv_encrypted :: bool
  kv_key :: "string option"
  kv_iv :: "string option"
  kv_tag :: "string option"
  kv_client :: "string option"

definition get_key :: "string \<Rightarrow> key_view reply sql" where
  "get_key dealId = or_500 ''Internal server error'' (
     bind (reads (find_deal dealId)) (\<lambda>d. ret (
       case d of
         None \<Rightarrow> Err 404 ''Deal not found''
       | Some deal \<Rightarrow>
           if \<not> d_is_encrypted deal \<or> d_key deal = None \<or> d_key deal = Some []
           then Ok \<lparr>kv_encrypted = False, kv_key = None, kv_iv = None, kv_tag = None, kv_client = None\<rparr>
           else Ok \<lparr>kv_encrypted = True, kv_key = d_key deal, kv_iv = d_iv deal, kv_tag = d_tag deal,
                    kv_client = Some (d_client deal)\<rparr>)))"

text \<open>\<^verbatim>\<open>DELETE /api/deals/:id\<close>, the signed route registered first.\<close>

definition cancel_body :: "string \<Rightarrow> nat reply sql" where
  "cancel_body dealId = bind now (\<lambda>t.
     andthen (writes (set_deal_status Cancelled (\<lambda>d. d\<lparr>d_cancelled_at := Some t\<rparr>) dealId))
    (bind (reads (active_shards dealId)) (\<lambda>rows.
     let shardCIDs = map s_cid rows; addrs = remdups (map s_provider rows) in
     andthen (writes (deactivate_deal_shards t dealId))
    (andthen (writes (add_event ''DEAL_CANCELLED''
        (''Deal #'' @ dealId @ '' cancelled, '' @ nat_str (length shardCIDs) @ '' shards marked for cleanup'')
        (JObj [(''dealId'', JStr dealId), (''shardCIDs'', JArr (map JStr shardCIDs)),
               (''providerAddresses'', JArr (map JStr addrs))]) t))
    (andthen (for_each addrs (\<lambda>a. io_emit (''provider-rpc:'' @ to_lower a) ''deal:cancelled''
        (JObj [(''dealId'', JStr dealId), (''shardCIDs'', JArr (map JStr shardCIDs))])))
             (ret (Ok (length shardCIDs))))))))"

definition delete_deal :: "recovery \<Rightarrow> string \<Rightarrow> string \<Rightarrow> string \<Rightarrow> nat reply sql" where
  "delete_deal recover dealId client_address signature = or_500 ''Internal server error'' (
     bind (reads (find_deal dealId)) (\<lambda>d.
       case d of
         None \<Rightarrow> ret (Err 404 ''Deal not found'')
       | Some deal \<Rightarrow>
           if d_status deal \<noteq> Active \<and> d_status deal \<noteq> InGracePeriod
           then ret (Err 400 (''Deal is already '' @ status_name (d_status deal)))
           else if client_address = [] \<or> signature = [] then ret (Err 400 ''client_address and signature required'')
           else if \<not> verifySignature recover (''cancel-deal-'' @ dealId) signature (d_client deal)
           then ret (Err 401 ''Invalid signature'')
           else cancel_body dealId))"

text \<open>The second handler registered for the same path: no signature, an optional header.\<close>

definition delete_deal_unsigned :: "string \<Rightarrow> string \<Rightarrow> nat reply sql" where
  "delete_deal_unsigned dealId header = or_500 ''Failed to cancel deal'' (
     bind (reads (find_deal dealId)) (\<lambda>d.
       case d of
         None \<Rightarrow> ret (Err 404 ''Deal not found'')
       | Some deal \<Rightarrow>
           if header \<noteq> [] \<and> to_lower (d_client deal) \<noteq> to_lower header
           then ret (Err 403 ''Not authorized to cancel this deal'')
           else if d_status deal \<noteq> Active
           then ret (Err 400 (''Cannot cancel deal in status: '' @ status_name (d_status deal)))
           else bind now (\<lambda>t.
             andthen (writes (set_deal_status Cancelled (\<lambda>d. d\<lparr>d_cancelled_at := Some t\<rparr>) dealId))
            (andthen (writes (deactivate_deal_shards t dealId))
            (andthen (writes (add_event ''DEAL_CANCELLED'' (''Deal '' @ dealId @ '' cancelled by client'')
                (JObj [(''dealId'', JStr dealId), (''clientAddress'', JStr header)]) t))
            (andthen (io_emit [] ''protocol_event'' (JObj [(''event_type'', JStr ''DEAL_CANCELLED''),
                (''data'', JObj [(''dealId'', JStr dealId)])]))
            (andthen (io_emit [] ''deal:cancelled'' (JObj [(''dealId'', JStr dealId)]))
                     (ret (Ok 0)))))))))"

text \<open>
  Express tries the handlers of a path in order; one that answers (\<open>Some\<close>) ends the request, only
  \<^verbatim>\<open>next()\<close> (\<open>None\<close>) passes it on. Neither delete handler ever calls \<^verbatim>\<open>next()\<close>.
\<close>

fun dispatch :: "'a reply option sql list \<Rightarrow> 'a reply sql" where
  "dispatch [] = ret (Err 404 ''Cannot find route'')"
| "dispatch (h # hs) = bind h (\<lambda>r. case r of Some a \<Rightarrow> ret a | None \<Rightarrow> dispatch hs)"

definition answers :: "'a reply sql \<Rightarrow> 'a reply option sql" where
  "answers m = bind m (\<lambda>r. ret (Some r))"

definition delete_route :: "recovery \<Rightarrow> string \<Rightarrow> string \<Rightarrow> string \<Rightarrow> string \<Rightarrow> nat reply sql" where
  "delete_route recover dealId client_address signature header =
     dispatch [answers (delete_deal recover dealId client_address signature),
               answers (delete_deal_unsigned dealId header)]"

section \<open>Sockets and answers as actions\<close>

lemma io_emit_run [simp]: "io_emit r e p w = (Inr (), w\<lparr>db := emit r e p (db w)\<rparr>)"
  by (simp add: io_emit_def)

lemma orderly_io_emit [orderly_rules]: "orderly (io_emit r e p)"
  by (auto simp: orderly_def intro: exI[of _ 0])

lemma wp_io_emit [wp_rules]: "Q () (emit r e p s) \<Longrightarrow> wp t (io_emit r e p) Q E s"
  by (simp add: wp_def)

lemma calm_or_500: "calm (or_500 msg m)"
  unfolding or_500_def by (rule calm_try_catch) simp

lemma wp_or_500: "wp t m Q (\<lambda>_. Q (Err 500 msg)) s \<Longrightarrow> wp t (or_500 msg m) Q E s"
  unfolding or_500_def by (intro wp_try_catch) (auto elim!: wp_mono intro: wp_ret)

lemma or_500_Inr: "m w = (Inr x, w') \<Longrightarrow> or_500 msg m w = (Inr x, w')"
  by (simp add: or_500_def)

lemma or_500_Inl: "m w = (Inl e, w') \<Longrightarrow> or_500 msg m w = (Inr (Err 500 msg), w')"
  by (simp add: or_500_def)

lemma emit_tables [simp]:
  "t_deals (emit r e p s) = t_deals s" "t_shards (emit r e p s) = t_shards s"
  "t_events (emit r e p s) = t_events s" "t_providers (emit r e p s) = t_providers s"
  "blocks (emit r e p s) = blocks s" "emits (emit r e p s) = emits s @ [(r, e, p)]"
  by (simp_all add: emit_def)

lemma emit_status [simp]:
  "status_of (emit r e p s) = status_of s" "active_shards i (emit r e p s) = active_shards i s"
  by (simp_all add: emit_def)

lemma emit_all_run:
  "for_each xs (\<lambda>x. io_emit (r x) (e x) (p x)) w =
     (Inr (), w\<lparr>db := (db w)\<lparr>emits := emits (db w) @ map (\<lambda>x. (r x, e x, p x)) xs\<rparr>\<rparr>)"
  by (induction xs arbitrary: w) (simp_all add: emit_def)

section \<open>Cancelling through the API\<close>

lemma orderly_cancel_body [orderly_rules]: "orderly (cancel_body i)"
  unfolding cancel_body_def Let_def by (intro orderly_rules)

text \<open>
  C21. \<^verbatim>\<open>DELETE /api/deals/:id\<close> changes nothing at all (no row, no event, no message), under every
  pattern of failures, unless the deal exists, is active or in its grace period, and the signature
  over \<^verbatim>\<open>cancel-deal-<id>\<close> recovers to the client the deal belongs to.
\<close>

theorem delete_deal_authorised:
  "final (delete_deal recover i client_address signature) w = db w \<or>
   (\<exists>d. find_deal i (db w) = Some d \<and> d_status d \<in> {Active, InGracePeriod} \<and>
        verifySignature recover (''cancel-deal-'' @ i) signature (d_client d))"
  unfolding delete_deal_def
  by (rule wp_final_now, intro wp_or_500 wp_bind wp_reads)
     (auto split: option.splits intro!: wp_ret wp_orderly orderly_rules)

lemma delete_deal_run:
  assumes "script w = []" and "find_deal i (db w) = Some d" and "d_status d \<in> {Active, InGracePeriod}"
    and "verifySignature recover (''cancel-deal-'' @ i) signature (d_client d)"
    and "client_address \<noteq> []" and "signature \<noteq> []"
  shows "\<exists>w'. delete_deal recover i client_address signature w = (Inr (Ok (length (active_shards i (db w)))), w') \<and>
    status_of (db w') = (status_of (db w))(i \<mapsto> Cancelled) \<and>
    (\<forall>j. active_shards j (db w') = (if j = i then [] else active_shards j (db w))) \<and>
    (\<exists>ev. t_events (db w') = t_events (db w) @ [ev]) \<and>
    map fst (emits (db w')) = map fst (emits (db w)) @
      map (\<lambda>a. ''provider-rpc:'' @ to_lower a) (remdups (map s_provider (active_shards i (db w))))"
proof -
  have st: "status_of (db w) i \<noteq> None" using assms(2) by (simp add: status_of_def)
  show ?thesis
    using assms st by (auto simp: delete_deal_def or_500_def cancel_body_def Let_def emit_all_run fun_eq_iff)
qed

text \<open>
  An authorised cancellation, when no statement fails: the answer counts the shards that were
  active, the deal is cancelled, no shard of it stays active and every other deal keeps its status
  and its active shards; the event log grows by one entry, and each provider that held a shard gets
  exactly one message on its own channel.
\<close>

theorem delete_deal_effect:
  assumes "script w = []" and "find_deal i (db w) = Some d" and "d_status d \<in> {Active, InGracePeriod}"
    and "verifySignature recover (''cancel-deal-'' @ i) signature (d_client d)"
    and "client_address \<noteq> []" and "signature \<noteq> []"
  shows "\<exists>w'. delete_deal recover i client_address signature w = (Inr (Ok (length (active_shards i (db w)))), w') \<and>
    status_of (db w') = (status_of (db w))(i \<mapsto> Cancelled) \<and>
    (\<forall>j. active_shards j (db w') = (if j = i then [] else active_shards j (db w))) \<and>
    (\<exists>ev. t_events (db w') = t_events (db w) @ [ev]) \<and>
    map fst (emits (db w')) = map fst (emits (db w)) @
      map (\<lambda>a. ''provider-rpc:'' @ to_lower a) (remdups (map s_provider (active_shards i (db w))))"
  using assms by (rule delete_deal_run)

text \<open>
  Two handlers are registered for \<^verbatim>\<open>DELETE /api/deals/:id\<close>. The first answers every request, so the
  route is the signed handler, and the second one, which accepts a request without a signature, is
  never reached.
\<close>

theorem delete_route_signed:
  "delete_route recover i client_address signature header = delete_deal recover i client_address signature"
proof -
  have "calm (delete_deal recover i client_address signature)"
    unfolding delete_deal_def by (rule calm_or_500)
  then show ?thesis
    by (auto simp: fun_eq_iff delete_route_def answers_def bind_def ret_def calm_def split: prod.splits sum.splits)
qed

section \<open>Encryption keys\<close>

definition store_key :: "key_req \<Rightarrow> deal_row \<Rightarrow> deal_row" where
  "store_key r d = d\<lparr>d_is_encrypted := True, d_key := Some (kr_key r), d_iv := Some (kr_iv r), d_tag := Some (kr_tag r)\<rparr>"

lemma post_key_wp:
  "wp t (post_key recover i r) (\<lambda>_ s'. s' = s \<or>
      (verifySignature recover (''store-key-'' @ i) (kr_signature r) (kr_client r) \<and>
       s' = s\<lparr>t_deals := sql_update (\<lambda>d. d_id d = i \<and> d_client d = to_lower (kr_client r)) (store_key r) (t_deals s)\<rparr>)) E s"
  unfolding post_key_def store_key_def by (intro wp_or_500) (auto intro!: wp_rules)

lemma verifySignature_lower:
  "verifySignature recover m sig a \<Longrightarrow> to_lower a = to_lower b \<Longrightarrow> verifySignature recover m sig b"
  by (auto simp: verifySignature_def split: option.splits)

text \<open>
  Storing a key, under every pattern of failures: the answer aside, a deal row changes only if
  it is the named deal and the signature over \<^verbatim>\<open>store-key-<id>\<close> recovers to its client; the change
  is exactly the four encryption fields.
\<close>

theorem post_key_owner_only:
  "list_all2 (\<lambda>d d'. d' = d \<or> d' = store_key r d \<and> d_id d = i \<and>
       verifySignature recover (''store-key-'' @ i) (kr_signature r) (d_client d))
     (t_deals (db w)) (t_deals (final (post_key recover i r) w))"
proof (rule wp_final_now, rule wp_mono[OF post_key_wp[where E = "\<lambda>_ _. False"]])
  fix x s'
  assume "s' = db w \<or> verifySignature recover (''store-key-'' @ i) (kr_signature r) (kr_client r) \<and>
       s' = (db w)\<lparr>t_deals := sql_update (\<lambda>d. d_id d = i \<and> d_client d = to_lower (kr_client r)) (store_key r) (t_deals (db w))\<rparr>"
  then show "list_all2 (\<lambda>d d'. d' = d \<or> d' = store_key r d \<and> d_id d = i \<and>
       verifySignature recover (''store-key-'' @ i) (kr_signature r) (d_client d)) (t_deals (db w)) (t_deals s')"
    by (elim disjE) (auto simp: list_all2_conv_all_nth sql_update_def intro: verifySignature_lower)
qed simp

lemma find_deal_update:
  assumes "\<And>d. d_id (f d) = d_id d"
  shows "find_deal j (s\<lparr>t_deals := sql_update (\<lambda>d. d_id d = i \<and> p d) f (t_deals s)\<rparr>) =
     map_option (\<lambda>d. if j = i \<and> p d then f d else d) (find_deal j s)"
proof -
  have "find_deal j (s\<lparr>t_deals := sql_update (\<lambda>d. d_id d = i \<and> p d) f (t_deals s)\<rparr>) =
     map_option (\<lambda>d. if d_id d = i \<and> p d then f d else d) (find_deal j s)"
    using assms by (simp add: find_deal_def find_sql_update)
  then show ?thesis by (cases "find_deal j s") (auto dest: find_deal_Some)
qed

definition key_req_ok :: "recovery \<Rightarrow> string \<Rightarrow> key_req \<Rightarrow> bool" where
  "key_req_ok recover i r \<longleftrightarrow> kr_client r \<noteq> [] \<and> kr_signature r \<noteq> [] \<and> kr_key r \<noteq> [] \<and> kr_iv r \<noteq> [] \<and> kr_tag r \<noteq> [] \<and>
     verifySignature recover (''store-key-'' @ i) (kr_signature r) (kr_client r)"

lemma post_key_run:
  assumes "script w = []" and "key_req_ok recover i r"
  shows "post_key recover i r w = (Inr (Ok i), w\<lparr>db := (db w)\<lparr>t_deals :=
     sql_update (\<lambda>d. d_id d = i \<and> d_client d = to_lower (kr_client r)) (store_key r) (t_deals (db w))\<rparr>\<rparr>)"
  using assms by (simp add: post_key_def key_req_ok_def or_500_def store_key_def[abs_def])

text \<open>
  Round trip of the key routes: a key stored for a deal whose row names the client in lower case
  is what \<^verbatim>\<open>GET /api/deals/:id/key\<close> answers, with the iv and the tag it was stored with.
\<close>

theorem key_roundtrip:
  assumes "script w = []" and "key_req_ok recover i r"
    and "find_deal i (db w) = Some d" and "d_client d = to_lower (kr_client r)"
  shows "\<exists>w'. post_key recover i r w = (Inr (Ok i), w') \<and>
    get_key i w' = (Inr (Ok \<lparr>kv_encrypted = True, kv_key = Some (kr_key r), kv_iv = Some (kr_iv r),
      kv_tag = Some (kr_tag r), kv_client = Some (d_client d)\<rparr>), w')"
  unfolding post_key_run[OF assms(1,2)]
  using assms by (simp add: get_key_def or_500_def find_deal_update store_key_def key_req_ok_def)

text \<open>
  The same request for a deal whose row holds the client's address with an upper-case letter, as
  the chain listener writes it, answers success as well, and changes nothing.
\<close>

theorem key_dropped_silently:
  assumes "script w = []" and "key_req_ok recover i r"
    and "\<forall>d \<in> set (t_deals (db w)). d_id d = i \<longrightarrow> d_client d \<noteq> to_lower (d_client d)"
  shows "post_key recover i r w = (Inr (Ok i), w)"
proof -
  have "sql_update (\<lambda>d. d_id d = i \<and> d_client d = to_lower (kr_client r)) (store_key r) (t_deals (db w)) =
      t_deals (db w)"
    by (rule sql_update_id) (use assms(3) in force)
  then show ?thesis unfolding post_key_run[OF assms(1,2)] by simp
qed

section \<open>Heartbeats\<close>

definition besides :: "string \<Rightarrow> database \<Rightarrow> provider_row list \<times> deal_row list \<times> shard_row list" where
  "besides a s = (filter (\<lambda>p. to_lower (p_address p) \<noteq> to_lower a) (t_providers s), t_deals s, t_shards s)"

lemma besides_upsert: "besides a (upsert_heartbeat (to_lower a) t s) = besides a s"
  by (auto simp: besides_def upsert_heartbeat_def intro!: filter_sql_update_none) (metis to_lower_idem)+

lemma besides_metrics:
  "(\<And>p. p_address (f p) = p_address p) \<Longrightarrow>
   besides a (s\<lparr>t_providers := sql_update (\<lambda>p. to_lower (p_address p) = to_lower a) f (t_providers s)\<rparr>) = besides a s"
  by (auto simp: besides_def intro!: filter_sql_update_none)

lemma besides_emit: "besides a (emit r e p s) = besides a s"
  by (simp add: besides_def)

text \<open>
  A heartbeat changes nothing, under every pattern of failures, unless the signature over the fixed
  message recovers to the reported address; and then no row of another provider, no deal and no shard
  changes.
\<close>

theorem heartbeat_authenticated:
  "final (post_heartbeat recover a m signature) w = db w \<or>
   verifySignature recover ''Kyneto Provider Heartbeat'' signature a \<and>
   besides a (final (post_heartbeat recover a m signature) w) = besides a (db w)"
  unfolding post_heartbeat_def
  by (rule wp_final_now, intro wp_or_500)
     (auto intro!: wp_rules simp: besides_upsert besides_metrics besides_emit split: option.splits)

lemma upsert_row:
  "\<exists>p \<in> set (t_providers (upsert_heartbeat a t s)). p_address p = a \<and> p_active p \<and>
     p_last_heartbeat p = Some t \<and> p_peer_id p = ''pending''"
proof (cases "a \<in> set (map p_address (t_providers s))")
  case True
  then obtain p where p: "p \<in> set (t_providers s)" "p_address p = a" by auto
  let ?f = "\<lambda>p. p\<lparr>p_last_heartbeat := Some t, p_active := True, p_peer_id := ''pending''\<rparr>"
  have "?f p \<in> set (sql_update (\<lambda>p. p_address p = a) ?f (t_providers s))"
    using sql_update_in[OF p(1), of "\<lambda>p. p_address p = a" ?f] p(2) by simp
  then show ?thesis using True p(2) by (intro bexI[of _ "?f p"]) (simp_all add: upsert_heartbeat_def)
qed (auto simp: upsert_heartbeat_def)

text \<open>
  A signed heartbeat, when no statement fails, leaves the provider listed under its lower-case
  address as active and seen now. It also leaves the peer identifier at \<^verbatim>\<open>'pending'\<close>, whatever
  identifier was stored before.
\<close>

theorem heartbeat_effect:
  assumes "script w = []" and "verifySignature recover ''Kyneto Provider Heartbeat'' signature a"
    and "a \<noteq> []" and "signature \<noteq> []"
  shows "\<exists>w'. post_heartbeat recover a m signature w = (Inr (Ok ()), w') \<and>
    (\<exists>p \<in> set (t_providers (db w')). p_address p = to_lower a \<and> p_active p \<and>
       p_last_heartbeat p = Some (clock w) \<and> p_peer_id p = ''pending'')"
proof -
  let ?s = "upsert_heartbeat (to_lower a) (clock w) (db w)"
  obtain p where p: "p \<in> set (t_providers ?s)" "p_address p = to_lower a" "p_active p"
    "p_last_heartbeat p = Some (clock w)" "p_peer_id p = ''pending''"
    using upsert_row by blast
  show ?thesis
  proof (cases m)
    case None
    then show ?thesis using assms p by (auto simp: post_heartbeat_def or_500_def)
  next
    case (Some sm)
    let ?q = "\<lambda>p. to_lower (p_address p) = to_lower a"
    let ?f = "\<lambda>p. p\<lparr>p_pledged_gb := sm_pledged sm, p_used_gb := (case sm_used sm of None \<Rightarrow> 0 | Some u \<Rightarrow> u)\<rparr>"
    have "?f p \<in> set (sql_update ?q ?f (t_providers ?s))"
      using sql_update_in[OF p(1), of ?q ?f] p(2) by simp
    then show ?thesis
      using assms p Some by (auto simp: post_heartbeat_def or_500_def logged_def intro!: bexI[of _ "?f p"])
  qed
qed

section \<open>The list of shards to clean up\<close>

lemma cleanup_run:
  assumes "script w = []"
  shows "\<exists>rows. get_cleanup a w = (Inr (Ok rows), w) \<and>
    (\<forall>c. c \<in> cl_cid ` set rows \<longleftrightarrow> (\<exists>h \<in> set (t_shards (db w)). s_cid h = c \<and> \<not> s_active h \<and>
       to_lower (s_provider h) = to_lower a \<and>
       (\<exists>d \<in> set (t_deals (db w)). d_id d = s_deal h \<and> d_status d \<in> {Cancelled, Completed, Failed})))"
  using assms by (auto simp: get_cleanup_def or_500_def image_iff)

text \<open>
  \<^verbatim>\<open>GET /api/providers/:address/cleanup\<close> lists exactly the shards a provider may drop: a content
  identifier is in the answer if and only if an inactive shard row of that provider carries it and
  the deal of that row is cancelled, completed or failed. It writes nothing.
\<close>

theorem cleanup_exact:
  assumes "script w = []"
  shows "\<exists>rows. get_cleanup a w = (Inr (Ok rows), w) \<and>
    (\<forall>c. c \<in> cl_cid ` set rows \<longleftrightarrow> (\<exists>h \<in> set (t_shards (db w)). s_cid h = c \<and> \<not> s_active h \<and>
       to_lower (s_provider h) = to_lower a \<and>
       (\<exists>d \<in> set (t_deals (db w)). d_id d = s_deal h \<and> d_status d \<in> {Cancelled, Completed, Failed})))"
  using assms by (rule cleanup_run)

section \<open>Instances\<close>

text \<open>A recovery function for which a signature is the signer's address.\<close>

definition plain_recovery :: recovery where
  "plain_recovery m sig = Some sig"

definition api_deal :: "string \<Rightarrow> deal_status \<Rightarrow> deal_row" where
  "api_deal client st =
     \<lparr>d_id = ''7'', d_client = client, d_file_cid = Some ''f'', d_size_gb = 1, d_duration_days = Some 30,
      d_price = Some 1, d_total_cost = 1, d_provider_payment = None, d_protocol_fee = None, d_status = st,
      d_created_at = 0, d_completed_at = None, d_cancelled_at = None, d_is_encrypted = True, d_key = None,
      d_iv = None, d_tag = None, d_payment_processed = False, d_block = None\<rparr>"

definition api_shard :: "string \<Rightarrow> nat \<Rightarrow> bool \<Rightarrow> shard_row" where
  "api_shard prov i act =
     \<lparr>s_deal = ''7'', s_provider = prov, s_index = i, s_cid = ''c'' @ nat_str i, s_size = None, s_is_data = Some (i < 10),
      s_active = act, s_created_at = 0, s_lost_at = None, s_deleted_at = None\<rparr>"

definition api_world :: "string \<Rightarrow> database world" where
  "api_world client = \<lparr>db = empty_db\<lparr>t_deals := [api_deal client Active],
     t_shards := [api_shard ''p1'' 0 True, api_shard ''p2'' 1 True]\<rparr>, clock = 5, script = []\<rparr>"

definition api_key_req :: "string \<Rightarrow> key_req" where
  "api_key_req a = \<lparr>kr_key = ''k'', kr_iv = ''i'', kr_tag = ''t'', kr_client = a, kr_signature = a\<rparr>"

lemmas api_sample = plain_recovery_def api_deal_def api_shard_def api_world_def empty_db_def
  verifySignature_def find_deal_def

lemma to_lower_ab: "to_lower ''ab'' = ''ab''" "to_lower ''aB'' = ''ab''"
  by code_simp+

theorem delete_deal_effect_witness:
  "\<exists>w'. delete_deal plain_recovery ''7'' ''ab'' ''aB'' (api_world ''ab'') = (Inr (Ok 2), w') \<and>
     status_of (db w') ''7'' = Some Cancelled \<and> active_shards ''7'' (db w') = []"
proof -
  have "\<exists>w'. delete_deal plain_recovery ''7'' ''ab'' ''aB'' (api_world ''ab'') =
      (Inr (Ok (length (active_shards ''7'' (db (api_world ''ab''))))), w') \<and>
      status_of (db w') = (status_of (db (api_world ''ab'')))(''7'' \<mapsto> Cancelled) \<and>
      (\<forall>j. active_shards j (db w') = (if j = ''7'' then [] else active_shards j (db (api_world ''ab''))))"
    using delete_deal_effect[of "api_world ''ab''" "''7''" "api_deal ''ab'' Active" plain_recovery "''aB''" "''ab''"]
    by (auto simp: api_sample to_lower_ab)
  moreover have "length (active_shards ''7'' (db (api_world ''ab''))) = 2"
    by (simp add: active_shards_def api_sample)
  ultimately show ?thesis by auto
qed

theorem key_roundtrip_witness:
  "\<exists>w'. post_key plain_recovery ''7'' (api_key_req ''aB'') (api_world ''ab'') = (Inr (Ok ''7''), w') \<and>
    (\<exists>v. get_key ''7'' w' = (Inr (Ok v), w') \<and> kv_key v = Some ''k'')"
  using key_roundtrip[of "api_world ''ab''" plain_recovery "''7''" "api_key_req ''aB''" "api_deal ''ab'' Active"]
  by (auto simp: api_sample key_req_ok_def api_key_req_def to_lower_ab)

theorem key_dropped_silently_witness:
  "post_key plain_recovery ''7'' (api_key_req ''aB'') (api_world ''aB'') = (Inr (Ok ''7''), api_world ''aB'') \<and>
   find_deal ''7'' (db (api_world ''aB'')) = Some (api_deal ''aB'' Active)"
  using key_dropped_silently[of "api_world ''aB''" plain_recovery "''7''" "api_key_req ''aB''"]
  by (simp add: api_sample key_req_ok_def api_key_req_def to_lower_ab)

theorem heartbeat_effect_witness:
  "\<exists>w'. post_heartbeat plain_recovery ''aB'' None ''ab'' (api_world ''ab'') = (Inr (Ok ()), w') \<and>
     (\<exists>p \<in> set (t_providers (db w')). p_address p = ''ab'' \<and> p_peer_id p = ''pending'')"
  using heartbeat_effect[of "api_world ''ab''" plain_recovery "''ab''" "''aB''" None]
  by (auto simp: api_sample to_lower_ab)

theorem cleanup_exact_witness:
  "\<exists>rows. get_cleanup ''ab'' \<lparr>db = empty_db\<lparr>t_deals := [api_deal ''x'' Cancelled], t_shards :=
        [api_shard ''aB'' 0 False, api_shard ''p'' 1 False]\<rparr>, clock = 5, script = []\<rparr> =
      (Inr (Ok rows), \<lparr>db = empty_db\<lparr>t_deals := [api_deal ''x'' Cancelled], t_shards :=
        [api_shard ''aB'' 0 False, api_shard ''p'' 1 False]\<rparr>, clock = 5, script = []\<rparr>) \<and>
     cl_cid ` set rows = {''c'' @ nat_str 0}"
proof -
  let ?w = "\<lparr>db = empty_db\<lparr>t_deals := [api_deal ''x'' Cancelled], t_shards :=
        [api_shard ''aB'' 0 False, api_shard ''p'' 1 False]\<rparr>, clock = 5, script = []\<rparr>"
  have p: "to_lower ''p'' = ''p''" by code_simp
  have quiet: "script ?w = []" by simp
  obtain rows where run: "get_cleanup ''ab'' ?w = (Inr (Ok rows), ?w)"
    and ex: "\<forall>c. c \<in> cl_cid ` set rows \<longleftrightarrow> (\<exists>h \<in> set (t_shards (db ?w)). s_cid h = c \<and> \<not> s_active h \<and>
       to_lower (s_provider h) = to_lower ''ab'' \<and>
       (\<exists>d \<in> set (t_deals (db ?w)). d_id d = s_deal h \<and> d_status d \<in> {Cancelled, Completed, Failed}))"
    using cleanup_exact[OF quiet, of "''ab''"] by blast
  have "cl_cid ` set rows = {''c'' @ nat_str 0}"
    by (rule set_eqI) (unfold ex[rule_format], simp add: api_deal_def api_shard_def to_lower_ab p eq_commute)
  then show ?thesis using run by blast
qed

end
