(* ===== verification/Deal_Pipeline.thy ===== *)
theory Deal_Pipeline
  imports Rest_Api
begin

text \<open>
  The production routes of the REST API (\<^verbatim>\<open>api/rest-api/src/server.ts\<close>): uploading a file, creating
  a deal (erasure coding, choice of providers, the rows of the deal and of its shards), downloading
  a file, and the timer that completes expired deals.

  The route that creates deals repeats the body of the shard manager's \<^verbatim>\<open>encodeFile\<close> statement by
  statement; the model calls that definition.
\<close>

section \<open>Upload\<close>

record upload_reply =
  up_cid :: string
  up_size :: nat
  up_size_gb :: rat
  up_name :: string

definition post_upload :: "(byte list \<Rightarrow> string) \<Rightarrow> (string \<times> byte list) option \<Rightarrow> upload_reply reply sql" where
  "post_upload cid_of upl = or_500 ''Failed to upload file to storage network'' (
     case upl of
       None \<Rightarrow> ret (Err 400 ''No file provided'')
     | Some (originalname, fileBuffer) \<Rightarrow>
         bind (ipfs_add cid_of fileBuffer) (\<lambda>cid.
           ret (Ok \<lparr>up_cid = cid, up_size = length fileBuffer,
                    up_size_gb = of_nat (length fileBuffer) / 1024 ^ 3, up_name = originalname\<rparr>)))"

section \<open>Creating a deal\<close>

text \<open>A missing number is 0: the code treats both alike (\<^verbatim>\<open>durationDays || 30\<close>).\<close>

record create_req =
  q_fileCID :: string
  q_fileName :: string
  q_sizeGB :: rat
  q_price :: rat
  q_durationDays :: nat
  q_clientAddress :: string
  q_encrypted :: bool

definition split_file :: "rs_lib \<Rightarrow> (byte list \<Rightarrow> string) \<Rightarrow> create_req \<Rightarrow> (string \<times> nat) list sql" where
  "split_file lib cid_of q = try_catch
     (bind (encodeFile lib cid_of (q_fileCID q)) (\<lambda>infos. ret (map (\<lambda>i. (shardCID i, sizeBytes i)) infos)))
     (\<lambda>_. ret [(q_fileCID q, nat \<lceil>q_sizeGB q * 1024 * 1024 * 1024\<rceil>)])"

text \<open>The outer join yields one row per provider and active pledge of it, at least one per provider.\<close>

definition with_pledges :: "database \<Rightarrow> provider_row \<Rightarrow> (provider_row \<times> rat \<times> rat) list" where
  "with_pledges s p =
     (case filter (\<lambda>c. to_lower (p_address p) = to_lower (c_provider c) \<and> c_active c) (t_pledges s) of
        [] \<Rightarrow> [(p, 0, 0)]
      | cs \<Rightarrow> map (\<lambda>c. (p, c_capacity_gb c, c_utilization_gb c)) cs)"

definition available_providers :: "int \<Rightarrow> database \<Rightarrow> (provider_row \<times> rat \<times> rat) list" where
  "available_providers t s = order_by (\<lambda>r. - p_reputation (fst r)) (concat (map (with_pledges s)
     (filter (\<lambda>p. p_active p \<and> (case p_last_heartbeat p of None \<Rightarrow> False | Some h \<Rightarrow> h > t - 90000))
        (t_providers s))))"

definition select_providers :: "int \<Rightarrow> provider_row list sql" where
  "select_providers t = try_catch (reads (\<lambda>s. map fst (available_providers t s))) (\<lambda>_. ret [])"

definition new_deal_id :: "int \<Rightarrow> string \<Rightarrow> string" where
  "new_deal_id t rnd = ''D-'' @ nat_str (nat t) @ ''-'' @ rnd"

definition storage_cost :: "create_req \<Rightarrow> rat" where
  "storage_cost q =
     (let days = if q_durationDays q = 0 then 30 else q_durationDays q;
          totalMonths = max 1 (ceil_div days 30);
          price = if q_price q = 0 then 1 / 100 else q_price q
      in q_sizeGB q * price * of_nat totalMonths)"

definition deal_row_of :: "create_req \<Rightarrow> string \<Rightarrow> int \<Rightarrow> deal_row" where
  "deal_row_of q dealId t =
     \<lparr>d_id = dealId, d_client = to_lower (q_clientAddress q), d_file_cid = Some (q_fileCID q),
      d_size_gb = q_sizeGB q,
      d_duration_days = Some (if q_durationDays q = 0 then 30 else q_durationDays q),
      d_price = Some (if q_price q = 0 then 1 / 100 else q_price q),
      d_total_cost = storage_cost q, d_provider_payment = None,
      d_protocol_fee = Some (storage_cost q * 3 / 100), d_status = Active, d_created_at = t,
      d_completed_at = None, d_cancelled_at = None, d_is_encrypted = True, d_key = None, d_iv = None,
      d_tag = None, d_payment_processed = False, d_block = None\<rparr>"

text \<open>Round robin over the selected rows; without any, the client keeps its own shards.\<close>

definition assigned_to :: "provider_row list \<Rightarrow> string \<Rightarrow> nat \<Rightarrow> string" where
  "assigned_to provs client i =
     (if 0 < length provs then p_address (provs ! (i mod length provs)) else client)"

definition shard_row_of :: "string \<Rightarrow> int \<Rightarrow> (nat \<Rightarrow> string) \<Rightarrow> nat \<times> string \<times> nat \<Rightarrow> shard_row" where
  "shard_row_of dealId t assigned x = (case x of (i, cid, sz) \<Rightarrow>
     \<lparr>s_deal = dealId, s_provider = to_lower (assigned i), s_index = i, s_cid = cid, s_size = Some sz,
      s_is_data = Some (i < DATA_SHARDS), s_active = True, s_created_at = t, s_lost_at = None,
      s_deleted_at = None\<rparr>)"

definition cids_for :: "provider_row list \<Rightarrow> string list \<Rightarrow> provider_row \<Rightarrow> string list" where
  "cids_for provs cids p = map snd (filter (\<lambda>(idx, _).
     to_lower (p_address (provs ! (idx mod length provs))) = to_lower (p_address p)) (enumerate 0 cids))"

record create_reply =
  cr_dealId :: string
  cr_fileCID :: string
  cr_shardCIDs :: "string list"
  cr_providers :: "(string \<times> string option) list"
  cr_totalCost :: rat
  cr_protocolFee :: rat
  cr_degradedMode :: bool

definition announce_deal :: "create_req \<Rightarrow> string \<Rightarrow> string list \<Rightarrow> provider_row list \<Rightarrow> unit sql" where
  "announce_deal q dealId cids provs =
     andthen (io_emit [] ''protocol_event'' (JObj [(''event_type'', JStr ''DEAL_CREATED''),
        (''description'', JStr (''New storage deal: '' @ (if q_fileName q = [] then dealId else q_fileName q))),
        (''data'', JObj [(''dealId'', JStr dealId), (''fileCID'', JStr (q_fileCID q)),
                         (''shardCount'', JNum (of_nat (length cids)))])]))
     (for_each provs (\<lambda>p. io_emit (''provider-rpc:'' @ to_lower (p_address p)) ''shard:assigned''
        (JObj [(''dealId'', JStr dealId), (''shardCIDs'', JArr (map JStr (cids_for provs cids p)))])))"

definition record_deal :: "create_req \<Rightarrow> string \<Rightarrow> int \<Rightarrow> (string \<times> nat) list \<Rightarrow> provider_row list \<Rightarrow> unit sql" where
  "record_deal q dealId t shards provs =
     andthen (effect (insert_deal (deal_row_of q dealId t)))
    (andthen (for_each (map (shard_row_of dealId t (assigned_to provs (q_clientAddress q))) (enumerate 0 shards))
                (\<lambda>r. effect (insert_shard r)))
             (writes (add_event ''DEAL_CREATED''
               (''Deal '' @ dealId @ '' created: '' @ (if q_fileName q = [] then ''file'' else q_fileName q) @
                '' ('' @ nat_str (length shards) @ '' shards)'')
               (JObj [(''dealId'', JStr dealId), (''fileCID'', JStr (q_fileCID q)),
                      (''shardCount'', JNum (of_nat (length shards))),
                      (''providers'', JNum (of_nat (length provs))), (''encrypted'', JBool (q_encrypted q))]) t)))"

definition create_deal :: "rs_lib \<Rightarrow> (byte list \<Rightarrow> string) \<Rightarrow> string \<Rightarrow> create_req \<Rightarrow> create_reply reply sql" where
  "create_deal lib cid_of rnd q = or_500 ''Failed to create deal'' (
     if q_fileCID q = [] \<or> q_clientAddress q = [] \<or> q_sizeGB q = 0
     then ret (Err 400 ''Missing required fields: fileCID, clientAddress, sizeGB'')
     else bind (split_file lib cid_of q) (\<lambda>shards.
          bind now (\<lambda>t.
          bind (select_providers t) (\<lambda>provs.
          let dealId = new_deal_id t rnd; cids = map fst shards;
              protocolFee = storage_cost q * 3 / 100
          in andthen (record_deal q dealId t shards provs)
            (andthen (announce_deal q dealId cids provs)
            (ret (Ok \<lparr>cr_dealId = dealId, cr_fileCID = q_fileCID q, cr_shardCIDs = cids,
                      cr_providers = map (\<lambda>p. (p_address p, p_region p)) provs,
                      cr_totalCost = storage_cost q + protocolFee, cr_protocolFee = protocolFee,
                      cr_degradedMode = length provs < TOTAL_SHARDS\<rparr>)))))))"

section \<open>Downloading\<close>

record download =
  dl_data :: "byte list"
  dl_cid :: "string option"
  dl_encrypted :: "bool option"
  dl_reconstructed :: bool

definition cat_opt :: "string option \<Rightarrow> byte list sql" where
  "cat_opt c = (case c of None \<Rightarrow> throw ''no content identifier'' | Some cid \<Rightarrow> ipfs_cat cid)"

definition data_shards :: "string \<Rightarrow> database \<Rightarrow> shard_row list" where
  "data_shards dealId s =
     order_by s_index (filter (\<lambda>h. s_deal h = dealId \<and> s_active h \<and> s_is_data h = Some True) (t_shards s))"

primrec cat_all :: "string list \<Rightarrow> byte list sql" where
  "cat_all [] = ret []"
| "cat_all (c # cs) = bind (ipfs_cat c) (\<lambda>b. bind (cat_all cs) (\<lambda>r. ret (b @ r)))"

definition join_shards :: "string \<Rightarrow> deal_row \<Rightarrow> download reply sql" where
  "join_shards dealId deal =
     bind (reads (data_shards dealId)) (\<lambda>rows.
       if rows = [] then ret (Err 404 ''No active shards found for this deal'')
       else bind (cat_all (map s_cid rows)) (\<lambda>f.
         ret (Ok \<lparr>dl_data = f, dl_cid = d_file_cid deal, dl_encrypted = None, dl_reconstructed = True\<rparr>)))"

definition get_download :: "string \<Rightarrow> download reply sql" where
  "get_download dealId = or_500 ''Failed to download file'' (
     bind (reads (find_deal dealId)) (\<lambda>d.
       case d of
         None \<Rightarrow> ret (Err 404 ''Deal not found'')
       | Some deal \<Rightarrow> try_catch
           (bind (cat_opt (d_file_cid deal)) (\<lambda>f.
             ret (Ok \<lparr>dl_data = f, dl_cid = d_file_cid deal, dl_encrypted = Some (d_is_encrypted deal),
                      dl_reconstructed = False\<rparr>)))
           (\<lambda>_. join_shards dealId deal)))"

section \<open>Expiry\<close>

text \<open>
  \<^verbatim>\<open>BEGIN\<close>, \<^verbatim>\<open>COMMIT\<close> and \<^verbatim>\<open>ROLLBACK\<close> are sent through a connection pool. Whether all statements of the
  block reach the same connection is the pool's choice and a parameter: if they do, a failed block
  leaves the tables as they were; if not, every statement commits on its own.
\<close>

definition control_statement :: "unit sql" where
  "control_statement = writes (\<lambda>s. s)"

definition in_transaction :: "bool \<Rightarrow> unit sql \<Rightarrow> unit sql" where
  "in_transaction same_client m w =
     (case andthen control_statement (andthen m control_statement) w of
        (Inr u, w') \<Rightarrow> (Inr u, w')
      | (Inl e, w') \<Rightarrow> (Inl e, snd (logged control_statement (if same_client then w'\<lparr>db := db w\<rparr> else w'))))"

definition overdue :: "int \<Rightarrow> deal_row \<Rightarrow> bool" where
  "overdue t d \<longleftrightarrow> d_status d = Active \<and>
     (case d_duration_days d of None \<Rightarrow> False | Some n \<Rightarrow> d_created_at d + int n * 86400000 < t)"

definition expire_deal :: "bool \<Rightarrow> int \<Rightarrow> string \<Rightarrow> unit sql" where
  "expire_deal same_client t dealId = logged (
     andthen (in_transaction same_client (
        andthen (writes (set_deal_status Completed (\<lambda>d. d\<lparr>d_completed_at := Some t\<rparr>) dealId))
       (andthen (writes (deactivate_deal_shards t dealId))
                (writes (add_event ''DEAL_COMPLETED'' (''Deal '' @ dealId @ '' automatically completed (expired)'')
                   (JObj [(''dealId'', JStr dealId)]) t)))))
     (io_emit [] ''deal:cancelled'' (JObj [(''dealId'', JStr dealId)])))"

definition expiration_check :: "bool \<Rightarrow> unit sql" where
  "expiration_check same_client = logged (bind now (\<lambda>t.
     bind (reads (\<lambda>s. map d_id (filter (overdue t) (t_deals s)))) (\<lambda>ids.
       for_each ids (expire_deal same_client t))))"

section \<open>Inserting the shards of a new deal\<close>

lemma insert_shards_run:
  "script w = [] \<Longrightarrow> distinct (map shard_key rs) \<Longrightarrow>
   set (map shard_key rs) \<inter> set (map shard_key (t_shards (db w))) = {} \<Longrightarrow>
   for_each rs (\<lambda>r. effect (insert_shard r)) w = (Inr (), w\<lparr>db := (db w)\<lparr>t_shards := t_shards (db w) @ rs\<rparr>\<rparr>)"
proof (induction rs arbitrary: w)
  case (Cons r rs)
  let ?w = "w\<lparr>db := (db w)\<lparr>t_shards := t_shards (db w) @ [r]\<rparr>\<rparr>"
  have "effect (insert_shard r) w = (Inr (), ?w)"
    using Cons.prems by (auto simp: effect_Nil insert_shard_def)
  moreover have "for_each rs (\<lambda>r. effect (insert_shard r)) ?w =
      (Inr (), ?w\<lparr>db := (db ?w)\<lparr>t_shards := t_shards (db ?w) @ rs\<rparr>\<rparr>)"
    by (rule Cons.IH) (use Cons.prems in auto)
  ultimately show ?case by simp
qed simp

lemma for_each_append: "for_each (xs @ ys) f = andthen (for_each xs f) (for_each ys f)"
  by (induction xs) (auto simp: fun_eq_iff andthen_def bind_def ret_def split: prod.splits sum.splits)

lemma insert_shards_stop:
  assumes "script w = []" and "distinct (map shard_key rs)"
    and "set (map shard_key rs) \<inter> set (map shard_key (t_shards (db w))) = {}"
    and "shard_key r \<in> set (map shard_key rs)"
  shows "for_each (rs @ r # rest) (\<lambda>r. effect (insert_shard r)) w =
     (Inl ''refused'', w\<lparr>db := (db w)\<lparr>t_shards := t_shards (db w) @ rs\<rparr>\<rparr>)"
proof -
  let ?w = "w\<lparr>db := (db w)\<lparr>t_shards := t_shards (db w) @ rs\<rparr>\<rparr>"
  have first: "for_each rs (\<lambda>r. effect (insert_shard r)) w = (Inr (), ?w)"
    by (rule insert_shards_run) (use assms in auto)
  have "effect (insert_shard r) ?w = (Inl ''refused'', ?w)"
    using assms by (auto simp: effect_Nil insert_shard_def)
  then show ?thesis using first by (simp add: for_each_append)
qed

definition lower_addresses :: "provider_row list \<Rightarrow> string list" where
  "lower_addresses provs = map (\<lambda>p. to_lower (p_address p)) provs"

text \<open>Round robin hands out as many different holders as there are rows, then starts again.\<close>

lemma assigned_first_round:
  assumes "distinct (lower_addresses provs)" and "i < max 1 (length provs)" and "j < max 1 (length provs)"
  shows "to_lower (assigned_to provs c i) = to_lower (assigned_to provs c j) \<longleftrightarrow> i = j"
proof (cases "provs = []")
  case False
  then have "0 < length provs" by simp
  then have len: "i < length (lower_addresses provs)" "j < length (lower_addresses provs)"
    using assms(2,3) unfolding lower_addresses_def by (simp_all add: max_def split: if_splits)
  then have "lower_addresses provs ! i = lower_addresses provs ! j \<longleftrightarrow> i = j"
    using assms(1) by (simp add: nth_eq_iff_index_eq)
  then show ?thesis using len False by (simp add: lower_addresses_def assigned_to_def)
qed (use assms in simp)

lemma assigned_wraps: "assigned_to provs c (max 1 (length provs)) = assigned_to provs c 0"
  by (cases "length provs = 0") (simp_all add: assigned_to_def max_def Suc_le_eq)

lemma shard_row_of_simps [simp]:
  "shard_key (shard_row_of i t a x) = (i, to_lower (a (fst x)))"
  "s_deal (shard_row_of i t a x) = i" "s_active (shard_row_of i t a x)"
  "s_provider (shard_row_of i t a x) = to_lower (a (fst x))" "s_index (shard_row_of i t a x) = fst x"
  "s_cid (shard_row_of i t a x) = fst (snd x)" "s_is_data (shard_row_of i t a x) = Some (fst x < 10)"
  by (simp_all add: shard_row_of_def shard_key_def split: prod.splits)

definition shard_rows :: "create_req \<Rightarrow> string \<Rightarrow> int \<Rightarrow> (string \<times> nat) list \<Rightarrow> provider_row list \<Rightarrow> shard_row list" where
  "shard_rows q i t shards provs = map (shard_row_of i t (assigned_to provs (q_clientAddress q))) (enumerate 0 shards)"

lemma shard_row_keys:
  "map shard_key (shard_rows q i t shards provs) =
     map (\<lambda>k. (i, to_lower (assigned_to provs (q_clientAddress q) k))) [0..<length shards]"
  by (rule nth_equalityI) (simp_all add: shard_rows_def nth_enumerate_eq)

lemma first_round_distinct:
  assumes "distinct (lower_addresses provs)" and "n \<le> max 1 (length provs)"
  shows "distinct (map (\<lambda>k. (i, to_lower (assigned_to provs c k))) [0..<n])"
  using assms by (auto simp: distinct_map inj_on_def assigned_first_round)

definition fresh_deal :: "string \<Rightarrow> database \<Rightarrow> bool" where
  "fresh_deal i s \<longleftrightarrow> (\<forall>d \<in> set (t_deals s). d_id d \<noteq> i) \<and> (\<forall>h \<in> set (t_shards s). s_deal h \<noteq> i)"

lemma insert_fresh_deal:
  "script w = [] \<Longrightarrow> fresh_deal i (db w) \<Longrightarrow> effect (insert_deal (deal_row_of q i t)) w =
     (Inr (), w\<lparr>db := (db w)\<lparr>t_deals := t_deals (db w) @ [deal_row_of q i t]\<rparr>\<rparr>)"
  by (auto simp: effect_Nil insert_deal_def deal_row_of_def fresh_deal_def)

lemma record_deal_run:
  assumes "script w = []" and "fresh_deal i (db w)" and "distinct (lower_addresses provs)"
    and "length shards \<le> max 1 (length provs)"
  obtains ev where "record_deal q i t shards provs w = (Inr (), w\<lparr>db := (db w)\<lparr>
      t_deals := t_deals (db w) @ [deal_row_of q i t], t_shards := t_shards (db w) @ shard_rows q i t shards provs,
      t_events := t_events (db w) @ [ev]\<rparr>\<rparr>)"
proof -
  let ?w = "w\<lparr>db := (db w)\<lparr>t_deals := t_deals (db w) @ [deal_row_of q i t]\<rparr>\<rparr>"
  have "for_each (shard_rows q i t shards provs) (\<lambda>r. effect (insert_shard r)) ?w =
      (Inr (), ?w\<lparr>db := (db ?w)\<lparr>t_shards := t_shards (db ?w) @ shard_rows q i t shards provs\<rparr>\<rparr>)"
  proof (rule insert_shards_run)
    show "distinct (map shard_key (shard_rows q i t shards provs))"
      unfolding shard_row_keys by (rule first_round_distinct[OF assms(3,4)])
    show "set (map shard_key (shard_rows q i t shards provs)) \<inter> set (map shard_key (t_shards (db ?w))) = {}"
      unfolding shard_row_keys using assms(2) by (auto simp: fresh_deal_def shard_key_def)
  qed (use assms(1) in simp)
  then show ?thesis
    using that assms(1) insert_fresh_deal[OF assms(1,2)]
    by (simp add: record_deal_def shard_rows_def[symmetric] add_event_def)
qed

lemma record_deal_stop:
  assumes "script w = []" and "fresh_deal i (db w)" and "distinct (lower_addresses provs)"
    and more: "max 1 (length provs) < length shards"
  shows "record_deal q i t shards provs w = (Inl ''refused'', w\<lparr>db := (db w)\<lparr>
      t_deals := t_deals (db w) @ [deal_row_of q i t],
      t_shards := t_shards (db w) @ take (max 1 (length provs)) (shard_rows q i t shards provs)\<rparr>\<rparr>)"
proof -
  let ?n = "max 1 (length provs)" and ?rows = "shard_rows q i t shards provs"
  let ?w = "w\<lparr>db := (db w)\<lparr>t_deals := t_deals (db w) @ [deal_row_of q i t]\<rparr>\<rparr>"
  let ?k = "\<lambda>k. (i, to_lower (assigned_to provs (q_clientAddress q) k))"
  have len: "length ?rows = length shards" by (simp add: shard_rows_def)
  have keys: "map shard_key (take ?n ?rows) = map ?k [0..<?n]"
    using more unfolding take_map[symmetric] shard_row_keys by (simp add: take_map take_upt)
  have key: "shard_key (?rows ! ?n) = ?k ?n"
    using more by (simp add: shard_rows_def nth_enumerate_eq)
  have split: "?rows = take ?n ?rows @ ?rows ! ?n # drop (Suc ?n) ?rows"
    using more len by (simp add: id_take_nth_drop)
  have "for_each (take ?n ?rows @ ?rows ! ?n # drop (Suc ?n) ?rows) (\<lambda>r. effect (insert_shard r)) ?w =
      (Inl ''refused'', ?w\<lparr>db := (db ?w)\<lparr>t_shards := t_shards (db ?w) @ take ?n ?rows\<rparr>\<rparr>)"
  proof (rule insert_shards_stop)
    have "?k 0 \<in> set (map ?k [0..<?n])" by simp
    then show "shard_key (?rows ! ?n) \<in> set (map shard_key (take ?n ?rows))"
      unfolding keys key assigned_wraps .
    show "distinct (map shard_key (take ?n ?rows))"
      unfolding keys by (rule first_round_distinct[OF assms(3) order.refl])
    show "set (map shard_key (take ?n ?rows)) \<inter> set (map shard_key (t_shards (db ?w))) = {}"
      unfolding keys using assms(2) by (auto simp: fresh_deal_def shard_key_def)
  qed (use assms(1) in simp)
  then show ?thesis
    using assms(1,2) insert_fresh_deal[OF assms(1,2)]
    unfolding split[symmetric] by (simp add: record_deal_def shard_rows_def[symmetric])
qed

section \<open>The route as a whole\<close>

lemma available_blocks [simp]: "available_providers t (s\<lparr>blocks := b\<rparr>) = available_providers t s"
proof -
  have "with_pledges (s\<lparr>blocks := b\<rparr>) = with_pledges s" by (simp add: fun_eq_iff with_pledges_def)
  then show ?thesis by (simp add: available_providers_def)
qed

lemma fresh_blocks [simp]: "fresh_deal i (s\<lparr>blocks := b\<rparr>) = fresh_deal i s"
  by (simp add: fresh_deal_def)

definition create_req_ok :: "create_req \<Rightarrow> bool" where
  "create_req_ok q \<longleftrightarrow> q_fileCID q \<noteq> [] \<and> q_clientAddress q \<noteq> [] \<and> q_sizeGB q \<noteq> 0"

definition live_rows :: "database world \<Rightarrow> provider_row list" where
  "live_rows w = map fst (available_providers (clock w) (db w))"

lemma split_file_run:
  assumes "rs_systematic lib" and "script w = []" and "blocks (db w) (q_fileCID q) = Some data"
  obtains sh where "applyErasureCoding lib data = Some sh" "length sh = 15"
    "split_file lib cid_of q w = (Inr (map (\<lambda>d. (cid_of d, length d)) sh),
       w\<lparr>db := (db w)\<lparr>blocks := fold (\<lambda>d m. m(cid_of d \<mapsto> d)) sh (blocks (db w))\<rparr>\<rparr>)"
proof -
  obtain sh where sh: "applyErasureCoding lib data = Some sh" "length sh = 15"
    "encodeFile lib cid_of (q_fileCID q) w = (Inr (map (info_of cid_of (q_fileCID q)) (enumerate 0 sh)),
       w\<lparr>db := (db w)\<lparr>blocks := fold (\<lambda>d m. m(cid_of d \<mapsto> d)) sh (blocks (db w))\<rparr>\<rparr>)"
    by (rule encodeFile_run[OF assms, where cid_of = cid_of])
  have "map (\<lambda>x. (cid_of (snd x), length (snd x))) (enumerate 0 sh) = map (\<lambda>d. (cid_of d, length d)) sh"
    by (rule nth_equalityI) (simp_all add: nth_enumerate_eq)
  then show ?thesis
    using that[OF sh(1,2)] sh(3) by (simp add: split_file_def info_of_def comp_def)
qed

lemma create_deal_go:
  assumes "create_req_ok q" and "script w = []" and "split_file lib cid_of q w = (Inr shards, w')"
    and "script w' = []" and "clock w' = clock w" and "live_rows w' = provs"
    and "record_deal q (new_deal_id (clock w) rnd) (clock w) shards provs w' = (r, w'')"
  shows "create_deal lib cid_of rnd q w = (case r of
      Inl e \<Rightarrow> (Inr (Err 500 ''Failed to create deal''), w'')
    | Inr _ \<Rightarrow> (Inr (Ok \<lparr>cr_dealId = new_deal_id (clock w) rnd, cr_fileCID = q_fileCID q, cr_shardCIDs = map fst shards,
          cr_providers = map (\<lambda>p. (p_address p, p_region p)) provs,
          cr_totalCost = storage_cost q + storage_cost q * 3 / 100, cr_protocolFee = storage_cost q * 3 / 100,
          cr_degradedMode = length provs < 15\<rparr>),
        snd (announce_deal q (new_deal_id (clock w) rnd) (map fst shards) provs w'')))"
proof -
  have sel: "select_providers (clock w) w' = (Inr provs, w')"
    using assms(4-6) by (simp add: select_providers_def live_rows_def)
  have ann: "\<exists>w3. announce_deal q i c provs w'' = (Inr (), w3)" for i c
    by (simp add: announce_deal_def emit_all_run)
  show ?thesis
  proof (cases r)
    case (Inl e)
    then show ?thesis using assms sel by (simp add: create_deal_def create_req_ok_def or_500_def Let_def)
  next
    case (Inr u)
    obtain w3 where "announce_deal q (new_deal_id (clock w) rnd) (map fst shards) provs w'' = (Inr (), w3)"
      using ann by blast
    then show ?thesis
      using assms sel Inr by (simp add: create_deal_def create_req_ok_def or_500_def Let_def)
  qed
qed

lemma announce_tables [simp]:
  "t_deals (db (snd (announce_deal q i c provs w))) = t_deals (db w)"
  "t_shards (db (snd (announce_deal q i c provs w))) = t_shards (db w)"
  "blocks (db (snd (announce_deal q i c provs w))) = blocks (db w)"
  by (simp_all add: announce_deal_def emit_all_run)

lemma fresh_active:
  "fresh_deal i s \<Longrightarrow> t_shards s' = t_shards s @ shard_rows q i t shards provs \<Longrightarrow>
   active_shards i s' = shard_rows q i t shards provs"
  by (auto simp: active_shards_def fresh_deal_def filter_empty_conv shard_rows_def)

lemma fresh_active_take:
  "fresh_deal i s \<Longrightarrow> t_shards s' = t_shards s @ take n (shard_rows q i t shards provs) \<Longrightarrow>
   active_shards i s' = take n (shard_rows q i t shards provs)"
  by (auto simp: active_shards_def fresh_deal_def filter_empty_conv shard_rows_def filter_id_conv dest!: in_set_takeD)

lemma fresh_find:
  "fresh_deal i s \<Longrightarrow> t_deals s' = t_deals s @ [deal_row_of q i t] \<Longrightarrow> find_deal i s' = Some (deal_row_of q i t)"
  by (auto simp: find_deal_def find_append fresh_deal_def deal_row_of_def find_None_iff split: option.splits
      dest: find_deal_Some) (auto simp: find_Some_iff dest: nth_mem)

lemma assigned_live:
  "provs \<noteq> [] \<Longrightarrow> to_lower (assigned_to provs c k) \<in> set (lower_addresses provs)"
  by (auto simp: assigned_to_def lower_addresses_def)

text \<open>The rows of a deal with at least fifteen providers.\<close>

lemma first_round_rows:
  assumes "distinct (lower_addresses provs)" and "15 \<le> length provs" and "length sh = 15"
  shows "distinct (map s_provider (shard_rows q i t (map (\<lambda>d. (cid_of d, length d)) sh) provs))"
    and "length (shard_rows q i t (map (\<lambda>d. (cid_of d, length d)) sh) provs) = 15"
proof -
  let ?rows = "shard_rows q i t (map (\<lambda>d. (cid_of d, length d)) sh) provs"
  have prov: "map s_provider ?rows = map (\<lambda>k. to_lower (assigned_to provs (q_clientAddress q) k)) [0..<15]"
    by (rule nth_equalityI) (simp_all add: shard_rows_def nth_enumerate_eq assms(3) del: upt_rec_numeral)
  show "distinct (map s_provider ?rows)"
    unfolding prov using assms(1,2)
    by (auto simp: distinct_map inj_on_def assigned_first_round simp del: upt_rec_numeral)
  show "length ?rows = 15" by (simp add: shard_rows_def assms(3))
qed

lemma first_round_row:
  assumes "distinct (lower_addresses provs)" and "15 \<le> length provs" and "length sh = 15"
    and "h \<in> set (shard_rows q i t (map (\<lambda>d. (cid_of d, length d)) sh) provs)"
  shows "s_provider h \<in> set (lower_addresses provs) \<and> s_index h < 15 \<and> s_cid h = cid_of (sh ! s_index h)"
proof -
  obtain k where "k < 15"
    "h = shard_row_of i t (assigned_to provs (q_clientAddress q)) (k, map (\<lambda>d. (cid_of d, length d)) sh ! k)"
    using assms(3,4) by (auto simp: shard_rows_def in_set_conv_nth nth_enumerate_eq)
  moreover have "provs \<noteq> []" using assms(2) by auto
  ultimately show ?thesis using assms(3) assigned_live by simp
qed


text \<open>
  Creating a deal with too few providers. Under the same conditions but with fewer than fifteen
  live rows (none at all included, when the client is to hold its own shards), the key of the shard
  table refuses the first shard of the second round: the route answers 500, and leaves behind a deal
  marked active with only as many shards as there were providers (one without any), no event and no
  message. The code means to serve this case: it answers a flag \<^verbatim>\<open>degradedMode\<close> for it.
\<close>

theorem create_deal_half_done:
  assumes sys: "rs_systematic lib" and ok: "create_req_ok q" and quiet: "script w = []"
    and stored: "blocks (db w) (q_fileCID q) = Some data"
    and fresh: "fresh_deal (new_deal_id (clock w) rnd) (db w)"
    and dist: "distinct (lower_addresses (live_rows w))" and few: "length (live_rows w) < 15"
  shows "\<exists>w'. create_deal lib cid_of rnd q w = (Inr (Err 500 ''Failed to create deal''), w') \<and>
    status_of (db w') (new_deal_id (clock w) rnd) = Some Active \<and>
    length (active_shards (new_deal_id (clock w) rnd) (db w')) = max 1 (length (live_rows w)) \<and>
    t_events (db w') = t_events (db w) \<and> emits (db w') = emits (db w)"
proof -
  let ?i = "new_deal_id (clock w) rnd" and ?provs = "live_rows w"
  obtain sh where sh: "length sh = 15" "split_file lib cid_of q w = (Inr (map (\<lambda>d. (cid_of d, length d)) sh),
       w\<lparr>db := (db w)\<lparr>blocks := fold (\<lambda>d m. m(cid_of d \<mapsto> d)) sh (blocks (db w))\<rparr>\<rparr>)"
    by (rule split_file_run[OF sys quiet stored])
  let ?shards = "map (\<lambda>d. (cid_of d, length d)) sh"
  let ?w = "w\<lparr>db := (db w)\<lparr>blocks := fold (\<lambda>d m. m(cid_of d \<mapsto> d)) sh (blocks (db w))\<rparr>\<rparr>"
  have rec: "record_deal q ?i (clock w) ?shards ?provs ?w = (Inl ''refused'', ?w\<lparr>db := (db ?w)\<lparr>
      t_deals := t_deals (db ?w) @ [deal_row_of q ?i (clock w)],
      t_shards := t_shards (db ?w) @ take (max 1 (length ?provs)) (shard_rows q ?i (clock w) ?shards ?provs)\<rparr>\<rparr>)"
    (is "_ = (_, ?w2)")
    by (rule record_deal_stop) (use quiet fresh dist few sh(1) in simp_all)
  have run: "create_deal lib cid_of rnd q w = (Inr (Err 500 ''Failed to create deal''), ?w2)"
    using create_deal_go[OF ok quiet sh(2) _ _ _ rec] quiet by (simp add: live_rows_def)
  have act: "active_shards ?i (db ?w2) = take (max 1 (length ?provs)) (shard_rows q ?i (clock w) ?shards ?provs)"
    by (rule fresh_active_take[OF fresh]) simp
  have deal: "find_deal ?i (db ?w2) = Some (deal_row_of q ?i (clock w))" by (rule fresh_find[OF fresh]) simp
  show ?thesis
    by (rule exI, rule conjI[OF run], unfold act status_of_def deal)
       (use few sh(1) in \<open>simp add: deal_row_of_def shard_rows_def\<close>)
qed

section \<open>Downloads\<close>

lemma cat_all_run:
  "script w = [] \<Longrightarrow> list_all2 (\<lambda>c b. blocks (db w) c = Some b) cs bs \<Longrightarrow> cat_all cs w = (Inr (concat bs), w)"
  by (induction cs arbitrary: bs) (auto simp: list_all2_Cons1)

text \<open>
  Downloading while the cluster still serves the original file: the answer is the file, byte for
  byte, and nothing is written.
\<close>

theorem download_direct:
  assumes "script w = []" and "find_deal i (db w) = Some d" and "d_file_cid d = Some f"
    and "blocks (db w) f = Some data"
  shows "get_download i w = (Inr (Ok \<lparr>dl_data = data, dl_cid = Some f,
    dl_encrypted = Some (d_is_encrypted d), dl_reconstructed = False\<rparr>), w)"
  using assms by (simp add: get_download_def or_500_def cat_opt_def)

lemma download_joins:
  assumes "script w = []" and "find_deal i (db w) = Some d" and "d_file_cid d = Some f"
    and "blocks (db w) f = None" and "data_shards i (db w) \<noteq> []"
    and "list_all2 (\<lambda>h b. blocks (db w) (s_cid h) = Some b) (data_shards i (db w)) bs"
  shows "get_download i w = (Inr (Ok \<lparr>dl_data = concat bs, dl_cid = Some f,
    dl_encrypted = None, dl_reconstructed = True\<rparr>), w)"
proof -
  have cat: "ipfs_cat f w = (Inl ''refused'', w)"
    using assms(1,4) by (simp add: ipfs_cat_def effect_Nil)
  have "cat_all (map s_cid (data_shards i (db w))) w = (Inr (concat bs), w)"
    by (rule cat_all_run) (use assms(1,6) in \<open>simp_all add: list.rel_map\<close>)
  then have "join_shards i d w = (Inr (Ok \<lparr>dl_data = concat bs, dl_cid = Some f,
      dl_encrypted = None, dl_reconstructed = True\<rparr>), w)"
    using assms(1,3,5) by (simp add: join_shards_def)
  then show ?thesis
    using assms(1-3) cat by (simp add: get_download_def or_500_def cat_opt_def)
qed

text \<open>The served data shards of a deal that was cut into \<open>sh\<close>, the shards with index in \<open>ks\<close>.\<close>

definition served :: "string \<Rightarrow> nat list \<Rightarrow> byte list list \<Rightarrow> database \<Rightarrow> bool" where
  "served i ks sh s \<longleftrightarrow> map s_index (data_shards i s) = ks \<and>
     (\<forall>h \<in> set (data_shards i s). s_index h < length sh \<and> blocks s (s_cid h) = Some (sh ! s_index h))"

lemma served_blocks:
  assumes "served i ks sh s"
  shows "list_all2 (\<lambda>h b. blocks s (s_cid h) = Some b) (data_shards i s) (map (\<lambda>k. sh ! k) ks)"
proof -
  have "map (\<lambda>k. sh ! k) ks = map (\<lambda>h. sh ! s_index h) (data_shards i s)"
    using assms unfolding served_def by auto
  then show ?thesis using assms by (auto simp: served_def list_all2_conv_all_nth)
qed

text \<open>
  Downloading once the original is gone: the answer is the concatenation of whatever data shards are
  still active. With all ten it is the file followed by the zero padding, which is never cut off.
  Any lost data shard is skipped without an error: parity is not used, and the answer, still a
  success, lacks that shard's bytes.
\<close>

theorem download_from_shards:
  assumes "script w = []" and "find_deal i (db w) = Some d" and "d_file_cid d = Some f"
    and "blocks (db w) f = None" and "ks \<noteq> []" and "served i ks sh (db w)"
    and "rs_systematic lib" and "applyErasureCoding lib data = Some sh"
  shows "\<exists>r. get_download i w = (Inr (Ok r), w) \<and> dl_data r = concat (map (\<lambda>k. sh ! k) ks) \<and>
    (ks = [0..<10] \<longrightarrow> dl_data r = padded data) \<and>
    length (dl_data r) = length ks * ceil_div (length data) 10"
proof -
  have ne: "data_shards i (db w) \<noteq> []" using assms(5,6) by (auto simp: served_def)
  note run = download_joins[OF assms(1-4) ne served_blocks[OF assms(6)]]
  obtain par where par: "length par = 5 * ceil_div (length data) 10"
    and enc: "sh = map (\<lambda>i. chunk (ceil_div (length data) 10) i (padded data @ par)) [0..<15]"
    using encode_Some[OF assms(7), of data] assms(8) by auto
  have len: "length (sh ! k) = ceil_div (length data) 10" if "k \<in> set ks" for k
  proof -
    have k: "k < 15" using that assms(6) by (auto simp: served_def enc simp del: upt_rec_numeral)
    then show ?thesis
      using par length_chunk[of k "ceil_div (length data) 10" "padded data @ par"] chunk_fits[OF k, of "ceil_div (length data) 10"]
      by (simp add: enc length_padded del: upt_rec_numeral)
  qed
  have "length (concat (map (\<lambda>k. sh ! k) ks)) = length ks * ceil_div (length data) 10"
    using len by (induction ks) auto
  moreover have "concat (map (\<lambda>k. sh ! k) [0..<10]) = padded data"
  proof -
    have "map (\<lambda>k. sh ! k) [0..<10] = map (\<lambda>i. chunk (ceil_div (length data) 10) i (padded data @ par)) [0..<10]"
      by (rule map_cong) (simp_all add: enc del: upt_rec_numeral)
    then show ?thesis unfolding concat_chunks by (simp only: concat_chunks) (simp add: length_padded)
  qed
  ultimately show ?thesis using run by auto
qed

section \<open>Expiry of deals\<close>

lemma control_statement_rules [orderly_rules]: "orderly control_statement"
  unfolding control_statement_def by (rule orderly_writes)

lemma wp_control_statement [wp_rules]: "E ''rejected'' s \<Longrightarrow> Q () s \<Longrightarrow> wp t control_statement Q E s"
  unfolding control_statement_def by (rule wp_writes)

lemma rollback_keeps:
  "clock (snd (logged control_statement w)) = clock w" "db (snd (logged control_statement w)) = db w"
proof -
  have "orderly (logged control_statement)" by (intro orderly_rules)
  then show "clock (snd (logged control_statement w)) = clock w" by (simp add: orderly_def)
  have "final (logged control_statement) w = db w"
    by (rule wp_final_now, intro wp_logged wp_control_statement) simp_all
  then show "db (snd (logged control_statement w)) = db w" by (simp add: final_def)
qed

text \<open>On one connection the block happens as a whole or not at all; on several, it may stop anywhere.\<close>

lemma wp_in_transaction:
  assumes "wp t (andthen control_statement (andthen m control_statement)) Q
      (\<lambda>_ s'. \<forall>e. E e (if same_client then s else s')) s"
  shows "wp t (in_transaction same_client m) Q E s"
  unfolding wp_def
proof (intro allI impI)
  fix w :: "database world"
  assume w: "clock w = t" "db w = s"
  obtain r w' where run: "andthen control_statement (andthen m control_statement) w = (r, w')" by fastforce
  from assms[unfolded wp_def, rule_format, OF w]
  have body: "clock w' = t" "case r of Inl e \<Rightarrow> \<forall>e. E e (if same_client then s else db w') | Inr x \<Rightarrow> Q x (db w')"
    unfolding run fst_conv snd_conv by blast+
  show "clock (snd (in_transaction same_client m w)) = t \<and>
    (case fst (in_transaction same_client m w) of Inl e \<Rightarrow> E e (db (snd (in_transaction same_client m w)))
     | Inr x \<Rightarrow> Q x (db (snd (in_transaction same_client m w))))"
  proof (cases r)
    case (Inl e)
    then have "in_transaction same_client m w =
        (Inl e, snd (logged control_statement (if same_client then w'\<lparr>db := db w\<rparr> else w')))"
      using run by (simp add: in_transaction_def)
    then show ?thesis using body Inl w by (cases same_client) (simp_all add: rollback_keeps)
  qed (use run body in \<open>simp add: in_transaction_def\<close>)
qed

text \<open>What the timer may do to deal \<open>j\<close> at time \<open>t\<close>.\<close>

definition expiry_step :: "bool \<Rightarrow> (string \<Rightarrow> bool) \<Rightarrow> database \<Rightarrow> database \<Rightarrow> bool" where
  "expiry_step same_client due s s' \<longleftrightarrow> (\<forall>j.
     (status_of s' j = status_of s j \<and> active_shards j s' = active_shards j s) \<or>
     (due j \<and> (status_of s' j = None \<or> status_of s' j = Some Completed) \<and> (same_client \<longrightarrow> active_shards j s' = [])))"

interpretation expiry: step_rel "expiry_step sc due" for sc due
proof unfold_locales
  show "expiry_step sc due s s" for s by (simp add: expiry_step_def)
  show "expiry_step sc due a c" if "expiry_step sc due a b" "expiry_step sc due b c" for a b c
    unfolding expiry_step_def
  proof
    fix j
    show "(status_of c j = status_of a j \<and> active_shards j c = active_shards j a) \<or>
     (due j \<and> (status_of c j = None \<or> status_of c j = Some Completed) \<and> (sc \<longrightarrow> active_shards j c = []))"
      using that[unfolded expiry_step_def, rule_format, of j] by auto
  qed
qed

lemma expiry_step_states:
  assumes "due i"
  shows "expiry_step False due s (set_deal_status Completed (\<lambda>d. d\<lparr>d_completed_at := Some t\<rparr>) i s)"
    and "expiry_step False due s (deactivate_deal_shards t i (set_deal_status Completed (\<lambda>d. d\<lparr>d_completed_at := Some t\<rparr>) i s))"
    and "expiry_step sc due s (add_event ty de da t
      (deactivate_deal_shards t i (set_deal_status Completed (\<lambda>d. d\<lparr>d_completed_at := Some t\<rparr>) i s)))"
  using assms by (auto simp: expiry_step_def map_option_case split: option.splits)

lemma expiry_step_emit: "expiry_step sc due s (emit r e p s') = expiry_step sc due s s'"
  by (simp add: expiry_step_def)

lemma wp_expire_deal:
  assumes "due i"
  shows "wp t (expire_deal sc t i) (\<lambda>_. expiry_step sc due s) E s"
proof -
  note st = expiry_step_states[where due = due, OF assms] and refl = expiry.refl[of sc due s]
  have sc: "expiry_step sc due s (if sc then s else s')" if "expiry_step False due s s'" for s'
    using that refl by (cases sc) simp_all
  show ?thesis
    unfolding expire_deal_def
    by (intro wp_logged wp_andthen wp_in_transaction wp_io_emit wp_writes wp_control_statement allI; (rule sc)?)
       (use st refl expiry.refl[of False due s] in \<open>simp_all add: expiry_step_emit\<close>)
qed


lemma expire_deal_run:
  "script w = [] \<Longrightarrow> \<exists>w'. expire_deal sc t i w = (Inr (), w') \<and> script w' = [] \<and>
     (\<forall>j. status_of (db w') j = (if j = i then map_option (\<lambda>_. Completed) (status_of (db w) j) else status_of (db w) j)) \<and>
     (\<forall>j. active_shards j (db w') = (if j = i then [] else active_shards j (db w)))"
  by (simp add: expire_deal_def in_transaction_def control_statement_def logged_def)

lemma expire_all_run:
  "script w = [] \<Longrightarrow> \<exists>w'. for_each ids (expire_deal sc t) w = (Inr (), w') \<and>
     (\<forall>j. status_of (db w') j = (if j \<in> set ids then map_option (\<lambda>_. Completed) (status_of (db w) j) else status_of (db w) j)) \<and>
     (\<forall>j. active_shards j (db w') = (if j \<in> set ids then [] else active_shards j (db w)))"
proof (induction ids arbitrary: w)
  case (Cons i ids)
  obtain w1 where w1: "expire_deal sc t i w = (Inr (), w1)" "script w1 = []"
    "\<forall>j. status_of (db w1) j = (if j = i then map_option (\<lambda>_. Completed) (status_of (db w) j) else status_of (db w) j)"
    "\<forall>j. active_shards j (db w1) = (if j = i then [] else active_shards j (db w))"
    using expire_deal_run[OF Cons.prems] by blast
  obtain w2 where w2: "for_each ids (expire_deal sc t) w1 = (Inr (), w2)"
    "\<forall>j. status_of (db w2) j = (if j \<in> set ids then map_option (\<lambda>_. Completed) (status_of (db w1) j) else status_of (db w1) j)"
    "\<forall>j. active_shards j (db w2) = (if j \<in> set ids then [] else active_shards j (db w1))"
    using Cons.IH[OF w1(2)] by blast
  have "for_each (i # ids) (expire_deal sc t) w = (Inr (), w2)" using w1(1) w2(1) by simp
  moreover have "\<forall>j. status_of (db w2) j =
      (if j \<in> set (i # ids) then map_option (\<lambda>_. Completed) (status_of (db w) j) else status_of (db w) j)"
    using w1(3) w2(2) by (simp add: option.map_comp comp_def)
  moreover have "\<forall>j. active_shards j (db w2) = (if j \<in> set (i # ids) then [] else active_shards j (db w))"
    using w1(4) w2(3) by simp
  ultimately show ?case by blast
qed simp


section \<open>Instances\<close>

definition live_provider :: "nat \<Rightarrow> provider_row" where
  "live_provider n = \<lparr>p_address = replicate n CHR ''p'', p_peer_id = [], p_endpoint = None, p_region = None, p_reputation = 50,
     p_active = True, p_last_heartbeat = Some 0, p_last_proof_at = None, p_registered_at = 0, p_pledged_gb = 0, p_used_gb = 0\<rparr>"

definition pipeline_world :: "nat \<Rightarrow> database world" where
  "pipeline_world n = \<lparr>db = empty_db\<lparr>t_providers := map live_provider [0..<n], blocks := [''f'' \<mapsto> sample_file]\<rparr>,
     clock = 5, script = []\<rparr>"

definition sample_req :: create_req where
  "sample_req = \<lparr>q_fileCID = ''f'', q_fileName = [], q_sizeGB = 2, q_price = 0, q_durationDays = 45,
     q_clientAddress = ''ab'', q_encrypted = True\<rparr>"

lemma order_by_const: "(\<And>r. r \<in> set rs \<Longrightarrow> k r = c) \<Longrightarrow> order_by k rs = rs"
proof (induction rs)
  case (Cons r rs)
  then show ?case by (cases rs) simp_all
qed simp

lemma pipeline_live_rows: "live_rows (pipeline_world n) = map live_provider [0..<n]"
proof -
  let ?s = "db (pipeline_world n)"
  have one: "with_pledges ?s = (\<lambda>p. [(p, 0, 0)])"
    by (simp add: fun_eq_iff with_pledges_def pipeline_world_def empty_db_def)
  have up: "filter (\<lambda>p. p_active p \<and> (case p_last_heartbeat p of None \<Rightarrow> False | Some h \<Rightarrow> h > 5 - 90000))
      (map live_provider [0..<n]) = map live_provider [0..<n]"
    by (simp add: filter_map comp_def live_provider_def)
  have "available_providers 5 ?s = order_by (\<lambda>r. - p_reputation (fst r))
      (map (\<lambda>p. (p, 0, 0)) (map live_provider [0..<n]))"
    unfolding available_providers_def one concat_map_singleton by (simp add: pipeline_world_def up)
  also have "\<dots> = map (\<lambda>p. (p, 0, 0)) (map live_provider [0..<n])"
    by (rule order_by_const[where c = "- 50"]) (auto simp: live_provider_def)
  finally show ?thesis by (simp add: live_rows_def pipeline_world_def comp_def)
qed

lemma pipeline_distinct: "distinct (lower_addresses (live_rows (pipeline_world n)))"
proof -
  have "lower_char CHR ''p'' = CHR ''p''" by code_simp
  then have "lower_addresses (live_rows (pipeline_world n)) = map (\<lambda>k. replicate k CHR ''p'') [0..<n]"
    by (simp add: pipeline_live_rows lower_addresses_def live_provider_def to_lower_def comp_def)
  then show ?thesis by (auto simp: distinct_map inj_on_def)
qed

lemma pipeline_premises:
  "create_req_ok sample_req" "script (pipeline_world n) = []"
  "blocks (db (pipeline_world n)) (q_fileCID sample_req) = Some sample_file"
  "fresh_deal (new_deal_id (clock (pipeline_world n)) ''ff'') (db (pipeline_world n))"
  "length (live_rows (pipeline_world n)) = n"
  by (simp_all add: create_req_ok_def sample_req_def pipeline_live_rows)
     (simp_all add: pipeline_world_def fresh_deal_def empty_db_def)


theorem create_deal_half_done_witness:
  "\<exists>w'. create_deal copy_code plain_cid ''ff'' sample_req (pipeline_world 3) =
       (Inr (Err 500 ''Failed to create deal''), w') \<and>
     length (active_shards (new_deal_id (clock (pipeline_world 3)) ''ff'') (db w')) = 3"
proof -
  have "length (live_rows (pipeline_world 3)) < 15" unfolding pipeline_premises by simp
  from create_deal_half_done[OF copy_code_systematic pipeline_premises(1-4) pipeline_distinct this, where cid_of = plain_cid]
  show ?thesis unfolding pipeline_premises by auto
qed

theorem download_direct_witness:
  "dl_data (case fst (get_download ''7'' \<lparr>db = empty_db\<lparr>t_deals := [api_deal ''ab'' Active], blocks := [''f'' \<mapsto> sample_file]\<rparr>,
     clock = 5, script = []\<rparr>) of Inr (Ok r) \<Rightarrow> r) = sample_file"
proof -
  let ?w = "\<lparr>db = empty_db\<lparr>t_deals := [api_deal ''ab'' Active], blocks := [''f'' \<mapsto> sample_file]\<rparr>, clock = 5, script = []\<rparr>"
  have "script ?w = []" "find_deal ''7'' (db ?w) = Some (api_deal ''ab'' Active)"
    "d_file_cid (api_deal ''ab'' Active) = Some ''f''" "blocks (db ?w) ''f'' = Some sample_file"
    by (simp_all add: find_deal_def api_deal_def)
  from download_direct[OF this] show ?thesis by simp
qed

text \<open>The data shards 1 to 9 of the sample file; shard 0 is lost.\<close>

definition lossy_shard :: "nat \<Rightarrow> shard_row" where
  "lossy_shard k = (api_shard (replicate k CHR ''p'') k True)\<lparr>s_cid := replicate k CHR ''c''\<rparr>"

definition lossy_world :: "database world" where
  "lossy_world = \<lparr>db = sample_db\<lparr>t_deals := [(api_deal ''ab'' Active)\<lparr>d_file_cid := Some (replicate 20 CHR ''f'')\<rparr>],
     t_shards := map lossy_shard [1..<10]\<rparr>, clock = 5, script = []\<rparr>"

lemma lossy_served: "served ''7'' [1..<10] sample_shards (db lossy_world)"
proof -
  have srt: "order_by s_index (map lossy_shard ks) = map lossy_shard ks" if "sorted ks" for ks
    using that
  proof (induction ks)
    case (Cons k ks)
    then show ?case by (cases ks) (auto simp: lossy_shard_def api_shard_def)
  qed simp
  have all: "filter (\<lambda>h. s_deal h = ''7'' \<and> s_active h \<and> s_is_data h = Some True) (map lossy_shard [1..<10]) = map lossy_shard [1..<10]"
    by (auto simp: filter_map comp_def lossy_shard_def api_shard_def filter_id_conv simp del: upt_rec_numeral)
  have data: "data_shards ''7'' (db lossy_world) = map lossy_shard [1..<10]"
    unfolding data_shards_def lossy_world_def using srt[of "[1..<10]"] all
    by (simp del: upt_rec_numeral One_nat_def)
  have "length sample_shards = 15" using length_shards[OF sample_encoded] .
  then show ?thesis
    unfolding served_def data
    by (auto simp: lossy_shard_def api_shard_def lossy_world_def sample_db_def comp_def simp del: upt_rec_numeral One_nat_def)
qed

theorem download_from_shards_witness:
  "\<exists>r. get_download ''7'' lossy_world = (Inr (Ok r), lossy_world) \<and> length (dl_data r) = 18 \<and>
     length (padded sample_file) = 20"
proof -
  let ?d = "(api_deal ''ab'' Active)\<lparr>d_file_cid := Some (replicate 20 CHR ''f'')\<rparr>"
  have "script lossy_world = []" "find_deal ''7'' (db lossy_world) = Some ?d"
    "d_file_cid ?d = Some (replicate 20 CHR ''f'')" "blocks (db lossy_world) (replicate 20 CHR ''f'') = None"
    "[1..<10] \<noteq> []"
    by (simp_all add: lossy_world_def find_deal_def api_deal_def sample_db_def)
  from download_from_shards[OF this lossy_served copy_code_systematic sample_encoded]
  show ?thesis by (auto simp: sample_file_def ceil_div_def length_padded simp del: upt_rec_numeral)
qed


end
