(* ===== verification/Socket_Relay.thy ===== *)
theory Socket_Relay
  imports Rest_Api
begin

text \<open>
  The web-socket relay of the REST API (\<^verbatim>\<open>io.on('connection', ...)\<close> and the peer-id route of
  \<^verbatim>\<open>api/rest-api/src/server.ts\<close>) as a state machine: the map \<^verbatim>\<open>providerSockets\<close> in insertion order, the
  rooms (socket.io removes a socket from its rooms before the \<^verbatim>\<open>disconnect\<close> handler runs), and the
  status broadcasts sent so far. Identifiers of sockets are never used twice.
\<close>

record relay =
  providerSockets :: "(string \<times> string) list"
  rooms :: "(string \<times> string) list"
  broadcasts :: "(string \<times> bool) list"
  connected :: "string list"
  retired :: "string list"

definition relay_start :: relay where
  "relay_start = \<lparr>providerSockets = [], rooms = [], broadcasts = [], connected = [], retired = []\<rparr>"

text \<open>\<^verbatim>\<open>Map.set\<close>: an existing key keeps its place.\<close>

fun map_set :: "'k \<Rightarrow> 'v \<Rightarrow> ('k \<times> 'v) list \<Rightarrow> ('k \<times> 'v) list" where
  "map_set k v [] = [(k, v)]"
| "map_set k v (e # m) = (if fst e = k then (k, v) # m else e # map_set k v m)"

definition join :: "string \<Rightarrow> string \<Rightarrow> relay \<Rightarrow> relay" where
  "join room s r = (if (room, s) \<in> set (rooms r) then r else r\<lparr>rooms := rooms r @ [(room, s)]\<rparr>)"

definition rpc_room :: "string \<Rightarrow> string" where
  "rpc_room a = ''provider-rpc:'' @ a"

definition on_register :: "string \<Rightarrow> string \<Rightarrow> relay \<Rightarrow> relay" where
  "on_register s address r =
     (if address = [] then r
      else let a = to_lower address;
               r1 = join (rpc_room a) s (r\<lparr>providerSockets := map_set a s (providerSockets r)\<rparr>)
           in r1\<lparr>broadcasts := broadcasts r1 @ [(a, True)]\<rparr>)"

definition on_subscribe_deal :: "string \<Rightarrow> string \<Rightarrow> relay \<Rightarrow> relay" where
  "on_subscribe_deal s dealId r = join (''deal:'' @ dealId) s r"

definition on_subscribe_provider :: "string \<Rightarrow> string \<Rightarrow> relay \<Rightarrow> relay" where
  "on_subscribe_provider s a r = join (''provider:'' @ a) s r"

text \<open>The loop over the entries stops at the first one of this socket.\<close>

fun first_of :: "string \<Rightarrow> (string \<times> string) list \<Rightarrow> string option" where
  "first_of s [] = None"
| "first_of s (e # m) = (if snd e = s then Some (fst e) else first_of s m)"

definition on_disconnect :: "string \<Rightarrow> relay \<Rightarrow> relay" where
  "on_disconnect s r =
     (let r1 = r\<lparr>rooms := filter (\<lambda>x. snd x \<noteq> s) (rooms r), connected := removeAll s (connected r),
                 retired := s # retired r\<rparr>
      in case first_of s (providerSockets r1) of
           None \<Rightarrow> r1
         | Some a \<Rightarrow> r1\<lparr>providerSockets := filter (\<lambda>e. fst e \<noteq> a) (providerSockets r1),
                       broadcasts := broadcasts r1 @ [(a, False)]\<rparr>)"

text \<open>\<^verbatim>\<open>GET /api/providers/:address/rpc/peer-id\<close>: \<open>ack\<close> is a socket's answer within five seconds.\<close>

definition get_peer_id :: "(string \<Rightarrow> 'a option) \<Rightarrow> string \<Rightarrow> relay \<Rightarrow> 'a reply" where
  "get_peer_id ack address r =
     (case map snd (filter (\<lambda>x. fst x = rpc_room (to_lower address)) (rooms r)) of
        [] \<Rightarrow> Err 404 ''Provider is not currently connected to the relay''
      | clientSocket # _ \<Rightarrow>
          (case ack clientSocket of
             None \<Rightarrow> Err 504 ''Provider connected but failed to respond in time''
           | Some response \<Rightarrow> Ok response))"

datatype relay_event =
    Connect string
  | Register string string
  | SubscribeDeal string string
  | SubscribeProvider string string
  | Disconnect string

inductive relay_step :: "relay_event \<Rightarrow> relay \<Rightarrow> relay \<Rightarrow> bool" where
  connect: "s \<notin> set (connected r) \<Longrightarrow> s \<notin> set (retired r) \<Longrightarrow>
     relay_step (Connect s) r (r\<lparr>connected := connected r @ [s]\<rparr>)"
| register: "s \<in> set (connected r) \<Longrightarrow> relay_step (Register s a) r (on_register s a r)"
| subscribe_deal: "s \<in> set (connected r) \<Longrightarrow> relay_step (SubscribeDeal s i) r (on_subscribe_deal s i r)"
| subscribe_provider: "s \<in> set (connected r) \<Longrightarrow>
     relay_step (SubscribeProvider s a) r (on_subscribe_provider s a r)"
| disconnect: "s \<in> set (connected r) \<Longrightarrow> relay_step (Disconnect s) r (on_disconnect s r)"

inductive relay_run :: "relay_event list \<Rightarrow> relay \<Rightarrow> bool" where
  start: "relay_run [] relay_start"
| step: "relay_run evs r \<Longrightarrow> relay_step e r r' \<Longrightarrow> relay_run (evs @ [e]) r'"

section \<open>Invariants\<close>

text \<open>What a dashboard believes: the last status it heard about an address.\<close>

definition believed_online :: "string \<Rightarrow> relay \<Rightarrow> bool" where
  "believed_online a r = (case filter (\<lambda>b. fst b = a) (rev (broadcasts r)) of [] \<Rightarrow> False | b # _ \<Rightarrow> snd b)"

lemma map_set_keys [simp]: "fst ` set (map_set k v m) = insert k (fst ` set m)"
  by (induction m) auto

lemma map_set_distinct: "distinct (map fst m) \<Longrightarrow> distinct (map fst (map_set k v m))"
proof (induction m)
  case (Cons e m)
  have "fst e \<noteq> k \<Longrightarrow> fst e \<notin> fst ` set (map_set k v m)" using Cons.prems by auto
  then show ?case using Cons by auto
qed simp

lemma in_map_set: "(a, s) \<in> set (map_set k v m) \<Longrightarrow> (a, s) = (k, v) \<or> (a, s) \<in> set m"
  by (induction m) (auto split: if_splits)

lemma map_set_other: "distinct (map fst m) \<Longrightarrow> (k, s) \<in> set (map_set k v m) \<Longrightarrow> s = v"
  by (induction m) (auto split: if_splits simp: rev_image_eqI)

lemma first_of_Some: "first_of s m = Some a \<Longrightarrow> (a, s) \<in> set m"
  by (induction m) (auto split: if_splits)

lemma first_of_None: "first_of s m = None \<longleftrightarrow> s \<notin> snd ` set m"
  by (induction m) auto

lemma believed_snoc [simp]:
  "believed_online a (r\<lparr>broadcasts := broadcasts r @ [(b, x)]\<rparr>) = (if a = b then x else believed_online a r)"
  by (simp add: believed_online_def)

lemma rooms_differ [simp]:
  "''deal:'' @ i \<noteq> rpc_room a" "''provider:'' @ b \<noteq> rpc_room a" "rpc_room a = rpc_room b \<longleftrightarrow> a = b"
  by (simp_all add: rpc_room_def)

definition registered :: "relay_event list \<Rightarrow> string \<Rightarrow> string \<Rightarrow> bool" where
  "registered evs s a \<longleftrightarrow> (\<exists>b. Register s b \<in> set evs \<and> to_lower b = a)"

lemma registered_snoc [simp]:
  "registered (evs @ [e]) s a \<longleftrightarrow> registered evs s a \<or> (\<exists>b. e = Register s b \<and> to_lower b = a)"
  by (auto simp: registered_def)

definition relay_inv :: "relay_event list \<Rightarrow> relay \<Rightarrow> bool" where
  "relay_inv evs r \<longleftrightarrow> distinct (map fst (providerSockets r)) \<and>
     set (connected r) \<inter> set (retired r) = {} \<and>
     (\<forall>x \<in> set (rooms r). snd x \<in> set (connected r)) \<and>
     (\<forall>a s. (rpc_room a, s) \<in> set (rooms r) \<longrightarrow> registered evs s a) \<and>
     (\<forall>e \<in> set (providerSockets r). snd e \<in> set (connected r) \<union> set (retired r) \<and>
        registered evs (snd e) (fst e)) \<and>
     (\<forall>a. believed_online a r \<longleftrightarrow> a \<in> fst ` set (providerSockets r))"

lemma join_fields [simp]:
  "providerSockets (join x s r) = providerSockets r" "broadcasts (join x s r) = broadcasts r"
  "connected (join x s r) = connected r" "retired (join x s r) = retired r"
  "set (rooms (join x s r)) = insert (x, s) (set (rooms r))" "believed_online a (join x s r) = believed_online a r"
  by (auto simp: join_def believed_online_def)

lemma believed_other [simp]:
  "believed_online a (r\<lparr>providerSockets := m\<rparr>) = believed_online a r"
  "believed_online a (r\<lparr>rooms := x\<rparr>) = believed_online a r"
  "believed_online a (r\<lparr>connected := c\<rparr>) = believed_online a r"
  "believed_online a (r\<lparr>retired := c\<rparr>) = believed_online a r"
  by (simp_all add: believed_online_def)

lemma inv_register:
  assumes "relay_inv evs r" and "s \<in> set (connected r)"
  shows "relay_inv (evs @ [Register s a]) (on_register s a r)"
proof (cases "a = []")
  case False
  let ?r1 = "join (rpc_room (to_lower a)) s (r\<lparr>providerSockets := map_set (to_lower a) s (providerSockets r)\<rparr>)"
  have r: "on_register s a r = ?r1\<lparr>broadcasts := broadcasts ?r1 @ [(to_lower a, True)]\<rparr>"
    using False by (simp add: on_register_def Let_def)
  show ?thesis
    unfolding relay_inv_def r believed_snoc using assms
    by (auto simp: relay_inv_def map_set_distinct dest!: in_map_set)
qed (use assms in \<open>auto simp: on_register_def relay_inv_def\<close>)

lemma inv_join:
  assumes "relay_inv evs r" and "s \<in> set (connected r)" and "\<forall>a. x \<noteq> rpc_room a"
  shows "relay_inv (evs @ [e]) (join x s r)"
  using assms unfolding relay_inv_def by auto

lemma inv_disconnect:
  assumes inv: "relay_inv evs r"
  shows "relay_inv (evs @ [Disconnect s]) (on_disconnect s r)"
proof -
  let ?r1 = "r\<lparr>rooms := filter (\<lambda>x. snd x \<noteq> s) (rooms r), connected := removeAll s (connected r),
     retired := s # retired r\<rparr>"
  show ?thesis
  proof (cases "first_of s (providerSockets r)")
    case None
    then have "on_disconnect s r = ?r1" by (simp add: on_disconnect_def Let_def)
    then show ?thesis using inv unfolding relay_inv_def by auto
  next
    case (Some a)
    let ?r2 = "?r1\<lparr>providerSockets := filter (\<lambda>e. fst e \<noteq> a) (providerSockets r)\<rparr>"
    have r: "on_disconnect s r = ?r2\<lparr>broadcasts := broadcasts ?r2 @ [(a, False)]\<rparr>"
      using Some by (simp add: on_disconnect_def Let_def)
    show ?thesis
      unfolding relay_inv_def r believed_snoc using inv
      by (auto simp: relay_inv_def distinct_map_filter)
  qed
qed

lemma relay_run_inv: "relay_run evs r \<Longrightarrow> relay_inv evs r"
proof (induction rule: relay_run.induct)
  case start
  then show ?case by (simp add: relay_inv_def relay_start_def believed_online_def)
next
  case (step evs r e r')
  from step(2) step(3) show ?case
  proof cases
    case (connect s)
    then show ?thesis using step(3) unfolding relay_inv_def by auto
  next
    case (subscribe_deal s i)
    then show ?thesis using step(3) by (simp only: on_subscribe_deal_def inv_join rooms_differ simp_thms)
  next
    case (subscribe_provider s a)
    then show ?thesis using step(3) by (simp only: on_subscribe_provider_def inv_join rooms_differ simp_thms)
  qed (simp_all add: step(3) inv_register inv_disconnect)
qed

text \<open>
  The relay only talks to the right, living socket: in every reachable state, whenever
  \<^verbatim>\<open>GET /api/providers/:address/rpc/peer-id\<close> does not answer 404, the socket it asked is connected and
  has registered that address; subscribing to deals or providers never puts a socket there.
\<close>

theorem peer_id_from_provider:
  assumes "relay_run evs r" and "get_peer_id ack address r \<noteq> Err 404 ''Provider is not currently connected to the relay''"
  shows "\<exists>s b. s \<in> set (connected r) \<and> Register s b \<in> set evs \<and> to_lower b = to_lower address \<and>
    get_peer_id ack address r =
      (case ack s of None \<Rightarrow> Err 504 ''Provider connected but failed to respond in time'' | Some x \<Rightarrow> Ok x)"
proof -
  let ?ss = "map snd (filter (\<lambda>x. fst x = rpc_room (to_lower address)) (rooms r))"
  obtain s ss where ss: "?ss = s # ss"
    using assms(2) by (cases ?ss) (simp_all add: get_peer_id_def)
  then have "s \<in> set ?ss" by simp
  then have room: "(rpc_room (to_lower address), s) \<in> set (rooms r)" by auto
  have "s \<in> set (connected r)" "registered evs s (to_lower address)"
    using relay_run_inv[OF assms(1)] room unfolding relay_inv_def by (metis snd_conv)+
  then show ?thesis using ss by (auto simp: get_peer_id_def registered_def)
qed

definition one_address :: "relay_event list \<Rightarrow> bool" where
  "one_address evs \<longleftrightarrow> (\<forall>s a b. Register s a \<in> set evs \<longrightarrow> Register s b \<in> set evs \<longrightarrow> to_lower a = to_lower b)"

lemma no_ghosts: "relay_run evs r \<Longrightarrow> one_address evs \<Longrightarrow> snd ` set (providerSockets r) \<subseteq> set (connected r)"
proof (induction rule: relay_run.induct)
  case start
  then show ?case by (simp add: relay_start_def)
next
  case (step evs r e r')
  have one: "one_address evs" using step(4) unfolding one_address_def set_append by blast
  note ih = step(3)[OF one] and inv = relay_run_inv[OF step(1)]
  from step(2) show ?case
  proof cases
    case (register s a)
    then show ?thesis using ih by (auto simp: on_register_def Let_def dest!: in_map_set)
  next
    case (disconnect s)
    show ?thesis
    proof (cases "first_of s (providerSockets r)")
      case None
      then have "s \<notin> snd ` set (providerSockets r)" by (simp add: first_of_None)
      then show ?thesis using ih disconnect None by (auto simp: on_disconnect_def Let_def)
    next
      case (Some a)
      have "fst x = a" if "x \<in> set (providerSockets r)" "snd x = s" for x
      proof -
        have "registered evs s (fst x)" "registered evs s a"
          using that inv first_of_Some[OF Some] unfolding relay_inv_def by (auto 0 3)
        then show ?thesis using one unfolding one_address_def registered_def by metis
      qed
      then show ?thesis using ih disconnect Some by (auto simp: on_disconnect_def Let_def)
    qed
  qed (use ih in \<open>auto simp: on_subscribe_deal_def on_subscribe_provider_def\<close>)
qed

text \<open>
  Presence: if every socket registers a single address, as the daemon does, then in every
  reachable state the last status broadcast about an address is "online" exactly when the relay
  maps it to a socket, and that socket is connected. In particular the late disconnect of an old
  socket does not take a provider offline that has registered again on a new one.
\<close>

theorem presence_exact:
  assumes "relay_run evs r" and "one_address evs"
  shows "believed_online a r \<longleftrightarrow> (\<exists>s. (a, s) \<in> set (providerSockets r) \<and> s \<in> set (connected r))"
proof -
  have "believed_online a r \<longleftrightarrow> a \<in> fst ` set (providerSockets r)"
    using relay_run_inv[OF assms(1)] by (simp add: relay_inv_def)
  also have "\<dots> \<longleftrightarrow> (\<exists>s. (a, s) \<in> set (providerSockets r))" by (auto intro: rev_image_eqI)
  also have "\<dots> \<longleftrightarrow> (\<exists>s. (a, s) \<in> set (providerSockets r) \<and> s \<in> set (connected r))"
    using no_ghosts[OF assms] by (metis image_subset_iff snd_conv)
  finally show ?thesis .
qed


section \<open>Instances\<close>

fun relay_exec :: "relay_event \<Rightarrow> relay \<Rightarrow> relay" where
  "relay_exec (Connect s) r = r\<lparr>connected := connected r @ [s]\<rparr>"
| "relay_exec (Register s a) r = on_register s a r"
| "relay_exec (SubscribeDeal s i) r = on_subscribe_deal s i r"
| "relay_exec (SubscribeProvider s a) r = on_subscribe_provider s a r"
| "relay_exec (Disconnect s) r = on_disconnect s r"

fun relay_allowed :: "relay_event \<Rightarrow> relay \<Rightarrow> bool" where
  "relay_allowed (Connect s) r = (s \<notin> set (connected r) \<and> s \<notin> set (retired r))"
| "relay_allowed (Register s a) r = (s \<in> set (connected r))"
| "relay_allowed (SubscribeDeal s a) r = (s \<in> set (connected r))"
| "relay_allowed (SubscribeProvider s a) r = (s \<in> set (connected r))"
| "relay_allowed (Disconnect s) r = (s \<in> set (connected r))"

lemma relay_step_iff: "relay_step e r r' \<longleftrightarrow> relay_allowed e r \<and> r' = relay_exec e r"
  by (cases e) (auto simp: relay_step.simps)

fun relay_trace :: "relay_event list \<Rightarrow> relay \<Rightarrow> relay option" where
  "relay_trace [] r = Some r"
| "relay_trace (e # evs) r = (if relay_allowed e r then relay_trace evs (relay_exec e r) else None)"

lemma relay_trace_run: "relay_run pre r \<Longrightarrow> relay_trace evs r = Some r' \<Longrightarrow> relay_run (pre @ evs) r'"
proof (induction evs arbitrary: pre r)
  case (Cons e evs)
  then have "relay_run (pre @ [e]) (relay_exec e r)"
    by (auto simp: relay_step_iff intro: relay_run.step split: if_splits)
  from Cons.IH[OF this] show ?case using Cons.prems by (simp split: if_splits)
qed simp

text \<open>An old socket leaves after the provider has registered on a new one.\<close>

definition reconnect_trace :: "relay_event list" where
  "reconnect_trace = [Connect ''1'', Register ''1'' ''aB'', Connect ''2'', Register ''2'' ''ab'', Disconnect ''1'']"

definition reconnect_relay :: relay where
  "reconnect_relay = \<lparr>providerSockets = [(''ab'', ''2'')], rooms = [(rpc_room ''ab'', ''2'')],
     broadcasts = [(''ab'', True), (''ab'', True)], connected = [''2''], retired = [''1'']\<rparr>"

lemma reconnect_run: "relay_run reconnect_trace reconnect_relay"
proof -
  have "relay_trace reconnect_trace relay_start = Some reconnect_relay"
    by (simp add: reconnect_trace_def reconnect_relay_def relay_start_def on_register_def join_def on_disconnect_def
        to_lower_ab Let_def rpc_room_def)
  from relay_trace_run[OF relay_run.start this] show ?thesis by simp
qed

theorem peer_id_from_provider_witness:
  "get_peer_id (\<lambda>s. if s = ''2'' then Some (42 :: nat) else None) ''AB'' reconnect_relay = Ok 42 \<and>
   ''2'' \<in> set (connected reconnect_relay)"
proof -
  have low: "to_lower ''AB'' = ''ab''" by code_simp
  let ?ack = "\<lambda>s. if s = ''2'' then Some (42 :: nat) else None"
  have ok: "get_peer_id ?ack ''AB'' reconnect_relay = Ok 42"
    by (simp add: get_peer_id_def low reconnect_relay_def)
  then have "get_peer_id ?ack ''AB'' reconnect_relay \<noteq> Err 404 ''Provider is not currently connected to the relay''"
    by simp
  from peer_id_from_provider[OF reconnect_run this] have "\<exists>s. s \<in> set (connected reconnect_relay)" by blast
  with ok show ?thesis by (auto simp: reconnect_relay_def)
qed

theorem presence_exact_witness: "believed_online ''ab'' reconnect_relay"
proof -
  have "one_address reconnect_trace"
    by (auto simp: one_address_def reconnect_trace_def to_lower_ab)
  from presence_exact[OF reconnect_run this, of "''ab''"] show ?thesis
    by (auto simp: reconnect_relay_def)
qed

text \<open>
  A socket that registers two addresses and goes leaves a ghost: the loop in the disconnect
  handler stops at the first entry, so the second address stays in the map and is never reported
  offline, while the peer-id route finds nobody.
\<close>

theorem ghost_provider:
  "\<exists>evs r. relay_run evs r \<and> believed_online ''b'' r \<and> connected r = [] \<and>
     (\<forall>ack. get_peer_id ack ''b'' r = Err 404 ''Provider is not currently connected to the relay'')"
proof -
  have low: "to_lower ''a'' = ''a''" "to_lower ''b'' = ''b''" by code_simp+
  let ?evs = "[Connect ''1'', Register ''1'' ''a'', Register ''1'' ''b'', Disconnect ''1'']"
  let ?r = "\<lparr>providerSockets = [(''b'', ''1'')], rooms = [], broadcasts = [(''a'', True), (''b'', True), (''a'', False)],
     connected = [], retired = [''1'']\<rparr>"
  have "relay_trace ?evs relay_start = Some ?r"
    by (simp add: relay_start_def on_register_def join_def on_disconnect_def low Let_def rpc_room_def)
  from relay_trace_run[OF relay_run.start this] show ?thesis
    by (intro exI[of _ ?evs] exI[of _ ?r]) (simp add: believed_online_def get_peer_id_def)
qed

end
