(* ===== verification/Storage_Vault.thy ===== *)
theory Storage_Vault
  imports Kyn_Effects
begin

text \<open>
  The storage vault of a provider (\<^verbatim>\<open>provider-stack/public-repo/src/storage-vault.ts\<close>): a sparse file
  of the pledged capacity and a data directory, on a file system whose every operation may fail.
  A JavaScript number is a rational or \<^verbatim>\<open>NaN\<close> (\<open>None\<close>).
\<close>

type_synonym jsnum = "rat option"

definition jsnum2 :: "(rat \<Rightarrow> rat \<Rightarrow> rat) \<Rightarrow> jsnum \<Rightarrow> jsnum \<Rightarrow> jsnum" where
  "jsnum2 f x y = (case (x, y) of (Some a, Some b) \<Rightarrow> Some (f a b) | _ \<Rightarrow> None)"

record vault_status =
  vs_exists :: bool
  vs_capacityGB :: nat
  vs_usedGB :: jsnum
  vs_availableGB :: jsnum
  vs_percentUsed :: jsnum

text \<open>
  Directory entries: a file with its count of 512-byte blocks (\<open>None\<close>: it cannot be examined), a
  directory (readable or not), anything else.
\<close>

datatype fnode = FFile "nat option" | FDir bool "fnode list" | FOther

text \<open>The answers of the two shell commands: \<open>None\<close> inside is output that is no number.\<close>

datatype df_answer = Df "nat option" | StatFs nat | NoSpaceInfo

datatype du_answer = Du "nat option" | DuFails

record vault_fs =
  vault_dir :: bool
  vault_img :: "nat option"
  data_dir :: "fnode option"
  metadata :: "nat option"
  df_now :: df_answer
  du_now :: du_answer

type_synonym 'a fsop = "(vault_fs, 'a) act"

definition GiB :: nat where "GiB = 1024 * 1024 * 1024"

section \<open>Operations\<close>

definition existingCapacityGB :: "nat \<Rightarrow> int" where
  "existingCapacityGB bytes = js_round (of_nat bytes / of_nat GiB)"

definition extendVaultFile :: "nat \<Rightarrow> unit fsop" where
  "extendVaultFile capacityGB = writes (\<lambda>s. s\<lparr>vault_img := Some (capacityGB * GiB)\<rparr>)"

text \<open>Opening for writing creates an empty file; writing one byte at the end gives it its size.\<close>

definition createSparseFile :: "nat \<Rightarrow> unit fsop" where
  "createSparseFile capacityGB =
     andthen (writes (\<lambda>s. s\<lparr>vault_img := Some 0\<rparr>))
             (writes (\<lambda>s. s\<lparr>vault_img := Some (capacityGB * GiB)\<rparr>))"

definition getAvailableDiskSpace :: "df_answer \<Rightarrow> nat" where
  "getAvailableDiskSpace a = (case a of
       Df n \<Rightarrow> (case n of None \<Rightarrow> 0 | Some gb \<Rightarrow> gb)
     | StatFs bytes \<Rightarrow> bytes div GiB
     | NoSpaceInfo \<Rightarrow> 2 ^ 53 - 1)"

definition writeMetadata :: "nat \<Rightarrow> unit fsop" where
  "writeMetadata capacityGB = writes (\<lambda>s. s\<lparr>metadata := Some capacityGB\<rparr>)"

definition prepare_img :: "nat \<Rightarrow> bool fsop" where
  "prepare_img capacityGB = bind (reads vault_img) (\<lambda>img.
     case img of
       Some bytes \<Rightarrow>
         if int capacityGB > existingCapacityGB bytes then andthen (extendVaultFile capacityGB) (ret True)
         else ret True
     | None \<Rightarrow>
         bind (reads df_now) (\<lambda>a.
           if getAvailableDiskSpace a < capacityGB then ret False
           else andthen (createSparseFile capacityGB) (ret True)))"

definition ensureVaultExists :: "nat \<Rightarrow> bool fsop" where
  "ensureVaultExists capacityGB = try_catch
     (andthen (writes (\<lambda>s. s\<lparr>vault_dir := True\<rparr>))
     (bind (prepare_img capacityGB) (\<lambda>ready.
        if \<not> ready then ret False
        else andthen (writes (\<lambda>s. case data_dir s of None \<Rightarrow> s\<lparr>data_dir := Some (FDir True [])\<rparr> | Some _ \<Rightarrow> s))
            (andthen (writeMetadata capacityGB) (ret True)))))
     (\<lambda>_. ret False)"

text \<open>
  \<^verbatim>\<open>calculateDirectorySize\<close> adds the entries up and divides by a GiB; for a subdirectory it adds its
  own result.
\<close>

fun calculateDirectorySize :: "fnode \<Rightarrow> rat" and entry_total :: "fnode list \<Rightarrow> rat" where
  "calculateDirectorySize (FDir readable es) = (if readable then entry_total es else 0) / of_nat GiB"
| "calculateDirectorySize (FFile b) = 0"
| "calculateDirectorySize FOther = 0"
| "entry_total [] = 0"
| "entry_total (FDir readable es # rest) = calculateDirectorySize (FDir readable es) + entry_total rest"
| "entry_total (FFile (Some b) # rest) = of_nat (b * 512) + entry_total rest"
| "entry_total (FFile None # rest) = entry_total rest"
| "entry_total (FOther # rest) = entry_total rest"

definition round2 :: "rat \<Rightarrow> rat" where
  "round2 x = of_int (js_round (x * 100)) / 100"

definition round1 :: "rat \<Rightarrow> rat" where
  "round1 x = of_int (js_round (x * 100 * 10)) / 10"

definition getVaultStatus :: "nat \<Rightarrow> vault_fs \<Rightarrow> vault_status" where
  "getVaultStatus capacityGB s =
     (case data_dir s of
        None \<Rightarrow> \<lparr>vs_exists = False, vs_capacityGB = capacityGB, vs_usedGB = Some 0,
                 vs_availableGB = Some (of_nat capacityGB), vs_percentUsed = Some 0\<rparr>
      | Some dir \<Rightarrow>
          (case du_now s of
             Du usedKB \<Rightarrow>
               (let usedGB = map_option (\<lambda>kb. round2 (of_nat kb / (1024 * 1024))) usedKB
                in \<lparr>vs_exists = True, vs_capacityGB = capacityGB, vs_usedGB = usedGB,
                    vs_availableGB = map_option (\<lambda>u. round2 (of_nat capacityGB - u)) usedGB,
                    vs_percentUsed = map_option (\<lambda>u. round1 (u / of_nat capacityGB)) usedGB\<rparr>)
           | DuFails \<Rightarrow>
               (let usedGB = calculateDirectorySize dir
                in \<lparr>vs_exists = True, vs_capacityGB = capacityGB, vs_usedGB = Some usedGB,
                    vs_availableGB = Some (of_nat capacityGB - usedGB),
                    vs_percentUsed = Some (usedGB / of_nat capacityGB * 100)\<rparr>)))"

definition validateAgainstOnChainPledge :: "nat \<Rightarrow> nat \<Rightarrow> bool" where
  "validateAgainstOnChainPledge capacityGB onChainCapacityGB = (\<not> capacityGB < onChainCapacityGB)"

text \<open>A comparison with \<^verbatim>\<open>NaN\<close> is false.\<close>

definition hasCapacityFor :: "nat \<Rightarrow> nat \<Rightarrow> vault_fs \<Rightarrow> bool" where
  "hasCapacityFor capacityGB fileSizeBytes s =
     (case vs_availableGB (getVaultStatus capacityGB s) of
        None \<Rightarrow> False
      | Some a \<Rightarrow> a \<ge> of_nat fileSizeBytes / of_nat GiB)"

text \<open>\<^verbatim>\<open>parseInt\<close> of the setting, \<open>None\<close> for \<^verbatim>\<open>NaN\<close>: \<^verbatim>\<open>NaN <= 0\<close> is false, so it does not disable the vault.\<close>

definition createVaultManagerFromEnv :: "int option \<Rightarrow> int option option" where
  "createVaultManagerFromEnv parsed = (case parsed of
       None \<Rightarrow> Some None
     | Some n \<Rightarrow> if n \<le> 0 then None else Some (Some n))"

section \<open>The vault file\<close>

lemma GiB_pos [simp]: "0 < GiB"
  by (simp add: GiB_def)

lemma existing_bounds:
  "(of_int (existingCapacityGB b) - 1 / 2) * of_nat GiB \<le> (of_nat b :: rat)"
  "(of_nat b :: rat) < (of_int (existingCapacityGB b) + 1 / 2) * of_nat GiB"
proof -
  let ?x = "of_nat b / of_nat GiB :: rat"
  have "of_int (existingCapacityGB b) \<le> ?x + 1 / 2" "?x + 1 / 2 < of_int (existingCapacityGB b) + 1"
    unfolding existingCapacityGB_def js_round_def by linarith+
  then have "of_int (existingCapacityGB b) - 1 / 2 \<le> ?x" "?x < of_int (existingCapacityGB b) + 1 / 2" by linarith+
  then show "(of_int (existingCapacityGB b) - 1 / 2) * of_nat GiB \<le> (of_nat b :: rat)"
    "(of_nat b :: rat) < (of_int (existingCapacityGB b) + 1 / 2) * of_nat GiB"
    by (simp_all add: pos_le_divide_eq pos_divide_less_eq)
qed

lemma extension_grows:
  assumes "int cap > existingCapacityGB b"
  shows "b \<le> cap * GiB"
proof -
  have "of_int (existingCapacityGB b + 1) \<le> (of_int (int cap) :: rat)"
    unfolding of_int_le_iff using assms by linarith
  then have half: "of_int (existingCapacityGB b) + 1 / 2 \<le> (of_nat cap :: rat)" by simp
  have "(of_nat b :: rat) < (of_int (existingCapacityGB b) + 1 / 2) * of_nat GiB" by (rule existing_bounds)
  also have "\<dots> \<le> of_nat cap * of_nat GiB"
    by (rule mult_right_mono[OF half]) simp
  finally show ?thesis by (simp only: of_nat_mult[symmetric] of_nat_less_iff less_imp_le)
qed

definition img_grows :: "vault_fs \<Rightarrow> vault_fs \<Rightarrow> bool" where
  "img_grows s s' \<longleftrightarrow> (case vault_img s of None \<Rightarrow> True | Some b \<Rightarrow> (case vault_img s' of None \<Rightarrow> False | Some b' \<Rightarrow> b \<le> b'))"

interpretation img: step_rel img_grows
  by unfold_locales (auto simp: img_grows_def split: option.splits)

lemma wp_prepare_img:
  "wp t (prepare_img cap) (\<lambda>_. img_grows s) (\<lambda>_. img_grows s) s"
  unfolding prepare_img_def
  by (intro wp_bind wp_reads)
     (auto simp: img.refl createSparseFile_def extendVaultFile_def img_grows_def
       split: option.splits intro!: wp_rules dest: extension_grows)

text \<open>
  Whatever fails on the way, \<^verbatim>\<open>ensureVaultExists\<close> never shrinks an existing vault file.
\<close>

theorem vault_never_shrinks: "img_grows (db w) (final (ensureVaultExists capacityGB) w)"
  unfolding ensureVaultExists_def
proof (rule wp_final_now, intro wp_try_catch wp_andthen wp_writes wp_bind)
  let ?s = "(db w)\<lparr>vault_dir := True\<rparr>"
  have here: "img_grows (db w) ?s" by (simp add: img_grows_def split: option.splits)
  show "wp (clock w) (prepare_img capacityGB) (\<lambda>ready. wp (clock w)
      (if \<not> ready then ret False
       else andthen (writes (\<lambda>s. case data_dir s of None \<Rightarrow> s\<lparr>data_dir := Some (FDir True [])\<rparr> | Some _ \<Rightarrow> s))
            (andthen (writeMetadata capacityGB) (ret True)))
      (\<lambda>_. img_grows (db w)) (\<lambda>e. wp (clock w) (ret False) (\<lambda>_. img_grows (db w)) (\<lambda>_. img_grows (db w))))
      (\<lambda>e. wp (clock w) (ret False) (\<lambda>_. img_grows (db w)) (\<lambda>_. img_grows (db w))) ?s"
  proof (rule wp_mono[OF wp_prepare_img])
    fix ready s'
    assume "img_grows ?s s'"
    then have "img_grows (db w) s'" by (rule img.trans[OF here])
    then show "wp (clock w)
      (if \<not> ready then ret False
       else andthen (writes (\<lambda>s. case data_dir s of None \<Rightarrow> s\<lparr>data_dir := Some (FDir True [])\<rparr> | Some _ \<Rightarrow> s))
            (andthen (writeMetadata capacityGB) (ret True)))
      (\<lambda>_. img_grows (db w)) (\<lambda>e. wp (clock w) (ret False) (\<lambda>_. img_grows (db w)) (\<lambda>_. img_grows (db w))) s'"
      by (auto simp: writeMetadata_def img_grows_def split: option.splits intro!: wp_rules)
  qed (auto intro!: wp_ret img.trans[OF here])
qed (auto intro!: wp_ret img.refl)

lemma vault_ready_run:
  assumes "script w = []" and "vault_img (db w) = Some b \<or> vault_img (db w) = None \<and> capacityGB \<le> getAvailableDiskSpace (df_now (db w))"
  shows "\<exists>w'. ensureVaultExists capacityGB w = (Inr True, w') \<and>
    vault_img (db w') = (case vault_img (db w) of
       Some b \<Rightarrow> Some (if int capacityGB > existingCapacityGB b then capacityGB * GiB else b)
     | None \<Rightarrow> Some (capacityGB * GiB)) \<and>
    data_dir (db w') \<noteq> None \<and> metadata (db w') = Some capacityGB"
  using assms
  by (auto simp: ensureVaultExists_def prepare_img_def extendVaultFile_def createSparseFile_def
      writeMetadata_def split: option.splits)

text \<open>
  C37. After a successful start the vault file has the pledged capacity, up to half a GiB lost to the
  rounding of the size of a file that was there before.
\<close>

theorem vault_has_capacity:
  assumes "script w = []" and "vault_img (db w) = None \<longrightarrow> capacityGB \<le> getAvailableDiskSpace (df_now (db w))"
  shows "\<exists>w' b. ensureVaultExists capacityGB w = (Inr True, w') \<and> vault_img (db w') = Some b \<and>
    (of_nat capacityGB - 1 / 2) * of_nat GiB \<le> (of_nat b :: rat) \<and> data_dir (db w') \<noteq> None"
proof (cases "vault_img (db w)")
  case None
  then obtain w' where w': "ensureVaultExists capacityGB w = (Inr True, w')" "vault_img (db w') = Some (capacityGB * GiB)"
    "data_dir (db w') \<noteq> None"
    using vault_ready_run[of w 0 capacityGB] assms by auto
  moreover have "(of_nat capacityGB - 1 / 2) * of_nat GiB \<le> (of_nat (capacityGB * GiB) :: rat)"
    unfolding of_nat_mult by (rule mult_right_mono) simp_all
  ultimately show ?thesis by blast
next
  case (Some b)
  obtain w' where w': "ensureVaultExists capacityGB w = (Inr True, w')"
    "vault_img (db w') = Some (if int capacityGB > existingCapacityGB b then capacityGB * GiB else b)"
    "data_dir (db w') \<noteq> None"
    using vault_ready_run[of w b capacityGB] assms(1) Some by auto
  have "(of_nat capacityGB - 1 / 2) * of_nat GiB \<le>
      (of_nat (if int capacityGB > existingCapacityGB b then capacityGB * GiB else b) :: rat)"
  proof (cases "int capacityGB > existingCapacityGB b")
    case True
    then show ?thesis unfolding if_P[OF True] of_nat_mult by (intro mult_right_mono) simp_all
  next
    case False
    then have "of_int (int capacityGB) \<le> (of_int (existingCapacityGB b) :: rat)" unfolding of_int_le_iff by simp
    then have "of_nat capacityGB - 1 / 2 \<le> (of_int (existingCapacityGB b) - 1 / 2 :: rat)" by simp
    then have "(of_nat capacityGB - 1 / 2) * of_nat GiB \<le> (of_int (existingCapacityGB b) - 1 / 2) * (of_nat GiB :: rat)"
      by (rule mult_right_mono) simp
    also note existing_bounds(1)[of b]
    finally show ?thesis unfolding if_not_P[OF False] .
  qed
  then show ?thesis using w' by blast
qed

text \<open>
  The check of the free disk space guards the creation of the vault only: extending an existing
  vault succeeds whatever the disk can hold.
\<close>

theorem extension_unchecked:
  assumes "script w = []" and "vault_img (db w) = Some b" and "int capacityGB > existingCapacityGB b"
    and "getAvailableDiskSpace (df_now (db w)) < capacityGB"
  shows "\<exists>w'. ensureVaultExists capacityGB w = (Inr True, w') \<and> vault_img (db w') = Some (capacityGB * GiB)"
  using vault_ready_run[of w b capacityGB] assms by auto

section \<open>Usage\<close>

lemma round2_exact: "round2 (of_int k / 100) = of_int k / 100"
  by (simp add: round2_def)

lemma used_plus_available: "round2 (of_nat c - round2 x) = of_nat c - round2 x"
proof -
  have "of_nat c - round2 x = of_int (int c * 100 - js_round (x * 100)) / 100"
    by (simp add: round2_def diff_divide_distrib)
  then show ?thesis by (simp only: round2_exact)
qed

text \<open>
  The status the vault reports is consistent: whenever the usage is a number, used and available
  space add up to exactly the capacity, although both are rounded to two digits. A command whose
  output is no number gives no capacity for any file.
\<close>

theorem vault_status_consistent:
  "(case vs_usedGB (getVaultStatus capacityGB s) of
      None \<Rightarrow> \<not> hasCapacityFor capacityGB n s
    | Some u \<Rightarrow> vs_availableGB (getVaultStatus capacityGB s) = Some (of_nat capacityGB - u))"
  by (auto simp: getVaultStatus_def hasCapacityFor_def Let_def used_plus_available
      split: option.splits du_answer.splits)

text \<open>The disk usage the fallback means to compute.\<close>

fun disk_bytes :: "fnode \<Rightarrow> nat" and disk_total :: "fnode list \<Rightarrow> nat" where
  "disk_bytes (FDir readable es) = (if readable then disk_total es else 0)"
| "disk_bytes (FFile b) = (case b of None \<Rightarrow> 0 | Some n \<Rightarrow> n * 512)"
| "disk_bytes FOther = 0"
| "disk_total [] = 0"
| "disk_total (e # es) = disk_bytes e + disk_total es"

fun is_dir :: "fnode \<Rightarrow> bool" where
  "is_dir (FDir r es) = True"
| "is_dir _ = False"

lemma flat_total: "\<forall>e \<in> set es. \<not> is_dir e \<Longrightarrow> entry_total es = of_nat (disk_total es)"
  by (induction es rule: calculateDirectorySize_entry_total.induct(2)[where P = "\<lambda>_. True"])
     (auto split: option.splits)

text \<open>
  The fallback measures a directory without subdirectories exactly. A subdirectory is measured in
  GiB and added as if it were bytes: a tree that keeps all its files one level down is reported at a
  \<^verbatim>\<open>2^30\<close>-th of its size, so the blocks of an IPFS repository practically do not count.
\<close>

theorem directory_size_by_depth:
  assumes "\<forall>e \<in> set es. \<not> is_dir e"
  shows "calculateDirectorySize (FDir True es) = of_nat (disk_bytes (FDir True es)) / of_nat GiB \<and>
    calculateDirectorySize (FDir True [FDir True es]) = of_nat (disk_bytes (FDir True [FDir True es])) / of_nat (GiB * GiB)"
  using flat_total[OF assms] by simp

section \<open>Instances\<close>

definition small_vault :: "vault_fs world" where
  "small_vault = \<lparr>db = \<lparr>vault_dir = True, vault_img = Some GiB, data_dir = None, metadata = None,
     df_now = Df (Some 3), du_now = Du (Some 0)\<rparr>, clock = 0, script = []\<rparr>"

lemma small_existing: "existingCapacityGB GiB = 1"
  using js_round_of_int[of 1] by (simp add: existingCapacityGB_def GiB_def)

theorem vault_has_capacity_witness:
  "\<exists>w' b. ensureVaultExists 5 small_vault = (Inr True, w') \<and> vault_img (db w') = Some b"
  using vault_has_capacity[of small_vault 5] by (auto simp: small_vault_def)

theorem extension_unchecked_witness:
  "\<exists>w'. ensureVaultExists 500 small_vault = (Inr True, w') \<and> vault_img (db w') = Some (500 * GiB) \<and>
     getAvailableDiskSpace (df_now (db small_vault)) = 3"
  using extension_unchecked[of small_vault GiB 500]
  by (auto simp: small_vault_def small_existing getAvailableDiskSpace_def)

theorem directory_size_by_depth_witness:
  "calculateDirectorySize (FDir True [FDir True [FFile (Some 4194304)]]) = 2 / of_nat GiB"
  using directory_size_by_depth[of "[FFile (Some 4194304)]"] by (simp add: GiB_def)

end
