(* ===== verification/Provider_Daemon.thy ===== *)
theory Provider_Daemon
  imports Rest_Api Storage_Vault
begin

text \<open>
  The daemon a storage provider runs (\<^verbatim>\<open>provider-stack/public-repo/src/index.ts\<close>). Its requests reach
  the routes of \<open>Rest_Api\<close> themselves: the state of a node contains the database of the API, beside the
  pins, the Merkle trees and sectors in memory, the vault, and the view of the chain.

  Parameters: the wallet, \<^verbatim>\<open>keccak256\<close>, the proofs of the Merkle tree package (a tree is the list of
  its leaves), whether the IPFS client throws when asked for a pin it does not have, and the
  contract's answer to \<^verbatim>\<open>getChallengeIndices\<close>.
\<close>

text \<open>JavaScript keeps \<^verbatim>\<open>BigInt\<close> and \<^verbatim>\<open>Number\<close> apart: \<^verbatim>\<open>%\<close> on one of each throws.\<close>

datatype js_int = BigInt nat | Number nat

definition js_mod :: "js_int \<Rightarrow> nat \<Rightarrow> nat option" where
  "js_mod i n = (case i of BigInt _ \<Rightarrow> None | Number k \<Rightarrow> Some (k mod n))"

record daemon_env =
  wallet_address :: string
  signMessage :: "string \<Rightarrow> string"
  verifyMessage :: recovery
  keccak256 :: "byte list \<Rightarrow> string"
  getHexProof :: "string list \<Rightarrow> string \<Rightarrow> string list"
  ls_throws :: bool
  getChallengeIndices :: "nat \<Rightarrow> js_int list"

record challenge =
  ch_block :: nat
  ch_id :: nat
  ch_deal :: nat
  ch_provider :: string

record post_proof =
  pp_challenge :: nat
  pp_leaves :: "byte list list"
  pp_proofs :: "string list list"

record node =
  api :: database
  pinned :: "string list"
  merkleTrees :: "string \<rightharpoonup> string list"
  shardData :: "string \<rightharpoonup> byte list list"
  vault :: "(nat \<times> vault_fs) option"
  vaultStatus :: "vault_status option"
  lastPolledBlock :: nat
  chain_head :: nat
  chain_log :: "challenge list"
  sent_proofs :: "post_proof list"

type_synonym 'a dact = "(node, 'a) act"

section \<open>Requests and IPFS calls\<close>

text \<open>\<^verbatim>\<open>axios\<close> rejects when the request fails and on every status but success.\<close>

definition reply_of :: "'a reply \<Rightarrow> 'a dact" where
  "reply_of r = (case r of Ok x \<Rightarrow> ret x | Err n msg \<Rightarrow> throw msg)"

definition call_api :: "'a reply sql \<Rightarrow> 'a dact" where
  "call_api m = andthen (writes (\<lambda>s. s)) (bind (zoom api (\<lambda>d s. s\<lparr>api := d\<rparr>) m) reply_of)"

definition pin_ls :: "daemon_env \<Rightarrow> string \<Rightarrow> bool dact" where
  "pin_ls env cid = effect (\<lambda>s. if cid \<in> set (pinned s) then Some (True, s)
     else if ls_throws env then None else Some (False, s))"

definition pin_add :: "string \<Rightarrow> unit dact" where
  "pin_add cid = effect (\<lambda>s. if blocks (api s) cid = None then None
     else Some ((), s\<lparr>pinned := List.insert cid (pinned s)\<rparr>))"

definition pin_rm :: "string \<Rightarrow> unit dact" where
  "pin_rm cid = effect (\<lambda>s. if cid \<in> set (pinned s) then Some ((), s\<lparr>pinned := removeAll cid (pinned s)\<rparr>) else None)"

definition repo_cat :: "string \<Rightarrow> byte list dact" where
  "repo_cat cid = effect (\<lambda>s. map_option (\<lambda>b. (b, s)) (blocks (api s) cid))"

section \<open>Merkle trees\<close>

definition SECTOR_SIZE :: nat where "SECTOR_SIZE = 1024"

definition pad_last :: "byte list list \<Rightarrow> byte list list" where
  "pad_last ss = (if ss \<noteq> [] \<and> length (last ss) < SECTOR_SIZE
     then butlast ss @ [last ss @ replicate (SECTOR_SIZE - length (last ss)) 0] else ss)"

definition sectors_of :: "byte list \<Rightarrow> byte list list" where
  "sectors_of data =
     (let ss = pad_last (map (\<lambda>k. chunk SECTOR_SIZE k data) [0..<ceil_div (length data) SECTOR_SIZE])
      in ss @ replicate (10 - length ss) (replicate SECTOR_SIZE 0))"

definition buildMerkleTree :: "daemon_env \<Rightarrow> string \<Rightarrow> unit dact" where
  "buildMerkleTree env cid = logged (bind (repo_cat cid) (\<lambda>data.
     let sectors = sectors_of data
     in local_set (\<lambda>s. s\<lparr>merkleTrees := (merkleTrees s)(cid \<mapsto> map (keccak256 env) sectors),
                        shardData := (shardData s)(cid \<mapsto> sectors)\<rparr>)))"

definition ensurePinned :: "daemon_env \<Rightarrow> string \<Rightarrow> unit dact" where
  "ensurePinned env cid = try_catch
     (bind (pin_ls env cid) (\<lambda>isPinned.
      andthen (if isPinned then ret () else pin_add cid)
     (bind (local_get merkleTrees) (\<lambda>trees.
        if trees cid = None then buildMerkleTree env cid else ret ()))))
     (\<lambda>_. logged (andthen (pin_add cid) (buildMerkleTree env cid)))"

section \<open>Challenges\<close>

fun pick_sectors :: "byte list list \<Rightarrow> js_int list \<Rightarrow> byte list list option" where
  "pick_sectors sectors [] = Some []"
| "pick_sectors sectors (i # is) =
     (case js_mod i (length sectors) of
        None \<Rightarrow> None
      | Some k \<Rightarrow> map_option (\<lambda>r. sectors ! k # r) (pick_sectors sectors is))"

definition loaded :: "string \<Rightarrow> node \<Rightarrow> (string list \<times> byte list list) option" where
  "loaded cid s = (case (merkleTrees s cid, shardData s cid) of (Some t, Some d) \<Rightarrow> Some (t, d) | _ \<Rightarrow> None)"

definition load_shard :: "daemon_env \<Rightarrow> string \<Rightarrow> (string list \<times> byte list list) dact" where
  "load_shard env cid =
     bind (local_get (loaded cid)) (\<lambda>l.
     andthen (if l = None then ensurePinned env cid else ret ())
    (bind (local_get (loaded cid)) (\<lambda>l.
       case l of None \<Rightarrow> throw ''Failed to load Merkle tree for shard'' | Some td \<Rightarrow> ret td)))"

definition answer_challenge :: "daemon_env \<Rightarrow> nat \<Rightarrow> string \<Rightarrow> unit dact" where
  "answer_challenge env challengeId cid =
     bind (load_shard env cid) (\<lambda>(tree, sectors).
     bind (reads (\<lambda>_. getChallengeIndices env challengeId)) (\<lambda>indices.
     case pick_sectors sectors indices of
       None \<Rightarrow> throw ''Cannot mix BigInt and other types, use explicit conversions''
     | Some leafData \<Rightarrow>
         andthen (writes (\<lambda>s. s\<lparr>sent_proofs := sent_proofs s @ [\<lparr>pp_challenge = challengeId, pp_leaves = leafData,
                    pp_proofs = map (\<lambda>sec. getHexProof env tree (keccak256 env sec)) leafData\<rparr>]\<rparr>))
                 (writes (\<lambda>s. s))))"

definition handlePoStChallenge :: "daemon_env \<Rightarrow> nat \<Rightarrow> nat \<Rightarrow> unit dact" where
  "handlePoStChallenge env challengeId dealId = logged (
     bind (call_api (get_deal (nat_str dealId))) (\<lambda>(deal, shards).
       case find (\<lambda>hp. s_provider (fst hp) = wallet_address env) shards of
         None \<Rightarrow> throw ''No shard found for deal assigned to this provider''
       | Some hp \<Rightarrow> answer_challenge env challengeId (s_cid (fst hp))))"

definition my_challenge :: "daemon_env \<Rightarrow> challenge \<Rightarrow> bool" where
  "my_challenge env c \<longleftrightarrow> to_lower (ch_provider c) = to_lower (wallet_address env)"

definition pollPoStChallenges :: "daemon_env \<Rightarrow> unit dact" where
  "pollPoStChallenges env = logged (
     bind (reads chain_head) (\<lambda>currentBlock.
     bind (local_get lastPolledBlock) (\<lambda>lastPolled.
       if currentBlock \<le> lastPolled then ret ()
       else
         bind (reads (\<lambda>s. filter (\<lambda>c. lastPolled + 1 \<le> ch_block c \<and> ch_block c \<le> currentBlock) (chain_log s))) (\<lambda>events.
         andthen (for_each events (\<lambda>c.
             if my_challenge env c then handlePoStChallenge env (ch_id c) (ch_deal c) else ret ()))
         (local_set (\<lambda>s. s\<lparr>lastPolledBlock := currentBlock\<rparr>))))))"

section \<open>Heartbeats and assignments\<close>

definition metrics_of :: "vault_status \<Rightarrow> storage_metrics" where
  "metrics_of v = \<lparr>sm_pledged = of_nat (vs_capacityGB v), sm_used = vs_usedGB v\<rparr>"

definition sendHeartbeat :: "daemon_env \<Rightarrow> unit dact" where
  "sendHeartbeat env = logged (
     andthen (local_set (\<lambda>s. case vault s of None \<Rightarrow> s
        | Some (cap, fs) \<Rightarrow> s\<lparr>vaultStatus := Some (getVaultStatus cap fs)\<rparr>))
    (bind (local_get vaultStatus) (\<lambda>v.
     bind (reads (\<lambda>_. signMessage env ''Kyneto Provider Heartbeat'')) (\<lambda>signature.
       call_api (post_heartbeat (verifyMessage env) (wallet_address env) (map_option metrics_of v) signature)))))"

text \<open>
  With a vault configured, \<^verbatim>\<open>decreaseUsedGB\<close> is called on the manager; no class has such a method, so
  the call throws and the garbage collection after it is skipped.
\<close>

definition unpinAndCleanup :: "daemon_env \<Rightarrow> string \<Rightarrow> unit dact" where
  "unpinAndCleanup env cid = logged (
     andthen (logged (pin_rm cid))
    (andthen (local_set (\<lambda>s. s\<lparr>merkleTrees := (merkleTrees s)(cid := None), shardData := (shardData s)(cid := None)\<rparr>))
    (bind (local_get vault) (\<lambda>v.
       if v \<noteq> None then throw ''decreaseUsedGB is not a function''
       else logged (writes (\<lambda>s. s))))))"

definition cleanupDeletedShards :: "daemon_env \<Rightarrow> unit dact" where
  "cleanupDeletedShards env = logged (
     bind (call_api (get_cleanup (wallet_address env))) (\<lambda>shards.
       for_each shards (\<lambda>c. unpinAndCleanup env (cl_cid c))))"

definition pin_deal :: "daemon_env \<Rightarrow> string \<Rightarrow> unit dact" where
  "pin_deal env dealId = bind (call_api (get_deal dealId)) (\<lambda>(deal, shards).
     for_each (filter (\<lambda>h. s_provider h = wallet_address env) (map fst shards))
       (\<lambda>h. if s_active h then ensurePinned env (s_cid h) else ret ()))"

definition checkAssignments :: "daemon_env \<Rightarrow> unit dact" where
  "checkAssignments env = logged (
     bind (call_api (get_provider (wallet_address env))) (\<lambda>view.
     andthen (for_each (pv_deals view) (\<lambda>d. pin_deal env (d_id d)))
             (cleanupDeletedShards env)))"

section \<open>Socket messages\<close>

definition field :: "string \<Rightarrow> json \<Rightarrow> json option" where
  "field k j = (case j of JObj fs \<Rightarrow> map_of fs k | _ \<Rightarrow> None)"

definition on_deal_cancelled :: "daemon_env \<Rightarrow> json \<Rightarrow> unit dact" where
  "on_deal_cancelled env data =
     (case field ''providerAddresses'' data of
        Some (JArr addrs) \<Rightarrow>
          if \<exists>a \<in> set addrs. (case a of JStr x \<Rightarrow> to_lower x = to_lower (wallet_address env) | _ \<Rightarrow> False)
          then (case field ''shardCIDs'' data of
                  Some (JArr cids) \<Rightarrow> for_each cids (\<lambda>c. case c of JStr cid \<Rightarrow> unpinAndCleanup env cid | _ \<Rightarrow> ret ())
                | _ \<Rightarrow> throw ''shardCIDs is not iterable'')
          else ret ()
      | _ \<Rightarrow> throw ''Cannot read properties of undefined (reading 'some')'')"

section \<open>Start\<close>

text \<open>
  Five attempts to reach the IPFS node. The first poll, heartbeat and check are started in this order
  and not awaited; the model runs them one after the other, with the verifier contract configured.
\<close>

primrec connect_kubo :: "nat \<Rightarrow> bool dact" where
  "connect_kubo 0 = ret False"
| "connect_kubo (Suc n) = try_catch (andthen (writes (\<lambda>s. s)) (ret True)) (\<lambda>_. connect_kubo n)"

definition init_vault :: "unit dact" where
  "init_vault = bind (local_get vault) (\<lambda>v.
     case v of
       None \<Rightarrow> ret ()
     | Some (cap, fs) \<Rightarrow>
         bind (zoom (\<lambda>s. case vault s of None \<Rightarrow> fs | Some (c, f) \<Rightarrow> f) (\<lambda>f s. s\<lparr>vault := Some (cap, f)\<rparr>)
                 (ensureVaultExists cap)) (\<lambda>success.
           if \<not> success then throw ''exit 1''
           else local_set (\<lambda>s. case vault s of None \<Rightarrow> s
                  | Some (c, f) \<Rightarrow> s\<lparr>vaultStatus := Some (getVaultStatus c f)\<rparr>)))"

definition start :: "daemon_env \<Rightarrow> unit dact" where
  "start env =
     andthen init_vault
    (bind (connect_kubo 5) (\<lambda>up.
       if \<not> up then throw ''exit 1''
       else bind (reads chain_head) (\<lambda>b.
            andthen (local_set (\<lambda>s. s\<lparr>lastPolledBlock := b\<rparr>))
           (andthen (pollPoStChallenges env)
           (andthen (sendHeartbeat env)
                    (checkAssignments env))))))"

section \<open>Sectors\<close>

lemma sector_size [simp]: "SECTOR_SIZE = 1024"
  by (simp add: SECTOR_SIZE_def)

lemma chunks_full:
  assumes "k < ceil_div (length data) 1024 - 1"
  shows "length (chunk 1024 k data) = 1024"
proof (rule length_chunk)
  have "1024 * ceil_div (length data) 1024 < length data + 1024" by (rule ceil_div_less) simp
  moreover have "1024 * (k + 2) \<le> 1024 * ceil_div (length data) 1024" using assms by (intro mult_le_mono2) linarith
  ultimately show "Suc k * 1024 \<le> length data" by simp
qed

lemma pad_last_props:
  assumes "\<And>s. s \<in> set (butlast ss) \<Longrightarrow> length s = 1024" and "ss \<noteq> [] \<Longrightarrow> length (last ss) \<le> 1024"
  shows "length (pad_last ss) = length ss" and "\<forall>s \<in> set (pad_last ss). length s = 1024"
    and "\<exists>n. concat (pad_last ss) = concat ss @ replicate n 0"
proof -
  show "length (pad_last ss) = length ss" by (simp add: pad_last_def)
  show "\<forall>s \<in> set (pad_last ss). length s = 1024"
  proof (cases "ss = []")
    case False
    then have ss: "ss = butlast ss @ [last ss]" by simp
    have whole: "\<forall>s \<in> set (butlast ss @ [x]). length s = 1024" if "length x = 1024" for x
      using assms(1) that by auto
    show ?thesis
    proof (cases "length (last ss) < 1024")
      case True
      then have pad: "pad_last ss = butlast ss @ [last ss @ replicate (1024 - length (last ss)) 0]"
        using False by (simp add: pad_last_def)
      show ?thesis unfolding pad by (rule whole) (use True in simp)
    next
      case full: False
      then have "length (last ss) = 1024" "pad_last ss = ss" using assms(2)[OF False] by (simp_all add: pad_last_def)
      then show ?thesis using whole ss by metis
    qed
  qed (simp add: pad_last_def)
  show "\<exists>n. concat (pad_last ss) = concat ss @ replicate n 0"
  proof (cases "ss \<noteq> [] \<and> length (last ss) < 1024")
    case True
    then have "concat ss = concat (butlast ss) @ last ss"
      by (metis append_butlast_last_id concat_append concat.simps append_Nil2)
    then show ?thesis using True by (auto simp: pad_last_def)
  next
    case False
    then have "concat (pad_last ss) = concat ss @ replicate 0 0" by (auto simp: pad_last_def)
    then show ?thesis by blast
  qed
qed

text \<open>
  The sectors of a shard: every sector has exactly 1024 bytes, there are as many as the data needs
  and never fewer than the ten a challenge may ask for, and read in order they are the data followed
  by zeros.
\<close>

theorem sectors_cover:
  "length (sectors_of data) = max 10 (ceil_div (length data) 1024) \<and>
   set (map length (sectors_of data)) = {1024} \<and>
   (\<exists>n. concat (sectors_of data) = data @ replicate n 0)"
proof -
  let ?n = "ceil_div (length data) 1024"
  let ?cs = "map (\<lambda>k. chunk 1024 k data) [0..<?n]"
  have ceil: "length data \<le> 1024 * ?n" by (rule ceil_div_ge) simp
  have but: "length s = 1024" if "s \<in> set (butlast ?cs)" for s
    using that chunks_full[of _ data] by (auto simp: butlast_conv_take take_map take_upt)
  have last: "length (last ?cs) \<le> 1024" if "?cs \<noteq> []"
    using that by (simp add: last_map chunk_def)
  have all: "concat ?cs = data" using ceil by (simp add: concat_chunks mult.commute)
  obtain m where m: "concat (pad_last ?cs) = data @ replicate m 0"
    using pad_last_props(3)[OF but last] unfolding all by blast
  note len = pad_last_props(1)[OF but last] and each = pad_last_props(2)[OF but last]
  define z where "z = replicate (1024 :: nat) (0 :: byte)"
  have zeros: "concat (replicate k z) = replicate (k * 1024) 0" for k
    by (induction k) (simp_all add: replicate_add z_def)
  have zlen: "length z = 1024" by (simp add: z_def)
  have sec: "sectors_of data = pad_last ?cs @ replicate (10 - ?n) z"
    unfolding sectors_of_def Let_def sector_size z_def using len by simp
  have "length (sectors_of data) = max 10 ?n" using sec len by (simp add: max_def)
  moreover have "set (map length (sectors_of data)) = {1024}"
  proof -
    have "\<forall>s \<in> set (sectors_of data). length s = 1024"
      using each zlen unfolding sec set_append by (metis UnE in_set_replicate)
    moreover have "sectors_of data \<noteq> []" using \<open>length (sectors_of data) = max 10 ?n\<close> by (cases "sectors_of data") auto
    ultimately show ?thesis by (simp add: image_constant_conv cong: image_cong)
  qed
  moreover have "concat (sectors_of data) = data @ replicate (m + (10 - ?n) * 1024) 0"
    unfolding sec by (simp add: m zeros replicate_add)
  ultimately show ?thesis by blast
qed

section \<open>Requests that only read\<close>

lemma wp_get_deal:
  assumes "\<And>d hs. find_deal i s = Some d \<Longrightarrow> fst ` set hs \<subseteq> {h \<in> set (t_shards s). s_deal h = i} \<Longrightarrow> Q (Ok (d, hs)) s"
    and "\<And>n e. Q (Err n e) s"
  shows "wp t (get_deal i) Q E s"
  unfolding get_deal_def by (intro wp_or_500 wp_bind wp_reads) (auto split: option.splits intro!: wp_rules assms)

lemma wp_get_provider: "(\<And>r. Q r s) \<Longrightarrow> wp t (get_provider a) Q E s"
  unfolding get_provider_def by (intro wp_or_500 wp_bind wp_reads) (auto split: option.splits intro!: wp_rules)

lemma wp_get_cleanup: "(\<And>r. Q r s) \<Longrightarrow> wp t (get_cleanup a) Q E s"
  unfolding get_cleanup_def by (intro wp_or_500 wp_rules) auto

lemma wp_heartbeat_blocks:
  "(\<And>r s'. blocks s' = blocks s \<Longrightarrow> Q r s') \<Longrightarrow> wp t (post_heartbeat rc a m sig) Q E s"
proof -
  have up: "blocks (upsert_heartbeat x u s') = blocks s'" for x u s' by (simp add: upsert_heartbeat_def)
  assume "\<And>r s'. blocks s' = blocks s \<Longrightarrow> Q r s'"
  then show ?thesis
    unfolding post_heartbeat_def by (intro wp_or_500) (auto intro!: wp_rules simp: up split: option.splits)
qed

lemma wp_call_api:
  assumes "\<And>e. E e s"
    and "wp t m (\<lambda>r d. case r of Ok x \<Rightarrow> Q x (s\<lparr>api := d\<rparr>) | Err n e \<Rightarrow> E e (s\<lparr>api := d\<rparr>))
           (\<lambda>e d. E e (s\<lparr>api := d\<rparr>)) (api s)"
  shows "wp t (call_api m) Q E s"
  unfolding call_api_def
  by (intro wp_andthen wp_writes wp_bind wp_zoom assms(1) wp_mono[OF assms(2)])
     (auto simp: reply_of_def intro: wp_ret wp_throw split: reply.splits)

section \<open>The trees in memory belong to the stored blocks\<close>

definition trees_ok :: "daemon_env \<Rightarrow> node \<Rightarrow> bool" where
  "trees_ok env s \<longleftrightarrow> (\<forall>cid t. merkleTrees s cid = Some t \<longrightarrow> (\<exists>data. blocks (api s) cid = Some data \<and>
     shardData s cid = Some (sectors_of data) \<and> t = map (keccak256 env) (sectors_of data)))"

lemma trees_ok_fields [simp]:
  "trees_ok env (s\<lparr>pinned := p\<rparr>) = trees_ok env s"
  "trees_ok env (s\<lparr>vaultStatus := v\<rparr>) = trees_ok env s"
  "trees_ok env (s\<lparr>vault := vv\<rparr>) = trees_ok env s"
  "trees_ok env (s\<lparr>lastPolledBlock := b\<rparr>) = trees_ok env s"
  "trees_ok env (s\<lparr>sent_proofs := ps\<rparr>) = trees_ok env s"
  by (simp_all add: trees_ok_def)

lemma trees_ok_api: "trees_ok env s \<Longrightarrow> blocks d = blocks (api s) \<Longrightarrow> trees_ok env (s\<lparr>api := d\<rparr>)"
  by (simp add: trees_ok_def)

lemma trees_ok_drop:
  "trees_ok env s \<Longrightarrow> trees_ok env (s\<lparr>merkleTrees := (merkleTrees s)(cid := None), shardData := (shardData s)(cid := None)\<rparr>)"
  by (simp add: trees_ok_def)

lemma trees_ok_build:
  "trees_ok env s \<Longrightarrow> blocks (api s) cid = Some data \<Longrightarrow>
   trees_ok env (s\<lparr>merkleTrees := (merkleTrees s)(cid \<mapsto> map (keccak256 env) (sectors_of data)),
     shardData := (shardData s)(cid \<mapsto> sectors_of data)\<rparr>)"
  by (simp add: trees_ok_def)

text \<open>
  What a whole action of the daemon keeps: the blocks, the chain, the trees, the proofs sent before;
  and of the proofs it sends, \<open>A\<close> holds of each, and \<open>B\<close> too if the trees were in order.
\<close>

definition tended ::
  "daemon_env \<Rightarrow> (post_proof \<Rightarrow> bool) \<Rightarrow> ((string \<rightharpoonup> byte list) \<Rightarrow> post_proof \<Rightarrow> bool) \<Rightarrow> node \<Rightarrow> node \<Rightarrow> bool" where
  "tended env A B s s' \<longleftrightarrow> blocks (api s') = blocks (api s) \<and> chain_head s' = chain_head s \<and> chain_log s' = chain_log s \<and>
     lastPolledBlock s' = lastPolledBlock s \<and>
     (trees_ok env s \<longrightarrow> trees_ok env s') \<and>
     (\<exists>ps. sent_proofs s' = sent_proofs s @ ps \<and> (\<forall>p \<in> set ps. A p \<and> (trees_ok env s \<longrightarrow> B (blocks (api s)) p)))"

interpretation tended: step_rel "tended env A B" for env A B
proof unfold_locales
  show "tended env A B s s" for s by (simp add: tended_def)
  show "tended env A B a c" if ab: "tended env A B a b" and bc: "tended env A B b c" for a b c
  proof -
    obtain ps where ps: "sent_proofs b = sent_proofs a @ ps"
      "\<forall>p \<in> set ps. A p \<and> (trees_ok env a \<longrightarrow> B (blocks (api a)) p)" using ab by (auto simp: tended_def)
    obtain qs where qs: "sent_proofs c = sent_proofs b @ qs"
      "\<forall>p \<in> set qs. A p \<and> (trees_ok env b \<longrightarrow> B (blocks (api b)) p)" using bc by (auto simp: tended_def)
    have frame: "blocks (api b) = blocks (api a)" "trees_ok env a \<longrightarrow> trees_ok env b" using ab by (auto simp: tended_def)
    have "sent_proofs c = sent_proofs a @ ps @ qs"
      "\<forall>p \<in> set (ps @ qs). A p \<and> (trees_ok env a \<longrightarrow> B (blocks (api a)) p)"
      using ps qs frame by auto
    then show ?thesis using ab bc unfolding tended_def by auto
  qed
qed

lemma tended_effects:
  "steps (tended env A B) (pin_ls env cid)" "steps (tended env A B) (pin_add cid)" "steps (tended env A B) (pin_rm cid)"
  "steps (tended env A B) (repo_cat cid)"
  unfolding pin_ls_def pin_add_def pin_rm_def repo_cat_def
  by (auto intro!: tended.effect_steps simp: tended_def split: if_splits)

lemma tended_api:
  assumes "\<And>t s. wp t m (\<lambda>_ s'. blocks s' = blocks s) (\<lambda>_ s'. blocks s' = blocks s) s"
  shows "steps (tended env A B) (call_api m)"
proof (rule stepsI)
  fix w :: "node world"
  show "tended env A B (db w) (final (call_api m) w)"
  proof (rule wp_final_now, rule wp_call_api)
    show "wp (clock w) m (\<lambda>r d. case r of Ok x \<Rightarrow> tended env A B (db w) ((db w)\<lparr>api := d\<rparr>)
        | Err n e \<Rightarrow> tended env A B (db w) ((db w)\<lparr>api := d\<rparr>)) (\<lambda>e d. tended env A B (db w) ((db w)\<lparr>api := d\<rparr>)) (api (db w))"
      by (rule wp_mono[OF assms]) (auto simp: tended_def trees_ok_api split: reply.splits)
  qed (rule tended.refl)
qed

lemma tended_requests:
  "steps (tended env A B) (call_api (get_deal i))" "steps (tended env A B) (call_api (get_provider a))"
  "steps (tended env A B) (call_api (get_cleanup a))" "steps (tended env A B) (call_api (post_heartbeat rc a m sig))"
  by (rule tended_api, (rule wp_get_deal wp_get_provider wp_get_cleanup wp_heartbeat_blocks; simp))+

lemma tended_build: "steps (tended env A B) (buildMerkleTree env cid)"
proof (rule stepsI)
  fix w :: "node world"
  show "tended env A B (db w) (final (buildMerkleTree env cid) w)"
    unfolding buildMerkleTree_def Let_def repo_cat_def
    by (rule wp_final_now, intro wp_logged wp_bind wp_effect wp_local_set)
       (auto simp: tended_def trees_ok_build split: option.splits)
qed

lemma tended_pin: "steps (tended env A B) (ensurePinned env cid)"
  unfolding ensurePinned_def
  by (intro tended.step_intros tended.local_get_steps tended_effects tended_build)
     (auto intro!: tended.step_intros tended_effects tended_build)

lemma orderly_pin: "orderly (ensurePinned env cid)"
  unfolding ensurePinned_def buildMerkleTree_def pin_ls_def pin_add_def repo_cat_def Let_def
  by (auto intro!: orderly_rules)

lemma orderly_get_deal: "orderly (get_deal i)"
  unfolding get_deal_def or_500_def by (auto intro!: orderly_rules split: option.splits)

lemma orderly_reply_of: "orderly (reply_of r)"
  by (cases r) (simp_all add: reply_of_def orderly_rules)

lemma orderly_handle: "orderly (handlePoStChallenge env ch d)"
proof -
  have load: "orderly (load_shard env cid)" for cid
    unfolding load_shard_def by (auto intro!: orderly_rules orderly_pin split: option.splits)
  have "orderly (answer_challenge env ch cid)" for cid
    unfolding answer_challenge_def by (auto intro!: orderly_rules load split: option.splits)
  then show ?thesis
    unfolding handlePoStChallenge_def call_api_def
    by (auto intro!: orderly_rules orderly_get_deal orderly_reply_of split: option.splits)
qed

lemma tended_load: "steps (tended env A B) (load_shard env cid)"
  unfolding load_shard_def
  by (intro tended.step_intros tended.local_get_steps)
     (auto intro!: tended.step_intros tended_pin split: option.splits)

lemma wp_load_shard:
  assumes "\<And>td s'. tended env A B s s' \<Longrightarrow> loaded cid s' = Some td \<Longrightarrow> Q td s'"
    and "\<And>e s'. tended env A B s s' \<Longrightarrow> E e s'"
  shows "wp t (load_shard env cid) Q E s"
proof -
  have pin: "wp t (if loaded cid s = None then ensurePinned env cid else ret ())
      (\<lambda>_ s'. tended env A B s s') (\<lambda>_ s'. tended env A B s s') s"
  proof (cases "loaded cid s = None")
    case True
    then show ?thesis by (auto intro!: steps_wp[OF tended_pin] orderly_pin)
  qed (auto intro!: wp_ret tended.refl)
  show ?thesis
    unfolding load_shard_def
    by (intro wp_bind wp_local_get wp_andthen wp_mono[OF pin])
       (auto split: option.splits intro!: wp_rules assms)
qed

text \<open>The proofs a challenge can lead to.\<close>

definition answers_to :: "daemon_env \<Rightarrow> (post_proof \<Rightarrow> bool) \<Rightarrow> ((string \<rightharpoonup> byte list) \<Rightarrow> post_proof \<Rightarrow> bool) \<Rightarrow> nat \<Rightarrow> bool" where
  "answers_to env A B ch \<longleftrightarrow> (\<forall>s cid tree sectors leaves. loaded cid s = Some (tree, sectors) \<longrightarrow>
     pick_sectors sectors (getChallengeIndices env ch) = Some leaves \<longrightarrow>
     (let p = \<lparr>pp_challenge = ch, pp_leaves = leaves,
               pp_proofs = map (\<lambda>sec. getHexProof env tree (keccak256 env sec)) leaves\<rparr>
      in A p \<and> (trees_ok env s \<longrightarrow> B (blocks (api s)) p)))"

lemma wp_answer:
  assumes ok: "answers_to env A B ch"
  shows "wp t (answer_challenge env ch cid) (\<lambda>_. tended env A B s) (\<lambda>_. tended env A B s) s"
  unfolding answer_challenge_def
proof (intro wp_bind, rule wp_load_shard[where A = A and B = B])
  fix td s'
  assume kept: "tended env A B s s'" and l: "loaded cid s' = Some td"
  obtain tree sectors where td: "td = (tree, sectors)" by (cases td)
  have sent: "tended env A B s' (s'\<lparr>sent_proofs := sent_proofs s' @ [\<lparr>pp_challenge = ch, pp_leaves = leaves,
      pp_proofs = map (\<lambda>sec. getHexProof env tree (keccak256 env sec)) leaves\<rparr>]\<rparr>)"
    if "pick_sectors sectors (getChallengeIndices env ch) = Some leaves" for leaves
    using ok[unfolded answers_to_def Let_def, rule_format, OF l[unfolded td] that] by (simp add: tended_def)
  then show "wp t (case td of (tree, sectors) \<Rightarrow> bind (reads (\<lambda>_. getChallengeIndices env ch)) (\<lambda>indices.
     case pick_sectors sectors indices of
       None \<Rightarrow> throw ''Cannot mix BigInt and other types, use explicit conversions''
     | Some leafData \<Rightarrow>
         andthen (writes (\<lambda>s. s\<lparr>sent_proofs := sent_proofs s @ [\<lparr>pp_challenge = ch, pp_leaves = leafData,
                    pp_proofs = map (\<lambda>sec. getHexProof env tree (keccak256 env sec)) leafData\<rparr>]\<rparr>))
                 (writes (\<lambda>s. s)))) (\<lambda>_. tended env A B s) (\<lambda>_. tended env A B s) s'"
    using tended.trans[OF kept] kept unfolding td
    by (auto intro!: wp_bind wp_reads wp_throw wp_andthen wp_writes split: option.splits)
qed

lemma tended_handle:
  assumes "answers_to env A B ch"
  shows "steps (tended env A B) (handlePoStChallenge env ch d)"
proof -
  have "steps (tended env A B) (answer_challenge env ch cid)" for cid
    by (rule stepsI, rule wp_final_now, rule wp_answer[OF assms])
  then show ?thesis
    unfolding handlePoStChallenge_def
    by (intro tended.step_intros tended_requests) (auto intro!: tended.step_intros split: option.splits)
qed

text \<open>The challenges a poll looks at.\<close>

definition new_challenges :: "daemon_env \<Rightarrow> node \<Rightarrow> challenge set" where
  "new_challenges env s = {c \<in> set (chain_log s). my_challenge env c \<and>
     lastPolledBlock s < ch_block c \<and> ch_block c \<le> chain_head s}"

definition poll_result :: "daemon_env \<Rightarrow> (post_proof \<Rightarrow> bool) \<Rightarrow> ((string \<rightharpoonup> byte list) \<Rightarrow> post_proof \<Rightarrow> bool) \<Rightarrow> node \<Rightarrow> node \<Rightarrow> bool" where
  "poll_result env A B s s' \<longleftrightarrow> tended env A B s (s'\<lparr>lastPolledBlock := lastPolledBlock s\<rparr>) \<and>
     (lastPolledBlock s' = lastPolledBlock s \<or>
      lastPolledBlock s < chain_head s \<and> lastPolledBlock s' = chain_head s)"

lemma wp_poll:
  assumes ok: "\<And>c. c \<in> new_challenges env s \<Longrightarrow> answers_to env A B (ch_id c)"
  shows "wp t (pollPoStChallenges env) (\<lambda>_. poll_result env A B s) (\<lambda>_. poll_result env A B s) s"
proof -
  have same: "poll_result env A B s s'" if "tended env A B s s'" for s'
    using that by (auto simp: poll_result_def tended_def)
  let ?evs = "filter (\<lambda>c. lastPolledBlock s + 1 \<le> ch_block c \<and> ch_block c \<le> chain_head s) (chain_log s)"
  let ?f = "\<lambda>c. if my_challenge env c then handlePoStChallenge env (ch_id c) (ch_deal c) else ret ()"
  have loop: "wp t (for_each ?evs ?f) (\<lambda>_. tended env A B s) (\<lambda>_. tended env A B s) s"
  proof (rule wp_for_each[where I = "tended env A B s"])
    fix c s'
    assume c: "c \<in> set ?evs" and kept: "tended env A B s s'"
    have "steps (tended env A B) (?f c)"
    proof (cases "my_challenge env c")
      case True
      then have "c \<in> new_challenges env s" using c by (auto simp: new_challenges_def)
      then show ?thesis using True tended_handle[OF ok] by simp
    qed (simp add: tended.ret_steps)
    moreover have "orderly (?f c)" by (auto simp: orderly_handle intro: orderly_rules)
    ultimately show "wp t (?f c) (\<lambda>_. tended env A B s) (\<lambda>_. tended env A B s) s'"
      by (rule steps_wp) (auto intro: tended.trans[OF kept])
  qed (auto intro: tended.refl)
  show ?thesis
    unfolding pollPoStChallenges_def
  proof (intro wp_logged wp_bind wp_reads wp_local_get)
    show "poll_result env A B s s" by (rule same[OF tended.refl])
    show "wp t (if chain_head s \<le> lastPolledBlock s then ret ()
       else bind (reads (\<lambda>u. filter (\<lambda>c. lastPolledBlock s + 1 \<le> ch_block c \<and> ch_block c \<le> chain_head s) (chain_log u)))
         (\<lambda>events. andthen (for_each events ?f) (local_set (\<lambda>u. u\<lparr>lastPolledBlock := chain_head s\<rparr>))))
       (\<lambda>_. poll_result env A B s) (\<lambda>_. poll_result env A B s) s"
    proof (cases "chain_head s \<le> lastPolledBlock s")
      case False
      have "wp t (andthen (for_each ?evs ?f) (local_set (\<lambda>u. u\<lparr>lastPolledBlock := chain_head s\<rparr>)))
          (\<lambda>_. poll_result env A B s) (\<lambda>_. poll_result env A B s) s"
        by (intro wp_andthen wp_mono[OF loop] wp_local_set)
           (use False same in \<open>auto simp: poll_result_def tended_def\<close>)
      then show ?thesis using False same[OF tended.refl] by (auto intro!: wp_bind wp_reads)
    qed (simp add: wp_ret same tended.refl)
  qed
qed

lemma tended_heartbeat: "steps (tended env A B) (sendHeartbeat env)"
  unfolding sendHeartbeat_def
  by (intro tended.step_intros tended.local_get_steps tended.local_set_steps tended_requests)
     (auto simp: tended_def split: option.splits)

lemma tended_cleanup: "steps (tended env A B) (unpinAndCleanup env cid)"
  unfolding unpinAndCleanup_def
  by (intro tended.step_intros tended.local_get_steps tended.local_set_steps tended_effects)
     (auto intro!: tended.step_intros tended.writes_steps simp: tended_def trees_ok_drop)

lemma tended_check: "steps (tended env A B) (checkAssignments env)"
proof -
  have "steps (tended env A B) (cleanupDeletedShards env)"
    unfolding cleanupDeletedShards_def by (intro tended.step_intros tended_requests tended_cleanup)
  moreover have "steps (tended env A B) (pin_deal env i)" for i
    unfolding pin_deal_def
    by (intro tended.step_intros tended_requests) (auto intro!: tended.step_intros tended_pin)
  ultimately show ?thesis
    unfolding checkAssignments_def by (intro tended.step_intros tended_requests)
qed

text \<open>A daemon at work: its own actions, new blocks of the chain, other clients of the API.\<close>

inductive daemon_run :: "daemon_env \<Rightarrow> node \<Rightarrow> node \<Rightarrow> bool" for env s where
  idle: "daemon_run env s s"
| polled: "daemon_run env s (db w) \<Longrightarrow> daemon_run env s (final (pollPoStChallenges env) w)"
| beat: "daemon_run env s (db w) \<Longrightarrow> daemon_run env s (final (sendHeartbeat env) w)"
| checked: "daemon_run env s (db w) \<Longrightarrow> daemon_run env s (final (checkAssignments env) w)"
| told: "daemon_run env s (db w) \<Longrightarrow> daemon_run env s (final (on_deal_cancelled env msg) w)"
| mined: "daemon_run env s s' \<Longrightarrow> chain_head s' \<le> h \<Longrightarrow>
    daemon_run env s (s'\<lparr>chain_head := h, chain_log := chain_log s' @ evs\<rparr>)"
| others: "daemon_run env s s' \<Longrightarrow> blocks d = blocks (api s') \<Longrightarrow> daemon_run env s (s'\<lparr>api := d\<rparr>)"

lemma tended_told: "steps (tended env A B) (on_deal_cancelled env msg)"
  unfolding on_deal_cancelled_def
  by (auto intro!: tended.step_intros tended_cleanup split: option.splits json.splits)

text \<open>
  C24. The daemon never loses track of what it proves: from start on, through polls, heartbeats, pin
  and clean-up rounds in any order and under every pattern of failures, each Merkle tree in memory is
  the tree over the sectors of the stored block of its identifier, and those sectors are in memory
  with it.
\<close>

theorem daemon_trees_ok:
  assumes "daemon_run env s s'" and "trees_ok env s"
  shows "trees_ok env s'"
  using assms(1)
proof (induction rule: daemon_run.induct)
  case (polled w)
  have "poll_result env (\<lambda>_. True) (\<lambda>_ _. True) (db w) (final (pollPoStChallenges env) w)"
    by (rule wp_final_now, rule wp_poll) (simp add: answers_to_def)
  then show ?case using polled by (simp add: poll_result_def tended_def)
next
  case (beat w)
  then show ?case using stepsD[OF tended_heartbeat[where A = "\<lambda>_. True" and B = "\<lambda>_ _. True"], of env w] by (simp add: tended_def)
next
  case (checked w)
  then show ?case using stepsD[OF tended_check[where A = "\<lambda>_. True" and B = "\<lambda>_ _. True"], of env w] by (simp add: tended_def)
next
  case (told w msg)
  then show ?case using stepsD[OF tended_told[where A = "\<lambda>_. True" and B = "\<lambda>_ _. True"], of env w msg] by (simp add: tended_def)
qed (use assms(2) in \<open>simp_all add: trees_ok_def\<close>)

section \<open>Proofs of storage\<close>

text \<open>The documented behaviour of the tree package and the verifier: a proof for a leaf verifies.\<close>

definition merkle_complete :: "daemon_env \<Rightarrow> (string list \<Rightarrow> string) \<Rightarrow> (string \<Rightarrow> string \<Rightarrow> string list \<Rightarrow> bool) \<Rightarrow> bool" where
  "merkle_complete env tree_root verify \<longleftrightarrow> (\<forall>leaves l. l \<in> set leaves \<longrightarrow> verify (tree_root leaves) l (getHexProof env leaves l))"

definition sound_proof ::
  "daemon_env \<Rightarrow> (string list \<Rightarrow> string) \<Rightarrow> (string \<Rightarrow> string \<Rightarrow> string list \<Rightarrow> bool) \<Rightarrow> (string \<rightharpoonup> byte list) \<Rightarrow>
     post_proof \<Rightarrow> bool" where
  "sound_proof env tree_root verify stored p \<longleftrightarrow> (\<exists>cid data. stored cid = Some data \<and>
     list_all2 (\<lambda>i sec. \<exists>k. i = Number k \<and> sec = sectors_of data ! (k mod length (sectors_of data)))
       (getChallengeIndices env (pp_challenge p)) (pp_leaves p) \<and>
     list_all2 (\<lambda>sec pr. verify (tree_root (map (keccak256 env) (sectors_of data))) (keccak256 env sec) pr)
       (pp_leaves p) (pp_proofs p))"

lemma pick_sectors_Some:
  "pick_sectors ss is = Some leaves \<Longrightarrow>
   list_all2 (\<lambda>i sec. \<exists>k. i = Number k \<and> sec = ss ! (k mod length ss)) is leaves"
  by (induction ss "is" arbitrary: leaves rule: pick_sectors.induct)
     (auto simp: js_mod_def split: option.splits js_int.splits)

lemma pick_sectors_in:
  assumes "pick_sectors ss is = Some leaves" and "ss \<noteq> []"
  shows "set leaves \<subseteq> set ss"
proof
  fix x assume "x \<in> set leaves"
  then obtain j where "j < length leaves" "leaves ! j = x" by (auto simp: in_set_conv_nth)
  then obtain k where "x = ss ! (k mod length ss)"
    using list_all2_nthD2[OF pick_sectors_Some[OF assms(1)], of j] by auto
  then show "x \<in> set ss" using assms(2) by simp
qed

lemma sectors_nonempty [simp]: "sectors_of data \<noteq> []"
proof -
  have "length (sectors_of data) \<ge> 10" by (simp add: sectors_of_def Let_def)
  then show ?thesis by auto
qed

lemma proof_is_sound:
  assumes "merkle_complete env tree_root verify" and "trees_ok env s" and "loaded cid s = Some (tree, sectors)"
    and "pick_sectors sectors (getChallengeIndices env ch) = Some leaves"
  shows "sound_proof env tree_root verify (blocks (api s)) \<lparr>pp_challenge = ch, pp_leaves = leaves,
     pp_proofs = map (\<lambda>sec. getHexProof env tree (keccak256 env sec)) leaves\<rparr>"
proof -
  obtain data where data: "blocks (api s) cid = Some data" "sectors = sectors_of data"
      "tree = map (keccak256 env) (sectors_of data)"
    using assms(2,3) unfolding trees_ok_def loaded_def by (auto split: option.splits) (metis option.inject)+
  have "set leaves \<subseteq> set (sectors_of data)"
    using pick_sectors_in[OF assms(4)] data(2) by simp
  then have "list_all2 (\<lambda>sec pr. verify (tree_root tree) (keccak256 env sec) pr) leaves
      (map (\<lambda>sec. getHexProof env tree (keccak256 env sec)) leaves)"
    using assms(1) unfolding data(3) merkle_complete_def by (auto simp: list.rel_map intro!: list.rel_refl_strong)
  then show ?thesis
    using pick_sectors_Some[OF assms(4)] data unfolding sound_proof_def by auto
qed


text \<open>
  What the contract library really returns for \<^verbatim>\<open>uint256[]\<close> are values of type \<^verbatim>\<open>BigInt\<close>, and
  \<^verbatim>\<open>index % sectors.length\<close> mixes one with a number, which throws. So the daemon answers no challenge
  that names a sector: whatever happens, a poll sends no proof at all.
\<close>

theorem bigint_indices_never_answered:
  assumes "\<forall>ch. \<exists>i is. getChallengeIndices env ch = BigInt i # is"
  shows "sent_proofs (final (pollPoStChallenges env) w) = sent_proofs (db w)"
proof -
  have "pick_sectors sectors (getChallengeIndices env ch) = None" for sectors ch
    using assms[rule_format, of ch] by (auto simp: js_mod_def)
  then have "answers_to env (\<lambda>_. False) (\<lambda>_ _. False) ch" for ch by (simp add: answers_to_def)
  then have "poll_result env (\<lambda>_. False) (\<lambda>_ _. False) (db w) (final (pollPoStChallenges env) w)"
    by (intro wp_final_now[where P = "poll_result env (\<lambda>_. False) (\<lambda>_ _. False) (db w)"] wp_poll)
  then show ?thesis by (auto simp: poll_result_def tended_def)
qed

section \<open>Assignments: the daemon against the rows the API writes\<close>

definition shrinks :: "node \<Rightarrow> node \<Rightarrow> bool" where
  "shrinks s s' \<longleftrightarrow> api s' = api s \<and> set (pinned s') \<subseteq> set (pinned s)"

interpretation shrinks: step_rel shrinks
  by unfold_locales (auto simp: shrinks_def)

lemma shrinks_unpin: "steps shrinks (unpinAndCleanup env cid)"
  unfolding unpinAndCleanup_def pin_rm_def
  by (intro shrinks.step_intros shrinks.local_get_steps shrinks.local_set_steps shrinks.effect_steps)
     (auto intro!: shrinks.step_intros shrinks.writes_steps simp: shrinks_def split: if_splits)

lemma orderly_unpin: "orderly (unpinAndCleanup env cid)"
  unfolding unpinAndCleanup_def pin_rm_def by (auto intro!: orderly_rules)

lemma wp_cleanup_shrinks:
  assumes "\<And>s'. shrinks s s' \<Longrightarrow> Q () s'"
  shows "wp t (cleanupDeletedShards env) Q E s"
  unfolding cleanupDeletedShards_def
proof (intro wp_logged wp_bind wp_call_api wp_get_cleanup)
  fix r :: "cleanup_row list reply"
  have "wp t (for_each rows (\<lambda>c. unpinAndCleanup env (cl_cid c))) Q (\<lambda>_. Q ()) s" for rows
    by (rule steps_wp[OF shrinks.for_each_steps[OF shrinks_unpin] orderly_for_each[OF orderly_unpin]])
       (auto intro: assms)
  then show "case r of Ok x \<Rightarrow> wp t (for_each x (\<lambda>c. unpinAndCleanup env (cl_cid c))) Q (\<lambda>_. Q ()) (s\<lparr>api := api s\<rparr>)
     | Err n e \<Rightarrow> Q () (s\<lparr>api := api s\<rparr>)"
    by (auto intro: assms shrinks.refl split: reply.splits)
qed (auto intro: assms shrinks.refl)

definition lower_rows :: "database \<Rightarrow> bool" where
  "lower_rows d \<longleftrightarrow> (\<forall>h \<in> set (t_shards d). s_provider h = to_lower (s_provider h))"

text \<open>
  The API stores provider addresses in lower case, the daemon looks for its wallet address as the
  wallet spells it. If that address has an upper-case letter, a round of assignment checks pins nothing,
  whatever shards the provider was assigned and whatever fails.
\<close>

theorem checksummed_daemon_pins_nothing:
  assumes "lower_rows (api (db w))" and "wallet_address env \<noteq> to_lower (wallet_address env)"
  shows "set (pinned (final (checkAssignments env) w)) \<subseteq> set (pinned (db w))"
proof -
  let ?I = "\<lambda>s. lower_rows (api s) \<and> set (pinned s) \<subseteq> set (pinned (db w))"
  have pin: "wp t (pin_deal env i) (\<lambda>_. ?I) (\<lambda>_. ?I) s" if "?I s" for t i s
    unfolding pin_deal_def
  proof (intro wp_bind wp_call_api wp_get_deal)
    fix d hs
    assume "fst ` set hs \<subseteq> {h \<in> set (t_shards (api s)). s_deal h = i}"
    then have rows: "fst ` set hs \<subseteq> set (t_shards (api s))" by blast
    have "s_provider h \<noteq> wallet_address env" if "h \<in> fst ` set hs" for h
    proof -
      have "s_provider h = to_lower (s_provider h)"
        using that rows \<open>?I s\<close> unfolding lower_rows_def by blast
      then show ?thesis using assms(2) by metis
    qed
    then have none: "filter (\<lambda>h. s_provider h = wallet_address env) (map fst hs) = []"
      by (auto simp: filter_empty_conv)
    have "wp t (for_each (filter (\<lambda>h. s_provider h = wallet_address env) (map fst hs)) f) (\<lambda>_. ?I) (\<lambda>_. ?I) s" for f
      unfolding none for_each.simps using that by (intro wp_ret)
    then show "case Ok (d, hs) of Ok x \<Rightarrow> wp t (case x of (deal, shards) \<Rightarrow>
          for_each (filter (\<lambda>h. s_provider h = wallet_address env) (map fst shards))
            (\<lambda>h. if s_active h then ensurePinned env (s_cid h) else ret ())) (\<lambda>_. ?I) (\<lambda>_. ?I) (s\<lparr>api := api s\<rparr>)
        | Err n e \<Rightarrow> ?I (s\<lparr>api := api s\<rparr>)" by simp
  qed (use that in auto)
  have "?I (final (checkAssignments env) w)"
    unfolding checkAssignments_def
  proof (rule wp_final_now, intro wp_logged wp_bind wp_call_api wp_get_provider)
    fix r :: "provider_view reply"
    have "wp (clock w) (andthen (for_each (pv_deals view) (\<lambda>d. pin_deal env (d_id d))) (cleanupDeletedShards env))
        (\<lambda>_. ?I) (\<lambda>_. ?I) (db w)" for view
    proof (intro wp_andthen wp_for_each[where I = ?I])
      show "?I (db w)" using assms(1) by simp
      show "wp (clock w) (pin_deal env (d_id d)) (\<lambda>_. ?I) (\<lambda>_. ?I) s" if "?I s" for d s by (rule pin[OF that])
      show "wp (clock w) (cleanupDeletedShards env) (\<lambda>_. ?I) (\<lambda>_. ?I) s" if "?I s" for s
        using that by (intro wp_cleanup_shrinks) (auto simp: shrinks_def)
    qed
    then show "case r of Ok x \<Rightarrow> wp (clock w) (andthen (for_each (pv_deals x) (\<lambda>d. pin_deal env (d_id d)))
          (cleanupDeletedShards env)) (\<lambda>_. ?I) (\<lambda>_. ?I) ((db w)\<lparr>api := api (db w)\<rparr>)
        | Err n e \<Rightarrow> ?I ((db w)\<lparr>api := api (db w)\<rparr>)"
      using assms(1) by (auto split: reply.splits)
  qed (use assms(1) in auto)
  then show ?thesis by blast
qed

section \<open>Cleaning up\<close>

lemma call_api_Ok:
  assumes "script w = []" and "m \<lparr>db = api (db w), clock = clock w, script = []\<rparr> = (Inr (Ok x), \<lparr>db = d, clock = clock w, script = []\<rparr>)"
  shows "call_api m w = (Inr x, w\<lparr>db := (db w)\<lparr>api := d\<rparr>\<rparr>)"
proof -
  have "zoom api (\<lambda>d s. s\<lparr>api := d\<rparr>) m w = (Inr (Ok x), w\<lparr>db := (db w)\<lparr>api := d\<rparr>\<rparr>)"
    by (rule zoom_run) (use assms in simp)
  then show ?thesis using assms(1) by (simp add: call_api_def reply_of_def)
qed

lemma unpin_run:
  assumes "script w = []"
  shows "\<exists>w'. unpinAndCleanup env cid w = (Inr (), w') \<and> script w' = [] \<and> api (db w') = api (db w) \<and>
     set (pinned (db w')) = set (pinned (db w)) - {cid}"
  using assms
  by (cases "cid \<in> set (pinned (db w))"; cases "vault (db w)")
     (simp_all add: unpinAndCleanup_def pin_rm_def logged_def effect_Nil)

lemma unpin_all_run:
  "script w = [] \<Longrightarrow> \<exists>w'. for_each rows (\<lambda>c. unpinAndCleanup env (cl_cid c)) w = (Inr (), w') \<and>
     set (pinned (db w')) = set (pinned (db w)) - cl_cid ` set rows"
proof (induction rows arbitrary: w)
  case (Cons c rows)
  obtain w1 where w1: "unpinAndCleanup env (cl_cid c) w = (Inr (), w1)" "script w1 = []"
    "set (pinned (db w1)) = set (pinned (db w)) - {cl_cid c}"
    using unpin_run[OF Cons.prems] by blast
  obtain w2 where "for_each rows (\<lambda>c. unpinAndCleanup env (cl_cid c)) w1 = (Inr (), w2)"
    "set (pinned (db w2)) = set (pinned (db w1)) - cl_cid ` set rows"
    using Cons.IH[OF w1(2)] by blast
  then show ?case using w1 by auto
qed simp

text \<open>
  A clean-up round unpins the content of every inactive shard the provider has in an ended deal. It
  looks at the content identifier only: a shard of a running deal that has the same content is
  unpinned with it.
\<close>

theorem cleanup_unpins_by_content:
  assumes "script w = []" and "h \<in> set (t_shards (api (db w)))" and "\<not> s_active h"
    and "to_lower (s_provider h) = to_lower (wallet_address env)"
    and "d \<in> set (t_deals (api (db w)))" and "d_id d = s_deal h" and "d_status d \<in> {Cancelled, Completed, Failed}"
  shows "s_cid h \<notin> set (pinned (final (cleanupDeletedShards env) w))"
proof -
  let ?u = "\<lparr>db = api (db w), clock = clock w, script = []\<rparr>"
  obtain rows where run: "get_cleanup (wallet_address env) ?u = (Inr (Ok rows), ?u)"
    and rows: "\<forall>c. c \<in> cl_cid ` set rows \<longleftrightarrow> (\<exists>h \<in> set (t_shards (db ?u)). s_cid h = c \<and> \<not> s_active h \<and>
       to_lower (s_provider h) = to_lower (wallet_address env) \<and>
       (\<exists>d \<in> set (t_deals (db ?u)). d_id d = s_deal h \<and> d_status d \<in> {Cancelled, Completed, Failed}))"
    using cleanup_run[of ?u "wallet_address env"] by auto
  have "s_cid h \<in> cl_cid ` set rows" unfolding rows[rule_format] using assms(2-7) by auto
  moreover have "call_api (get_cleanup (wallet_address env)) w = (Inr rows, w)"
    using call_api_Ok[of w "get_cleanup (wallet_address env)", OF assms(1) run] by simp
  moreover obtain w' where "for_each rows (\<lambda>c. unpinAndCleanup env (cl_cid c)) w = (Inr (), w')"
    "set (pinned (db w')) = set (pinned (db w)) - cl_cid ` set rows"
    using unpin_all_run[OF assms(1)] by blast
  ultimately show ?thesis by (simp add: cleanupDeletedShards_def logged_def final_def)
qed

section \<open>Cancellation messages\<close>

lemma cancel_messages:
  assumes "script w = []"
  shows "\<forall>m \<in> set (drop (length (emits (db w))) (emits (final (cancel_body i) w))).
     fst (snd m) = ''deal:cancelled'' \<and> field ''providerAddresses'' (snd (snd m)) = None"
  using assms by (auto simp: final_def cancel_body_def Let_def emit_all_run field_def)

text \<open>
  The message the API sends to the holders of a cancelled deal does not carry the field
  \<^verbatim>\<open>providerAddresses\<close> the daemon reads: for every message of an authorised cancellation the handler
  throws before it does anything, so nothing is unpinned at once.
\<close>

theorem cancel_message_not_understood:
  assumes "script w = []" and "m \<in> set (drop (length (emits (db w))) (emits (final (cancel_body i) w)))"
  shows "fst (snd m) = ''deal:cancelled'' \<and>
    on_deal_cancelled env (snd (snd m)) n = (Inl ''Cannot read properties of undefined (reading 'some')'', n)"
  using cancel_messages[OF assms(1), of i] assms(2) by (auto simp: on_deal_cancelled_def)

section \<open>Pinning what is assigned\<close>

lemma ensure_run:
  assumes "script w = []" and "blocks (api (db w)) cid = Some b"
  shows "\<exists>w'. ensurePinned env cid w = (Inr (), w') \<and> script w' = [] \<and> api (db w') = api (db w) \<and>
     set (pinned (db w')) = insert cid (set (pinned (db w)))"
proof -
  let ?w = "w\<lparr>db := (db w)\<lparr>pinned := List.insert cid (pinned (db w))\<rparr>\<rparr>"
  have build: "\<exists>w'. buildMerkleTree env cid u = (Inr (), w') \<and> script w' = [] \<and> api (db w') = api (db u) \<and>
      pinned (db w') = pinned (db u)" if "script u = []" "api (db u) = api (db w)" for u
    using that assms(2) by (simp add: buildMerkleTree_def logged_def repo_cat_def effect_Nil Let_def)
  have add: "pin_add cid w = (Inr (), ?w)" using assms by (simp add: pin_add_def effect_Nil)
  obtain w1 where w1: "buildMerkleTree env cid ?w = (Inr (), w1)" "script w1 = []" "api (db w1) = api (db w)"
    "pinned (db w1) = List.insert cid (pinned (db w))"
    using build[of ?w] assms(1) by auto
  obtain w2 where w2: "buildMerkleTree env cid w = (Inr (), w2)" "script w2 = []" "api (db w2) = api (db w)"
    "pinned (db w2) = pinned (db w)"
    using build[of w] assms(1) by auto
  show ?thesis
  proof (cases "cid \<in> set (pinned (db w))")
    case True
    then have ls: "pin_ls env cid w = (Inr True, w)" using assms(1) by (simp add: pin_ls_def effect_Nil)
    show ?thesis
      using True ls w2 assms(1) by (cases "merkleTrees (db w) cid") (auto simp: ensurePinned_def)
  next
    case False
    show ?thesis
    proof (cases "ls_throws env")
      case True
      then have "pin_ls env cid w = (Inl ''refused'', w)"
        using False assms(1) by (simp add: pin_ls_def effect_Nil)
      then show ?thesis using w1 add by (simp add: ensurePinned_def logged_def)
    next
      case no: False
      then have "pin_ls env cid w = (Inr False, w)" using False assms(1) by (simp add: pin_ls_def effect_Nil)
      then show ?thesis
        using w1 add assms(1)
        by (cases "merkleTrees (db w) cid") (auto simp: ensurePinned_def try_catch_def bind_def andthen_def)
    qed
  qed
qed

lemma ensure_all_run:
  "script w = [] \<Longrightarrow> \<forall>h \<in> set hs. s_active h \<longrightarrow> blocks (api (db w)) (s_cid h) \<noteq> None \<Longrightarrow>
   \<exists>w'. for_each hs (\<lambda>h. if s_active h then ensurePinned env (s_cid h) else ret ()) w = (Inr (), w') \<and>
     set (pinned (db w)) \<union> s_cid ` {h \<in> set hs. s_active h} \<subseteq> set (pinned (db w'))"
proof (induction hs arbitrary: w)
  case (Cons h hs)
  let ?f = "\<lambda>h. if s_active h then ensurePinned env (s_cid h) else ret ()"
  have "\<exists>w1. ?f h w = (Inr (), w1) \<and> script w1 = [] \<and> api (db w1) = api (db w) \<and>
      set (pinned (db w)) \<union> s_cid ` {h' \<in> {h}. s_active h'} \<subseteq> set (pinned (db w1))"
  proof (cases "s_active h")
    case True
    then obtain b where "blocks (api (db w)) (s_cid h) = Some b" using Cons.prems(2) by auto
    from ensure_run[OF Cons.prems(1) this, of env] show ?thesis using True by auto
  qed (use Cons.prems in auto)
  then obtain w1 where w1: "?f h w = (Inr (), w1)" "script w1 = []" "api (db w1) = api (db w)"
      "set (pinned (db w)) \<union> s_cid ` {h' \<in> {h}. s_active h'} \<subseteq> set (pinned (db w1))" by blast
  obtain w2 where "for_each hs ?f w1 = (Inr (), w2)"
      "set (pinned (db w1)) \<union> s_cid ` {h \<in> set hs. s_active h} \<subseteq> set (pinned (db w2))"
    using Cons.IH[OF w1(2)] Cons.prems(2) w1(3) by auto
  moreover have "for_each (h # hs) ?f w = for_each hs ?f w1" unfolding for_each.simps using w1(1) by (rule andthen_Inr)
  ultimately show ?case using w1(4) by (intro exI[of _ w2]) auto
qed simp

text \<open>
  The other side: when the deal's rows name the provider exactly as its wallet does, the provider
  is listed, the blocks of its active shards can be fetched and no request fails, handling the deal
  pins every active shard assigned to the provider.
\<close>

theorem assigned_shards_pinned:
  assumes "script w = []" and "find_deal i (api (db w)) = Some d"
    and "h \<in> set (t_shards (api (db w)))" and "s_deal h = i" and "s_active h"
    and "s_provider h = wallet_address env" and "wallet_address env \<in> p_address ` set (t_providers (api (db w)))"
    and "\<forall>k \<in> set (t_shards (api (db w))). s_active k \<longrightarrow> blocks (api (db w)) (s_cid k) \<noteq> None"
  shows "s_cid h \<in> set (pinned (final (pin_deal env i) w))"
proof -
  let ?u = "\<lparr>db = api (db w), clock = clock w, script = []\<rparr>"
  let ?hs = "order_by (\<lambda>hp. s_index (fst hp)) (concat (map
      (\<lambda>h. map (\<lambda>p. (h, p)) (filter (\<lambda>p. p_address p = s_provider h) (t_providers (api (db w)))))
      (filter (\<lambda>h. s_deal h = i) (t_shards (api (db w))))))"
  let ?mine = "filter (\<lambda>h. s_provider h = wallet_address env) (map fst ?hs)"
  have "get_deal i ?u = (Inr (Ok (d, ?hs)), ?u)" using assms(2) by (simp add: get_deal_def or_500_def)
  then have call: "call_api (get_deal i) w = (Inr (d, ?hs), w)"
    using call_api_Ok[of w "get_deal i" "(d, ?hs)" "api (db w)"] assms(1) by simp
  have "\<forall>k \<in> set ?mine. s_active k \<longrightarrow> blocks (api (db w)) (s_cid k) \<noteq> None" using assms(8) by auto
  then obtain w' where w': "for_each ?mine (\<lambda>h. if s_active h then ensurePinned env (s_cid h) else ret ()) w = (Inr (), w')"
      "s_cid ` {h \<in> set ?mine. s_active h} \<subseteq> set (pinned (db w'))"
    using ensure_all_run[OF assms(1), of ?mine env] by auto
  obtain p where "p \<in> set (t_providers (api (db w)))" "p_address p = wallet_address env" using assms(7) by auto
  then have "h \<in> set ?mine" using assms(3-6) by (auto simp: image_iff)
  then have "s_cid h \<in> set (pinned (db w'))" using w'(2) assms(5) by blast
  moreover have "pin_deal env i w = (Inr (), w')"
    unfolding pin_deal_def using call w'(1) by (simp add: bind_def)
  ultimately show ?thesis by (simp add: final_def)
qed

section \<open>Instances\<close>

text \<open>A wallet, a hash that spells out the data, and trees whose proofs list all leaves.\<close>

definition sample_env :: "string \<Rightarrow> (nat \<Rightarrow> js_int list) \<Rightarrow> daemon_env" where
  "sample_env a idx = \<lparr>wallet_address = a, signMessage = (\<lambda>_. a), verifyMessage = plain_recovery,
     keccak256 = plain_cid, getHexProof = (\<lambda>leaves l. leaves), ls_throws = True, getChallengeIndices = idx\<rparr>"

definition sample_node :: "database \<Rightarrow> node" where
  "sample_node d = \<lparr>api = d, pinned = [], merkleTrees = (\<lambda>_. None), shardData = (\<lambda>_. None), vault = None,
     vaultStatus = None, lastPolledBlock = 1, chain_head = 3,
     chain_log = [\<lparr>ch_block = 2, ch_id = 9, ch_deal = 7, ch_provider = ''AB''\<rparr>], sent_proofs = []\<rparr>"

definition listed_provider :: "string \<Rightarrow> provider_row" where
  "listed_provider a = \<lparr>p_address = a, p_peer_id = [], p_endpoint = None, p_region = None, p_reputation = 50,
     p_active = True, p_last_heartbeat = Some 0, p_last_proof_at = None, p_registered_at = 0, p_pledged_gb = 0, p_used_gb = 0\<rparr>"

definition assigned_db :: "string \<Rightarrow> database" where
  "assigned_db a = empty_db\<lparr>t_deals := [api_deal ''x'' Active], t_providers := [listed_provider a],
     t_shards := [(api_shard a 0 True)\<lparr>s_cid := ''c''\<rparr>], blocks := [''c'' \<mapsto> [1, 2, 3]]\<rparr>"

abbreviation node_world :: "database \<Rightarrow> node world" where
  "node_world d \<equiv> \<lparr>db = sample_node d, clock = 0, script = []\<rparr>"

lemma sample_trees: "trees_ok env (sample_node d)"
  by (simp add: trees_ok_def sample_node_def)

theorem daemon_trees_ok_witness:
  "trees_ok (sample_env ''ab'' (\<lambda>_. []))
     (final (checkAssignments (sample_env ''ab'' (\<lambda>_. []))) (node_world (assigned_db ''ab'')))"
proof -
  let ?w = "node_world (assigned_db ''ab'')"
  have "daemon_run (sample_env ''ab'' (\<lambda>_. [])) (db ?w) (final (checkAssignments (sample_env ''ab'' (\<lambda>_. []))) ?w)"
    by (rule daemon_run.checked[OF daemon_run.idle])
  from daemon_trees_ok[OF this] sample_trees show ?thesis by simp
qed

lemma sample_poll_sends:
  "length (sent_proofs (final (pollPoStChallenges (sample_env ''ab'' (\<lambda>_. [Number 3]))) (node_world (assigned_db ''ab'')))) = 1"
proof -
  let ?env = "sample_env ''ab'' (\<lambda>_. [Number 3])"
  have low: "to_lower ''AB'' = ''ab''" "nat_str 7 = ''7''" by code_simp+
  show ?thesis
    by (simp add: pollPoStChallenges_def handlePoStChallenge_def answer_challenge_def load_shard_def ensurePinned_def
        pin_ls_def pin_add_def buildMerkleTree_def repo_cat_def loaded_def logged_def effect_Nil final_def my_challenge_def
        low to_lower_ab sample_env_def sample_node_def js_mod_def call_api_def zoom_def get_deal_def or_500_def reply_of_def
        find_deal_def api_deal_def bind_def andthen_def try_catch_def
        assigned_db_def api_shard_def listed_provider_def Let_def)
qed


theorem bigint_indices_never_answered_witness:
  "sent_proofs (final (pollPoStChallenges (sample_env ''ab'' (\<lambda>_. [BigInt 3]))) (node_world (assigned_db ''ab''))) = []"
  using bigint_indices_never_answered[of "sample_env ''ab'' (\<lambda>_. [BigInt 3])" "node_world (assigned_db ''ab'')"]
  by (simp add: sample_env_def sample_node_def)

theorem checksummed_daemon_pins_nothing_witness:
  "pinned (final (checkAssignments (sample_env ''aB'' (\<lambda>_. []))) (node_world (assigned_db ''ab''))) = []"
  using checksummed_daemon_pins_nothing[of "node_world (assigned_db ''ab'')" "sample_env ''aB'' (\<lambda>_. [])"]
  by (simp add: sample_env_def sample_node_def lower_rows_def assigned_db_def api_shard_def to_lower_ab)

theorem assigned_shards_pinned_witness:
  "''c'' \<in> set (pinned (final (pin_deal (sample_env ''ab'' (\<lambda>_. [])) ''7'') (node_world (assigned_db ''ab''))))"
  using assigned_shards_pinned[of "node_world (assigned_db ''ab'')" "''7''" "api_deal ''x'' Active"
      "(api_shard ''ab'' 0 True)\<lparr>s_cid := ''c''\<rparr>" "sample_env ''ab'' (\<lambda>_. [])"]
  by (simp add: sample_env_def sample_node_def assigned_db_def api_shard_def api_deal_def listed_provider_def find_deal_def)

text \<open>Two deals whose shards have the same content; one of them was cancelled.\<close>

definition shared_db :: database where
  "shared_db = empty_db\<lparr>t_deals := [api_deal ''x'' Cancelled, (api_deal ''x'' Active)\<lparr>d_id := ''8''\<rparr>],
     t_shards := [(api_shard ''ab'' 0 False)\<lparr>s_cid := ''c''\<rparr>, (api_shard ''ab'' 0 True)\<lparr>s_cid := ''c'', s_deal := ''8''\<rparr>]\<rparr>"

theorem cleanup_unpins_by_content_witness:
  "''c'' \<notin> set (pinned (final (cleanupDeletedShards (sample_env ''ab'' (\<lambda>_. [])))
      \<lparr>db = (sample_node shared_db)\<lparr>pinned := [''c'']\<rparr>, clock = 0, script = []\<rparr>)) \<and>
   map s_cid (active_shards ''8'' shared_db) = [''c'']"
  using cleanup_unpins_by_content[of "\<lparr>db = (sample_node shared_db)\<lparr>pinned := [''c'']\<rparr>, clock = 0, script = []\<rparr>"
      "(api_shard ''ab'' 0 False)\<lparr>s_cid := ''c''\<rparr>" "sample_env ''ab'' (\<lambda>_. [])" "api_deal ''x'' Cancelled"]
  by (simp add: sample_env_def sample_node_def shared_db_def api_shard_def api_deal_def active_shards_def)

theorem cancel_message_not_understood_witness:
  "\<exists>m. m \<in> set (emits (final (cancel_body ''7'') (api_world ''ab''))) \<and> fst (snd m) = ''deal:cancelled'' \<and>
     (\<exists>e. on_deal_cancelled (sample_env ''p1'' (\<lambda>_. [])) (snd (snd m)) (node_world empty_db) = (Inl e, node_world empty_db))"
proof -
  let ?w = "api_world ''ab''"
  let ?m = "(''provider-rpc:'' @ to_lower ''p1'', ''deal:cancelled'',
      JObj [(''dealId'', JStr ''7''), (''shardCIDs'', JArr (map JStr (map s_cid (active_shards ''7'' (db ?w)))))])"
  have m: "?m \<in> set (drop (length (emits (db ?w))) (emits (final (cancel_body ''7'') ?w)))"
    by (simp add: final_def cancel_body_def Let_def emit_all_run api_world_def empty_db_def active_shards_def
        api_shard_def image_iff)
  have "script ?w = []" by (simp add: api_world_def)
  from cancel_message_not_understood[OF this m, of "sample_env ''p1'' (\<lambda>_. [])" "node_world empty_db"] m show ?thesis
    by (intro exI[of _ ?m] conjI) (auto dest: in_set_dropD)
qed

end
