(* ===== verification/File_Encryption.thy ===== *)
theory File_Encryption
  imports Kyn_Database
begin

unbundle bit_operations_syntax

text \<open>
  Client-side encryption: the browser module (\<^verbatim>\<open>dashboard/kyneto-encrypt-browser.js\<close>) and the Node
  module (\<^verbatim>\<open>services/encryption/kyneto-encrypt.ts\<close>). AES-256-GCM, SHA-256 and the elliptic curve are
  parameters with their documented laws; random keys and nonces are arguments. Hexadecimal codecs,
  key wrapping and the byte layouts are modelled as the code has them.
\<close>

type_synonym bytes = "byte list"

section \<open>Codecs\<close>

text \<open>What a pair of functions promises that writes a value and reads it back.\<close>

locale codec =
  fixes enc :: "'a \<Rightarrow> 'b" and dec :: "'b \<Rightarrow> 'a option"
  assumes decode_encode: "dec (enc x) = Some x"
begin

lemma enc_inj: "enc x = enc y \<Longrightarrow> x = y"
  by (metis decode_encode option.inject)

lemma enc_eq_iff: "enc x = enc y \<longleftrightarrow> x = y"
  using enc_inj by blast

lemma dec_list: "those (map dec (map enc xs)) = Some xs"
  by (induction xs) (simp_all add: decode_encode)

end

section \<open>Hexadecimal text\<close>

definition hex_digit :: "nat \<Rightarrow> char" where
  "hex_digit n = (if n < 10 then char_of (48 + n) else char_of (87 + n))"

definition hex_value :: "char \<Rightarrow> nat option" where
  "hex_value c = (let n = (of_char c :: nat) in
     if 48 \<le> n \<and> n \<le> 57 then Some (n - 48)
     else if 97 \<le> n \<and> n \<le> 102 then Some (n - 87)
     else if 65 \<le> n \<and> n \<le> 70 then Some (n - 55)
     else None)"

text \<open>\<^verbatim>\<open>b.toString(16).padStart(2, '0')\<close>\<close>

definition byte_hex :: "byte \<Rightarrow> string" where
  "byte_hex b = [hex_digit (unat b div 16), hex_digit (unat b mod 16)]"

definition arrayToHex :: "bytes \<Rightarrow> string" where
  "arrayToHex arr = concat (map byte_hex arr)"

text \<open>
  \<^verbatim>\<open>parseInt(s, 16)\<close> of at most two characters, stored into a byte: it skips a blank, takes a sign,
  and stops at the first character that is no digit; \<^verbatim>\<open>NaN\<close> becomes 0.
\<close>

definition digit_or_0 :: "char \<Rightarrow> nat" where
  "digit_or_0 c = (case hex_value c of None \<Rightarrow> 0 | Some v \<Rightarrow> v)"

definition parse_hex2 :: "char \<Rightarrow> char \<Rightarrow> byte" where
  "parse_hex2 a b =
     (if a = CHR '' '' \<or> a = CHR ''+'' then of_nat (digit_or_0 b)
      else if a = CHR ''-'' then - of_nat (digit_or_0 b)
      else case (hex_value a, hex_value b) of
             (None, _) \<Rightarrow> 0
           | (Some x, None) \<Rightarrow> of_nat x
           | (Some x, Some y) \<Rightarrow> of_nat (16 * x + y))"

text \<open>The browser's decoder; the last digit of an odd-length text falls outside the array.\<close>

fun hexToArray :: "string \<Rightarrow> bytes" where
  "hexToArray (a # b # r) = parse_hex2 a b # hexToArray r"
| "hexToArray _ = []"

text \<open>Node's \<^verbatim>\<open>Buffer.from(s, 'hex')\<close> stops at the first pair that is not hexadecimal.\<close>

fun bufferFromHex :: "string \<Rightarrow> bytes" where
  "bufferFromHex (a # b # r) =
     (case (hex_value a, hex_value b) of
        (Some x, Some y) \<Rightarrow> of_nat (16 * x + y) # bufferFromHex r
      | _ \<Rightarrow> [])"
| "bufferFromHex _ = []"

section \<open>Key wrapping\<close>

definition wrapKeyWithWallet :: "bytes \<Rightarrow> bytes \<Rightarrow> bytes" where
  "wrapKeyWithWallet wrappingKey rawAesKey =
     map (\<lambda>i. rawAesKey ! i XOR wrappingKey ! (i mod length wrappingKey)) [0..<length rawAesKey]"

definition unwrapKeyWithWallet :: "bytes \<Rightarrow> bytes \<Rightarrow> bytes" where
  "unwrapKeyWithWallet wrappingKey wrappedKey = wrapKeyWithWallet wrappingKey wrappedKey"

text \<open>
  The platform's cryptography. Web Crypto appends the 16-byte tag to the ciphertext; Node hands it
  out separately, so its ciphertext and tag are the two parts.
\<close>

record crypto_lib =
  gcm_encrypt :: "bytes \<Rightarrow> bytes \<Rightarrow> bytes \<Rightarrow> bytes"
  gcm_decrypt :: "bytes \<Rightarrow> bytes \<Rightarrow> bytes \<Rightarrow> bytes option"
  sha256 :: "bytes \<Rightarrow> bytes"
  ec_public :: "bytes \<Rightarrow> bytes"
  ec_secret :: "bytes \<Rightarrow> bytes \<Rightarrow> bytes"

definition gcm_ok :: "crypto_lib \<Rightarrow> bool" where
  "gcm_ok lib \<longleftrightarrow> (\<forall>k iv p. gcm_decrypt lib k iv (gcm_encrypt lib k iv p) = Some p \<and>
     length (gcm_encrypt lib k iv p) = length p + 16)"

definition ecdh_ok :: "crypto_lib \<Rightarrow> bool" where
  "ecdh_ok lib \<longleftrightarrow> (\<forall>a b. ec_secret lib a (ec_public lib b) = ec_secret lib b (ec_public lib a)) \<and>
     (\<forall>a. length (ec_public lib a) = 65)"

section \<open>The browser module\<close>

record encrypted_file =
  ef_data :: bytes
  ef_key :: string
  ef_iv :: string
  ef_tag :: string

definition text_bytes :: "string \<Rightarrow> bytes" where
  "text_bytes s = map (\<lambda>c. of_nat (of_char c)) s"

definition deriveWrappingKey :: "crypto_lib \<Rightarrow> string \<Rightarrow> bytes" where
  "deriveWrappingKey lib signature = sha256 lib (text_bytes signature)"

definition encryptFile :: "crypto_lib \<Rightarrow> string \<Rightarrow> bytes \<Rightarrow> bytes \<Rightarrow> bytes \<Rightarrow> encrypted_file" where
  "encryptFile lib signature aesKey iv fileBuffer =
     (let encryptedBuffer = gcm_encrypt lib aesKey iv fileBuffer;
          n = length encryptedBuffer - 16
      in \<lparr>ef_data = take n encryptedBuffer,
          ef_key = arrayToHex (wrapKeyWithWallet (deriveWrappingKey lib signature) aesKey),
          ef_iv = arrayToHex iv, ef_tag = arrayToHex (drop n encryptedBuffer)\<rparr>)"

definition decryptFile :: "crypto_lib \<Rightarrow> string \<Rightarrow> encrypted_file \<Rightarrow> bytes option" where
  "decryptFile lib signature f =
     (let rawKey = unwrapKeyWithWallet (deriveWrappingKey lib signature) (hexToArray (ef_key f))
      in gcm_decrypt lib rawKey (hexToArray (ef_iv f)) (ef_data f @ hexToArray (ef_tag f)))"

section \<open>The Node module\<close>

definition strip_0x :: "string \<Rightarrow> string" where
  "strip_0x key = (if starts_with key ''0x'' then drop 2 key else key)"

definition normalizePrivateKey :: "string \<Rightarrow> string" where
  "normalizePrivateKey key = strip_0x key"

definition normalizePublicKey :: "string \<Rightarrow> bytes" where
  "normalizePublicKey key =
     (let hex = strip_0x key
      in bufferFromHex (if length hex = 128 then ''04'' @ hex else hex))"

definition eciesEncrypt :: "crypto_lib \<Rightarrow> bytes \<Rightarrow> bytes \<Rightarrow> string \<Rightarrow> bytes \<Rightarrow> bytes" where
  "eciesEncrypt lib ephemeral iv publicKeyHex data =
     (let derivedKey = sha256 lib (ec_secret lib ephemeral (normalizePublicKey publicKeyHex));
          c = gcm_encrypt lib derivedKey iv data;
          tag = drop (length c - 16) c; encrypted = take (length c - 16) c
      in ec_public lib ephemeral @ iv @ tag @ encrypted)"

definition eciesDecrypt :: "crypto_lib \<Rightarrow> string \<Rightarrow> bytes \<Rightarrow> bytes option" where
  "eciesDecrypt lib privateKeyHex payload =
     (let ephemeralPub = substring 0 65 payload; iv = substring 65 77 payload;
          tag = substring 77 93 payload; ciphertext = drop 93 payload;
          derivedKey = sha256 lib (ec_secret lib (bufferFromHex privateKeyHex) ephemeralPub)
      in gcm_decrypt lib derivedKey iv (ciphertext @ tag))"

definition node_encryptFile :: "crypto_lib \<Rightarrow> bytes \<Rightarrow> bytes \<Rightarrow> bytes \<Rightarrow> bytes \<Rightarrow> string \<Rightarrow> bytes \<Rightarrow> encrypted_file" where
  "node_encryptFile lib aesKey iv ephemeral iv2 ethPublicKeyHex fileBuffer =
     (let c = gcm_encrypt lib aesKey iv fileBuffer; n = length c - 16
      in \<lparr>ef_data = take n c, ef_key = arrayToHex (eciesEncrypt lib ephemeral iv2 ethPublicKeyHex aesKey),
          ef_iv = arrayToHex iv, ef_tag = arrayToHex (drop n c)\<rparr>)"

definition node_decryptFile :: "crypto_lib \<Rightarrow> string \<Rightarrow> encrypted_file \<Rightarrow> bytes option" where
  "node_decryptFile lib ethPrivateKeyHex f =
     (case eciesDecrypt lib (normalizePrivateKey ethPrivateKeyHex) (bufferFromHex (ef_key f)) of
        None \<Rightarrow> None
      | Some aesKey \<Rightarrow> gcm_decrypt lib aesKey (bufferFromHex (ef_iv f)) (ef_data f @ bufferFromHex (ef_tag f)))"

section \<open>Round trips\<close>

lemma hex_value_digit: "n < 16 \<Longrightarrow> hex_value (hex_digit n) = Some n"
  by (auto simp: hex_value_def hex_digit_def Let_def of_char_of)

lemma hex_digit_plain: "n < 16 \<Longrightarrow> hex_digit n \<noteq> CHR '' '' \<and> hex_digit n \<noteq> CHR ''+'' \<and> hex_digit n \<noteq> CHR ''-''"
  using hex_value_digit[of n] by (auto simp: hex_value_def Let_def)

lemma byte_halves: "of_nat (16 * (unat b div 16) + unat b mod 16) = (b :: byte)"
  by (simp add: mult_div_mod_eq)

lemma unat_byte: "unat (b :: byte) div 16 < 16" "unat b mod 16 < 16"
proof -
  have "unat b < 256" using unsigned_less[of b] by simp
  then show "unat b div 16 < 16" by linarith
qed simp

lemma hexToArray_arrayToHex: "hexToArray (arrayToHex bs) = bs"
proof (induction bs)
  case (Cons b bs)
  then show ?case
    using hex_digit_plain[OF unat_byte(1), of b] hex_value_digit[OF unat_byte(1), of b] hex_value_digit[OF unat_byte(2), of b]
    by (simp add: arrayToHex_def byte_hex_def parse_hex2_def byte_halves del: of_nat_add of_nat_mult)
qed (simp add: arrayToHex_def)

lemma bufferFromHex_arrayToHex: "bufferFromHex (arrayToHex bs) = bs"
proof (induction bs)
  case (Cons b bs)
  then show ?case
    using hex_value_digit[OF unat_byte(1), of b] hex_value_digit[OF unat_byte(2), of b]
    by (simp add: arrayToHex_def byte_hex_def byte_halves del: of_nat_add of_nat_mult)
qed (simp add: arrayToHex_def)

interpretation browser_hex: codec arrayToHex "\<lambda>s. Some (hexToArray s)"
  by unfold_locales (simp add: hexToArray_arrayToHex)

interpretation node_hex: codec arrayToHex "\<lambda>s. Some (bufferFromHex s)"
  by unfold_locales (simp add: bufferFromHex_arrayToHex)

lemma length_wrap [simp]: "length (wrapKeyWithWallet w k) = length k"
  by (simp add: wrapKeyWithWallet_def)

lemma wrap_nth: "i < length k \<Longrightarrow> wrapKeyWithWallet w k ! i = k ! i XOR w ! (i mod length w)"
  by (simp add: wrapKeyWithWallet_def)

lemma unwrap_wrap: "unwrapKeyWithWallet w (wrapKeyWithWallet w k) = k"
  unfolding unwrapKeyWithWallet_def by (rule nth_equalityI) (simp_all add: wrap_nth xor.assoc)

lemma decrypt_encrypt:
  "gcm_ok lib \<Longrightarrow> decryptFile lib signature (encryptFile lib signature aesKey iv fileBuffer) = Some fileBuffer"
  by (simp add: decryptFile_def encryptFile_def Let_def gcm_ok_def hexToArray_arrayToHex unwrap_wrap)

interpretation wallet_wrap: codec "wrapKeyWithWallet w" "\<lambda>k. Some (unwrapKeyWithWallet w k)" for w
  by unfold_locales (simp add: unwrap_wrap)

text \<open>
  C34. Browser round trip: with any platform cryptography that keeps the GCM law, a file encrypted under
  a wallet signature is decrypted by the same signature to exactly the file, through the hexadecimal
  texts of key, nonce and tag and through the split and joined authentication tag, for every file,
  key and nonce.
\<close>

theorem browser_roundtrip:
  assumes "gcm_ok lib"
  shows "decryptFile lib signature (encryptFile lib signature aesKey iv fileBuffer) = Some fileBuffer"
  using assms by (rule decrypt_encrypt)

lemma ecies_layout:
  assumes "length e = 65" and "length iv = 12" and "length tag = 16"
  shows "substring 0 65 (e @ iv @ tag @ c) = e" "substring 65 77 (e @ iv @ tag @ c) = iv"
    "substring 77 93 (e @ iv @ tag @ c) = tag" "drop 93 (e @ iv @ tag @ c) = c"
  using assms by (simp_all add: substring_def)

lemma ecies_roundtrip:
  assumes "gcm_ok lib" and "ecdh_ok lib" and "length iv = 12"
    and "normalizePublicKey pub = ec_public lib (bufferFromHex priv)"
  shows "eciesDecrypt lib priv (eciesEncrypt lib ephemeral iv pub data) = Some data"
proof -
  let ?k = "sha256 lib (ec_secret lib ephemeral (ec_public lib (bufferFromHex priv)))"
  let ?c = "gcm_encrypt lib ?k iv data"
  have len: "length ?c = length data + 16" and dec: "gcm_decrypt lib ?k iv ?c = Some data"
    using assms(1) by (simp_all add: gcm_ok_def)
  have e: "length (ec_public lib ephemeral) = 65"
    and sym: "ec_secret lib (bufferFromHex priv) (ec_public lib ephemeral) = ec_secret lib ephemeral (ec_public lib (bufferFromHex priv))"
    using assms(2) by (simp_all add: ecdh_ok_def)
  have tag: "length (drop (length ?c - 16) ?c) = 16" using len by simp
  show ?thesis
    unfolding eciesDecrypt_def eciesEncrypt_def Let_def assms(4) ecies_layout[OF e assms(3) tag] sym
    using dec by simp
qed

text \<open>
  Node round trip: when the public key text denotes the point of the private key and the library
  keeps the GCM and ECDH laws, a file encrypted for the public key is decrypted by the private key,
  through the packed key (65 bytes of ephemeral point, 12 of nonce, 16 of tag, ciphertext).
\<close>

theorem node_roundtrip:
  assumes "gcm_ok lib" and "ecdh_ok lib" and "length iv2 = 12"
    and "normalizePublicKey pub = ec_public lib (bufferFromHex (normalizePrivateKey priv))"
  shows "node_decryptFile lib priv (node_encryptFile lib aesKey iv ephemeral iv2 pub fileBuffer) = Some fileBuffer"
  using ecies_roundtrip[OF assms, of ephemeral aesKey] assms(1)
  by (simp add: node_decryptFile_def node_encryptFile_def Let_def bufferFromHex_arrayToHex gcm_ok_def)

text \<open>The second key from both wrapped keys and the first one.\<close>

definition recover_key :: "bytes \<Rightarrow> bytes \<Rightarrow> bytes \<Rightarrow> bytes" where
  "recover_key wrapped1 key1 wrapped2 = map (\<lambda>i. wrapped2 ! i XOR wrapped1 ! i XOR key1 ! i) [0..<length wrapped2]"

lemma recover_key_correct:
  assumes "length key1 = length key2"
  shows "recover_key (wrapKeyWithWallet w key1) key1 (wrapKeyWithWallet w key2) = key2"
proof (rule nth_equalityI)
  fix i assume "i < length (recover_key (wrapKeyWithWallet w key1) key1 (wrapKeyWithWallet w key2))"
  then have i: "i < length key2" by (simp add: recover_key_def)
  have x: "(a XOR p) XOR (b XOR p) XOR b = a" for a b p :: byte
    by (metis xor.assoc xor.commute xor.right_neutral xor_self_eq)
  show "recover_key (wrapKeyWithWallet w key1) key1 (wrapKeyWithWallet w key2) ! i = key2 ! i"
    using i assms by (simp add: recover_key_def wrap_nth x)
qed (simp add: recover_key_def)

text \<open>
  Every key a wallet wraps is wrapped with the same pad, so one known file key opens all others: from
  two wrapped keys of equal length and the first key alone, without the wallet, the second key is
  computed.
\<close>

theorem one_key_opens_all:
  assumes "length key1 = length key2"
  shows "recover_key (hexToArray (ef_key (encryptFile lib signature key1 iv1 file1))) key1
     (hexToArray (ef_key (encryptFile lib signature key2 iv2 file2))) = key2"
  using recover_key_correct[OF assms] by (simp add: encryptFile_def Let_def hexToArray_arrayToHex)

text \<open>
  Both spellings of an uncompressed public key denote the same bytes: 128 digits without and 130 digits
  with the leading 04, each with or without 0x.
\<close>

lemma public_key_spellings:
  assumes "length hex = 128" and "\<not> starts_with hex ''0x''"
  shows "normalizePublicKey hex = bufferFromHex (''04'' @ hex)"
    and "normalizePublicKey (''0x'' @ hex) = bufferFromHex (''04'' @ hex)"
    and "normalizePublicKey (''04'' @ hex) = bufferFromHex (''04'' @ hex)"
    and "normalizePublicKey (''0x04'' @ hex) = bufferFromHex (''04'' @ hex)"
  using assms by (simp_all add: normalizePublicKey_def strip_0x_def Let_def)

section \<open>A library that satisfies the laws\<close>

definition xor_all :: "bytes \<Rightarrow> byte" where
  "xor_all bs = foldr (XOR) bs 0"

definition toy_crypto :: crypto_lib where
  "toy_crypto = \<lparr>gcm_encrypt = (\<lambda>k iv p. p @ replicate 16 0), gcm_decrypt = (\<lambda>k iv c. Some (take (length c - 16) c)),
     sha256 = (\<lambda>b. b), ec_public = (\<lambda>a. xor_all a # replicate 64 0), ec_secret = (\<lambda>a P. [xor_all a XOR hd P])\<rparr>"

lemma toy_gcm: "gcm_ok toy_crypto"
  by (simp add: gcm_ok_def toy_crypto_def)

lemma toy_ecdh: "ecdh_ok toy_crypto"
  by (simp add: ecdh_ok_def toy_crypto_def xor.commute)

theorem browser_roundtrip_witness:
  "decryptFile toy_crypto ''sig'' (encryptFile toy_crypto ''sig'' [1, 2, 3] [7] [10, 20]) = Some [10, 20]"
  by (rule browser_roundtrip[OF toy_gcm])

theorem node_roundtrip_witness:
  "node_decryptFile toy_crypto (''0x'' @ arrayToHex [3])
     (node_encryptFile toy_crypto [1, 2] [7] [5] (replicate 12 9) (arrayToHex (ec_public toy_crypto [3])) [10, 20]) = Some [10, 20]"
proof (rule node_roundtrip[OF toy_gcm toy_ecdh])
  have digits: "hex_digit 0 \<noteq> CHR ''x''" "hex_digit 3 \<noteq> CHR ''x''" by code_simp+
  have hd: "arrayToHex (ec_public toy_crypto [3]) = hex_digit 0 # hex_digit 3 # arrayToHex (replicate 64 0)"
    by (simp add: toy_crypto_def xor_all_def arrayToHex_def byte_hex_def)
  have len: "length (arrayToHex bs) = 2 * length bs" for bs by (induction bs) (simp_all add: arrayToHex_def byte_hex_def)
  have "normalizePublicKey (arrayToHex (ec_public toy_crypto [3])) = bufferFromHex (arrayToHex (ec_public toy_crypto [3]))"
    unfolding normalizePublicKey_def strip_0x_def hd using digits by (simp add: len Let_def)
  moreover have "normalizePrivateKey (''0x'' @ arrayToHex [3]) = arrayToHex [3]"
    by (simp add: normalizePrivateKey_def strip_0x_def)
  ultimately show "normalizePublicKey (arrayToHex (ec_public toy_crypto [3])) =
      ec_public toy_crypto (bufferFromHex (normalizePrivateKey (''0x'' @ arrayToHex [3])))"
    by (simp only: bufferFromHex_arrayToHex)
qed simp

theorem one_key_opens_all_witness:
  "recover_key (hexToArray (ef_key (encryptFile toy_crypto ''sig'' [1, 2] [7] [10]))) [1, 2]
     (hexToArray (ef_key (encryptFile toy_crypto ''sig'' [3, 4] [8] [11]))) = [3, 4]"
  by (rule one_key_opens_all) simp

end
