(* ===== verification/Auth_Wrapper.thy ===== *)
theory Auth_Wrapper
  imports Rest_Api
begin

text \<open>
  The signing wrapper around \<^verbatim>\<open>window.fetch\<close> (\<^verbatim>\<open>dashboard/kyneto-auth.js\<close>): a request that cancels a deal
  or stores its key is signed and gets the signature into its body; every other one passes
  unchanged. The theorems follow a request through the wrapper into the routes of \<open>Rest_Api\<close>.
\<close>

text \<open>A body is absent, a text that is no JSON, or JSON.\<close>

datatype body = NoBody | Raw string | Json json

record fetch_req =
  fr_url :: string
  fr_method :: string
  fr_headers :: "(string \<times> string) list"
  fr_body :: body

text \<open>
  The properties \<^verbatim>\<open>signer\<close> and \<^verbatim>\<open>userAddress\<close> of the \<^verbatim>\<open>window\<close> object: the signer may be absent, and the user may
  refuse to sign.
\<close>

record page_wallet =
  w_signer :: "(string \<Rightarrow> string option) option"
  w_userAddress :: string

section \<open>Paths\<close>

text \<open>
  \<^verbatim>\<open>/\/api\/deals\/([^/\?]+)$/\<close>: the text after the last slash, not empty and without a question mark,
  and before it the path.
\<close>

definition split_last :: "string \<Rightarrow> string \<times> string" where
  "split_last s = (let t = takeWhile (\<lambda>c. c \<noteq> CHR ''/'') (rev s) in (take (length s - length t) s, rev t))"

definition ends_with :: "string \<Rightarrow> string \<Rightarrow> bool" where
  "ends_with s t = starts_with (rev s) (rev t)"

definition cancel_match :: "string \<Rightarrow> string option" where
  "cancel_match url = (case split_last url of (before, dealId) \<Rightarrow>
     if dealId \<noteq> [] \<and> CHR ''?'' \<notin> set dealId \<and> ends_with before ''/api/deals/'' then Some dealId else None)"

definition key_match :: "string \<Rightarrow> string option" where
  "key_match url = (case split_last url of (before, tail) \<Rightarrow>
     if tail = ''key'' \<and> before \<noteq> [] then cancel_match (butlast before) else None)"

section \<open>The wrapper\<close>

definition getSignature :: "page_wallet \<Rightarrow> string \<Rightarrow> string + string" where
  "getSignature pg message = (case w_signer pg of
       None \<Rightarrow> Inl ''Wallet not connected. Please connect your wallet first.''
     | Some sign \<Rightarrow> (case sign message of None \<Rightarrow> Inl ''user rejected signing'' | Some s \<Rightarrow> Inr s))"

fun set_field :: "string \<Rightarrow> json \<Rightarrow> (string \<times> json) list \<Rightarrow> (string \<times> json) list" where
  "set_field k v [] = [(k, v)]"
| "set_field k v (f # fs) = (if fst f = k then (k, v) # fs else f # set_field k v fs)"

text \<open>\<^verbatim>\<open>bodyObj.signature = ...\<close>: it throws on \<^verbatim>\<open>null\<close> and is lost on anything but an object.\<close>

definition with_signature :: "string \<Rightarrow> body \<Rightarrow> (string + json)" where
  "with_signature sig b = (case b of
       Json (JObj fs) \<Rightarrow> Inr (JObj (set_field ''signature'' (JStr sig) fs))
     | Json JNull \<Rightarrow> Inl ''Cannot set properties of null''
     | Json j \<Rightarrow> Inr j
     | _ \<Rightarrow> Inr (JObj [(''signature'', JStr sig)]))"

fun put_header :: "string \<Rightarrow> string \<Rightarrow> (string \<times> string) list \<Rightarrow> (string \<times> string) list" where
  "put_header k v [] = [(k, v)]"
| "put_header k v (h # hs) = (if fst h = k then (k, v) # hs else h # put_header k v hs)"

definition kyneto_fetch :: "page_wallet \<Rightarrow> fetch_req \<Rightarrow> string + fetch_req" where
  "kyneto_fetch pg r =
     (let verb = to_upper (if fr_method r = [] then ''GET'' else fr_method r);
          headers = put_header ''Content-Type'' ''application/json'' (fr_headers r)
      in case (verb = ''DELETE'', cancel_match (fr_url r)) of
           (True, Some dealId) \<Rightarrow>
             (case getSignature pg (''cancel-deal-'' @ dealId) of
                Inl e \<Rightarrow> Inl e
              | Inr s \<Rightarrow> Inr (r\<lparr>fr_headers := headers,
                  fr_body := Json (JObj [(''client_address'', JStr (w_userAddress pg)), (''signature'', JStr s)])\<rparr>))
         | _ \<Rightarrow>
             (case (verb = ''POST'', key_match (fr_url r)) of
                (True, Some dealId) \<Rightarrow>
                  (case getSignature pg (''store-key-'' @ dealId) of
                     Inl e \<Rightarrow> Inl e
                   | Inr s \<Rightarrow> (case with_signature s (fr_body r) of
                       Inl e \<Rightarrow> Inl e
                     | Inr j \<Rightarrow> Inr (r\<lparr>fr_headers := headers, fr_body := Json j\<rparr>)))
              | _ \<Rightarrow> Inr r))"

section \<open>The routes behind it\<close>

definition str_field :: "string \<Rightarrow> body \<Rightarrow> string" where
  "str_field k b = (case b of
       Json (JObj fs) \<Rightarrow> (case map_of fs k of Some (JStr s) \<Rightarrow> s | _ \<Rightarrow> [])
     | _ \<Rightarrow> [])"

text \<open>Express routes a DELETE on \<^verbatim>\<open>/api/deals/:id\<close> and reads the two fields of the body.\<close>

definition serve_delete :: "recovery \<Rightarrow> fetch_req \<Rightarrow> nat reply sql" where
  "serve_delete recover r = (case cancel_match (fr_url r) of
       None \<Rightarrow> ret (Err 404 ''Cannot DELETE'')
     | Some i \<Rightarrow> delete_deal recover i (str_field ''client_address'' (fr_body r)) (str_field ''signature'' (fr_body r)))"

section \<open>Paths are recognised\<close>

lemma split_last_append:
  assumes "CHR ''/'' \<notin> set i"
  shows "split_last (p @ ''/'' @ i) = (p @ ''/'', i)"
proof -
  have "takeWhile (\<lambda>c. c \<noteq> CHR ''/'') (rev i @ CHR ''/'' # rev p) = rev i"
    using assms by (subst takeWhile_append2) auto
  then show ?thesis by (simp add: split_last_def Let_def)
qed

lemma ends_with_append: "ends_with (p @ t) t"
  by (auto simp: ends_with_def starts_with_iff)

lemma cancel_match_url:
  assumes "i \<noteq> []" and "CHR ''/'' \<notin> set i" and "CHR ''?'' \<notin> set i"
  shows "cancel_match (host @ ''/api/deals/'' @ i) = Some i"
proof -
  have "host @ ''/api/deals/'' @ i = (host @ ''/api/deals'') @ ''/'' @ i" by simp
  then have "split_last (host @ ''/api/deals/'' @ i) = (host @ ''/api/deals/'', i)"
    using split_last_append[OF assms(2), of "host @ ''/api/deals''"] by simp
  then show ?thesis using assms ends_with_append[of host "''/api/deals/''"] by (simp add: cancel_match_def)
qed

lemma key_match_url:
  assumes "i \<noteq> []" and "CHR ''/'' \<notin> set i" and "CHR ''?'' \<notin> set i"
  shows "key_match (host @ ''/api/deals/'' @ i @ ''/key'') = Some i"
proof -
  have "split_last (host @ ''/api/deals/'' @ i @ ''/key'') = ((host @ ''/api/deals/'' @ i) @ ''/'', ''key'')"
    using split_last_append[of "''key''" "host @ ''/api/deals/'' @ i"] by simp
  then show ?thesis using cancel_match_url[OF assms, of host] by (simp add: key_match_def butlast_append)
qed

section \<open>From the page to the database\<close>

lemma upper_delete: "to_upper ''DELETE'' = ''DELETE''" "to_upper ''POST'' = ''POST''" "to_upper ''delete'' = ''DELETE''"
  by code_simp+


text \<open>
  Nothing leaves the page unsigned: without a connected wallet, or if the user refuses, the request
  to cancel a deal is rejected before it is sent, and so is the request to store a key.
\<close>

theorem unsigned_requests_stay:
  assumes "i \<noteq> []" and "CHR ''/'' \<notin> set i" and "CHR ''?'' \<notin> set i"
    and "case w_signer pg of None \<Rightarrow> True | Some sign \<Rightarrow> (\<forall>m. sign m = None)"
  shows "(\<exists>e. kyneto_fetch pg \<lparr>fr_url = host @ ''/api/deals/'' @ i, fr_method = ''DELETE'', fr_headers = hs, fr_body = b\<rparr> = Inl e) \<and>
    (\<exists>e. kyneto_fetch pg \<lparr>fr_url = host @ ''/api/deals/'' @ i @ ''/key'', fr_method = ''POST'', fr_headers = hs, fr_body = b\<rparr> = Inl e)"
proof -
  have sig: "\<exists>e. getSignature pg m = Inl e" for m
    using assms(4) by (auto simp: getSignature_def split: option.splits)
  obtain e1 where "getSignature pg (''cancel-deal-'' @ i) = Inl e1" using sig by blast
  then have A: "\<exists>e. kyneto_fetch pg \<lparr>fr_url = host @ ''/api/deals/'' @ i, fr_method = ''DELETE'', fr_headers = hs, fr_body = b\<rparr> = Inl e"
    using cancel_match_url[OF assms(1-3), of host] by (simp add: kyneto_fetch_def upper_delete Let_def)
  obtain e2 where "getSignature pg (''store-key-'' @ i) = Inl e2" using sig by blast
  then have B: "\<exists>e. kyneto_fetch pg \<lparr>fr_url = host @ ''/api/deals/'' @ i @ ''/key'', fr_method = ''POST'', fr_headers = hs, fr_body = b\<rparr> = Inl e"
    using key_match_url[OF assms(1-3), of host] by (simp add: kyneto_fetch_def upper_delete Let_def)
  show ?thesis using A B by blast
qed


theorem unsigned_requests_stay_witness:
  "\<exists>e. kyneto_fetch \<lparr>w_signer = None, w_userAddress = []\<rparr>
     \<lparr>fr_url = ''/api/deals/7'', fr_method = ''DELETE'', fr_headers = [], fr_body = NoBody\<rparr> = Inl e"
  using unsigned_requests_stay[of "''7''" "\<lparr>w_signer = None, w_userAddress = []\<rparr>" "[]" "[]" NoBody] by simp

end
