(* ===== verification/Block_Indexer.thy ===== *)
theory Block_Indexer
  imports Kyn_Database
begin

text \<open>
  The block indexer (\<^verbatim>\<open>indexer/src/index.ts\<close>): connecting to the chain with exponential backoff, and
  mirroring the newest deals to IPFS at every block. The rendering of the metadata as text and the
  content identifiers are parameters.
\<close>

definition MAX_RETRIES :: nat where "MAX_RETRIES = 10"
definition BASE_DELAY_MS :: nat where "BASE_DELAY_MS = 1000"

text \<open>The module's variables, and the time spent waiting.\<close>

record indexer =
  ix_db :: database
  isConnected :: bool
  retryCount :: nat
  waited_ms :: nat

type_synonym 'a ixact = "(indexer, 'a) act"

section \<open>Connecting\<close>

definition backoff :: "nat \<Rightarrow> nat" where
  "backoff attempt = min (BASE_DELAY_MS * 2 ^ (attempt - 1)) 30000"

definition try_connect :: "unit ixact" where
  "try_connect = andthen (writes (\<lambda>s. s)) (local_set (\<lambda>s. s\<lparr>isConnected := True, retryCount := 0\<rparr>))"

text \<open>
  \<^verbatim>\<open>while (retryCount < MAX_RETRIES)\<close>: each turn returns or increments the counter, so the difference
  bounds the number of turns.
\<close>

primrec connect_loop :: "nat \<Rightarrow> unit ixact" where
  "connect_loop 0 = throw ''Failed to connect to RPC after 10 attempts''"
| "connect_loop (Suc n) = bind (local_get retryCount) (\<lambda>c.
     if c < MAX_RETRIES then
       try_catch try_connect (\<lambda>_. andthen
         (local_set (\<lambda>s. s\<lparr>retryCount := retryCount s + 1, waited_ms := waited_ms s + backoff (retryCount s + 1)\<rparr>))
         (connect_loop n))
     else throw ''Failed to connect to RPC after 10 attempts'')"

definition connectWithRetry :: "unit ixact" where
  "connectWithRetry = bind (local_get retryCount) (\<lambda>c. connect_loop (MAX_RETRIES - c))"

section \<open>Mirroring\<close>

definition newest_deals :: "database \<Rightarrow> deal_row list" where
  "newest_deals s = take 1000 (order_by (\<lambda>d. - d_created_at d) (t_deals s))"

definition processBlock :: "(nat \<Rightarrow> deal_row list \<Rightarrow> int \<Rightarrow> byte list) \<Rightarrow> (byte list \<Rightarrow> string) \<Rightarrow> nat \<Rightarrow> unit ixact" where
  "processBlock render cid_of blockNumber = zoom ix_db (\<lambda>d s. s\<lparr>ix_db := d\<rparr>) (logged (
     bind (reads newest_deals) (\<lambda>deals.
     bind now (\<lambda>t.
     bind (ipfs_add cid_of (render blockNumber deals t)) (\<lambda>cid.
       writes (\<lambda>s. s\<lparr>t_metadata_cid := map_option (\<lambda>_. cid) (t_metadata_cid s)\<rparr>))))))"

text \<open>A provider error: reconnect, or leave the process (\<open>Inl\<close>).\<close>

definition on_provider_error :: "unit ixact" where
  "on_provider_error = andthen (local_set (\<lambda>s. s\<lparr>isConnected := False\<rparr>)) connectWithRetry"

definition health :: "string \<Rightarrow> indexer \<Rightarrow> nat \<times> string \<times> nat" where
  "health url s =
     (if url = ''/metrics'' \<or> url = ''/health''
      then (if isConnected s then 200 else 503, if isConnected s then ''healthy'' else ''disconnected'', retryCount s)
      else (404, [], 0))"

section \<open>Backoff\<close>

lemma backoff_bounds: "0 < k \<Longrightarrow> 1000 \<le> backoff k \<and> backoff k \<le> 30000"
  by (simp add: backoff_def BASE_DELAY_MS_def min_def)

definition total_wait :: "nat \<Rightarrow> nat \<Rightarrow> nat" where
  "total_wait a b = sum_list (map backoff [Suc a..<Suc b])"

text \<open>One failed attempt after another.\<close>

lemma connect_loop_fails:
  "retryCount (db w) + n = 10 \<Longrightarrow> script w = replicate n True @ r \<Longrightarrow>
   connect_loop n w = (Inl ''Failed to connect to RPC after 10 attempts'',
     w\<lparr>script := r, db := (db w)\<lparr>retryCount := 10, waited_ms := waited_ms (db w) + total_wait (retryCount (db w)) 10\<rparr>\<rparr>)"
proof (induction n arbitrary: w)
  case (Suc n)
  let ?c = "retryCount (db w)"
  let ?w = "w\<lparr>script := replicate n True @ r, db := (db w)\<lparr>retryCount := ?c + 1, waited_ms := waited_ms (db w) + backoff (?c + 1)\<rparr>\<rparr>"
  have "try_connect w = (Inl ''rejected'', w\<lparr>script := replicate n True @ r\<rparr>)"
    using Suc.prems(2) by (simp add: try_connect_def writes_def effect_def andthen_def bind_def)
  moreover have "?c < 10" using Suc.prems(1) by simp
  ultimately have "connect_loop (Suc n) w = connect_loop n ?w"
    by (simp add: MAX_RETRIES_def)
  moreover have "total_wait ?c 10 = backoff (Suc ?c) + total_wait (Suc ?c) 10"
    using \<open>?c < 10\<close> by (simp add: total_wait_def upt_conv_Cons)
  ultimately show ?case using Suc.IH[of ?w] Suc.prems(1) by simp
qed (simp add: total_wait_def)


lemma connect_loop_succeeds:
  "retryCount (db w) + k < 10 \<Longrightarrow> retryCount (db w) + n = 10 \<Longrightarrow> script w = replicate k True @ False # r \<Longrightarrow>
   \<exists>w'. connect_loop n w = (Inr (), w') \<and> isConnected (db w') \<and> retryCount (db w') = 0 \<and> ix_db (db w') = ix_db (db w)"
proof (induction k arbitrary: w n)
  case 0
  then have "0 < n" by simp
  then obtain m where n: "n = Suc m" using gr0_conv_Suc by blast
  have "try_connect w = (Inr (), w\<lparr>script := r, db := (db w)\<lparr>isConnected := True, retryCount := 0\<rparr>\<rparr>)"
    using 0 by (simp add: try_connect_def writes_def effect_def andthen_def bind_def)
  then show ?case using 0(1) n by (simp add: MAX_RETRIES_def)
next
  case (Suc k)
  then have "0 < n" by simp
  then obtain m where n: "n = Suc m" using gr0_conv_Suc by blast
  let ?c = "retryCount (db w)"
  let ?w = "w\<lparr>script := replicate k True @ False # r, db := (db w)\<lparr>retryCount := ?c + 1, waited_ms := waited_ms (db w) + backoff (?c + 1)\<rparr>\<rparr>"
  have "try_connect w = (Inl ''rejected'', w\<lparr>script := replicate k True @ False # r\<rparr>)"
    using Suc.prems(3) by (simp add: try_connect_def writes_def effect_def andthen_def bind_def)
  then have "connect_loop n w = connect_loop m ?w" using Suc.prems(1) n by (simp add: MAX_RETRIES_def)
  then show ?case using Suc.IH[of ?w m] Suc.prems n by simp
qed

text \<open>
  Reconnecting makes progress: after a provider error, fewer than ten failed attempts followed by one
  that succeeds leave the indexer connected with its retry counter cleared, so the health endpoint
  reports 200 again.
\<close>

theorem reconnect_recovers:
  assumes "retryCount (db w) = 0" and "k < 10" and "script w = replicate k True @ False # r"
  shows "\<exists>w'. on_provider_error w = (Inr (), w') \<and> health ''/health'' (db w') = (200, ''healthy'', 0)"
proof -
  let ?w = "w\<lparr>db := (db w)\<lparr>isConnected := False\<rparr>\<rparr>"
  obtain w' where "connect_loop 10 ?w = (Inr (), w')" "isConnected (db w')" "retryCount (db w') = 0"
    using connect_loop_succeeds[of ?w k 10 r] assms by auto
  then show ?thesis
    using assms(1) by (simp add: on_provider_error_def connectWithRetry_def MAX_RETRIES_def health_def)
qed

section \<open>The mirror\<close>

text \<open>
  Mirroring, under every pattern of failures: apart from new IPFS blocks, the only thing that may
  change is the recorded identifier, and if it changes it names a block that the cluster stores and
  that holds the rendering of the thousand newest deals of this very block number.
\<close>

theorem mirror_sound:
  "let s = ix_db (db w); s' = ix_db (final (processBlock render cid_of n) w) in
    t_deals s' = t_deals s \<and> t_shards s' = t_shards s \<and>
    (t_metadata_cid s' = t_metadata_cid s \<or>
     (\<exists>c. t_metadata_cid s' = Some c \<and> blocks s' c = Some (render n (newest_deals s) (clock w))))"
proof -
  let ?s = "ix_db (db w)"
  let ?P = "\<lambda>s'. t_deals s' = t_deals ?s \<and> t_shards s' = t_shards ?s \<and>
     (t_metadata_cid s' = t_metadata_cid ?s \<or>
      (\<exists>c. t_metadata_cid s' = Some c \<and> blocks s' c = Some (render n (newest_deals ?s) (clock w))))"
  have "?P (ix_db (final (processBlock render cid_of n) w))"
    unfolding processBlock_def
    by (rule wp_final_now[where P = "\<lambda>s. ?P (ix_db s)"], intro wp_zoom wp_logged wp_bind wp_reads wp_now wp_ipfs_add wp_writes)
       (auto simp: map_option_case split: option.splits)
  then show ?thesis by (simp add: Let_def)
qed

definition start_indexer :: "bool list \<Rightarrow> indexer world" where
  "start_indexer sc = \<lparr>db = \<lparr>ix_db = empty_db\<lparr>t_metadata_cid := Some ''old''\<rparr>, isConnected = False, retryCount = 0, waited_ms = 0\<rparr>,
     clock = 0, script = sc\<rparr>"


theorem reconnect_recovers_witness:
  "\<exists>w'. on_provider_error (start_indexer (replicate 3 True @ [False])) = (Inr (), w') \<and> health ''/health'' (db w') = (200, ''healthy'', 0)"
  using reconnect_recovers[of "start_indexer (replicate 3 True @ [False])" 3 "[]"] by (simp add: start_indexer_def)

end
