(* ===== verification/Dash_Page.thy ===== *)
theory Dash_Page
  imports Kyn_Database
begin

text \<open>
  The page of the dashboard (\<^verbatim>\<open>dashboard/app.js\<close>): the script's global variables, what the page shows,
  the browser's storage and the wallet, with the operations that touch only these: notifications,
  the activity feed, settings, theme, and connecting, recovering and disconnecting the wallet.

  The elements that \<^verbatim>\<open>index.html\<close> defines are taken to be present, so the guards on missing elements
  do not fire. The chain and the API are what the page can read of them: two records of answers, each
  read of which may also fail. A value in \<^verbatim>\<open>localStorage\<close> is the JSON it was written from. Calls that
  are not awaited are queued as tasks and run after the handler that queued them.
\<close>

section \<open>State\<close>

record notification =
  n_id :: int
  n_type :: string
  n_title :: string
  n_message :: string
  n_dealId :: "json option"
  n_read :: bool

text \<open>Child nodes of the feed: white space between tags, or an item (kind, user, message).\<close>

datatype feed_node = Text | Item string string string

record chain_deal =
  cd_client :: string
  cd_fileSizeGB :: nat
  cd_pricePerGBMonth :: nat
  cd_endTime :: int
  cd_alertDays :: int
  cd_status :: nat

record chain_pledge =
  cp_capacity :: nat
  cp_collateral :: nat
  cp_active :: bool

text \<open>
  What the contracts answer. \<open>ch_providers\<close>: base score, deals completed and deals failed of a
  registered provider.
\<close>

record chain =
  ch_providers :: "string \<Rightarrow> (nat \<times> nat \<times> nat) option"
  ch_pledges :: "string \<Rightarrow> chain_pledge list"
  ch_allowance :: "string \<Rightarrow> string \<Rightarrow> nat"
  ch_balance :: "string \<Rightarrow> nat"
  ch_earnings :: "string \<Rightarrow> nat"
  ch_deals :: "chain_deal list"
  ch_kynPriceUSD :: nat
  ch_eligible :: "nat \<Rightarrow> string list"
  ch_gasPrice :: nat
  ch_estimate :: "chain_call \<Rightarrow> nat"

text \<open>What the API answers: the peer identifier the relay gets, and the row of a provider.\<close>

record api_provider =
  ap_registered_at :: "int option"
  ap_last_heartbeat :: "int option"
  ap_capacity_gb :: nat

record api =
  api_peer :: "string \<Rightarrow> string option"
  api_provider :: "string \<Rightarrow> api_provider option"

text \<open>
  The injected wallet: the accounts it exposes, those it exposes after asking, its network and the
  networks it knows.
\<close>

record ethereum =
  eth_accounts :: "string list"
  eth_offered :: "string list"
  eth_chainId :: string
  eth_known :: "string list"

text \<open>A card of the provider portal: label, capacity, and whether the node is shown online.\<close>

record card =
  c_label :: string
  c_capacity :: nat
  c_online :: bool

record proposal =
  pr_id :: nat
  pr_title :: string
  pr_description :: string
  votesFor :: nat
  votesAgainst :: nat
  userVote :: "string option"

text \<open>A transaction the wallet submitted, with the gas price and limit it was given.\<close>

record sent_tx =
  tx_call :: chain_call
  tx_gasPrice :: "nat option"
  tx_gasLimit :: "nat option"

datatype task = InitializeWallet string string

record page =
  userAddress :: "string option"
  provider :: bool
  signer :: bool
  isProvider :: bool
  notifications :: "notification list"
  feed :: "feed_node list"
  toasts :: "(string \<times> string) list"
  storage :: "string \<Rightarrow> json option"
  settings :: json
  theme :: string
  dataTheme :: "json option"
  form_shown :: "json list option"
  profile_shown :: "json option"
  view :: string
  reputation :: "int option"
  uptime :: "string option"
  cards :: "card list"
  pledged :: "(nat \<times> nat) option"
  no_nodes :: bool
  proposals :: "proposal list"
  ethereum :: "ethereum option"
  walletListenersRegistered :: bool
  tasks :: "task list"
  chain :: chain
  api :: api
  sent :: "sent_tx list"

type_synonym 'a ui = "(page, 'a) act"

section \<open>Notifications and the feed\<close>

definition MAX_NOTIFICATIONS :: nat where "MAX_NOTIFICATIONS = 10"

definition push_notification :: "notification \<Rightarrow> notification list \<Rightarrow> notification list" where
  "push_notification n ns = (let ns' = n # ns in if length ns' > MAX_NOTIFICATIONS then butlast ns' else ns')"

definition addNotification :: "int \<Rightarrow> string \<Rightarrow> string \<Rightarrow> string \<Rightarrow> json option \<Rightarrow> page \<Rightarrow> page" where
  "addNotification t type title message dealId s = s\<lparr>notifications := push_notification
     \<lparr>n_id = t, n_type = type, n_title = title, n_message = message, n_dealId = dealId, n_read = False\<rparr>
     (notifications s)\<rparr>"

fun mark_first :: "int \<Rightarrow> notification list \<Rightarrow> notification list" where
  "mark_first i [] = []"
| "mark_first i (n # ns) = (if n_id n = i then n\<lparr>n_read := True\<rparr> # ns else n # mark_first i ns)"

definition markAsRead :: "int \<Rightarrow> page \<Rightarrow> page" where
  "markAsRead i s = s\<lparr>notifications := mark_first i (notifications s)\<rparr>"

definition clearNotifications :: "page \<Rightarrow> page" where
  "clearNotifications s = s\<lparr>notifications := []\<rparr>"

text \<open>The badge: the number of unread notifications, or hidden.\<close>

definition updateNotificationUI :: "page \<Rightarrow> nat option" where
  "updateNotificationUI s =
     (if notifications s = [] then None
      else let unreadCount = length (filter (\<lambda>n. \<not> n_read n) (notifications s))
           in if unreadCount > 0 then Some unreadCount else None)"

text \<open>\<^verbatim>\<open>feed.children\<close> counts elements; \<^verbatim>\<open>feed.lastChild\<close> is the last node, white space included.\<close>

definition items :: "feed_node list \<Rightarrow> feed_node list" where
  "items f = filter (\<lambda>n. n \<noteq> Text) f"

definition prepend_item :: "feed_node \<Rightarrow> feed_node list \<Rightarrow> feed_node list" where
  "prepend_item item f = (let f' = item # f in if length (items f') > 50 then butlast f' else f')"

definition addActivity :: "string \<Rightarrow> string \<Rightarrow> string \<Rightarrow> page \<Rightarrow> page" where
  "addActivity user msg type s = s\<lparr>feed := prepend_item (Item type user msg) (feed s)\<rparr>"

text \<open>The feed as \<^verbatim>\<open>index.html\<close> has it: one item on lines of its own.\<close>

definition initial_feed :: "feed_node list" where
  "initial_feed = [Text, Item ''system'' ''Now'' ''Waiting for network events...'', Text]"

text \<open>A toast replaces the one before it; all that were shown are kept here, the last one last.\<close>

definition showNotification :: "string \<Rightarrow> string \<Rightarrow> page \<Rightarrow> page" where
  "showNotification type title s = s\<lparr>toasts := toasts s @ [(type, title)]\<rparr>"

section \<open>Bounded feeds\<close>

lemma take_front: "take m (x # take n ys) = take (min m (Suc n)) (x # ys)"
  by (cases m) simp_all

text \<open>
  What the two feeds of the page have in common: a new entry goes to the front, old ones may fall
  off at the back, nothing else moves, and the length stays below a bound.
\<close>

locale bounded_feed =
  fixes push :: "'x \<Rightarrow> 'l \<Rightarrow> 'l" and shown :: "'l \<Rightarrow> 'y list" and render :: "'x \<Rightarrow> 'y"
    and ok :: "'l \<Rightarrow> bool" and cap :: nat
  assumes ok_push: "ok l \<Longrightarrow> ok (push x l)"
    and within: "ok l \<Longrightarrow> length (shown l) \<le> cap"
    and newest_first: "ok l \<Longrightarrow> \<exists>n > 0. shown (push x l) = take n (render x # shown l)"
begin

lemma ok_pushes: "ok l \<Longrightarrow> ok (fold push xs l)"
  by (induction xs arbitrary: l) (auto simp: ok_push)

lemma pushes_within: "ok l \<Longrightarrow> length (shown (fold push xs l)) \<le> cap"
  using within ok_pushes by blast

text \<open>After any sequence the feed shows its newest entries, newest first.\<close>

lemma pushes_recent: "ok l \<Longrightarrow> \<exists>n. shown (fold push xs l) = take n (rev (map render xs) @ shown l)"
proof (induction xs rule: rev_induct)
  case Nil
  show ?case by (rule exI[of _ "length (shown l)"]) simp
next
  case (snoc x xs)
  then obtain n where n: "shown (fold push xs l) = take n (rev (map render xs) @ shown l)" by blast
  obtain m where "shown (push x (fold push xs l)) = take m (render x # shown (fold push xs l))"
    using newest_first ok_pushes snoc.prems by blast
  then have "shown (fold push (xs @ [x]) l) = take (min m (Suc n)) (rev (map render (xs @ [x])) @ shown l)"
    using n take_front[of m "render x" n "rev (map render xs) @ shown l"] by (simp del: take_append)
  then show ?case by blast
qed

lemma last_push_shown: "ok l \<Longrightarrow> \<exists>r. shown (fold push (xs @ [x]) l) = render x # r"
  using newest_first[OF ok_pushes, of l x xs] by (auto simp: take_Cons gr0_conv_Suc)

end

lemma butlast_is_take: "butlast xs = take (length xs - 1) xs"
  by (rule butlast_conv_take)

interpretation alerts: bounded_feed push_notification "\<lambda>ns. ns" "\<lambda>n. n" "\<lambda>ns. length ns \<le> MAX_NOTIFICATIONS" MAX_NOTIFICATIONS
proof
  fix l :: "notification list" and x
  assume "length l \<le> MAX_NOTIFICATIONS"
  then show "length (push_notification x l) \<le> MAX_NOTIFICATIONS"
    by (simp add: push_notification_def MAX_NOTIFICATIONS_def Let_def)
  show "\<exists>n > 0. push_notification x l = take n (x # l)"
  proof (cases "length l \<ge> MAX_NOTIFICATIONS")
    case True
    then have "push_notification x l = take (length l) (x # l)" "length l > 0"
      by (cases l; simp add: push_notification_def butlast_is_take MAX_NOTIFICATIONS_def)+
    then show ?thesis by blast
  next
    case False
    then show ?thesis by (intro exI[of _ "Suc (length l)"]) (simp add: push_notification_def)
  qed
qed simp

text \<open>
  The feed of \<^verbatim>\<open>index.html\<close> starts with two white-space nodes, and an overfull feed loses its last
  node, be it an item or white space. So there are never more than 52 nodes.
\<close>

definition feed_ok :: "feed_node list \<Rightarrow> bool" where
  "feed_ok f \<longleftrightarrow> length f \<le> 52 \<and> length f \<le> length (items f) + 2"

lemma length_items: "length (items f) \<le> length f"
  by (simp add: items_def)

lemma items_Cons [simp]: "x \<noteq> Text \<Longrightarrow> items (x # f) = x # items f" "items (Text # f) = items f" "items [] = []"
  by (simp_all add: items_def)

lemma items_append [simp]: "items (f @ g) = items f @ items g"
  by (simp add: items_def)

lemma items_butlast: "\<exists>n \<ge> length (items f) - 1. items (butlast f) = take n (items f)"
proof (cases f rule: rev_exhaust)
  case (snoc ys y)
  then show ?thesis by (cases "y = Text") (auto intro: exI[of _ "length (items ys)"])
qed simp

lemma items_prepend:
  assumes "x \<noteq> Text"
  shows "\<exists>n > 0. items (prepend_item x f) = take n (x # items f)"
proof (cases "length (items (x # f)) > 50")
  case True
  obtain n where n: "n \<ge> length (items f)" "items (butlast (x # f)) = take n (x # items f)"
    using items_butlast[of "x # f"] assms by auto
  moreover have "0 < length (items f)" using True assms by (cases "items f") simp_all
  ultimately have "n > 0" by linarith
  then show ?thesis using True n by (intro exI[of _ n]) (auto simp: prepend_item_def)
next
  case False
  then show ?thesis using assms by (intro exI[of _ "Suc (length (items f))"]) (simp add: prepend_item_def)
qed

interpretation activity: bounded_feed "\<lambda>(type, user, msg). prepend_item (Item type user msg)" items
  "\<lambda>(type, user, msg). Item type user msg" feed_ok 52
proof
  fix l and x :: "string \<times> string \<times> string"
  assume ok: "feed_ok l"
  obtain type user msg where x: "x = (type, user, msg)" by (cases x)
  obtain n where n: "n \<ge> length (items l)" "items (butlast (Item type user msg # l)) = take n (Item type user msg # items l)"
    using items_butlast[of "Item type user msg # l"] by auto
  show "feed_ok ((case x of (type, user, msg) \<Rightarrow> prepend_item (Item type user msg)) l)"
  proof (cases "length (items l) \<ge> 50")
    case True
    then show ?thesis using ok n x by (auto simp: feed_ok_def prepend_item_def)
  next
    case False
    then show ?thesis using ok x by (auto simp: feed_ok_def prepend_item_def)
  qed
  show "\<exists>n > 0. items ((case x of (type, user, msg) \<Rightarrow> prepend_item (Item type user msg)) l) =
      take n ((case x of (type, user, msg) \<Rightarrow> Item type user msg) # items l)"
    using items_prepend[of "Item type user msg" l] x by simp
qed (use length_items in \<open>auto simp: feed_ok_def intro: order_trans\<close>)

lemma initial_feed_ok: "feed_ok initial_feed"
  by (simp add: feed_ok_def initial_feed_def)

lemma feed_of_activities:
  "feed (fold (\<lambda>(type, user, msg). addActivity user msg type) xs s) =
   fold (\<lambda>(type, user, msg). prepend_item (Item type user msg)) xs (feed s)"
  by (induction xs arbitrary: s) (auto simp: addActivity_def)

lemma notifications_of_adds:
  "notifications (fold (\<lambda>(t, type, title, message, d). addNotification t type title message d) xs s) =
   fold push_notification (map (\<lambda>(t, type, title, message, d). \<lparr>n_id = t, n_type = type, n_title = title,
      n_message = message, n_dealId = d, n_read = False\<rparr>) xs) (notifications s)"
  by (induction xs arbitrary: s) (auto simp: addNotification_def)

text \<open>
  The activity feed, whatever is added to it: it shows its newest items, newest first, and
  never more than 52. The code means to keep 50, but compares the number of elements and removes
  the last node, which is twice the white space of the page: 52 items are reached.
\<close>

theorem activity_feed_bound:
  "(\<forall>xs s. feed s = initial_feed \<longrightarrow>
      (let shown = items (feed (fold (\<lambda>(type, user, msg). addActivity user msg type) xs s)) in
       length shown \<le> 52 \<and>
       (\<exists>n. shown = take n (rev (map (\<lambda>(type, user, msg). Item type user msg) xs) @ items initial_feed)))) \<and>
   length (items (fold (\<lambda>(type, user, msg). prepend_item (Item type user msg)) (replicate 52 (a, b, c)) initial_feed)) = 52"
proof (intro conjI allI impI)
  fix xs and s :: page
  assume "feed s = initial_feed"
  then show "let shown = items (feed (fold (\<lambda>(type, user, msg). addActivity user msg type) xs s)) in
       length shown \<le> 52 \<and>
       (\<exists>n. shown = take n (rev (map (\<lambda>(type, user, msg). Item type user msg) xs) @ items initial_feed))"
    using activity.pushes_within[OF initial_feed_ok, of xs] activity.pushes_recent[OF initial_feed_ok, of xs]
    by (simp add: feed_of_activities Let_def)
qed (simp add: initial_feed_def prepend_item_def items_def numeral_eq_Suc)

text \<open>
  The notification list, whatever is added to it: it shows the latest first, keeps the ten
  latest, and marking one as read changes at most one entry's flag, so the badge drops by at most one.
\<close>

lemma mark_first_unread:
  "length (mark_first i ns) = length ns \<and>
   length (filter (\<lambda>n. \<not> n_read n) (mark_first i ns)) \<le> length (filter (\<lambda>n. \<not> n_read n) ns) \<and>
   length (filter (\<lambda>n. \<not> n_read n) ns) \<le> Suc (length (filter (\<lambda>n. \<not> n_read n) (mark_first i ns)))"
  by (induction ns) auto

text \<open>Sixty activities from a fresh page.\<close>

theorem activity_feed_bound_witness:
  "\<exists>s. feed s = initial_feed \<and>
     length (items (feed (fold (\<lambda>(type, user, msg). addActivity user msg type) (replicate 60 (''system'', ''System'', ''m'')) s))) \<le> 52"
proof -
  obtain s :: page where "feed s = initial_feed" by (metis page.select_convs(6))
  then show ?thesis
    using conjunct1[OF activity_feed_bound[of "[]" "[]" "[]"], rule_format, of s "replicate 60 (''system'', ''System'', ''m'')"]
    unfolding Let_def by blast
qed

end
