(* ===== verification/Dash_Settings.thy ===== *)
theory Dash_Settings
  imports Dash_Page
begin

text \<open>
  The dashboard's settings, theme and profile (\<^verbatim>\<open>dashboard/app.js\<close>), loading the page, and disconnecting
  the wallet, which empties the browser's storage except for what it means to preserve.
\<close>

section \<open>Settings\<close>

text \<open>
  \<^verbatim>\<open>v.k\<close> on a value that may be undefined (\<open>None\<close>): reading a field of \<^verbatim>\<open>null\<close> or of \<^verbatim>\<open>undefined\<close> throws
  (\<open>Inl\<close>), of anything but an object it is undefined.
\<close>

definition js_get :: "string \<Rightarrow> json option \<Rightarrow> string + json option" where
  "js_get k v = (case v of
       None \<Rightarrow> Inl ''TypeError''
     | Some JNull \<Rightarrow> Inl ''TypeError''
     | Some (JObj fs) \<Rightarrow> Inr (map_of fs k)
     | Some _ \<Rightarrow> Inr None)"

definition js_get2 :: "string \<Rightarrow> string \<Rightarrow> json \<Rightarrow> string + json option" where
  "js_get2 g k v = (case js_get g (Some v) of Inl e \<Rightarrow> Inl e | Inr w \<Rightarrow> js_get k w)"

fun put_field :: "string \<Rightarrow> json \<Rightarrow> (string \<times> json) list \<Rightarrow> (string \<times> json) list" where
  "put_field k v [] = [(k, v)]"
| "put_field k v (f # fs) = (if fst f = k then (k, v) # fs else f # put_field k v fs)"

text \<open>\<^verbatim>\<open>settings.g.k = v\<close>: it throws where reading \<^verbatim>\<open>settings.g\<close> gives no object to write to.\<close>

definition js_set2 :: "string \<Rightarrow> string \<Rightarrow> json \<Rightarrow> json \<Rightarrow> string + json" where
  "js_set2 g k v s = (case s of
       JObj fs \<Rightarrow> (case map_of fs g of
           Some (JObj gs) \<Rightarrow> Inr (JObj (put_field g (JObj (put_field k v gs)) fs))
         | Some JNull \<Rightarrow> Inl ''TypeError''
         | None \<Rightarrow> Inl ''TypeError''
         | Some _ \<Rightarrow> Inr s)
     | _ \<Rightarrow> Inl ''TypeError'')"

definition default_settings :: json where
  "default_settings = JObj
     [(''notifications'', JObj [(''deals'', JBool True), (''slashing'', JBool True), (''network'', JBool False)]),
      (''display'', JObj [(''currency'', JStr ''KYN''), (''unit'', JStr ''GB'')]),
      (''node'', JObj [(''autoRenew'', JBool False), (''region'', JStr ''na''), (''endpoint'', JStr '''')])]"

definition loadSettings :: "page \<Rightarrow> page" where
  "loadSettings s = (case storage s ''kyneto_settings'' of None \<Rightarrow> s | Some j \<Rightarrow> s\<lparr>settings := j\<rparr>)"

record settings_form =
  f_deals :: bool
  f_slashing :: bool
  f_network :: bool
  f_currency :: string
  f_unit :: string
  f_autoRenew :: bool
  f_region :: string
  f_endpoint :: string

definition is_blank :: "char \<Rightarrow> bool" where
  "is_blank c \<longleftrightarrow> c = CHR '' '' \<or> c = CHR 0x09 \<or> c = CHR 0x0A \<or> c = CHR 0x0D"

definition trim :: "string \<Rightarrow> string" where
  "trim s = rev (dropWhile is_blank (rev (dropWhile is_blank s)))"

text \<open>The assignments of \<^verbatim>\<open>saveSettings\<close>, in their order.\<close>

definition form_fields :: "settings_form \<Rightarrow> (string \<times> string \<times> json) list" where
  "form_fields f =
     [(''notifications'', ''deals'', JBool (f_deals f)), (''notifications'', ''slashing'', JBool (f_slashing f)),
      (''notifications'', ''network'', JBool (f_network f)), (''display'', ''currency'', JStr (f_currency f)),
      (''display'', ''unit'', JStr (f_unit f)), (''node'', ''autoRenew'', JBool (f_autoRenew f)),
      (''node'', ''region'', JStr (f_region f)), (''node'', ''endpoint'', JStr (trim (f_endpoint f)))]"

fun set_fields :: "(string \<times> string \<times> json) list \<Rightarrow> json \<Rightarrow> string + json" where
  "set_fields [] s = Inr s"
| "set_fields ((g, k, v) # as) s = (case js_set2 g k v s of Inl e \<Rightarrow> Inl e | Inr s' \<Rightarrow> set_fields as s')"

definition saveSettings :: "settings_form \<Rightarrow> page \<Rightarrow> string + page" where
  "saveSettings f s = (case set_fields (form_fields f) (settings s) of
       Inl e \<Rightarrow> Inl e
     | Inr j \<Rightarrow> Inr (addActivity ''System'' ''Updated user settings'' ''system''
         (showNotification ''success'' ''Settings Saved''
           (s\<lparr>settings := j, storage := (storage s)(''kyneto_settings'' \<mapsto> j)\<rparr>))))"

text \<open>What \<^verbatim>\<open>switchView('settings')\<close> writes into the form, or the exception it dies with.\<close>

fun read_fields :: "(string \<times> string) list \<Rightarrow> json \<Rightarrow> string + json option list" where
  "read_fields [] s = Inr []"
| "read_fields ((g, k) # ps) s = (case js_get2 g k s of
       Inl e \<Rightarrow> Inl e
     | Inr v \<Rightarrow> (case read_fields ps s of Inl e \<Rightarrow> Inl e | Inr vs \<Rightarrow> Inr (v # vs)))"

definition shown_fields :: "(string \<times> string) list" where
  "shown_fields =
     [(''notifications'', ''deals''), (''notifications'', ''slashing''), (''notifications'', ''network''),
      (''display'', ''currency''), (''display'', ''unit''), (''node'', ''autoRenew''), (''node'', ''region''),
      (''node'', ''endpoint'')]"

text \<open>\<^verbatim>\<open>settings.node.endpoint || ''\<close>.\<close>

definition or_empty :: "json option \<Rightarrow> json option" where
  "or_empty v = (if v \<in> {None, Some JNull, Some (JBool False), Some (JNum 0), Some (JStr [])} then Some (JStr []) else v)"

definition settings_view :: "page \<Rightarrow> string + json option list" where
  "settings_view s = (case read_fields shown_fields (settings s) of
       Inl e \<Rightarrow> Inl e
     | Inr vs \<Rightarrow> Inr (butlast vs @ [or_empty (last vs)]))"

text \<open>
  The same form is filled when a wallet connects, there with \<^verbatim>\<open>settings.g?.k ?? d\<close>: a missing group or field
  gives the default \<^verbatim>\<open>d\<close>, and only settings that are \<^verbatim>\<open>null\<close> stop it (the exception is logged).
\<close>

definition opt_get :: "string \<Rightarrow> json option \<Rightarrow> json option" where
  "opt_get k v = (case v of Some (JObj fs) \<Rightarrow> map_of fs k | _ \<Rightarrow> None)"

definition or_default :: "json \<Rightarrow> json option \<Rightarrow> json" where
  "or_default d v = (case v of None \<Rightarrow> d | Some JNull \<Rightarrow> d | Some j \<Rightarrow> j)"

definition ui_defaults :: "json list" where
  "ui_defaults = [JBool True, JBool True, JBool False, JStr ''KYN'', JStr ''GB'', JBool False, JStr ''na'', JStr []]"

definition applySettingsToUI :: "page \<Rightarrow> page" where
  "applySettingsToUI s = (if settings s = JNull then s
     else s\<lparr>form_shown := Some (map2 (\<lambda>(g, k) d. or_default d (opt_get k (opt_get g (Some (settings s))))) shown_fields ui_defaults)\<rparr>)"

definition loadUserSettingsOnConnect :: "page \<Rightarrow> page" where
  "loadUserSettingsOnConnect s =
     (let s1 = (case storage s ''kyneto_settings'' of None \<Rightarrow> s | Some j \<Rightarrow> applySettingsToUI (s\<lparr>settings := j\<rparr>));
          s2 = (case storage s ''theme'' of None \<Rightarrow> s1 | Some t \<Rightarrow> s1\<lparr>dataTheme := Some t\<rparr>)
      in case storage s ''kyneto_user_profile'' of None \<Rightarrow> s2 | Some p \<Rightarrow> s2\<lparr>profile_shown := Some p\<rparr>)"

lemma connect_settings_frame [simp]:
  "userAddress (loadUserSettingsOnConnect s) = userAddress s" "provider (loadUserSettingsOnConnect s) = provider s"
  "signer (loadUserSettingsOnConnect s) = signer s" "sent (loadUserSettingsOnConnect s) = sent s"
  "storage (loadUserSettingsOnConnect s) = storage s" "chain (loadUserSettingsOnConnect s) = chain s"
  "ethereum (loadUserSettingsOnConnect s) = ethereum s" "tasks (loadUserSettingsOnConnect s) = tasks s"
  by (simp_all add: loadUserSettingsOnConnect_def applySettingsToUI_def Let_def split: option.split)

section \<open>Theme\<close>

definition toggleTheme :: "page \<Rightarrow> page" where
  "toggleTheme s =
     (if theme s = ''dark-theme''
      then s\<lparr>theme := ''light-theme'', storage := (storage s)(''theme'' \<mapsto> JStr ''light'')\<rparr>
      else s\<lparr>theme := ''dark-theme'', storage := (storage s)(''theme'' \<mapsto> JStr ''dark'')\<rparr>)"

definition loadSavedTheme :: "page \<Rightarrow> page" where
  "loadSavedTheme s = (if storage s ''theme'' = Some (JStr ''light'') then s\<lparr>theme := ''light-theme''\<rparr> else s)"

section \<open>Loading the page\<close>

text \<open>Navigation: the script's variables start afresh; the browser keeps its storage and its wallet.\<close>

definition initial_proposals :: "proposal list" where
  "initial_proposals =
     [\<lparr>pr_id = 1, pr_title = ''Increase Storage Rewards by 5%'',
       pr_description = ''Proposal to increase the base rewards for storage providers to incentivize network growth.'',
       votesFor = 1250, votesAgainst = 450, userVote = None\<rparr>,
      \<lparr>pr_id = 2, pr_title = ''Decrease Slashing Penalty'',
       pr_description = ''Reduce the penalty for minor downtime to support smaller providers.'',
       votesFor = 890, votesAgainst = 1200, userVote = None\<rparr>]"

definition fresh_page :: "page \<Rightarrow> page" where
  "fresh_page s = s\<lparr>userAddress := None, provider := False, signer := False, isProvider := False,
     notifications := [], feed := initial_feed, toasts := [], settings := default_settings, theme := [],
     dataTheme := None, form_shown := None, profile_shown := None,
     view := ''dashboard'', reputation := None, uptime := None, cards := [], pledged := None, no_nodes := True,
     proposals := initial_proposals, walletListenersRegistered := False, tasks := []\<rparr>"

definition load_page :: "page \<Rightarrow> page" where
  "load_page s = loadSettings (loadSavedTheme (loadSettings (fresh_page s)))"

section \<open>Profile\<close>

definition profile_key :: "string \<Rightarrow> string" where
  "profile_key addr = ''kyneto_profile_'' @ addr"

definition short_address :: "string \<Rightarrow> string" where
  "short_address a = take 8 a @ ''...'' @ drop (length a - 6) a"

definition handleSaveProfile :: "json \<Rightarrow> page \<Rightarrow> page" where
  "handleSaveProfile profileData s = (case userAddress s of
       None \<Rightarrow> s
     | Some a \<Rightarrow> (addActivity ''User'' ''Updated profile information'' ''user''
         (showNotification ''success'' ''Profile Updated''
           (s\<lparr>storage := (storage s)(profile_key a \<mapsto> profileData)\<rparr>)))\<lparr>view := ''profile''\<rparr>)"

text \<open>The name in the side bar: that of the stored profile, or the shortened address.\<close>

definition updateGlobalProfileUI :: "page \<Rightarrow> (string + json option) option" where
  "updateGlobalProfileUI s = (case userAddress s of
       None \<Rightarrow> None
     | Some a \<Rightarrow> Some (case storage s (profile_key a) of
           Some j \<Rightarrow> (if j = JNull then Inr (Some (JStr (short_address a))) else js_get ''username'' (Some j))
         | None \<Rightarrow> Inr (Some (JStr (short_address a)))))"

section \<open>Disconnecting\<close>

definition preserved :: "page \<Rightarrow> string \<Rightarrow> json option" where
  "preserved s k = (if k \<in> {''kyneto_settings'', ''theme'', ''kyneto_user_profile''} then storage s k else None)"

definition disconnectWallet :: "unit ui" where
  "disconnectWallet = bind (local_get preserved) (\<lambda>keep.
     andthen (bind (local_get ethereum) (\<lambda>e. case e of
         None \<Rightarrow> ret ()
       | Some _ \<Rightarrow> logged (writes (\<lambda>s. s\<lparr>ethereum := map_option (\<lambda>e. e\<lparr>eth_accounts := []\<rparr>) (ethereum s)\<rparr>))))
     (local_set (\<lambda>s. showNotification ''info'' ''Wallet Disconnected''
       (s\<lparr>storage := keep, userAddress := None, signer := False, provider := False, isProvider := False\<rparr>))))"

section \<open>Settings have their shape\<close>

text \<open>The three groups are present, each an object.\<close>

definition settings_shape :: "json \<Rightarrow> bool" where
  "settings_shape j = (case j of
       JObj fs \<Rightarrow> list_all (\<lambda>g. case map_of fs g of Some (JObj gs) \<Rightarrow> True | _ \<Rightarrow> False)
         [''notifications'', ''display'', ''node'']
     | _ \<Rightarrow> False)"

definition groups :: "string set" where
  "groups = {''notifications'', ''display'', ''node''}"

lemma settings_shape_iff:
  "settings_shape j \<longleftrightarrow> (\<exists>fs. j = JObj fs \<and> (\<forall>g \<in> groups. \<exists>gs. map_of fs g = Some (JObj gs)))"
  by (cases j) (auto simp: settings_shape_def groups_def split: option.splits json.splits)

lemma map_of_put_field [simp]: "map_of (put_field k v fs) k' = (if k' = k then Some v else map_of fs k')"
  by (induction k v fs rule: put_field.induct) auto

lemma js_get2_shape:
  assumes "settings_shape j" and "g \<in> groups"
  shows "\<exists>v. js_get2 g k j = Inr v"
  using assms by (auto simp: settings_shape_iff js_get2_def js_get_def)

lemma js_set2_shape:
  assumes "settings_shape j" and "g \<in> groups"
  obtains j' where "js_set2 g k v j = Inr j'" and "settings_shape j'"
    and "\<And>g' k'. g' \<in> groups \<Longrightarrow> js_get2 g' k' j' = (if g' = g \<and> k' = k then Inr (Some v) else js_get2 g' k' j)"
proof -
  obtain fs gs where j: "j = JObj fs" "map_of fs g = Some (JObj gs)" "\<forall>g \<in> groups. \<exists>gs. map_of fs g = Some (JObj gs)"
    using assms unfolding settings_shape_iff by metis
  let ?j' = "JObj (put_field g (JObj (put_field k v gs)) fs)"
  have "js_set2 g k v j = Inr ?j'" using j by (simp add: js_set2_def)
  moreover have "settings_shape ?j'" using j(3) by (simp add: settings_shape_iff)
  moreover have "js_get2 g' k' ?j' = (if g' = g \<and> k' = k then Inr (Some v) else js_get2 g' k' j)" for g' k'
    using j by (auto simp: js_get2_def js_get_def)
  ultimately show ?thesis by (rule that)
qed

text \<open>Assignments to the groups succeed, keep the shape, and are read back, the last one to a field.\<close>

fun assigned :: "(string \<times> string \<times> json) list \<Rightarrow> string \<Rightarrow> string \<Rightarrow> json option" where
  "assigned [] g k = None"
| "assigned ((g', k', v) # as) g k = (case assigned as g k of
       Some u \<Rightarrow> Some u | None \<Rightarrow> if g' = g \<and> k' = k then Some v else None)"

lemma set_fields_shape:
  "settings_shape j \<Longrightarrow> fst ` set as \<subseteq> groups \<Longrightarrow> \<exists>j'. set_fields as j = Inr j' \<and> settings_shape j' \<and>
     (\<forall>g \<in> groups. \<forall>k. js_get2 g k j' = (case assigned as g k of Some v \<Rightarrow> Inr (Some v) | None \<Rightarrow> js_get2 g k j))"
proof (induction as j rule: set_fields.induct)
  case (2 g k v as j)
  obtain j' where j': "js_set2 g k v j = Inr j'" "settings_shape j'"
      "\<And>g' k'. g' \<in> groups \<Longrightarrow> js_get2 g' k' j' = (if g' = g \<and> k' = k then Inr (Some v) else js_get2 g' k' j)"
    using js_set2_shape[of j g k v] 2 by auto
  obtain j'' where "set_fields as j' = Inr j''" "settings_shape j''" "\<forall>g \<in> groups. \<forall>k. js_get2 g k j'' =
      (case assigned as g k of Some v \<Rightarrow> Inr (Some v) | None \<Rightarrow> js_get2 g k j')"
    using 2(1)[OF j'(1,2)] 2(3) by auto
  then show ?case using j' by (auto split: option.split)
qed simp

lemma form_in_groups: "fst ` set (form_fields f) \<subseteq> groups"
  by (simp add: form_fields_def groups_def)

lemma saveSettings_run:
  assumes "settings_shape (settings s)"
  obtains s' j where "saveSettings f s = Inr s'" and "settings s' = j" and "storage s' = (storage s)(''kyneto_settings'' \<mapsto> j)"
    and "settings_shape j" and "userAddress s' = userAddress s"
    and "\<And>g k. g \<in> groups \<Longrightarrow> js_get2 g k j = (case assigned (form_fields f) g k of
         Some v \<Rightarrow> Inr (Some v) | None \<Rightarrow> js_get2 g k (settings s))"
proof -
  obtain j where j: "set_fields (form_fields f) (settings s) = Inr j" "settings_shape j"
      "\<forall>g \<in> groups. \<forall>k. js_get2 g k j = (case assigned (form_fields f) g k of Some v \<Rightarrow> Inr (Some v) | None \<Rightarrow> js_get2 g k (settings s))"
    using set_fields_shape[OF assms form_in_groups] by blast
  show ?thesis
    by (rule that[of "addActivity ''System'' ''Updated user settings'' ''system'' (showNotification ''success'' ''Settings Saved''
         (s\<lparr>settings := j, storage := (storage s)(''kyneto_settings'' \<mapsto> j)\<rparr>))" j])
       (use j in \<open>simp_all add: saveSettings_def addActivity_def showNotification_def\<close>)
qed

lemma disconnect_fields:
  "storage (final disconnectWallet w) = preserved (db w) \<and> settings (final disconnectWallet w) = settings (db w)"
proof -
  have "wp (clock w) disconnectWallet (\<lambda>_ s. storage s = preserved (db w) \<and> settings s = settings (db w)) (\<lambda>_ _. False) (db w)"
    unfolding disconnectWallet_def
    by (cases "ethereum (db w)") (auto intro!: wp_rules simp: showNotification_def)
  then have "wp (clock w) disconnectWallet (\<lambda>_ s. storage s = preserved (db w) \<and> settings s = settings (db w))
      (\<lambda>_ s. storage s = preserved (db w) \<and> settings s = settings (db w)) (db w)"
    by (rule wp_mono) auto
  from wp_final_now[OF this] show ?thesis .
qed

lemma load_page_settings:
  "settings (load_page s) = (case storage s ''kyneto_settings'' of None \<Rightarrow> default_settings | Some j \<Rightarrow> j)"
  "storage (load_page s) = storage s"
  by (auto simp: load_page_def loadSettings_def loadSavedTheme_def fresh_page_def split: option.splits)

definition saved_values :: "settings_form \<Rightarrow> json list" where
  "saved_values f = [JBool (f_deals f), JBool (f_slashing f), JBool (f_network f), JStr (f_currency f),
     JStr (f_unit f), JBool (f_autoRenew f), JStr (f_region f), JStr (trim (f_endpoint f))]"

lemma or_empty_str [simp]: "or_empty (Some (JStr x)) = Some (JStr x)"
  by (auto simp: or_empty_def)

lemma js_get2_opt: "js_get2 g k j = Inr (Some v) \<Longrightarrow> opt_get k (opt_get g (Some j)) = Some v"
  by (auto simp: js_get2_def js_get_def opt_get_def split: json.splits option.splits)

lemma read_fields_opt:
  "read_fields ps j = Inr (map Some vs) \<Longrightarrow> JNull \<notin> set vs \<Longrightarrow> length ds = length ps \<Longrightarrow>
   map2 (\<lambda>(g, k) d. or_default d (opt_get k (opt_get g (Some j)))) ps ds = vs"
proof (induction ps arbitrary: vs ds)
  case (Cons p ps)
  obtain g k where p: "p = (g, k)" by (cases p)
  obtain v vs' where vs: "vs = v # vs'" "js_get2 g k j = Inr (Some v)" "read_fields ps j = Inr (map Some vs')"
    using Cons.prems(1) unfolding p by (cases vs) (auto split: sum.splits)
  obtain d ds' where ds: "ds = d # ds'" using Cons.prems(3) by (cases ds) auto
  have "or_default d (Some v) = v" using Cons.prems(2) unfolding vs(1) by (cases v) (auto simp: or_default_def)
  then show ?case using Cons vs ds p by (simp add: js_get2_opt)
qed auto

lemma form_after_connect:
  "storage s ''kyneto_settings'' = Some j \<Longrightarrow> j \<noteq> JNull \<Longrightarrow> form_shown (loadUserSettingsOnConnect s) =
   Some (map2 (\<lambda>(g, k) d. or_default d (opt_get k (opt_get g (Some j)))) shown_fields ui_defaults)"
  by (simp add: loadUserSettingsOnConnect_def applySettingsToUI_def Let_def split: option.split)

lemma saved_values_facts: "JNull \<notin> set (saved_values f)" "length ui_defaults = length shown_fields"
  by (simp_all add: saved_values_def ui_defaults_def shown_fields_def)

text \<open>
  Saved settings survive. Whatever the wallet answers while it is disconnected, the settings form of
  the page that is loaded afterwards shows what was saved: the switches and choices as they were, the
  endpoint without surrounding white space; and so does the form when a wallet connects again.
\<close>

theorem settings_survive_disconnect:
  assumes "settings_shape (settings s)" and "saveSettings f s = Inr (db w)"
  shows "settings_view (load_page (final disconnectWallet w)) = Inr (map Some (saved_values f)) \<and>
    form_shown (loadUserSettingsOnConnect (load_page (final disconnectWallet w))) = Some (saved_values f)"
proof -
  obtain s' j where s': "saveSettings f s = Inr s'" "storage s' = (storage s)(''kyneto_settings'' \<mapsto> j)"
      "\<And>g k. g \<in> groups \<Longrightarrow> js_get2 g k j = (case assigned (form_fields f) g k of
         Some v \<Rightarrow> Inr (Some v) | None \<Rightarrow> js_get2 g k (settings s))"
    using saveSettings_run[OF assms(1)] by metis
  then have "settings (load_page (final disconnectWallet w)) = j"
    using assms(2) by (simp add: load_page_settings disconnect_fields preserved_def)
  moreover from this have "storage (load_page (final disconnectWallet w)) ''kyneto_settings'' = Some j"
    using assms(2) s'(1,2) by (simp add: load_page_settings disconnect_fields preserved_def)
  moreover have fields: "read_fields shown_fields j = Inr (map Some (saved_values f))"
    using s'(3) by (simp add: shown_fields_def groups_def form_fields_def saved_values_def)
  moreover from fields have "j \<noteq> JNull" by (auto simp: shown_fields_def js_get2_def js_get_def)
  ultimately show ?thesis
    using read_fields_opt[OF fields saved_values_facts] by (simp add: settings_view_def form_after_connect) (simp add: saved_values_def)
qed

section \<open>No exception in a session\<close>

text \<open>What a user can do with settings, theme and profile; the wallet fails as the script of a step says.\<close>

datatype session_step = Save settings_form | Toggle | SaveProfile json | Disconnect "bool list" | Reload

fun session :: "session_step list \<Rightarrow> page \<Rightarrow> string + page" where
  "session [] s = Inr s"
| "session (Save f # xs) s = (case saveSettings f s of Inl e \<Rightarrow> Inl e | Inr s' \<Rightarrow> session xs s')"
| "session (Toggle # xs) s = session xs (toggleTheme s)"
| "session (SaveProfile j # xs) s = session xs (handleSaveProfile j s)"
| "session (Disconnect sc # xs) s = session xs (final disconnectWallet \<lparr>db = s, clock = 0, script = sc\<rparr>)"
| "session (Reload # xs) s = session xs (load_page s)"

definition settings_inv :: "page \<Rightarrow> bool" where
  "settings_inv s \<longleftrightarrow> settings_shape (settings s) \<and>
     (\<forall>j. storage s ''kyneto_settings'' = Some j \<longrightarrow> settings_shape j)"

lemma default_shape: "settings_shape default_settings"
  by (simp add: default_settings_def settings_shape_def)

lemma settings_inv_steps:
  assumes "settings_inv s"
  shows "settings_inv (toggleTheme s)" "settings_inv (handleSaveProfile j s)"
    "settings_inv (final disconnectWallet \<lparr>db = s, clock = 0, script = sc\<rparr>)" "settings_inv (load_page s)"
proof -
  show "settings_inv (toggleTheme s)" using assms by (simp add: settings_inv_def toggleTheme_def)
  show "settings_inv (handleSaveProfile j s)"
    using assms by (auto simp: settings_inv_def handleSaveProfile_def addActivity_def showNotification_def profile_key_def split: option.split)
  show "settings_inv (final disconnectWallet \<lparr>db = s, clock = 0, script = sc\<rparr>)"
    using assms by (simp add: settings_inv_def disconnect_fields preserved_def)
  show "settings_inv (load_page s)"
    using assms by (auto simp: settings_inv_def load_page_settings default_shape split: option.split)
qed

lemma session_ok: "settings_inv s \<Longrightarrow> \<exists>s'. session xs s = Inr s' \<and> settings_inv s'"
proof (induction xs s rule: session.induct)
  case (2 f xs s)
  obtain s' j where "saveSettings f s = Inr s'" "settings s' = j" "settings_shape j" "storage s' = (storage s)(''kyneto_settings'' \<mapsto> j)"
    using saveSettings_run[of s f] "2.prems" unfolding settings_inv_def by metis
  moreover from this have "settings_inv s'" by (simp add: settings_inv_def)
  ultimately show ?case using "2.IH" by simp
qed (simp_all add: settings_inv_steps)

lemma settings_view_shape:
  assumes "settings_shape (settings s)"
  shows "\<exists>vs. settings_view s = Inr vs \<and> length vs = 8"
proof -
  have "\<exists>vs. read_fields ps (settings s) = Inr vs \<and> length vs = length ps" if "fst ` set ps \<subseteq> groups" for ps
    using that
  proof (induction ps)
    case (Cons p ps)
    then obtain vs where "read_fields ps (settings s) = Inr vs" "length vs = length ps" by auto
    moreover obtain v where "js_get2 (fst p) (snd p) (settings s) = Inr v"
      using js_get2_shape[OF assms, of "fst p" "snd p"] Cons.prems by auto
    ultimately show ?case by (cases p) simp
  qed simp
  moreover have "fst ` set shown_fields \<subseteq> groups" "length shown_fields = 8"
    by (simp_all add: shown_fields_def groups_def)
  ultimately obtain vs where vs: "read_fields shown_fields (settings s) = Inr vs" "length vs = 8" by metis
  then show ?thesis by (simp add: settings_view_def)
qed


text \<open>
  The profile does not survive: \<^verbatim>\<open>disconnectWallet\<close> preserves the key \<^verbatim>\<open>kyneto_user_profile\<close>, which nothing
  writes, while profiles are stored under the address. After disconnecting, the same wallet is
  shown under its shortened address again, whatever name was saved.
\<close>

theorem profile_lost_on_disconnect:
  assumes "userAddress s = Some a" and "db w = handleSaveProfile j s" and "userAddress s' = Some a"
    and "storage s' = storage (load_page (final disconnectWallet w))"
  shows "updateGlobalProfileUI (db w) = Some (if j = JNull then Inr (Some (JStr (short_address a))) else js_get ''username'' (Some j)) \<and>
    updateGlobalProfileUI s' = Some (Inr (Some (JStr (short_address a))))"
proof -
  have "storage (db w) (profile_key a) = Some j" "userAddress (db w) = Some a"
    using assms(1,2) by (simp_all add: handleSaveProfile_def addActivity_def showNotification_def)
  moreover have "storage s' (profile_key a) = None"
    using assms(4) by (simp add: load_page_settings disconnect_fields preserved_def profile_key_def)
  ultimately show ?thesis using assms(3) by (simp add: updateGlobalProfileUI_def)
qed

section \<open>Witnesses\<close>

definition page0 :: page where
  "page0 = \<lparr>userAddress = Some ''0xabcdef0123456789'', provider = True, signer = True, isProvider = False, notifications = [],
     feed = initial_feed, toasts = [], storage = (\<lambda>_. None), settings = default_settings, theme = [],
     dataTheme = None, form_shown = None, profile_shown = None, view = ''dashboard'',
     reputation = None, uptime = None, cards = [], pledged = None, no_nodes = True, proposals = initial_proposals, ethereum = None, walletListenersRegistered = False, tasks = [],
     chain = \<lparr>ch_providers = (\<lambda>_. None), ch_pledges = (\<lambda>_. []), ch_allowance = (\<lambda>_ _. 0), ch_balance = (\<lambda>_. 0),
       ch_earnings = (\<lambda>_. 0), ch_deals = [], ch_kynPriceUSD = 100000, ch_eligible = (\<lambda>_. []), ch_gasPrice = 30, ch_estimate = (\<lambda>_. 21000)\<rparr>,
     api = \<lparr>api_peer = (\<lambda>_. None), api_provider = (\<lambda>_. None)\<rparr>, sent = []\<rparr>"

definition form0 :: settings_form where
  "form0 = \<lparr>f_deals = False, f_slashing = True, f_network = True, f_currency = ''USD'', f_unit = ''TB'',
     f_autoRenew = True, f_region = ''eu'', f_endpoint = '' http://me ''\<rparr>"

lemma page0_shape: "settings_shape (settings page0)"
  by (simp add: page0_def default_shape)

theorem settings_survive_disconnect_witness:
  "\<exists>s. saveSettings form0 page0 = Inr s \<and>
     settings_view (load_page (final disconnectWallet \<lparr>db = s, clock = 0, script = [True]\<rparr>)) =
     Inr (map Some [JBool False, JBool True, JBool True, JStr ''USD'', JStr ''TB'', JBool True, JStr ''eu'', JStr ''http://me'']) \<and>
     form_shown (loadUserSettingsOnConnect (load_page (final disconnectWallet \<lparr>db = s, clock = 0, script = [True]\<rparr>))) =
     Some [JBool False, JBool True, JBool True, JStr ''USD'', JStr ''TB'', JBool True, JStr ''eu'', JStr ''http://me'']"
proof -
  obtain s where s: "saveSettings form0 page0 = Inr s" using saveSettings_run[OF page0_shape] by metis
  have "trim '' http://me '' = ''http://me''" by (simp add: trim_def is_blank_def)
  then show ?thesis
    using settings_survive_disconnect[OF page0_shape, of form0 "\<lparr>db = s, clock = 0, script = [True]\<rparr>"] s
    by (simp add: form0_def saved_values_def)
qed


theorem profile_lost_on_disconnect_witness:
  "\<exists>w s'. updateGlobalProfileUI (db w) = Some (Inr (Some (JStr ''Alice''))) \<and>
     storage s' = storage (load_page (final disconnectWallet w)) \<and>
     updateGlobalProfileUI s' = Some (Inr (Some (JStr ''0xabcdef...456789'')))"
proof -
  let ?w = "\<lparr>db = handleSaveProfile (JObj [(''username'', JStr ''Alice'')]) page0, clock = 0, script = []\<rparr>"
  let ?s' = "(load_page (final disconnectWallet ?w))\<lparr>userAddress := Some ''0xabcdef0123456789''\<rparr>"
  have "short_address ''0xabcdef0123456789'' = ''0xabcdef...456789''" by (simp add: short_address_def)
  then show ?thesis
    using profile_lost_on_disconnect[of page0 "''0xabcdef0123456789''" ?w "JObj [(''username'', JStr ''Alice'')]" ?s']
    by (intro exI[of _ ?w] exI[of _ ?s']) (simp add: page0_def js_get_def)
qed

end
