(* ===== verification/Dash_Reputation.thy ===== *)
theory Dash_Reputation
  imports Dash_Settings
begin

text \<open>
  The provider portal of the dashboard (\<^verbatim>\<open>checkProviderStatus\<close> of \<^verbatim>\<open>dashboard/app.js\<close>): whether the node is
  online, the reputation shown with its penalty for offline time, and the cards of the pledges.
  Times are milliseconds. The text of a card is not modelled, its data is.
\<close>

section \<open>Penalties\<close>

definition HALF_HOUR :: int where "HALF_HOUR = 30 * 60 * 1000"
definition DAY :: int where "DAY = 24 * 60 * 60 * 1000"

text \<open>A node that is offline.\<close>

definition offline_penalty :: "int \<Rightarrow> int" where
  "offline_penalty offlineMs =
     (let firstDayMs = min offlineMs DAY;
          firstDayPenalty = min 30 (firstDayMs div HALF_HOUR);
          extraDaysPenalty = (if offlineMs > DAY then ((offlineMs - DAY) * 2) div DAY else 0)
      in firstDayPenalty + extraDaysPenalty)"

text \<open>What the browser remembers: the penalty, and up to when it was settled.\<close>

record penalty_data =
  penalty :: int
  lastUpdated :: int

text \<open>A node that is online works its way back up.\<close>

definition recover_penalty :: "int \<Rightarrow> penalty_data \<Rightarrow> penalty_data" where
  "recover_penalty t d =
     (if penalty d > 0
      then let recoveryAmount = (t - lastUpdated d) div HALF_HOUR
           in if recoveryAmount > 0
              then \<lparr>penalty = max 0 (penalty d - recoveryAmount), lastUpdated = lastUpdated d + recoveryAmount * HALF_HOUR\<rparr>
              else d
      else \<lparr>penalty = 0, lastUpdated = t\<rparr>)"

definition penalty_key :: "string \<Rightarrow> string" where
  "penalty_key addr = ''kyneto_rep_penalty_'' @ addr"

definition penalty_json :: "penalty_data \<Rightarrow> json" where
  "penalty_json d = JObj [(''penalty'', JNum (of_int (penalty d))), (''lastUpdated'', JNum (of_int (lastUpdated d)))]"

text \<open>Only \<^verbatim>\<open>checkProviderStatus\<close> writes the key, and only numbers; anything else counts as no entry.\<close>

definition stored_penalty :: "string \<Rightarrow> int \<Rightarrow> page \<Rightarrow> penalty_data" where
  "stored_penalty addr t s = (case storage s (penalty_key addr) of
       Some (JObj fs) \<Rightarrow> (case (map_of fs ''penalty'', map_of fs ''lastUpdated'') of
           (Some (JNum p), Some (JNum u)) \<Rightarrow> \<lparr>penalty = \<lfloor>p\<rfloor>, lastUpdated = \<lfloor>u\<rfloor>\<rparr>
         | _ \<Rightarrow> \<lparr>penalty = 0, lastUpdated = t\<rparr>)
     | _ \<Rightarrow> \<lparr>penalty = 0, lastUpdated = t\<rparr>)"

definition store_penalty :: "string \<Rightarrow> penalty_data \<Rightarrow> page \<Rightarrow> page" where
  "store_penalty addr d s = s\<lparr>storage := (storage s)(penalty_key addr \<mapsto> penalty_json d)\<rparr>"

text \<open>The penalty of one check, and what it leaves in the storage.\<close>

definition settle_penalty :: "string \<Rightarrow> int \<Rightarrow> bool \<Rightarrow> int option \<Rightarrow> page \<Rightarrow> int \<times> page" where
  "settle_penalty addr t isNodeOnline last_heartbeat s =
     (case (isNodeOnline, last_heartbeat) of
        (False, Some h) \<Rightarrow> (let p = offline_penalty (t - h) in (p, store_penalty addr \<lparr>penalty = p, lastUpdated = t\<rparr> s))
      | (True, _) \<Rightarrow> (let d = recover_penalty t (stored_penalty addr t s) in (penalty d, store_penalty addr d s))
      | _ \<Rightarrow> (0, s))"

definition dynamic_reputation :: "int \<Rightarrow> nat \<Rightarrow> nat \<Rightarrow> int" where
  "dynamic_reputation offlinePenalty dealsCompleted dealsFailed =
     (let totalDeals = dealsCompleted + dealsFailed;
          r = 100 - offlinePenalty;
          r' = (if totalDeals > 0 then r - js_round (of_nat dealsFailed / of_nat totalDeals * 50) else r)
      in max 0 (min 100 r'))"

section \<open>Liveness of the node\<close>

text \<open>The relay confirms the node, or anything fails.\<close>

definition relay_check :: "string \<Rightarrow> bool ui" where
  "relay_check addr = try_catch (reads (\<lambda>s. api_peer (api s) addr \<noteq> None)) (\<lambda>_. ret False)"

definition fetch_row :: "string \<Rightarrow> api_provider option ui" where
  "fetch_row addr = try_catch (reads (\<lambda>s. api_provider (api s) addr)) (\<lambda>_. ret None)"

text \<open>Without the relay: a heartbeat in the last ninety seconds, or else the time of registration.\<close>

definition heartbeat_fresh :: "int \<Rightarrow> api_provider option \<Rightarrow> bool" where
  "heartbeat_fresh t row = (case row of
       None \<Rightarrow> False
     | Some r \<Rightarrow> (case ap_registered_at r of
         None \<Rightarrow> False
       | Some reg \<Rightarrow> \<not> t - (case ap_last_heartbeat r of Some h \<Rightarrow> h | None \<Rightarrow> reg) > 90 * 1000))"

section \<open>Pledges\<close>

definition card_label :: "nat \<Rightarrow> string" where
  "card_label i = (if i = 0 then ''Initial Pledge'' else ''Upgrade #'' @ nat_str i)"

fun collect_pledges :: "string \<Rightarrow> bool \<Rightarrow> nat list \<Rightarrow> nat \<times> nat \<times> card list \<Rightarrow> (nat \<times> nat \<times> card list) ui" where
  "collect_pledges addr online [] acc = ret acc"
| "collect_pledges addr online (i # is) (cap, col, cs) =
     bind (reads (\<lambda>s. ch_pledges (chain s) addr ! i)) (\<lambda>p.
       if \<not> cp_active p then collect_pledges addr online is (cap, col, cs)
       else collect_pledges addr online is (cap + cp_capacity p, col + cp_collateral p,
              cs @ [\<lparr>c_label = card_label i, c_capacity = cp_capacity p, c_online = online\<rparr>]))"

definition render_cards :: "card list \<Rightarrow> page \<Rightarrow> page" where
  "render_cards cs s = (if cs \<noteq> [] then s\<lparr>cards := cs, no_nodes := False\<rparr> else s\<lparr>no_nodes := True\<rparr>)"

text \<open>The capacity of the row, when the contract knows no pledge.\<close>

definition fallback_capacity :: "string \<Rightarrow> nat ui" where
  "fallback_capacity addr = try_catch
     (reads (\<lambda>s. case api_provider (api s) addr of
        Some r \<Rightarrow> if ap_capacity_gb r > 0 then ap_capacity_gb r else 10 | None \<Rightarrow> 10)) (\<lambda>_. ret 10)"

definition show_pledges :: "string \<Rightarrow> bool \<Rightarrow> unit ui" where
  "show_pledges addr online = try_catch
     (bind (reads (\<lambda>s. length (ch_pledges (chain s) addr))) (\<lambda>numPledges.
        if numPledges > 0
        then bind (collect_pledges addr online [0..<numPledges] (0, 0, [])) (\<lambda>(cap, col, cs).
               local_set (\<lambda>s. render_cards cs (s\<lparr>pledged := Some (cap, col)\<rparr>)))
        else bind (fallback_capacity addr) (\<lambda>cap.
               local_set (render_cards [\<lparr>c_label = ''Storage Pledge'', c_capacity = cap, c_online = online\<rparr>]))))
     (\<lambda>_. local_set (\<lambda>s. s\<lparr>no_nodes := True\<rparr>))"

section \<open>The check\<close>

definition provider_portal :: "string \<Rightarrow> nat \<Rightarrow> nat \<Rightarrow> unit ui" where
  "provider_portal addr dealsCompleted dealsFailed =
     bind (relay_check addr) (\<lambda>directPingSuccess.
     bind (fetch_row addr) (\<lambda>row.
     bind now (\<lambda>t.
     let isNodeOnline = directPingSuccess \<or> heartbeat_fresh t row;
         last_heartbeat = (case row of None \<Rightarrow> None | Some r \<Rightarrow> ap_last_heartbeat r)
     in andthen (local_set (\<lambda>s. case settle_penalty addr t isNodeOnline last_heartbeat s of (p, s') \<Rightarrow>
              s'\<lparr>uptime := Some (if isNodeOnline then ''100.0%'' else ''Offline''),
                 reputation := Some (dynamic_reputation p dealsCompleted dealsFailed)\<rparr>))
          (show_pledges addr isNodeOnline))))"

definition checkProviderStatus :: "unit ui" where
  "checkProviderStatus = bind (local_get (\<lambda>s. (userAddress s, provider s))) (\<lambda>(a, pr). case (a, pr) of
       (Some addr, True) \<Rightarrow> logged (
         bind (reads (\<lambda>s. ch_providers (chain s) addr)) (\<lambda>providerData.
         andthen (local_set (\<lambda>s. s\<lparr>isProvider := providerData \<noteq> None\<rparr>))
           (case providerData of
              Some (_, dealsCompleted, dealsFailed) \<Rightarrow> provider_portal addr dealsCompleted dealsFailed
            | None \<Rightarrow> local_set (\<lambda>s. s\<lparr>no_nodes := True\<rparr>))))
     | _ \<Rightarrow> ret ())"

section \<open>Recovery\<close>

lemma half_hour_pos: "0 < HALF_HOUR"
  by (simp add: HALF_HOUR_def)

lemma day_half_hours: "DAY = 48 * HALF_HOUR"
  by (simp add: DAY_def HALF_HOUR_def)

text \<open>The state after polls up to time \<open>T\<close>, when the penalty was \<open>p\<close> at time \<open>u\<close>.\<close>

definition recovering :: "int \<Rightarrow> int \<Rightarrow> int \<Rightarrow> penalty_data \<Rightarrow> bool" where
  "recovering p u T d \<longleftrightarrow> (let k = (T - u) div HALF_HOUR in
     penalty d = 0 \<and> p \<le> k \<or> penalty d = p - k \<and> k < p \<and> lastUpdated d = u + k * HALF_HOUR)"

lemma recovering_value: "recovering p u T d \<Longrightarrow> penalty d = max 0 (p - (T - u) div HALF_HOUR)"
  by (auto simp: recovering_def Let_def)

lemma recovering_start: "0 \<le> penalty d \<Longrightarrow> recovering (penalty d) (lastUpdated d) (lastUpdated d) d"
  by (auto simp: recovering_def Let_def)

lemma recovering_step:
  assumes "recovering p u T d" and "T \<le> T'"
  shows "recovering p u T' (recover_penalty T' d)"
proof -
  define k k' where k: "k = (T - u) div HALF_HOUR" and k': "k' = (T' - u) div HALF_HOUR"
  have mono: "k \<le> k'" using assms(2) half_hour_pos by (simp add: k k' zdiv_mono1)
  consider "penalty d = 0" "p \<le> k" | "penalty d = p - k" "k < p" "lastUpdated d = u + k * HALF_HOUR"
    using assms(1) by (auto simp: recovering_def Let_def k)
  then show ?thesis
  proof cases
    case 1
    then show ?thesis using mono by (simp add: recovering_def recover_penalty_def k'[symmetric])
  next
    case 2
    have "(T' - (u + k * HALF_HOUR)) div HALF_HOUR = ((T' - u) + (- k) * HALF_HOUR) div HALF_HOUR"
      by (simp add: algebra_simps)
    also have "\<dots> = - k + k'" unfolding k' using half_hour_pos by (subst div_mult_self1) simp_all
    finally have "(T' - lastUpdated d) div HALF_HOUR = k' - k" using 2(3) by simp
    then show ?thesis
      using 2 mono by (auto simp: recovering_def recover_penalty_def Let_def k'[symmetric] algebra_simps)
  qed
qed

lemma recovering_polls:
  "recovering p u T d \<Longrightarrow> sorted (T # ts) \<Longrightarrow> recovering p u (last (T # ts)) (fold recover_penalty ts d)"
proof (induction ts arbitrary: T d)
  case (Cons t ts)
  then have "recovering p u t (recover_penalty t d)" by (intro recovering_step) auto
  then show ?case using Cons.IH[of t] Cons.prems(2) by simp
qed simp

lemma stored_after_store [simp]: "stored_penalty addr t (store_penalty addr d s) = d"
  by (simp add: stored_penalty_def store_penalty_def penalty_json_def)

lemma settle_online:
  "fst (settle_penalty addr t True hb s) = penalty (recover_penalty t (stored_penalty addr t s))"
  "snd (settle_penalty addr t True hb s) = store_penalty addr (recover_penalty t (stored_penalty addr t s)) s"
  by (simp_all add: settle_penalty_def Let_def)

lemma stored_after_polls:
  "stored_penalty addr u (fold (\<lambda>t s. snd (settle_penalty addr t True hb s)) ts (store_penalty addr d s)) =
   fold recover_penalty ts d"
proof (induction ts arbitrary: d s)
  case (Cons t ts)
  have "snd (settle_penalty addr t True hb (store_penalty addr d s)) =
      store_penalty addr (recover_penalty t d) (store_penalty addr d s)"
    by (simp add: settle_online)
  then show ?case using Cons by simp
qed simp

lemma offline_penalty_nonneg: "0 \<le> ms \<Longrightarrow> 0 \<le> offline_penalty ms"
  using half_hour_pos by (simp add: offline_penalty_def Let_def DAY_def pos_imp_zdiv_nonneg_iff min_def)

text \<open>
  C27. Recovery after an outage does not depend on how often the page looks. A check that finds the node
  offline charges the outage since the last heartbeat and remembers it; afterwards every full half
  hour online pays one point back, counted exactly: after any sequence of checks at times \<open>ts\<close> and a
  last one at \<open>T\<close> the penalty is what a single check at \<open>T\<close> would leave, although each check rounds
  down, and it survives in the storage only.
\<close>

theorem outage_recovery:
  assumes "h \<le> t" and "sorted (t # ts @ [T])"
  shows "fst (settle_penalty addr T True hb' (fold (\<lambda>u s. snd (settle_penalty addr u True hb s)) ts
       (snd (settle_penalty addr t False (Some h) s)))) =
     max 0 (offline_penalty (t - h) - (T - t) div HALF_HOUR)"
proof -
  let ?d = "\<lparr>penalty = offline_penalty (t - h), lastUpdated = t\<rparr>"
  have "recovering (penalty ?d) (lastUpdated ?d) (lastUpdated ?d) ?d"
    by (rule recovering_start) (use assms(1) offline_penalty_nonneg in simp)
  then have "recovering (offline_penalty (t - h)) t (last (t # ts @ [T])) (fold recover_penalty (ts @ [T]) ?d)"
    using assms(2) by (intro recovering_polls) simp_all
  then have "penalty (recover_penalty T (fold recover_penalty ts ?d)) = max 0 (offline_penalty (t - h) - (T - t) div HALF_HOUR)"
    using recovering_value by fastforce
  moreover have "snd (settle_penalty addr t False (Some h) s) = store_penalty addr ?d s"
    by (simp add: settle_penalty_def Let_def)
  ultimately show ?thesis by (simp add: settle_online(1) stored_after_polls)
qed

text \<open>
  The penalty of an outage: it never falls as the outage grows, stays at or below thirty points for
  the first day, and each further full day costs exactly two more.
\<close>

theorem offline_penalty_bounds:
  assumes "0 \<le> a" and "a \<le> b"
  shows "0 \<le> offline_penalty a \<and> offline_penalty a \<le> offline_penalty b \<and>
    (b \<le> DAY \<longrightarrow> offline_penalty b \<le> 30) \<and> offline_penalty (DAY + int n * DAY) = 30 + 2 * int n"
proof (intro conjI impI)
  let ?first = "\<lambda>ms. min 30 (min ms DAY div HALF_HOUR)"
  let ?extra = "\<lambda>ms. if ms > DAY then (ms - DAY) * 2 div DAY else 0"
  have sum: "offline_penalty ms = ?first ms + ?extra ms" for ms by (simp add: offline_penalty_def Let_def)
  show "0 \<le> offline_penalty a" using assms(1) by (rule offline_penalty_nonneg)
  have "?first a \<le> ?first b" using assms(2) half_hour_pos by (intro min.mono zdiv_mono1) auto
  moreover have "(a - DAY) * 2 div DAY \<le> (b - DAY) * 2 div DAY" using assms(2) by (intro zdiv_mono1) (simp_all add: DAY_def)
  then have "?extra a \<le> ?extra b" using assms(2) by (auto simp: pos_imp_zdiv_nonneg_iff DAY_def)
  ultimately show "offline_penalty a \<le> offline_penalty b" unfolding sum by (rule add_mono)
  show "offline_penalty b \<le> 30" if "b \<le> DAY" unfolding sum using that by simp
  have "?first (DAY + int n * DAY) = 30" by (simp add: DAY_def HALF_HOUR_def min_def)
  moreover have "?extra (DAY + int n * DAY) = 2 * int n" by (cases n) (simp_all add: DAY_def)
  ultimately show "offline_penalty (DAY + int n * DAY) = 30 + 2 * int n" unfolding sum by simp
qed

section \<open>The portal\<close>

lemma dynamic_reputation_range: "0 \<le> dynamic_reputation p c f \<and> dynamic_reputation p c f \<le> 100"
  by (simp add: dynamic_reputation_def Let_def)

definition shown_pledges :: "bool \<Rightarrow> chain_pledge list \<Rightarrow> nat list \<Rightarrow> card list" where
  "shown_pledges online ps is = map (\<lambda>i. \<lparr>c_label = card_label i, c_capacity = cp_capacity (ps ! i), c_online = online\<rparr>)
     (filter (\<lambda>i. cp_active (ps ! i)) is)"

lemma collect_run:
  "script w = [] \<Longrightarrow> collect_pledges addr online is (cap, col, cs) w =
     (let ps = ch_pledges (chain (db w)) addr; act = filter (\<lambda>i. cp_active (ps ! i)) is in
      (Inr (cap + (\<Sum>i\<leftarrow>act. cp_capacity (ps ! i)), col + (\<Sum>i\<leftarrow>act. cp_collateral (ps ! i)), cs @ shown_pledges online ps is), w))"
  by (induction "is" arbitrary: cap col cs) (simp_all add: Let_def shown_pledges_def)

text \<open>A check that nothing disturbs.\<close>

lemma portal_run:
  assumes "script w = []" and "s = db w" and "row = api_provider (api s) addr"
    and "online = (api_peer (api s) addr \<noteq> None \<or> heartbeat_fresh (clock w) row)"
    and "ps = ch_pledges (chain s) addr" and "ps \<noteq> []"
  shows "provider_portal addr c f w = (Inr (), w\<lparr>db :=
     render_cards (shown_pledges online ps [0..<length ps])
       ((snd (settle_penalty addr (clock w) online (case row of None \<Rightarrow> None | Some r \<Rightarrow> ap_last_heartbeat r) s))
        \<lparr>uptime := Some (if online then ''100.0%'' else ''Offline''),
         reputation := Some (dynamic_reputation (fst (settle_penalty addr (clock w) online
           (case row of None \<Rightarrow> None | Some r \<Rightarrow> ap_last_heartbeat r) s)) c f),
         pledged := Some (\<Sum>i\<leftarrow>filter (\<lambda>i. cp_active (ps ! i)) [0..<length ps]. cp_capacity (ps ! i),
                          \<Sum>i\<leftarrow>filter (\<lambda>i. cp_active (ps ! i)) [0..<length ps]. cp_collateral (ps ! i))\<rparr>)\<rparr>)"
proof -
  have other: "chain (snd (settle_penalty addr t b h s)) = chain s" for t b h
    by (auto simp: settle_penalty_def store_penalty_def Let_def split: bool.split option.split)
  show ?thesis
    unfolding provider_portal_def relay_check_def fetch_row_def show_pledges_def
    using assms other by (simp add: Let_def collect_run split_beta)
qed

definition portal_view :: "bool \<Rightarrow> chain_pledge list \<Rightarrow> page \<Rightarrow> bool" where
  "portal_view online ps s \<longleftrightarrow> (let act = filter (\<lambda>i. cp_active (ps ! i)) [0..<length ps] in
     uptime s = Some (if online then ''100.0%'' else ''Offline'') \<and>
     pledged s = Some (\<Sum>i\<leftarrow>act. cp_capacity (ps ! i), \<Sum>i\<leftarrow>act. cp_collateral (ps ! i)) \<and>
     no_nodes s = (act = []) \<and> (act \<noteq> [] \<longrightarrow> cards s = shown_pledges online ps [0..<length ps]))"

lemma portal_fields:
  assumes "script w = []" and "s = db w"
    and "online = (api_peer (api s) addr \<noteq> None \<or> heartbeat_fresh (clock w) (api_provider (api s) addr))"
    and "ps = ch_pledges (chain s) addr" and "ps \<noteq> []"
  shows "\<exists>w'. provider_portal addr c f w = (Inr (), w') \<and> portal_view online ps (db w') \<and> isProvider (db w') = isProvider s \<and>
    reputation (db w') = Some (dynamic_reputation (fst (settle_penalty addr (clock w) online
      (case api_provider (api s) addr of None \<Rightarrow> None | Some r \<Rightarrow> ap_last_heartbeat r) s)) c f)"
proof -
  have keep: "isProvider (snd (settle_penalty addr t o' h s)) = isProvider s" for t o' h s
    by (auto simp: settle_penalty_def store_penalty_def Let_def split: bool.split option.split)
  show ?thesis
    unfolding portal_run[OF assms(1,2) refl assms(3,4,5)]
    by (simp add: portal_view_def Let_def render_cards_def keep shown_pledges_def)
qed

lemma check_run:
  assumes "userAddress (db w) = Some addr" and "provider (db w)" and "script w = []"
    and "ch_providers (chain (db w)) addr = Some (b, c, f)"
    and "provider_portal addr c f (w\<lparr>db := (db w)\<lparr>isProvider := True\<rparr>\<rparr>) = (Inr (), w')"
  shows "checkProviderStatus w = (Inr (), w')"
  using assms by (simp add: checkProviderStatus_def logged_def)

text \<open>
  The portal shows what the contracts say. For a registered provider with pledges, when nothing
  fails, the cards are exactly the active pledges in their order, each with its own capacity and
  marked online just in case the node is; capacity and collateral are summed over the active pledges
  only; and the node counts as online if the relay reaches it or its last heartbeat is at most ninety
  seconds old. Without an active pledge the empty state is shown.
\<close>

theorem portal_shows_active_pledges:
  assumes "userAddress (db w) = Some addr" and "provider (db w)" and "script w = []"
    and "ch_providers (chain (db w)) addr = Some (b, c, f)" and "ps = ch_pledges (chain (db w)) addr" and "ps \<noteq> []"
    and "online = (api_peer (api (db w)) addr \<noteq> None \<or> heartbeat_fresh (clock w) (api_provider (api (db w)) addr))"
    and "act = filter (\<lambda>i. cp_active (ps ! i)) [0..<length ps]"
  shows "let s' = final checkProviderStatus w in
    isProvider s' \<and> uptime s' = Some (if online then ''100.0%'' else ''Offline'') \<and>
    pledged s' = Some (\<Sum>i\<leftarrow>act. cp_capacity (ps ! i), \<Sum>i\<leftarrow>act. cp_collateral (ps ! i)) \<and>
    no_nodes s' = (act = []) \<and>
    (act \<noteq> [] \<longrightarrow> cards s' = map (\<lambda>i. \<lparr>c_label = card_label i, c_capacity = cp_capacity (ps ! i), c_online = online\<rparr>) act)"
proof -
  let ?w = "w\<lparr>db := (db w)\<lparr>isProvider := True\<rparr>\<rparr>"
  obtain w' where "provider_portal addr c f ?w = (Inr (), w')" and "portal_view online ps (db w')" and "isProvider (db w')"
    using portal_fields[of ?w "db ?w" online addr ps c f] assms by auto
  moreover from this have "final checkProviderStatus w = db w'"
    using check_run[OF assms(1-4)] by (simp add: final_def)
  ultimately show ?thesis unfolding portal_view_def assms(8) by (simp add: Let_def shown_pledges_def)
qed

text \<open>What a check may change, however it fails.\<close>

definition portal_step :: "page \<Rightarrow> page \<Rightarrow> bool" where
  "portal_step s s' \<longleftrightarrow> sent s' = sent s \<and> userAddress s' = userAddress s \<and> signer s' = signer s \<and>
     provider s' = provider s \<and> settings s' = settings s \<and> chain s' = chain s \<and> api s' = api s \<and> tasks s' = tasks s \<and>
     ethereum s' = ethereum s \<and>
     (\<forall>k. (\<forall>a. userAddress s = Some a \<longrightarrow> k \<noteq> penalty_key a) \<longrightarrow> storage s' k = storage s k) \<and>
     (reputation s' = reputation s \<or> (\<exists>r. reputation s' = Some r \<and> 0 \<le> r \<and> r \<le> 100))"

interpretation portal: step_rel portal_step
  by unfold_locales (auto simp: portal_step_def)

lemma settle_step:
  "userAddress s = Some addr \<Longrightarrow> portal_step s ((snd (settle_penalty addr t b h s))
     \<lparr>uptime := u, reputation := Some (dynamic_reputation p c f)\<rparr>)"
  using dynamic_reputation_range
  by (auto simp: portal_step_def settle_penalty_def store_penalty_def Let_def split: bool.split option.split)

lemma collect_steps: "steps portal_step (collect_pledges addr online is acc)"
proof (induction "is" arbitrary: acc)
  case Nil
  show ?case unfolding collect_pledges.simps by (rule portal.ret_steps)
next
  case (Cons i "is")
  obtain cap col cs where "acc = (cap, col, cs)" by (cases acc)
  then show ?case using Cons by (auto intro!: portal.bind_steps portal.reads_steps)
qed

lemma orderly_collect: "orderly (collect_pledges addr online is acc)"
proof (induction "is" arbitrary: acc)
  case Nil
  show ?case unfolding collect_pledges.simps by (rule orderly_ret)
next
  case (Cons i "is")
  obtain cap col cs where "acc = (cap, col, cs)" by (cases acc)
  then show ?case using Cons by (auto intro!: orderly_bind orderly_reads)
qed

lemma orderly_show_pledges: "orderly (show_pledges addr online)"
  unfolding show_pledges_def fallback_capacity_def
  by (auto intro!: orderly_rules orderly_collect split: prod.split if_split)

lemma show_pledges_steps: "steps portal_step (show_pledges addr online)"
  unfolding show_pledges_def fallback_capacity_def
  by (auto intro!: portal.step_intros portal.bind_steps portal.try_catch_steps portal.reads_steps portal.ret_steps
        portal.local_set_steps collect_steps split: prod.split if_split simp: portal_step_def render_cards_def)

lemma settle_and_show_wp:
  assumes "portal_step s s'" and "userAddress s' = Some addr"
  shows "wp t (andthen (local_set (\<lambda>s. case settle_penalty addr t online h s of (p, s') \<Rightarrow>
       s'\<lparr>uptime := u, reputation := Some (dynamic_reputation p c f)\<rparr>)) (show_pledges addr online))
     (\<lambda>_. portal_step s) (\<lambda>_. portal_step s) s'"
proof (intro wp_andthen wp_local_set)
  have "portal_step s (case settle_penalty addr t online h s' of (p, s'') \<Rightarrow>
      s''\<lparr>uptime := u, reputation := Some (dynamic_reputation p c f)\<rparr>)"
    using portal.trans[OF assms(1) settle_step[OF assms(2)]] by (simp add: split_beta)
  then show "wp t (show_pledges addr online) (\<lambda>_. portal_step s) (\<lambda>_. portal_step s)
      (case settle_penalty addr t online h s' of (p, s'') \<Rightarrow> s''\<lparr>uptime := u, reputation := Some (dynamic_reputation p c f)\<rparr>)"
    by (intro steps_wp[OF show_pledges_steps orderly_show_pledges]) (rule portal.trans, assumption+)+
qed

lemma checkProviderStatus_wp: "wp t checkProviderStatus (\<lambda>_. portal_step s) (\<lambda>_ _. False) s"
proof -
  have flag: "portal_step s (s\<lparr>isProvider := b\<rparr>)" "portal_step s (s\<lparr>isProvider := b, no_nodes := True\<rparr>)" for b
    by (simp_all add: portal_step_def)
  have "wp t (provider_portal addr c f) (\<lambda>_. portal_step s) (\<lambda>_. portal_step s) (s\<lparr>isProvider := b\<rparr>)"
    if "userAddress s = Some addr" for addr c f b
    unfolding provider_portal_def relay_check_def fetch_row_def Let_def
    using that by (intro wp_bind wp_try_catch wp_reads wp_ret wp_now settle_and_show_wp flag) simp_all
  then show ?thesis
    unfolding checkProviderStatus_def
    by (auto intro!: wp_rules flag portal.refl split: option.split prod.split bool.split)
qed

text \<open>
  However it fails, a check of the provider's status sends no transaction, keeps the wallet and the
  settings, writes nothing to the browser's storage but the penalty of the connected address, and
  shows no reputation outside 0 to 100.
\<close>

theorem status_check_confined:
  "portal_step (db w) (final checkProviderStatus w)"
  by (rule wp_final_now, rule wp_mono[OF checkProviderStatus_wp]) simp_all

text \<open>
  The penalty is not persistent, although the code calls it so: \<^verbatim>\<open>disconnectWallet\<close> empties the storage.
  Whatever penalty was stored, after disconnecting, and as soon as the wallet is connected again and
  the node is online, the reputation shown has no penalty for offline time left.
\<close>

theorem penalty_forgotten:
  assumes "storage (db w') = storage (load_page (final disconnectWallet w))"
    and "userAddress (db w') = Some addr" and "provider (db w')" and "script w' = []"
    and "ch_providers (chain (db w')) addr = Some (b, c, f)" and "ch_pledges (chain (db w')) addr \<noteq> []"
    and "api_peer (api (db w')) addr = Some peer"
  shows "reputation (final checkProviderStatus w') = Some (dynamic_reputation 0 c f)"
proof -
  let ?w = "w'\<lparr>db := (db w')\<lparr>isProvider := True\<rparr>\<rparr>"
  have "storage (db w') (penalty_key addr) = None"
    using assms(1) by (simp add: load_page_settings disconnect_fields preserved_def penalty_key_def)
  then have "fst (settle_penalty addr (clock w') True h (db ?w)) = 0" for h
    by (simp add: settle_online stored_penalty_def recover_penalty_def)
  then obtain w2 where "provider_portal addr c f ?w = (Inr (), w2)" "reputation (db w2) = Some (dynamic_reputation 0 c f)"
    using portal_fields[of ?w "db ?w" True addr "ch_pledges (chain (db w')) addr" c f] assms by auto
  then show ?thesis using check_run[OF assms(2-5)] by (simp add: final_def)
qed

section \<open>Witnesses\<close>

definition node_page :: page where
  "node_page = page0\<lparr>chain := (chain page0)\<lparr>ch_providers := (\<lambda>_. Some (100, 4, 0)),
       ch_pledges := (\<lambda>_. [\<lparr>cp_capacity = 50, cp_collateral = 1000, cp_active = False\<rparr>,
                          \<lparr>cp_capacity = 20, cp_collateral = 200, cp_active = True\<rparr>])\<rparr>,
     api := (api page0)\<lparr>api_peer := (\<lambda>_. Some ''12D3'')\<rparr>,
     storage := [''kyneto_rep_penalty_0xabcdef0123456789'' \<mapsto> JObj [(''penalty'', JNum 30), (''lastUpdated'', JNum 0)]]\<rparr>"

theorem outage_recovery_witness:
  "fst (settle_penalty ''a'' 9000000 True None (fold (\<lambda>u s. snd (settle_penalty ''a'' u True None s)) [3700000, 5000000]
     (snd (settle_penalty ''a'' 3600000 False (Some 0) page0)))) = 0"
  using outage_recovery[of 0 3600000 "[3700000, 5000000]" 9000000 "''a''" None None page0]
  by (simp add: offline_penalty_def HALF_HOUR_def DAY_def)

theorem offline_penalty_bounds_witness:
  "offline_penalty 3600000 \<le> offline_penalty 7200000 \<and> offline_penalty (DAY + int 3 * DAY) = 36"
  using offline_penalty_bounds[of 3600000 7200000 3] by simp

theorem portal_shows_active_pledges_witness:
  "cards (final checkProviderStatus \<lparr>db = node_page, clock = 0, script = []\<rparr>) =
     [\<lparr>c_label = ''Upgrade #1'', c_capacity = 20, c_online = True\<rparr>]"
proof -
  have "nat_str 1 = ''1''" by (subst nat_str.simps) (simp add: digit_def char_of_def bit_0)
  then show ?thesis
    using portal_shows_active_pledges[of "\<lparr>db = node_page, clock = 0, script = []\<rparr>" "''0xabcdef0123456789''" 100 4 0
        "ch_pledges (chain node_page) ''0xabcdef0123456789''" True "[1]"]
    by (simp add: node_page_def page0_def Let_def card_label_def upt_rec)
qed

theorem penalty_forgotten_witness:
  "stored_penalty ''0xabcdef0123456789'' 0 node_page = \<lparr>penalty = 30, lastUpdated = 0\<rparr> \<and>
   (\<exists>s. storage s = storage (load_page (final disconnectWallet \<lparr>db = node_page, clock = 0, script = []\<rparr>)) \<and>
     reputation (final checkProviderStatus \<lparr>db = s, clock = 0, script = []\<rparr>) = Some 100)"
proof -
  let ?s = "node_page\<lparr>storage := storage (load_page (final disconnectWallet \<lparr>db = node_page, clock = 0, script = []\<rparr>))\<rparr>"
  have "reputation (final checkProviderStatus \<lparr>db = ?s, clock = 0, script = []\<rparr>) = Some (dynamic_reputation 0 4 0)"
    by (rule penalty_forgotten[where w = "\<lparr>db = node_page, clock = 0, script = []\<rparr>" and addr = "''0xabcdef0123456789''"
          and b = 100 and peer = "''12D3''"])
       (simp_all add: node_page_def page0_def)
  moreover have "dynamic_reputation 0 4 0 = 100" by (simp add: dynamic_reputation_def js_round_def)
  moreover have "stored_penalty ''0xabcdef0123456789'' 0 node_page = \<lparr>penalty = 30, lastUpdated = 0\<rparr>"
    by (simp add: stored_penalty_def node_page_def penalty_key_def)
  ultimately show ?thesis by (intro conjI exI[of _ ?s]) simp_all
qed

end
