(* ===== verification/Dash_Wallet.thy ===== *)
theory Dash_Wallet
  imports Dash_Reputation "HOL-Library.Sublist"
begin

text \<open>
  The wallet of the dashboard (\<^verbatim>\<open>dashboard/app.js\<close>): connecting with a signature, switching the network,
  recovering a missing signer, and sending transactions with a gas buffer. The alternative wallet
  library (AppKit) is not modelled: its project identifier is a placeholder in the source. A request
  for accounts that fails counts as refused by the user (code 4001).
\<close>

definition AMOY_CHAIN_ID :: string where "AMOY_CHAIN_ID = ''0x13882''"

section \<open>Connecting\<close>

definition clear_wallet :: "page \<Rightarrow> page" where
  "clear_wallet s = s\<lparr>userAddress := None, provider := False, signer := False\<rparr>"

definition sign_message :: "bool ui" where
  "sign_message = try_catch (reads (\<lambda>_. True)) (\<lambda>_. ret False)"

definition initializeWallet :: "string option \<Rightarrow> string \<Rightarrow> unit ui" where
  "initializeWallet address source = (case address of
       None \<Rightarrow> local_set clear_wallet
     | Some a \<Rightarrow> try_catch
         (bind sign_message (\<lambda>signed.
            if \<not> signed
            then local_set (\<lambda>s. clear_wallet (addActivity ''System'' ''Wallet connection aborted (signature required)'' ''system'' s))
            else andthen (local_set (\<lambda>s. loadUserSettingsOnConnect (s\<lparr>userAddress := Some a, provider := True, signer := True\<rparr>)))
                (andthen checkProviderStatus
                   (if source \<noteq> ''Auto-Check''
                    then local_set (addActivity ''System'' (''Wallet connected ('' @ source @ ''): '' @ take 6 a @ ''...'' @ drop 38 a) ''system'')
                    else ret ()))))
         (\<lambda>_. local_set clear_wallet))"

text \<open>The calls that were not awaited, once the handler has returned.\<close>

primrec run_tasks :: "task list \<Rightarrow> unit ui" where
  "run_tasks [] = ret ()"
| "run_tasks (x # xs) = andthen (case x of InitializeWallet a source \<Rightarrow> initializeWallet (Some a) source) (run_tasks xs)"

definition run_queue :: "unit ui" where
  "run_queue = bind (local_get tasks) (\<lambda>q. andthen (local_set (\<lambda>s. s\<lparr>tasks := []\<rparr>)) (run_tasks q))"

definition later :: "task \<Rightarrow> unit ui" where
  "later x = local_set (\<lambda>s. s\<lparr>tasks := tasks s @ [x]\<rparr>)"

text \<open>\<^verbatim>\<open>eth_requestAccounts\<close>, refused with the code 4001.\<close>

definition request_accounts :: "string list ui" where
  "request_accounts = try_catch (effect (\<lambda>s. case ethereum s of
       None \<Rightarrow> None
     | Some e \<Rightarrow> Some (eth_offered e, s\<lparr>ethereum := Some (e\<lparr>eth_accounts := eth_offered e\<rparr>)\<rparr>))) (\<lambda>_. throw ''4001'')"

definition set_network :: "string \<Rightarrow> page \<Rightarrow> page" where
  "set_network c s = s\<lparr>ethereum := map_option (\<lambda>e. e\<lparr>eth_chainId := c, eth_known := List.insert c (eth_known e)\<rparr>) (ethereum s)\<rparr>"

text \<open>An unknown network (code 4902) is added; any other failure is only logged.\<close>

definition switchNetwork :: "unit ui" where
  "switchNetwork = try_catch
     (effect (\<lambda>s. if \<exists>e \<in> set_option (ethereum s). AMOY_CHAIN_ID \<in> set (eth_known e)
                  then Some ((), set_network AMOY_CHAIN_ID s) else None))
     (\<lambda>e. if e = ''refused'' then logged (writes (set_network AMOY_CHAIN_ID)) else ret ())"

definition connectWallet :: "unit ui" where
  "connectWallet = bind (local_get ethereum) (\<lambda>e. case e of
       None \<Rightarrow> local_set (showNotification ''error'' ''No Wallet Found'')
     | Some _ \<Rightarrow> try_catch
         (bind request_accounts (\<lambda>accounts. case accounts of
              [] \<Rightarrow> ret ()
            | a # _ \<Rightarrow>
                bind (reads (\<lambda>s. map_option eth_chainId (ethereum s))) (\<lambda>chainId.
                andthen (if chainId \<noteq> Some AMOY_CHAIN_ID then switchNetwork else ret ())
               (andthen (later (InitializeWallet a ''MetaMask''))
                        (local_set (\<lambda>s. s\<lparr>walletListenersRegistered := True\<rparr>))))))
         (\<lambda>e. local_set (showNotification ''error'' (if e = ''4001'' then ''Connection Cancelled'' else ''Connection Failed''))))"

text \<open>The wallet reports other accounts.\<close>

definition on_accountsChanged :: "string list \<Rightarrow> unit ui" where
  "on_accountsChanged newAccounts = (case newAccounts of
       a # _ \<Rightarrow> initializeWallet (Some a) ''MetaMask''
     | [] \<Rightarrow> initializeWallet None ''Unknown'')"

text \<open>
  \<^verbatim>\<open>recoverSigner\<close> starts \<^verbatim>\<open>initializeWallet\<close> without awaiting it and returns \<^verbatim>\<open>!!signer\<close>: the variable is read
  while the signature is still being asked for.
\<close>

definition recoverSigner :: "bool ui" where
  "recoverSigner = bind (local_get (\<lambda>s. signer s \<and> userAddress s \<noteq> None)) (\<lambda>there.
     if there then ret True
     else bind (local_get ethereum) (\<lambda>e. case e of
         None \<Rightarrow> ret False
       | Some _ \<Rightarrow> try_catch
           (bind (reads (\<lambda>s. case ethereum s of Some e \<Rightarrow> eth_accounts e | None \<Rightarrow> [])) (\<lambda>accounts.
            bind (if accounts = [] then request_accounts else ret accounts) (\<lambda>accounts.
              case accounts of
                [] \<Rightarrow> ret False
              | a # _ \<Rightarrow> andthen (later (InitializeWallet a ''Recovery'')) (local_get signer))))
           (\<lambda>e. andthen (if e = ''4001'' then local_set (showNotification ''error'' ''Connection Cancelled'') else ret ()) (ret False))))"

text \<open>The guard in front of every handler that needs the signer.\<close>

definition with_signer :: "unit ui \<Rightarrow> unit ui" where
  "with_signer m = bind (local_get (\<lambda>s. signer s \<and> userAddress s \<noteq> None)) (\<lambda>there.
     if there then m
     else bind recoverSigner (\<lambda>recovered.
       if recovered then m else local_set (showNotification ''error'' ''Wallet Not Connected'')))"

section \<open>Transactions\<close>

definition getGasFees :: "nat option ui" where
  "getGasFees = try_catch (bind (reads (\<lambda>s. ch_gasPrice (chain s))) (\<lambda>gasPrice. ret (Some (gasPrice * 150 div 100)))) (\<lambda>_. ret None)"

definition getGasLimitWithBuffer :: "nat \<Rightarrow> nat" where
  "getGasLimitWithBuffer estimate = estimate * 130 div 100"

text \<open>The wallet submits the transaction or refuses; \<^verbatim>\<open>wait()\<close> fails when it is reverted.\<close>

definition submit :: "chain_call \<Rightarrow> nat option \<Rightarrow> nat option \<Rightarrow> unit ui" where
  "submit c gasPrice gasLimit = writes (\<lambda>s. s\<lparr>sent := sent s @ [\<lparr>tx_call = c, tx_gasPrice = gasPrice, tx_gasLimit = gasLimit\<rparr>]\<rparr>)"

definition wait_tx :: "unit ui" where
  "wait_tx = writes (\<lambda>s. s)"

text \<open>
  Fees, estimate, submission, what the page says while the transaction is pending, and confirmation, as
  every handler has them.
\<close>

definition send_with_gas :: "chain_call \<Rightarrow> unit ui \<Rightarrow> unit ui" where
  "send_with_gas c pending = bind getGasFees (\<lambda>gasFees.
     bind (reads (\<lambda>s. ch_estimate (chain s) c)) (\<lambda>gasEstimate.
       andthen (submit c gasFees (Some (getGasLimitWithBuffer gasEstimate))) (andthen pending wait_tx)))"

definition calls :: "page \<Rightarrow> chain_call list" where
  "calls s = map tx_call (sent s)"

section \<open>The wallet is connected as a whole or not at all\<close>

definition wallet_ok :: "page \<Rightarrow> bool" where
  "wallet_ok s \<longleftrightarrow> (userAddress s \<noteq> None) = signer s \<and> provider s = signer s"

lemma wallet_ok_clear [simp]: "wallet_ok (clear_wallet s)"
  by (simp add: wallet_ok_def clear_wallet_def)

lemma wallet_ok_other [simp]:
  "wallet_ok (addActivity u m k s) = wallet_ok s" "wallet_ok (showNotification k h s) = wallet_ok s"
  "wallet_ok (loadUserSettingsOnConnect s) = wallet_ok s"
  "wallet_ok (s\<lparr>tasks := q\<rparr>) = wallet_ok s" "wallet_ok (s\<lparr>ethereum := e\<rparr>) = wallet_ok s"
  "wallet_ok (s\<lparr>walletListenersRegistered := b\<rparr>) = wallet_ok s" "wallet_ok (set_network c s) = wallet_ok s"
  "wallet_ok (s\<lparr>userAddress := Some a, provider := True, signer := True\<rparr>)"
  by (auto simp: wallet_ok_def addActivity_def showNotification_def set_network_def split: option.split)

lemma wp_checkProviderStatus:
  "(\<And>s'. portal_step s s' \<Longrightarrow> Q () s') \<Longrightarrow> wp t checkProviderStatus Q E s"
  by (rule wp_mono[OF checkProviderStatus_wp]) auto

lemma wp_request_accounts [wp_rules]:
  "E ''4001'' s \<Longrightarrow> (\<And>e. ethereum s = Some e \<Longrightarrow> Q (eth_offered e) (s\<lparr>ethereum := Some (e\<lparr>eth_accounts := eth_offered e\<rparr>)\<rparr>)) \<Longrightarrow>
   wp t request_accounts Q E s"
  unfolding request_accounts_def by (intro wp_try_catch wp_effect) (auto intro: wp_rules split: option.splits)

lemma wp_switchNetwork [wp_rules]:
  "Q () s \<Longrightarrow> Q () (set_network AMOY_CHAIN_ID s) \<Longrightarrow> wp t switchNetwork Q E s"
  unfolding switchNetwork_def by (intro wp_try_catch wp_effect) (auto intro!: wp_rules split: if_splits)

lemma wp_initializeWallet:
  "wallet_ok s \<Longrightarrow> wp t (initializeWallet a src) (\<lambda>_. wallet_ok) (\<lambda>_ _. False) s"
  unfolding initializeWallet_def sign_message_def
  by (auto intro!: wp_rules wp_checkProviderStatus simp: portal_step_def wallet_ok_def addActivity_def clear_wallet_def
      split: option.split)

lemma wp_run_tasks: "wallet_ok s \<Longrightarrow> wp t (run_tasks q) (\<lambda>_. wallet_ok) (\<lambda>_ _. False) s"
proof (induction q arbitrary: s)
  case (Cons x q)
  show ?case
    unfolding run_tasks.simps
    by (cases x) (auto intro!: wp_andthen wp_mono[OF wp_initializeWallet[OF Cons.prems]] Cons.IH)
qed (auto intro: wp_rules)

lemma wp_recoverSigner:
  "wallet_ok s \<Longrightarrow> wp t recoverSigner (\<lambda>r s'. wallet_ok s' \<and> r = signer s \<and> sent s' = sent s) (\<lambda>_ _. False) s"
  unfolding recoverSigner_def later_def
  by (cases "ethereum s"; cases "signer s") (auto intro!: wp_rules split: list.split simp: showNotification_def wallet_ok_def)

text \<open>Everything that happens to the wallet while the page is open, in any order, failing in any way.\<close>

inductive wallet_step :: "page \<Rightarrow> page \<Rightarrow> bool" where
  connect: "wallet_step (db w) (final connectWallet w)"
| accounts: "wallet_step (db w) (final (on_accountsChanged as) w)"
| recover: "wallet_step (db w) (final recoverSigner w)"
| queued: "wallet_step (db w) (final run_queue w)"
| status: "wallet_step (db w) (final checkProviderStatus w)"
| disconnect: "wallet_step (db w) (final disconnectWallet w)"
| navigate: "wallet_step s (load_page s)"

inductive_cases wallet_stepE: "wallet_step s s'"

lemma final_ok: "wp (clock w) m (\<lambda>_. I) (\<lambda>_ _. False) (db w) \<Longrightarrow> I (final m w)"
proof -
  assume "wp (clock w) m (\<lambda>_. I) (\<lambda>_ _. False) (db w)"
  then have "wp (clock w) m (\<lambda>_. I) (\<lambda>_. I) (db w)" by (rule wp_mono) auto
  then show ?thesis by (rule wp_final_now)
qed

lemma wp_returns:
  "wp t m Q (\<lambda>_ _. False) s \<Longrightarrow> db w = s \<Longrightarrow> clock w = t \<Longrightarrow> \<exists>x w'. m w = (Inr x, w') \<and> Q x (db w')"
  unfolding wp_def by (cases "m w", drule spec[of _ w]) (auto split: sum.splits)

lemma wallet_step_ok:
  assumes "wallet_step s s'" and "wallet_ok s"
  shows "wallet_ok s'"
  using assms
proof (induction rule: wallet_step.induct)
  case (connect w)
  show ?case unfolding connectWallet_def later_def
    by (rule final_ok, rule wp_bind, rule wp_local_get, cases "ethereum (db w)") (use connect in \<open>auto intro!: wp_rules split: list.split\<close>)
next
  case (accounts w as)
  show ?case unfolding on_accountsChanged_def
    by (rule final_ok) (use accounts in \<open>auto intro: wp_initializeWallet split: list.split\<close>)
next
  case (recover w)
  show ?case by (rule final_ok, rule wp_mono[OF wp_recoverSigner[OF recover]]) auto
next
  case (queued w)
  show ?case unfolding run_queue_def
    by (rule final_ok, intro wp_bind wp_andthen wp_local_get wp_local_set wp_run_tasks) (use queued in simp)
next
  case (status w)
  show ?case by (rule final_ok, rule wp_checkProviderStatus) (use status in \<open>auto simp: portal_step_def wallet_ok_def\<close>)
next
  case (disconnect w)
  show ?case unfolding disconnectWallet_def
    by (rule final_ok, rule wp_bind, rule wp_local_get, rule wp_andthen, rule wp_bind, rule wp_local_get, cases "ethereum (db w)") (use disconnect in \<open>auto intro!: wp_rules simp: wallet_ok_def showNotification_def\<close>)
next
  case (navigate s)
  then show ?case by (simp add: load_page_def loadSettings_def loadSavedTheme_def fresh_page_def wallet_ok_def split: option.split)
qed


section \<open>Recovering the signer\<close>

lemma with_signer_blocked:
  assumes "wallet_ok s" and "\<not> signer s"
  shows "wp t (with_signer m) (\<lambda>_ s'. sent s' = sent s \<and> last (toasts s') = (''error'', ''Wallet Not Connected'')) (\<lambda>_ _. False) s"
  unfolding with_signer_def
  using assms by (auto intro!: wp_rules wp_mono[OF wp_recoverSigner[OF assms(1)]] simp: showNotification_def)

text \<open>
  The first click is lost. Without a connected wallet, a handler behind the guard is not run even if
  the wallet has an account to offer and nothing fails: the guard shows an error and sends nothing,
  because the recovery reads the signer before the initialisation it started has run. Once that has
  run, the same click goes through.
\<close>

theorem first_click_is_lost:
  assumes "wallet_ok (db w)" and "\<not> signer (db w)" and "script w = []" and "tasks (db w) = []"
    and "ethereum (db w) = Some e" and "eth_accounts e = a # as"
  shows "\<exists>w' w''. with_signer m w = (Inr (), w') \<and> sent (db w') = sent (db w) \<and>
    last (toasts (db w')) = (''error'', ''Wallet Not Connected'') \<and>
    run_queue w' = (Inr (), w'') \<and> userAddress (db w'') = Some a \<and> with_signer m w'' = m w''"
proof -
  let ?s = "db w"
  let ?s' = "showNotification ''error'' ''Wallet Not Connected'' (?s\<lparr>tasks := [InitializeWallet a ''Recovery'']\<rparr>)"
  have first: "with_signer m w = (Inr (), w\<lparr>db := ?s'\<rparr>)"
    using assms by (simp add: with_signer_def recoverSigner_def later_def)
  let ?s2 = "loadUserSettingsOnConnect (?s'\<lparr>tasks := [], userAddress := Some a, provider := True, signer := True\<rparr>)"
  obtain w3 where w3: "checkProviderStatus (w\<lparr>db := ?s2\<rparr>) = (Inr (), w3)" "portal_step ?s2 (db w3)"
    using wp_returns[OF checkProviderStatus_wp, of "w\<lparr>db := ?s2\<rparr>" ?s2 "clock w"] by auto
  then have "run_queue (w\<lparr>db := ?s'\<rparr>) = (Inr (), w3\<lparr>db := addActivity ''System'' (''Wallet connected ('' @ ''Recovery'' @ ''): '' @ take 6 a @ ''...'' @ drop 38 a) ''system'' (db w3)\<rparr>)"
    using assms by (simp add: run_queue_def initializeWallet_def sign_message_def showNotification_def)
  moreover have "userAddress (db w3) = Some a \<and> signer (db w3)"
    using w3(2) by (simp add: portal_step_def)
  ultimately show ?thesis
    using first assms(5) by (auto simp: with_signer_def showNotification_def addActivity_def)
qed

section \<open>Witnesses\<close>

definition eth_page :: page where
  "eth_page = (load_page page0)\<lparr>ethereum := Some \<lparr>eth_accounts = [''0xA''], eth_offered = [''0xA''], eth_chainId = ''0x1'',
     eth_known = []\<rparr>\<rparr>"

lemma eth_page_fields [simp]:
  "userAddress eth_page = None" "signer eth_page = False" "provider eth_page = False" "tasks eth_page = []"
  "ethereum eth_page = Some \<lparr>eth_accounts = [''0xA''], eth_offered = [''0xA''], eth_chainId = ''0x1'', eth_known = []\<rparr>"
  by (simp_all add: eth_page_def load_page_def loadSettings_def loadSavedTheme_def fresh_page_def page0_def)


theorem first_click_is_lost_witness:
  "\<exists>w' w''. with_signer (ret ()) \<lparr>db = eth_page, clock = 0, script = []\<rparr> = (Inr (), w') \<and> sent (db w') = sent eth_page \<and>
    last (toasts (db w')) = (''error'', ''Wallet Not Connected'') \<and> run_queue w' = (Inr (), w'') \<and>
    userAddress (db w'') = Some ''0xA'' \<and> with_signer (ret ()) w'' = ret () w''"
  using first_click_is_lost[of "\<lparr>db = eth_page, clock = 0, script = []\<rparr>"
      "\<lparr>eth_accounts = [''0xA''], eth_offered = [''0xA''], eth_chainId = ''0x1'', eth_known = []\<rparr>" "''0xA''" "[]" "ret ()"]
  by (simp add: wallet_ok_def)

end
