(* ===== verification/Dash_Contracts.thy ===== *)
theory Dash_Contracts
  imports Dash_Wallet
begin

text \<open>
  The dashboard's transactions (\<^verbatim>\<open>dashboard/app.js\<close>): staking, registering a node, upgrading and leaving a
  pledge and withdrawing, together with the amounts the contracts charge, those for deals included (\<^verbatim>\<open>contracts/core\<close>). Amounts are natural numbers: the overflow
  of 256-bit integers, which reverts, is not modelled. Button captions, spinners,
  transaction hashes and the amounts in messages are left out.
\<close>

section \<open>What the contracts charge\<close>

definition months_of :: "nat \<Rightarrow> nat" where
  "months_of days = (days + 29) div 30"

definition sol_deal_charge :: "nat \<Rightarrow> nat \<Rightarrow> nat \<Rightarrow> nat \<Rightarrow> nat \<Rightarrow> nat" where
  "sol_deal_charge feeBasisPoints kynPriceUSD fileSizeGB pricePerGBMonthUSD durationDays =
     (let pricePerGBMonth = pricePerGBMonthUSD * 10 ^ 18 div kynPriceUSD;
          totalMonths = months_of durationDays;
          providerPayment = fileSizeGB * pricePerGBMonth * totalMonths;
          protocolFee = providerPayment * feeBasisPoints div 10000
      in providerPayment + protocolFee)"

definition sol_renew_charge :: "nat \<Rightarrow> chain_deal \<Rightarrow> nat \<Rightarrow> nat" where
  "sol_renew_charge feeBasisPoints deal additionalDays =
     (let totalMonths = months_of additionalDays;
          renewalCost = cd_fileSizeGB deal * cd_pricePerGBMonth deal * totalMonths;
          protocolFee = renewalCost * feeBasisPoints div 10000
      in renewalCost + protocolFee)"

definition calculateMinimumCollateral :: "nat \<Rightarrow> nat" where
  "calculateMinimumCollateral capacityGB = capacityGB * 75 * 10 ^ 16"

section \<open>Calls\<close>

definition num :: "nat \<Rightarrow> json" where "num n = JNum (of_nat n)"

definition KYN :: nat where "KYN = 10 ^ 18"

definition THIRTY_DAYS :: nat where "THIRTY_DAYS = 30 * 24 * 60 * 60"

definition approve_call :: "string \<Rightarrow> nat \<Rightarrow> chain_call" where
  "approve_call spender amount = Tx ''KYN'' ''approve'' [JStr spender, num amount]"

definition pledge_call :: "nat \<Rightarrow> nat \<Rightarrow> chain_call" where
  "pledge_call capacity collateral = Tx ''CapacityPledge'' ''createPledge'' [num capacity, num THIRTY_DAYS, num collateral]"

definition toast :: "string \<Rightarrow> string \<Rightarrow> unit ui" where
  "toast type title = local_set (showNotification type title)"

definition activity :: "string \<Rightarrow> string \<Rightarrow> string \<Rightarrow> unit ui" where
  "activity user msg type = local_set (addActivity user msg type)"

definition show_view :: "string \<Rightarrow> unit ui" where
  "show_view v = local_set (\<lambda>s. s\<lparr>view := v\<rparr>)"

definition my_address :: "string ui" where
  "my_address = local_get (\<lambda>s. case userAddress s of Some a \<Rightarrow> a | None \<Rightarrow> [])"

section \<open>Staking\<close>

definition stake_error :: "string \<Rightarrow> string" where
  "stake_error message =
     (if str_includes message ''rejected'' then ''Transaction Cancelled''
      else if str_includes message ''insufficient funds'' then ''Insufficient POL''
      else if str_includes message ''ERC20: insufficient allowance'' then ''Token Balance Low''
      else ''Transaction Failed'')"

definition handleStake :: "unit ui" where
  "handleStake = with_signer (try_catch
     (bind my_address (\<lambda>me.
      bind (reads (\<lambda>s. ch_providers (chain s) me)) (\<lambda>providerData.
        if providerData \<noteq> None
        then andthen (toast ''info'' ''Already Registered'')
            (andthen (local_set (\<lambda>s. s\<lparr>isProvider := True\<rparr>))
            (andthen checkProviderStatus (show_view ''provider'')))
        else
          bind (reads (\<lambda>s. ch_allowance (chain s) me ''CapacityPledge'')) (\<lambda>allowance.
          if allowance \<ge> 1000 * KYN then toast ''success'' ''Already Approved''
          else
            bind (reads (\<lambda>s. ch_balance (chain s) me)) (\<lambda>balance.
            if balance < 1000 * KYN then toast ''error'' ''Insufficient KYN Balance''
            else
              andthen (activity ''System'' ''Initiating KYN approval...'' ''system'')
             (andthen (toast ''info'' ''Confirm Transaction'')
             (andthen (send_with_gas (approve_call ''CapacityPledge'' (1000 * KYN))
                         (andthen (toast ''info'' ''Transaction Pending'') (activity ''System'' ''Approval pending...'' ''system'')))
             (andthen (toast ''success'' ''Approval Successful'')
                      (activity ''User'' ''Approved 1,000 KYN for staking'' ''user'')))))))))
     (\<lambda>e. toast ''error'' (stake_error e)))"

section \<open>Registering a node\<close>

text \<open>The form: the text of the capacity field and its number, and the other fields.\<close>

record register_form =
  rf_text :: string
  rf_capacity :: rat
  rf_region :: string
  rf_peerId :: string
  rf_endpoint :: string
  rf_minPrice :: rat

definition register_call :: "register_form \<Rightarrow> chain_call" where
  "register_call f = Tx ''ProviderRegistry'' ''registerProvider''
     [JStr (rf_peerId f), JStr (rf_endpoint f), JStr (rf_region f), JNum (of_int (js_round (rf_minPrice f * 1000000)))]"

definition register_error :: "string \<Rightarrow> string" where
  "register_error message =
     (if str_includes message ''rejected'' then ''Transaction Cancelled''
      else if str_includes message ''insufficient funds'' then ''Insufficient POL''
      else if str_includes message ''ERC20: insufficient allowance'' then ''Approval Required''
      else if str_includes message ''ERC20: transfer amount exceeds balance'' then ''Insufficient KYN Balance''
      else ''Registration Failed'')"

text \<open>
  Approve the collateral unless the allowance already covers it, then pledge: the same steps when
  registering and when upgrading, with different captions.
\<close>

record captions =
  t_approving :: string
  t_confirm :: string
  t_approved :: string
  t_pledging :: string
  t_pending :: string

definition approve_and_pledge :: "captions \<Rightarrow> nat \<Rightarrow> nat \<Rightarrow> unit ui" where
  "approve_and_pledge t capacity collateral = bind my_address (\<lambda>me.
     bind (reads (\<lambda>s. ch_allowance (chain s) me ''CapacityPledge'')) (\<lambda>allowance.
       andthen (if allowance < collateral
                then andthen (activity ''System'' (t_approving t) ''system'')
                    (andthen (toast ''info'' (t_confirm t))
                    (andthen (send_with_gas (approve_call ''CapacityPledge'' collateral) (toast ''info'' ''Approval Pending''))
                             (toast ''success'' (t_approved t))))
                else ret ())
      (andthen (activity ''System'' (t_pledging t) ''system'')
               (send_with_gas (pledge_call capacity collateral) (toast ''info'' (t_pending t))))))"

definition register_captions :: captions where
  "register_captions = \<lparr>t_approving = ''Re-approving KYN for capacity pledge...'', t_confirm = ''Approve KYN'',
     t_approved = ''Approval Confirmed'', t_pledging = ''Creating capacity pledge...'', t_pending = ''Pledge Pending''\<rparr>"

definition handleRegisterNode :: "register_form \<Rightarrow> unit ui" where
  "handleRegisterNode f =
     (if rf_text f = [] \<or> rf_region f = [] then toast ''error'' ''Error''
      else with_signer (try_catch
        (bind my_address (\<lambda>me.
         bind (reads (\<lambda>s. ch_providers (chain s) me)) (\<lambda>providerData.
           andthen (if providerData = None
                    then andthen (activity ''System'' ''Registering provider in registry...'' ''system'')
                        (andthen (send_with_gas (register_call f) (toast ''info'' ''Registration Pending''))
                                 (activity ''System'' ''Provider registered successfully'' ''system''))
                    else activity ''System'' ''Provider already registered, skipping registry step...'' ''system'')
          (andthen (approve_and_pledge register_captions (nat \<lceil>rf_capacity f\<rceil>) (1000 * KYN))
          (andthen (toast ''success'' ''Node Fully Registered!'')
          (andthen (activity ''User'' (''Registered node with '' @ rf_text f @ '' GB capacity in '' @ to_upper (rf_region f)) ''user'')
          (andthen checkProviderStatus
          (andthen (toast ''success'' ''Node Registered!'') (show_view ''provider'')))))))))
        (\<lambda>e. toast ''error'' (register_error e))))"

section \<open>Pledges\<close>

definition upgrade_captions :: "nat \<Rightarrow> captions" where
  "upgrade_captions gb = \<lparr>t_approving = ''Initiating KYN approval for pledge upgrade...'', t_confirm = ''Confirm Transaction'',
     t_approved = ''Approval Successful'', t_pledging = ''Initiating upgrade pledge for '' @ nat_str gb @ '' GB...'',
     t_pending = ''Upgrade Pending''\<rparr>"

definition handleUpgradePledge :: "nat option \<Rightarrow> unit ui" where
  "handleUpgradePledge additional = (case additional of
       None \<Rightarrow> toast ''error'' ''Error''
     | Some gb \<Rightarrow> with_signer (try_catch
         (andthen (approve_and_pledge (upgrade_captions gb) gb (gb * 10 * KYN))
         (andthen (toast ''success'' ''Upgrade Successful!'')
         (andthen (activity ''User'' (''Upgraded pledge by '' @ nat_str gb @ '' GB'') ''user'')
         (andthen checkProviderStatus (show_view ''provider'')))))
         (\<lambda>_. toast ''error'' ''Upgrade Failed'')))"

text \<open>The pledge is read first; a pledge that is gone is only cleared from the page.\<close>

definition exit_call :: "nat \<Rightarrow> chain_call" where
  "exit_call pledgeId = Tx ''CapacityPledge'' ''exitPledgeEarly'' [num pledgeId]"

definition exit_confirmed :: "nat \<Rightarrow> unit ui" where
  "exit_confirmed pledgeId = try_catch
     (andthen (activity ''System'' (''Initiating early exit for Pledge #'' @ nat_str pledgeId @ ''...'') ''system'')
     (andthen (toast ''info'' ''Confirm Transaction'')
     (bind getGasFees (\<lambda>gasFees.
        andthen (submit (exit_call pledgeId) gasFees (Some 300000))
       (andthen (toast ''info'' ''Transaction Pending'')
       (andthen wait_tx
       (andthen (toast ''success'' ''Pledge Exited'')
       (andthen (activity ''User'' (''Exited Pledge #'' @ nat_str pledgeId @ '' early'') ''user'') checkProviderStatus))))))))
     (\<lambda>_. toast ''error'' ''Exit Failed'')"

definition handleExitPledge :: "nat \<Rightarrow> bool \<Rightarrow> unit ui" where
  "handleExitPledge pledgeId confirmed = with_signer (
     bind my_address (\<lambda>me.
     bind (try_catch (reads (\<lambda>s. cp_active (ch_pledges (chain s) me ! pledgeId))) (\<lambda>_. ret True)) (\<lambda>isActive.
       if \<not> isActive
       then andthen (andthen (toast ''success'' ''Node Removed'')
                             (activity ''System'' (''Pledge #'' @ nat_str pledgeId @ '' is already inactive'') ''system''))
           (andthen (local_set (\<lambda>s. s\<lparr>cards := [], no_nodes := True\<rparr>)) checkProviderStatus)
       else if confirmed then exit_confirmed pledgeId else ret ())))"

section \<open>Earnings\<close>

definition withdraw_call :: chain_call where
  "withdraw_call = Tx ''PaymentDistributor'' ''withdrawEarnings'' []"

definition withdrawEarnings :: "unit ui" where
  "withdrawEarnings = with_signer (try_catch
     (bind my_address (\<lambda>me.
      bind (reads (\<lambda>s. ch_earnings (chain s) me)) (\<lambda>available.
        if available = 0 then toast ''info'' ''No Earnings''
        else andthen (activity ''System'' ''Initiating withdrawal...'' ''system'')
            (andthen (toast ''info'' ''Transaction Pending'')
            (andthen (send_with_gas withdraw_call (andthen (activity ''System'' ''Withdrawal transaction sent'' ''system'')
                                                            (toast ''info'' ''Withdrawal Pending'')))
            (andthen (activity ''User'' ''Successfully withdrew'' ''user'') (toast ''success'' ''Withdrawal Successful'')))))))
     (\<lambda>e. andthen (activity ''System'' (''Withdrawal failed: '' @ e) ''error'')
         (toast ''error'' (if str_includes e ''rejected'' then ''Transaction Cancelled''
           else if str_includes e ''insufficient funds'' then ''Insufficient Gas'' else ''Withdrawal Failed''))))"

section \<open>Reasoning about transactions\<close>

text \<open>What matters between two steps of a handler: the calls made so far, the chain's answers, the address.\<close>

definition tx_at :: "chain_call list \<Rightarrow> chain \<Rightarrow> string option \<Rightarrow> page \<Rightarrow> bool" where
  "tx_at L c a s \<longleftrightarrow> calls s = L \<and> chain s = c \<and> userAddress s = a"

text \<open>Steps that only change what the page shows.\<close>

definition cosmetic :: "unit ui \<Rightarrow> bool" where
  "cosmetic m \<longleftrightarrow> (\<forall>t L c a s. tx_at L c a s \<longrightarrow> wp t m (\<lambda>_. tx_at L c a) (\<lambda>_ _. False) s)"

named_theorems cosmetic_rules

lemma cosmetic_basic [cosmetic_rules]:
  "cosmetic (toast k h)" "cosmetic (activity u m k)" "cosmetic (show_view v)" "cosmetic (ret ())"
  by (auto simp: cosmetic_def toast_def activity_def show_view_def tx_at_def calls_def showNotification_def addActivity_def
      intro!: wp_rules)

lemma cosmetic_flags [cosmetic_rules]:
  "cosmetic (local_set (\<lambda>s. s\<lparr>isProvider := b\<rparr>))" "cosmetic (local_set (\<lambda>s. s\<lparr>cards := cs, no_nodes := b\<rparr>))"
  by (auto simp: cosmetic_def tx_at_def calls_def intro!: wp_rules)

lemma cosmetic_check [cosmetic_rules]: "cosmetic checkProviderStatus"
  unfolding cosmetic_def by (auto intro!: wp_checkProviderStatus simp: tx_at_def calls_def portal_step_def)

lemma cosmetic_andthen [cosmetic_rules]: "cosmetic m \<Longrightarrow> cosmetic k \<Longrightarrow> cosmetic (andthen m k)"
  unfolding cosmetic_def by (blast intro: wp_andthen wp_mono)

lemma wp_cosmetic:
  assumes "cosmetic m" and "tx_at L c a s" and "\<And>s'. tx_at L c a s' \<Longrightarrow> Q () s'"
  shows "wp t m Q E s"
  by (rule wp_mono[of t m "\<lambda>_. tx_at L c a" "\<lambda>_ _. False"]) (use assms in \<open>auto simp: cosmetic_def\<close>)

lemma wp_toast: "Q () (showNotification k h s) \<Longrightarrow> wp t (toast k h) Q E s"
  by (simp add: toast_def wp_local_set)

lemma wp_my_address: "userAddress s = Some me \<Longrightarrow> Q me s \<Longrightarrow> wp t my_address Q E s"
  by (simp add: my_address_def wp_local_get)

lemma wp_getGasFees: "(\<And>x. Q x s) \<Longrightarrow> wp t getGasFees Q E s"
  unfolding getGasFees_def by (auto intro!: wp_rules)

lemma wp_submit: "E ''rejected'' s \<Longrightarrow> (\<And>s'. calls s' = calls s @ [x] \<Longrightarrow> chain s' = chain s \<Longrightarrow> userAddress s' = userAddress s \<Longrightarrow> Q () s') \<Longrightarrow>
   wp t (submit x p l) Q E s"
  unfolding submit_def by (auto intro!: wp_rules simp: calls_def)

text \<open>Sending one transaction: nothing, or the call appended; an error leaves one of the two.\<close>

lemma wp_send_with_gas:
  assumes "cosmetic p" and "tx_at L c a s"
    and "\<And>s'. tx_at (L @ [x]) c a s' \<Longrightarrow> Q () s'"
    and "\<And>e s'. tx_at L c a s' \<Longrightarrow> E e s'" and "\<And>e s'. tx_at (L @ [x]) c a s' \<Longrightarrow> E e s'"
  shows "wp t (send_with_gas x p) Q E s"
  unfolding send_with_gas_def wait_tx_def
proof (intro wp_bind wp_getGasFees wp_reads wp_andthen wp_submit)
  fix s'
  assume "calls s' = calls s @ [x]" "chain s' = chain s" "userAddress s' = userAddress s"
  then have "tx_at (L @ [x]) c a s'" using assms(2) by (simp add: tx_at_def)
  then show "wp t p (\<lambda>_. wp t (writes (\<lambda>s. s)) Q E) E s'"
    using assms(1,3,5) by (auto intro!: wp_cosmetic[of p] wp_writes)
qed (use assms in auto)

text \<open>The calls a handler makes are a beginning of its plan.\<close>

definition follows_plan :: "chain_call list \<Rightarrow> chain_call list \<Rightarrow> page \<Rightarrow> bool" where
  "follows_plan L plan s \<longleftrightarrow> prefix L (calls s) \<and> prefix (calls s) (L @ plan)"

definition pledge_plan :: "chain \<Rightarrow> string \<Rightarrow> nat \<Rightarrow> nat \<Rightarrow> chain_call list" where
  "pledge_plan c me cap col =
     (if ch_allowance c me ''CapacityPledge'' < col then [approve_call ''CapacityPledge'' col] else []) @ [pledge_call cap col]"

definition register_plan :: "register_form \<Rightarrow> chain \<Rightarrow> string \<Rightarrow> chain_call list" where
  "register_plan f c me = (if ch_providers c me = None then [register_call f] else []) @
     pledge_plan c me (nat \<lceil>rf_capacity f\<rceil>) (1000 * KYN)"

lemma wp_approve_and_pledge:
  assumes s: "tx_at L c (Some me) s"
    and Q: "\<And>s'. tx_at (L @ pledge_plan c me cap col) c (Some me) s' \<Longrightarrow> Q () s'"
    and E: "\<And>e s' k. tx_at (L @ take k (pledge_plan c me cap col)) c (Some me) s' \<Longrightarrow> E e s'"
  shows "wp t (approve_and_pledge ca cap col) Q E s"
proof -
  have E0: "E e s'" if "tx_at L c (Some me) s'" for e s' using E[of 0] that by simp
  show ?thesis
    unfolding approve_and_pledge_def
  proof (intro wp_bind wp_my_address[of s me] wp_reads wp_andthen)
    show "wp t (if ch_allowance (chain s) me ''CapacityPledge'' < col
        then andthen (activity ''System'' (t_approving ca) ''system'') (andthen (toast ''info'' (t_confirm ca))
          (andthen (send_with_gas (approve_call ''CapacityPledge'' col) (toast ''info'' ''Approval Pending'')) (toast ''success'' (t_approved ca))))
        else ret ())
      (\<lambda>_. wp t (andthen (activity ''System'' (t_pledging ca) ''system'')
        (send_with_gas (pledge_call cap col) (toast ''info'' (t_pending ca)))) Q E) E s"
    proof (cases "ch_allowance c me ''CapacityPledge'' < col")
      case True
      then show ?thesis
        using s E0 Q E[of 1] E[of 2]
        by (auto simp: tx_at_def[of _ _ _ s] pledge_plan_def intro!: wp_andthen wp_cosmetic[OF cosmetic_basic(1)]
            wp_cosmetic[OF cosmetic_basic(2)] wp_send_with_gas[OF cosmetic_basic(1)])
    next
      case False
      then show ?thesis
        using s E0 Q E[of 1]
        by (auto simp: tx_at_def[of _ _ _ s] pledge_plan_def intro!: wp_ret wp_andthen wp_cosmetic[OF cosmetic_basic(2)]
            wp_send_with_gas[OF cosmetic_basic(1)])
    qed
  qed (use s E0 in \<open>auto simp: tx_at_def\<close>)
qed

lemma follows_planI: "tx_at (L @ take k plan) c a s \<Longrightarrow> follows_plan L plan s"
  by (simp add: tx_at_def follows_plan_def take_is_prefix)

lemma follows_plan_all: "tx_at (L @ plan) c a s \<Longrightarrow> follows_plan L plan s"
  by (simp add: tx_at_def follows_plan_def)

lemma wp_with_signer:
  assumes "wallet_ok s" and "signer s \<Longrightarrow> wp t m Q (\<lambda>_ _. False) s"
    and "\<And>s'. \<not> signer s \<Longrightarrow> sent s' = sent s \<Longrightarrow> Q () s'"
  shows "wp t (with_signer m) Q (\<lambda>_ _. False) s"
proof (cases "signer s")
  case True
  then have "userAddress s \<noteq> None" using assms(1) by (simp add: wallet_ok_def)
  then show ?thesis using True assms(2) by (auto simp: with_signer_def intro!: wp_rules)
next
  case False
  show ?thesis by (rule wp_mono[OF with_signer_blocked[OF assms(1) False]]) (use assms(3) False in auto)
qed

section \<open>Registration and upgrades\<close>

lemma wp_register_first:
  assumes "tx_at L c a s" and "\<And>s'. tx_at (L @ R) c a s' \<Longrightarrow> Q () s'"
    and "\<And>e s'. tx_at L c a s' \<Longrightarrow> E e s'" and "\<And>e s'. tx_at (L @ R) c a s' \<Longrightarrow> E e s'"
    and "R = (if unknown then [x] else [])"
  shows "wp t (if unknown then andthen (activity u m k) (andthen (send_with_gas x (toast v h)) (activity u m' k)) else activity u m'' k) Q E s"
  using assms
  by (auto intro!: wp_andthen wp_cosmetic[OF cosmetic_basic(2)] wp_send_with_gas[OF cosmetic_basic(1)])

text \<open>
  Registering a node sends transactions in order, and only those that are needed. Whatever fails, the
  calls made are a beginning of this plan: register (unless the registry knows the address), approve
  the collateral (unless the allowance covers it), pledge. So the pledge is never sent without the
  two before it having been confirmed, and without a connected wallet nothing is sent.
\<close>

theorem register_follows_plan:
  assumes "wallet_ok (db w)"
  shows "follows_plan (calls (db w))
    (case userAddress (db w) of None \<Rightarrow> [] | Some me \<Rightarrow> register_plan f (chain (db w)) me)
    (final (handleRegisterNode f) w)"
  (is "follows_plan ?L ?plan _")
proof -
  let ?c = "chain (db w)" and ?cap = "nat \<lceil>rf_capacity f\<rceil>" and ?col = "1000 * KYN"
  have none: "follows_plan ?L ?plan s" if "sent s = sent (db w)" for s
    using that by (simp add: follows_plan_def calls_def)
  have body: "wp t (bind my_address (\<lambda>me. bind (reads (\<lambda>s. ch_providers (chain s) me)) (\<lambda>providerData.
      andthen (if providerData = None
               then andthen (activity ''System'' ''Registering provider in registry...'' ''system'')
                   (andthen (send_with_gas (register_call f) (toast ''info'' ''Registration Pending''))
                            (activity ''System'' ''Provider registered successfully'' ''system''))
               else activity ''System'' ''Provider already registered, skipping registry step...'' ''system'')
     (andthen (approve_and_pledge register_captions ?cap ?col) m)))) (\<lambda>_. follows_plan ?L ?plan) (\<lambda>_. follows_plan ?L ?plan) (db w)"
    if m: "cosmetic m" and me: "userAddress (db w) = Some me" for m me t
  proof (intro wp_bind wp_my_address[OF me] wp_reads wp_andthen)
    let ?R = "if ch_providers ?c me = None then [register_call f] else []" and ?P = "pledge_plan ?c me ?cap ?col"
    have start: "tx_at ?L ?c (Some me) (db w)" using me by (simp add: tx_at_def)
    have plan: "?plan = ?R @ ?P" using me by (simp add: register_plan_def)
    have part: "follows_plan ?L ?plan s" if "tx_at ((?L @ ?R) @ take k ?P) ?c (Some me) s" for s k
      using that unfolding plan by (simp add: tx_at_def follows_plan_def take_is_prefix)
    show "wp t (if ch_providers ?c me = None
        then andthen (activity ''System'' ''Registering provider in registry...'' ''system'')
            (andthen (send_with_gas (register_call f) (toast ''info'' ''Registration Pending''))
                     (activity ''System'' ''Provider registered successfully'' ''system''))
        else activity ''System'' ''Provider already registered, skipping registry step...'' ''system'')
      (\<lambda>_. wp t (andthen (approve_and_pledge register_captions ?cap ?col) m) (\<lambda>_. follows_plan ?L ?plan) (\<lambda>_. follows_plan ?L ?plan))
      (\<lambda>_. follows_plan ?L ?plan) (db w)"
    proof (rule wp_register_first[OF start _ _ _ refl])
      fix s assume s: "tx_at (?L @ ?R) ?c (Some me) s"
      show "wp t (andthen (approve_and_pledge register_captions ?cap ?col) m) (\<lambda>_. follows_plan ?L ?plan) (\<lambda>_. follows_plan ?L ?plan) s"
        by (rule wp_andthen, rule wp_approve_and_pledge[OF s], rule wp_cosmetic[OF m], assumption)
           (use part[of "length ?P"] part in auto)
      show "follows_plan ?L ?plan s" using part[of 0] s by simp
    qed (auto simp: tx_at_def follows_plan_def)
  qed (simp add: none)
  have "wp t (handleRegisterNode f) (\<lambda>_. follows_plan ?L ?plan) (\<lambda>_ _. False) (db w)" for t
    unfolding handleRegisterNode_def
    using assms none
    by (auto intro!: wp_with_signer wp_try_catch wp_mono[OF body] cosmetic_rules wp_toast simp: wallet_ok_def
        follows_plan_def calls_def showNotification_def)
  then show ?thesis by (rule final_ok)
qed

section \<open>Plans are completed\<close>

lemma orderly_portal: "orderly (provider_portal addr c f)"
  unfolding provider_portal_def relay_check_def fetch_row_def Let_def
  by (intro orderly_rules orderly_show_pledges)

lemma orderly_check: "orderly checkProviderStatus"
  unfolding checkProviderStatus_def
  by (auto intro!: orderly_rules orderly_portal split: prod.split option.split bool.split)

definition quiet_cosmetic :: "unit ui \<Rightarrow> bool" where
  "quiet_cosmetic m \<longleftrightarrow> cosmetic m \<and> orderly m"

lemma quiet_cosmetic_basic:
  "quiet_cosmetic (toast k h)" "quiet_cosmetic (activity u m k)" "quiet_cosmetic (show_view v)" "quiet_cosmetic (ret ())"
  "quiet_cosmetic checkProviderStatus"
  by (auto simp: quiet_cosmetic_def toast_def[of k h] activity_def[of u m k] show_view_def[of v] intro!: orderly_rules orderly_check)
     (rule cosmetic_rules[unfolded toast_def activity_def show_view_def])+

lemma quiet_cosmetic_andthen: "quiet_cosmetic m \<Longrightarrow> quiet_cosmetic k \<Longrightarrow> quiet_cosmetic (andthen m k)"
  by (simp add: quiet_cosmetic_def cosmetic_andthen orderly_andthen)

lemma quietly_cosmetic:
  assumes "quiet_cosmetic m" and "tx_at L c a s" and "\<And>s'. tx_at L c a s' \<Longrightarrow> Q () s'"
  shows "quietly t m Q s"
  by (rule quietly_wp, rule wp_cosmetic) (use assms in \<open>auto simp: quiet_cosmetic_def\<close>)

lemma quietly_send:
  assumes "quiet_cosmetic p" and "tx_at L c a s" and "\<And>s'. tx_at (L @ [x]) c a s' \<Longrightarrow> Q () s'"
  shows "quietly t (send_with_gas x p) Q s"
  unfolding send_with_gas_def getGasFees_def wait_tx_def submit_def
  by (intro quiet_rules, rule quietly_cosmetic[OF assms(1), of "L @ [x]" c a])
     (use assms(2,3) in \<open>auto simp: tx_at_def calls_def intro!: quiet_rules\<close>)

lemma quietly_my_address: "userAddress s = Some me \<Longrightarrow> Q me s \<Longrightarrow> quietly t my_address Q s"
  by (simp add: my_address_def quietly_local)

lemma quietly_approve_and_pledge:
  assumes "tx_at L c (Some me) s" and "\<And>s'. tx_at (L @ pledge_plan c me cap col) c (Some me) s' \<Longrightarrow> Q () s'"
  shows "quietly t (approve_and_pledge ca cap col) Q s"
  unfolding approve_and_pledge_def
  using assms
  by (auto simp: tx_at_def[of _ _ _ s] pledge_plan_def split: if_splits
      intro!: quietly_bind quietly_andthen quietly_reads quietly_ret quietly_my_address
        quietly_cosmetic[OF quiet_cosmetic_basic(1)] quietly_cosmetic[OF quiet_cosmetic_basic(2)] quietly_send[OF quiet_cosmetic_basic(1)])

lemma quietly_with_signer:
  "signer s \<Longrightarrow> userAddress s = Some me \<Longrightarrow> quietly t m Q s \<Longrightarrow> quietly t (with_signer m) Q s"
  by (auto simp: with_signer_def intro!: quietly_bind quietly_local)

text \<open>
  And the plan is completed: with a connected wallet, a filled-in form and nothing failing, registering
  sends exactly the whole plan and ends on the provider's view, upgrading a pledge by \<open>gb\<close> gigabytes
  sends the approval (if needed) and the pledge over ten KYN for each of them.
\<close>

theorem register_and_upgrade_complete:
  assumes "signer (db w)" and "userAddress (db w) = Some me" and "script w = []" and "rf_text f \<noteq> []" and "rf_region f \<noteq> []"
  shows "calls (final (handleRegisterNode f) w) = calls (db w) @ register_plan f (chain (db w)) me \<and>
    view (final (handleRegisterNode f) w) = ''provider'' \<and>
    calls (final (handleUpgradePledge (Some gb)) w) = calls (db w) @ pledge_plan (chain (db w)) me gb (gb * 10 * KYN)"
proof -
  let ?L = "calls (db w)" and ?c = "chain (db w)"
  have start: "tx_at ?L ?c (Some me) (db w)" using assms(2) by (simp add: tx_at_def)
  have register: "quietly t (handleRegisterNode f) (\<lambda>_ s. tx_at (?L @ register_plan f ?c me) ?c (Some me) s \<and> view s = ''provider'') (db w)" for t
    unfolding handleRegisterNode_def
    using assms start
    by (auto simp: register_plan_def intro!: quietly_with_signer quietly_try_catch quietly_bind quietly_andthen quietly_my_address
        quietly_reads quietly_approve_and_pledge quietly_cosmetic[OF quiet_cosmetic_basic(1)]
        quietly_cosmetic[OF quiet_cosmetic_basic(2)] quietly_cosmetic[OF quiet_cosmetic_basic(5)] quietly_send[OF quiet_cosmetic_basic(1)])
       (auto simp: show_view_def tx_at_def calls_def intro!: quiet_rules)
  have upgrade: "quietly t (handleUpgradePledge (Some gb)) (\<lambda>_. tx_at (?L @ pledge_plan ?c me gb (gb * 10 * KYN)) ?c (Some me)) (db w)" for t
    unfolding handleUpgradePledge_def
    using assms start
    by (auto intro!: quietly_with_signer quietly_try_catch quietly_andthen quietly_approve_and_pledge
        quietly_cosmetic[OF quiet_cosmetic_basic(1)] quietly_cosmetic[OF quiet_cosmetic_basic(2)]
        quietly_cosmetic[OF quiet_cosmetic_basic(3)] quietly_cosmetic[OF quiet_cosmetic_basic(5)])
  show ?thesis
    using quietly_final[OF register assms(3)] quietly_final[OF upgrade assms(3)] by (simp add: tx_at_def)
qed

text \<open>
  The collateral the dashboard offers against the contract's minimum: the fixed 1000 KYN of a
  registration suffice exactly up to 1333 GB, so a larger node is registered and then refused its
  pledge; an upgrade always offers enough, and more than thirteen times the minimum.
\<close>

theorem offered_collateral:
  "(calculateMinimumCollateral cap \<le> 1000 * KYN \<longleftrightarrow> cap \<le> 1333) \<and>
   13 * calculateMinimumCollateral gb \<le> gb * 10 * KYN"
  by (simp add: calculateMinimumCollateral_def KYN_def) arith

section \<open>Witnesses\<close>

definition form_node :: register_form where
  "form_node = \<lparr>rf_text = ''50'', rf_capacity = 50, rf_region = ''eu'', rf_peerId = ''12D3'', rf_endpoint = ''http://n'', rf_minPrice = 1 / 100\<rparr>"

theorem register_follows_plan_witness:
  "follows_plan [] (register_plan form_node (chain page0) ''0xabcdef0123456789'')
     (final (handleRegisterNode form_node) \<lparr>db = page0, clock = 0, script = [False, False, False, False, True]\<rparr>)"
  using register_follows_plan[of "\<lparr>db = page0, clock = 0, script = [False, False, False, False, True]\<rparr>" form_node]
  by (simp add: wallet_ok_def page0_def calls_def)

theorem register_and_upgrade_complete_witness:
  "calls (final (handleRegisterNode form_node) \<lparr>db = page0, clock = 0, script = []\<rparr>) =
     [register_call form_node, approve_call ''CapacityPledge'' (1000 * KYN), pledge_call 50 (1000 * KYN)]"
  using register_and_upgrade_complete[of "\<lparr>db = page0, clock = 0, script = []\<rparr>" "''0xabcdef0123456789''" form_node]
  by (simp add: page0_def calls_def register_plan_def pledge_plan_def form_node_def KYN_def)

end
