(* ===== verification/Dash_Deals.thy ===== *)
theory Dash_Deals
  imports Dash_Contracts
begin

text \<open>
  Deals and governance on the dashboard (\<^verbatim>\<open>dashboard/app.js\<close>): creating a deal on the chain, renewing
  one, the alerts for deals that expire, and proposals with their votes. The file declares
  \<^verbatim>\<open>handleCreateDeal\<close> twice; the later declaration is the one that runs and is modelled.
\<close>

section \<open>Creating a deal\<close>

record deal_form =
  df_size :: rat
  df_price :: rat
  df_duration :: nat
  df_cid :: string
  df_alertDays :: nat

text \<open>The amount approved for a deal, in dollars with six decimals and then in KYN.\<close>

definition deal_approval :: "nat \<Rightarrow> nat \<Rightarrow> nat \<Rightarrow> nat \<Rightarrow> nat" where
  "deal_approval kynPrice roundedSize pricePerGBMonthUSD durationDays =
     (let totalMonths = ceil_div durationDays 30;
          providerPaymentUSD = roundedSize * pricePerGBMonthUSD * totalMonths;
          protocolFeeUSD = providerPaymentUSD * 300 div 10000;
          totalCostUSD = providerPaymentUSD + protocolFeeUSD
      in totalCostUSD * 10 ^ 18 div kynPrice)"

text \<open>Exactly fifteen providers: filled up with random addresses, or cut off.\<close>

definition fifteen :: "string list \<Rightarrow> string list \<Rightarrow> string list" where
  "fifteen dummies eligible =
     (if length eligible < 15 then eligible @ take (15 - length eligible) dummies
      else if length eligible > 15 then take 15 eligible else eligible)"

definition market_call :: "string \<Rightarrow> nat \<Rightarrow> nat \<Rightarrow> nat \<Rightarrow> string list \<Rightarrow> nat \<Rightarrow> chain_call" where
  "market_call cid roundedSize durationDays priceUSD providers alertDays = Tx ''StorageMarketplace'' ''createDeal''
     [JStr cid, num roundedSize, num durationDays, num priceUSD, JArr (map JStr providers),
      JArr (replicate 15 (JStr (cid @ ''_shard''))), JArr (replicate 15 (num (ceil_div (roundedSize * 1024) 10))), num alertDays]"

text \<open>What the contract records once the transaction is mined (\<^verbatim>\<open>createDeal\<close>): the next number is the new deal.\<close>

definition mined_deal :: "chain_deal \<Rightarrow> page \<Rightarrow> page" where
  "mined_deal d s = s\<lparr>chain := (chain s)\<lparr>ch_deals := ch_deals (chain s) @ [d]\<rparr>\<rparr>"

definition porep_call :: "nat \<Rightarrow> string \<Rightarrow> chain_call" where
  "porep_call dealId cid = Tx ''ProofVerifier'' ''submitPoRep'' [num dealId, JStr (cid @ ''_sealed''), JStr cid]"

definition prove_replication :: "string \<Rightarrow> unit ui" where
  "prove_replication cid =
     andthen (activity ''System'' ''Submitting Proof of Replication (PoRep)...'' ''system'')
    (bind (reads (\<lambda>s. length (ch_deals (chain s)))) (\<lambda>dealCount.
     andthen (send_with_gas (porep_call dealCount cid) (ret ()))
             (activity ''System'' ''PoRep verified successfully'' ''system'')))"

definition place_deal :: "chain_call \<Rightarrow> (int \<Rightarrow> chain_deal) \<Rightarrow> unit ui" where
  "place_deal c deal =
     andthen (activity ''System'' ''Initiating marketplace deal...'' ''system'')
    (bind getGasFees (\<lambda>dealGasFees.
     bind (reads (\<lambda>s. ch_estimate (chain s) c)) (\<lambda>dealGasEstimate.
     andthen (submit c dealGasFees (Some (getGasLimitWithBuffer dealGasEstimate)))
    (andthen (toast ''info'' ''Deal Pending'')
    (bind now (\<lambda>t.
     andthen (writes (mined_deal (deal t)))
             (toast ''success'' ''Deal Created!'')))))))"

definition order_deal :: "string list \<Rightarrow> string \<Rightarrow> nat \<Rightarrow> nat \<Rightarrow> nat \<Rightarrow> nat \<Rightarrow> unit ui" where
  "order_deal dummies cid roundedSize priceUSD durationDays alertDays =
     bind my_address (\<lambda>me.
     bind (reads (\<lambda>s. ch_kynPriceUSD (chain s))) (\<lambda>kynPrice.
     andthen (activity ''System'' ''Approving KYN for deal...'' ''system'')
    (andthen (send_with_gas (approve_call ''StorageMarketplace'' (deal_approval kynPrice roundedSize priceUSD durationDays)) (ret ()))
    (andthen (activity ''System'' ''Finding eligible providers...'' ''system'')
    (bind (try_catch (reads (\<lambda>s. ch_eligible (chain s) priceUSD)) (\<lambda>_. ret [])) (\<lambda>eligible.
     andthen (place_deal (market_call cid roundedSize durationDays priceUSD (fifteen dummies eligible) alertDays)
       (\<lambda>t. \<lparr>cd_client = me, cd_fileSizeGB = roundedSize, cd_pricePerGBMonth = priceUSD * 10 ^ 18 div kynPrice,
             cd_endTime = t div 1000 + int durationDays * 86400, cd_alertDays = int alertDays, cd_status = 0\<rparr>))
    (andthen (prove_replication cid) (show_view ''marketplace''))))))))"

definition handleCreateDeal :: "string list \<Rightarrow> string \<Rightarrow> deal_form \<Rightarrow> unit ui" where
  "handleCreateDeal dummies rnd f = with_signer (try_catch
     (order_deal dummies (if df_cid f = [] then ''Qm'' @ rnd else df_cid f) (nat \<lceil>df_size f\<rceil>)
        (nat (js_round (df_price f * 1000000))) (df_duration f) (if df_alertDays f = 0 then 3 else df_alertDays f))
     (\<lambda>_. toast ''error'' ''Transaction Failed''))"

section \<open>Renewing a deal\<close>

text \<open>The contract answers zeros for a number it never gave out.\<close>

definition deal_at :: "chain \<Rightarrow> nat \<Rightarrow> chain_deal" where
  "deal_at c i = (if i < length (ch_deals c) then ch_deals c ! i
     else \<lparr>cd_client = ''0x0000000000000000000000000000000000000000'', cd_fileSizeGB = 0, cd_pricePerGBMonth = 0,
           cd_endTime = 0, cd_alertDays = 0, cd_status = 0\<rparr>)"

definition renewal_approval :: "chain_deal \<Rightarrow> nat \<Rightarrow> nat" where
  "renewal_approval deal additionalDays =
     (let totalMonths = ceil_div additionalDays 30;
          renewalCost = cd_fileSizeGB deal * cd_pricePerGBMonth deal * totalMonths;
          protocolFee = renewalCost * 300 div 10000
      in renewalCost + protocolFee)"

definition renew_call :: "nat \<Rightarrow> nat \<Rightarrow> chain_call" where
  "renew_call dealId additionalDays = Tx ''StorageMarketplace'' ''renewDeal'' [num dealId, num additionalDays]"

section \<open>Alerts\<close>

definition deal_alert :: "string \<Rightarrow> int \<Rightarrow> nat \<Rightarrow> chain_deal \<Rightarrow> notification option" where
  "deal_alert me t i d =
     (if to_lower (cd_client d) = to_lower me \<and> (cd_status d = 0 \<or> cd_status d = 4)
      then let alertDays = (if cd_alertDays d = 0 then 3 else cd_alertDays d);
               timeLeft = cd_endTime d - t div 1000
           in if timeLeft < 0
              then Some \<lparr>n_id = t, n_type = ''warning'', n_title = ''Deal Expired'',
                n_message = ''Deal #'' @ nat_str i @ '' has expired and is in grace period.'', n_dealId = Some (num i), n_read = False\<rparr>
              else if timeLeft < alertDays * 24 * 60 * 60
              then Some \<lparr>n_id = t, n_type = ''info'', n_title = ''Expiring Soon'',
                n_message = ''Deal #'' @ nat_str i @ '' expires in '' @ nat_str (nat \<lceil>rat_of_int timeLeft / 86400\<rceil>) @ '' days.'',
                n_dealId = Some (num i), n_read = False\<rparr>
              else None
      else None)"

definition checkExpirations :: "unit ui" where
  "checkExpirations = bind (local_get userAddress) (\<lambda>a. case a of
       None \<Rightarrow> ret ()
     | Some me \<Rightarrow> logged (
         bind (reads (\<lambda>s. length (ch_deals (chain s)))) (\<lambda>count.
         bind now (\<lambda>t.
           for_each [0..<count] (\<lambda>i. bind (reads (\<lambda>s. deal_at (chain s) i)) (\<lambda>d.
             case deal_alert me t i d of
               None \<Rightarrow> ret ()
             | Some n \<Rightarrow> local_set (\<lambda>s. s\<lparr>notifications := push_notification n (notifications s)\<rparr>)))))))"

definition handleRenewDeal :: "nat \<Rightarrow> nat \<Rightarrow> unit ui" where
  "handleRenewDeal dealId additionalDays = bind (local_get signer) (\<lambda>sg.
     if \<not> sg then toast ''error'' ''Wallet Not Connected''
     else try_catch
       (andthen (activity ''System'' (''Initiating renewal for Deal #'' @ nat_str dealId @ ''...'') ''system'')
       (bind (reads (\<lambda>s. deal_at (chain s) dealId)) (\<lambda>deal.
        andthen (activity ''System'' ''Approving KYN for renewal...'' ''system'')
       (bind getGasFees (\<lambda>gasFees.
        andthen (submit (approve_call ''StorageMarketplace'' (renewal_approval deal additionalDays)) gasFees None)
       (andthen wait_tx
       (andthen (activity ''System'' ''Executing renewal...'' ''system'')
       (andthen (submit (renew_call dealId additionalDays) gasFees None)
       (andthen wait_tx
       (andthen (toast ''success'' ''Deal Renewed!'')
       (andthen (activity ''User'' (''Renewed Deal #'' @ nat_str dealId) ''user'') checkExpirations)))))))))))
       (\<lambda>_. toast ''error'' ''Renewal Failed''))"

text \<open>The button of a pledge card: it submits nothing, and reports success after three seconds.\<close>

definition submitProof :: "nat \<Rightarrow> unit ui" where
  "submitProof dealId = bind (local_get (\<lambda>s. signer s \<and> userAddress s \<noteq> None)) (\<lambda>there.
     bind (if there then ret True else recoverSigner) (\<lambda>ok.
       if \<not> ok then ret ()
       else andthen (activity ''System'' (''Submitting Proof of Spacetime (PoSt) for Deal #'' @ nat_str dealId @ ''...'') ''system'')
           (andthen (toast ''info'' ''Proof Pending'')
           (andthen (toast ''success'' ''Proof Verified'')
                    (activity ''System'' (''PoSt verified for Deal #'' @ nat_str dealId) ''system'')))))"

section \<open>Governance\<close>

definition handleCreateProposal :: "string \<Rightarrow> string \<Rightarrow> page \<Rightarrow> page" where
  "handleCreateProposal title description s = showNotification ''success'' ''Proposal Created''
     (addActivity ''User'' (''Created proposal: '' @ title) ''user''
       (s\<lparr>proposals := \<lparr>pr_id = length (proposals s) + 1, pr_title = title, pr_description = description,
          votesFor = 0, votesAgainst = 0, userVote = None\<rparr> # proposals s\<rparr>))"

fun count_vote :: "nat \<Rightarrow> string \<Rightarrow> proposal list \<Rightarrow> proposal list" where
  "count_vote i type [] = []"
| "count_vote i type (p # ps) =
     (if pr_id p = i
      then (if type = ''for'' then p\<lparr>votesFor := votesFor p + 1, userVote := Some ''for''\<rparr>
            else p\<lparr>votesAgainst := votesAgainst p + 1, userVote := Some ''against''\<rparr>) # ps
      else p # count_vote i type ps)"

definition vote_call :: "nat \<Rightarrow> string \<Rightarrow> chain_call" where
  "vote_call i type = Tx ''0x8888888888888888888888888888888888888888'' ''transfer'' [JStr (''vote_'' @ nat_str i @ ''_'' @ type)]"

definition voteProposal :: "nat \<Rightarrow> string \<Rightarrow> unit ui" where
  "voteProposal i type = bind (local_get (\<lambda>s. find (\<lambda>p. pr_id p = i) (proposals s))) (\<lambda>found. case found of
       None \<Rightarrow> ret ()
     | Some proposal \<Rightarrow>
         if userVote proposal \<noteq> None then ret ()
         else bind (local_get (\<lambda>s. signer s \<and> userAddress s \<noteq> None)) (\<lambda>there.
           if \<not> there then toast ''warning'' ''Wallet Required''
           else try_catch
             (andthen (submit (vote_call i type) None None)
             (andthen (activity ''System'' ''Governance transaction submitted. Waiting for confirmation...'' ''system'')
             (andthen wait_tx
             (andthen (local_set (\<lambda>s. s\<lparr>proposals := count_vote i type (proposals s)\<rparr>))
             (andthen (activity ''User'' (''Voted '' @ type @ '' proposal: '' @ pr_title proposal) ''user'')
                      (toast ''success'' ''Vote Confirmed''))))))
             (\<lambda>e. toast ''error'' (if e = ''rejected'' then ''Vote Cancelled'' else ''Voting Failed''))))"

section \<open>Approved and charged amounts\<close>

lemma months_ceil: "ceil_div days 30 = months_of days"
  by (simp add: ceil_div_def months_of_def)

lemma fee_of_multiple: "(100 :: nat) dvd x \<Longrightarrow> x * 300 div 10000 = 3 * (x div 100)"
  by (auto elim!: dvdE)

lemma fee_exact:
  assumes "3 * x \<le> 100 * (x * 300 div 10000)"
  shows "100 dvd (x :: nat)"
proof -
  have "x * 300 div 10000 = (100 * (3 * x)) div (100 * 100)" by simp
  also have "\<dots> = 3 * x div 100" by (subst div_mult_mult1) simp_all
  finally have "3 * x mod 100 = 0" using assms minus_mod_eq_mult_div[of "3 * x" 100] by linarith
  then have "100 dvd 3 * x" by presburger
  moreover have "coprime 100 (3 :: nat)" by (simp add: coprime_iff_gcd_eq_1 gcd_nat.simps)
  ultimately show ?thesis using coprime_dvd_mult_right_iff by blast
qed

lemma deal_charge_bound:
  assumes "0 < k"
  shows "k * sol_deal_charge 300 k gb p days * 100 \<le> 103 * (gb * p * months_of days) * 10 ^ 18"
proof -
  let ?price = "p * 10 ^ 18 div k" and ?m = "months_of days"
  let ?pay = "gb * ?price * ?m"
  have "k * ?price \<le> p * 10 ^ 18" by simp
  then have "gb * ?m * (k * ?price) \<le> gb * ?m * (p * 10 ^ 18)" by (rule mult_le_mono2)
  then have pay: "k * ?pay \<le> gb * p * ?m * 10 ^ 18" by (simp add: mult_ac)
  have "?pay * 300 div 10000 * 100 \<le> ?pay * 3" by linarith
  then have "k * (?pay * 100 + ?pay * 300 div 10000 * 100) \<le> k * (?pay * 103)" by (intro mult_le_mono2) linarith
  also have "\<dots> \<le> 103 * (gb * p * ?m * 10 ^ 18)" using mult_le_mono2[OF pay, of 103] by (simp add: mult_ac)
  finally show ?thesis by (simp add: sol_deal_charge_def Let_def algebra_simps)
qed

text \<open>
  The dashboard approves enough. For every KYN price, size and duration, as long as the price of the
  deal is a multiple of a hundredth of a cent in total (always so with the step of a tenth of a cent
  that the form allows), the amount approved covers what the contract charges, fee included, although
  both sides round; at the initial KYN price this condition is also necessary.
\<close>

theorem approval_covers_charge:
  assumes "0 < k"
  shows "(100 dvd gb * p * months_of days \<longrightarrow> sol_deal_charge 300 k gb p days \<le> deal_approval k gb p days) \<and>
    (1000 dvd p \<longrightarrow> sol_deal_charge 300 k gb p days \<le> deal_approval k gb p days) \<and>
    (k = 100000 \<longrightarrow> (sol_deal_charge 300 k gb p days \<le> deal_approval k gb p days \<longleftrightarrow> 100 dvd gb * p * months_of days))"
proof -
  let ?S = "gb * p * months_of days"
  have covers: "sol_deal_charge 300 k gb p days \<le> deal_approval k gb p days" if "100 dvd ?S"
  proof -
    define T where "T = ?S + ?S * 300 div 10000"
    have "100 * T = 103 * ?S" unfolding T_def using that by (auto simp: fee_of_multiple elim!: dvdE)
    then have "103 * ?S * 10 ^ 18 = 100 * (T * 10 ^ 18)" by simp
    then have "k * sol_deal_charge 300 k gb p days * 100 \<le> 100 * (T * 10 ^ 18)"
      using deal_charge_bound[OF assms, of gb p days] by (simp only:)
    then have "k * sol_deal_charge 300 k gb p days \<le> T * 10 ^ 18" by linarith
    then have "sol_deal_charge 300 k gb p days \<le> T * 10 ^ 18 div k"
      using assms by (simp add: less_eq_div_iff_mult_less_eq mult.commute)
    then show ?thesis unfolding T_def deal_approval_def Let_def months_ceil .
  qed
  have "100 dvd ?S" if "1000 dvd p"
  proof -
    have "100 dvd p" using that by (rule dvd_trans[rotated]) simp
    then show ?thesis by (simp add: dvd_mult dvd_mult2)
  qed
  moreover have "100 dvd ?S" if "k = 100000" "sol_deal_charge 300 k gb p days \<le> deal_approval k gb p days"
  proof -
    have "sol_deal_charge 300 k gb p days = ?S * 10 ^ 13 + ?S * 3 * 10 ^ 11"
      unfolding that(1) by (simp add: sol_deal_charge_def Let_def mult_ac)
    moreover have "deal_approval k gb p days = (?S + ?S * 300 div 10000) * 10 ^ 13"
      unfolding that(1) by (simp add: deal_approval_def Let_def months_ceil mult_ac)
    ultimately have "3 * ?S \<le> 100 * (?S * 300 div 10000)" using that(2) by (simp add: algebra_simps)
    then show ?thesis by (rule fee_exact)
  qed
  ultimately show ?thesis using covers by blast
qed

text \<open>
  A renewal approves exactly what the contract charges, as long as the protocol fee is the 3 percent
  the dashboard assumes; with any other fee, and a deal of some cost, the amounts differ from a cost of
  10000 units on.
\<close>

theorem renewal_approval_exact:
  "renewal_approval d days = sol_renew_charge 300 d days \<and>
   (cd_fileSizeGB d * cd_pricePerGBMonth d * months_of days \<ge> 10000 \<longrightarrow> fee > 300 \<longrightarrow>
      renewal_approval d days < sol_renew_charge fee d days)"
proof -
  have "x * 300 div 10000 < x * fee div 10000" if "fee > 300" "x \<ge> (10000 :: nat)" for x fee
  proof -
    have "x * 300 + 10000 \<le> x * 301" using that(2) by simp
    also have "\<dots> \<le> x * fee" using that(1) by (intro mult_le_mono2) simp
    finally have "(x * 300 + 10000) div 10000 \<le> x * fee div 10000" by (rule div_le_mono)
    then show ?thesis by simp
  qed
  then show ?thesis by (auto simp: renewal_approval_def sol_renew_charge_def months_ceil Let_def)
qed

section \<open>Creating a deal\<close>

lemma length_fifteen: "15 \<le> length dummies \<Longrightarrow> length (fifteen dummies el) = 15"
  by (simp add: fifteen_def)

lemma set_fifteen: "15 \<le> length el \<Longrightarrow> set (fifteen dummies el) \<subseteq> set el"
  by (auto simp: fifteen_def dest: in_set_takeD)

definition order_plan :: "string list \<Rightarrow> string \<Rightarrow> nat \<Rightarrow> nat \<Rightarrow> nat \<Rightarrow> nat \<Rightarrow> chain \<Rightarrow> string list \<Rightarrow> chain_call list" where
  "order_plan dummies cid gb p days ad c eligible =
     [approve_call ''StorageMarketplace'' (deal_approval (ch_kynPriceUSD c) gb p days),
      market_call cid gb days p (fifteen dummies eligible) ad,
      porep_call (length (ch_deals c) + 1) cid]"

definition create_plan :: "string list \<Rightarrow> string \<Rightarrow> deal_form \<Rightarrow> chain \<Rightarrow> string list \<Rightarrow> chain_call list" where
  "create_plan dummies rnd f = order_plan dummies (if df_cid f = [] then ''Qm'' @ rnd else df_cid f) (nat \<lceil>df_size f\<rceil>)
     (nat (js_round (df_price f * 1000000))) (df_duration f) (if df_alertDays f = 0 then 3 else df_alertDays f)"

lemma mined_fields [simp]:
  "calls (mined_deal d s) = calls s" "userAddress (mined_deal d s) = userAddress s"
  "chain (mined_deal d s) = (chain s)\<lparr>ch_deals := ch_deals (chain s) @ [d]\<rparr>"
  by (simp_all add: mined_deal_def calls_def)

text \<open>Placing the deal and proving it, after the approval.\<close>

lemma wp_place_deal:
  assumes "tx_at L c a s"
    and "\<And>s'. tx_at (L @ [x]) (c\<lparr>ch_deals := ch_deals c @ [d t]\<rparr>) a s' \<Longrightarrow> Q () s'"
    and "\<And>e s'. calls s' = L \<Longrightarrow> E e s'" and "\<And>e s'. calls s' = L @ [x] \<Longrightarrow> E e s'"
  shows "wp t (place_deal x d) Q E s"
proof -
  have send: "wp t (bind getGasFees (\<lambda>g. bind (reads (\<lambda>s. ch_estimate (chain s) x)) (\<lambda>e. andthen (submit x g (Some (getGasLimitWithBuffer e)))
      (andthen (toast k h) (bind now (\<lambda>t. andthen (writes (mined_deal (d t))) (toast k' h'))))))) Q E s1" if s1: "tx_at L c a s1" for s1 k h k' h'
  proof (intro wp_bind wp_getGasFees wp_reads wp_andthen wp_submit)
    fix s2 assume "calls s2 = calls s1 @ [x]" "chain s2 = chain s1" "userAddress s2 = userAddress s1"
    then have s2: "tx_at (L @ [x]) c a s2" using s1 by (simp add: tx_at_def)
    then show "wp t (toast k h) (\<lambda>_. wp t (bind now (\<lambda>t. andthen (writes (mined_deal (d t))) (toast k' h'))) Q E) E s2"
      using assms(2,4)
      by (intro wp_cosmetic[OF cosmetic_basic(1) s2] wp_bind wp_now wp_andthen wp_writes)
         (auto simp: tx_at_def intro!: wp_cosmetic[OF cosmetic_basic(1), of "L @ [x]" "c\<lparr>ch_deals := ch_deals c @ [d t]\<rparr>" a])
  qed (use s1 assms(3) in \<open>auto simp: tx_at_def\<close>)
  show ?thesis unfolding place_deal_def
    by (rule wp_andthen, rule wp_cosmetic[OF cosmetic_basic(2) assms(1)], rule send)
qed

lemma wp_prove_replication:
  assumes s: "tx_at L c a s" and Q: "\<And>s'. calls s' = L @ [porep_call (length (ch_deals c)) cid] \<Longrightarrow> Q () s'"
    and E: "\<And>e s'. calls s' = L \<or> calls s' = L @ [porep_call (length (ch_deals c)) cid] \<Longrightarrow> E e s'"
  shows "wp t (prove_replication cid) Q E s"
  unfolding prove_replication_def
proof (rule wp_andthen, rule wp_cosmetic[OF cosmetic_basic(2) s], intro wp_bind wp_reads wp_andthen)
  fix s1 assume s1: "tx_at L c a s1"
  then show "E ''rejected'' s1" using E by (simp add: tx_at_def)
  have "length (ch_deals (chain s1)) = length (ch_deals c)" using s1 by (simp add: tx_at_def)
  then show "wp t (send_with_gas (porep_call (length (ch_deals (chain s1))) cid) (ret ()))
      (\<lambda>_. wp t (activity ''System'' ''PoRep verified successfully'' ''system'') Q E) E s1"
    using Q E by (intro wp_send_with_gas[OF cosmetic_basic(4) s1] wp_cosmetic[OF cosmetic_basic(2)]) (auto simp: tx_at_def)
qed

lemma follows_calls: "calls s = L @ take k plan \<Longrightarrow> follows_plan L plan s"
  by (simp add: follows_plan_def take_is_prefix)

lemma wp_deal_rest:
  assumes s: "tx_at (L @ [A]) c a s"
    and G: "\<And>k s'. calls s' = L @ take k [A, X, porep_call (length (ch_deals c) + 1) cid] \<Longrightarrow> G s'"
  shows "wp t (andthen (place_deal X d) (andthen (prove_replication cid) (show_view v))) (\<lambda>_. G) (\<lambda>_. G) s"
proof (rule wp_andthen, rule wp_place_deal[OF s])
  fix s1 assume s1: "tx_at ((L @ [A]) @ [X]) (c\<lparr>ch_deals := ch_deals c @ [d t]\<rparr>) a s1"
  show "wp t (andthen (prove_replication cid) (show_view v)) (\<lambda>_. G) (\<lambda>_. G) s1"
  proof (rule wp_andthen, rule wp_prove_replication[OF s1])
    fix s2 assume "calls s2 = ((L @ [A]) @ [X]) @ [porep_call (length (ch_deals (c\<lparr>ch_deals := ch_deals c @ [d t]\<rparr>))) cid]"
    then show "wp t (show_view v) (\<lambda>_. G) (\<lambda>_. G) s2"
      unfolding show_view_def using G[of _ 3] by (intro wp_local_set) (simp add: calls_def)
  qed (use G[of _ 2] G[of _ 3] in auto)
qed (use G[of _ 1] G[of _ 2] in auto)

lemma wp_order_deal:
  assumes start: "tx_at L c (Some me) s"
    and G: "\<And>k el s'. el \<in> {ch_eligible c p, []} \<Longrightarrow> calls s' = L @ take k (order_plan dummies cid gb p days ad c el) \<Longrightarrow> G s'"
  shows "wp t (order_deal dummies cid gb p days ad) (\<lambda>_. G) (\<lambda>_. G) s"
proof -
  define A where "A = approve_call ''StorageMarketplace'' (deal_approval (ch_kynPriceUSD c) gb p days)"
  have s: "userAddress s = Some me" "chain s = c" "calls s = L" using start by (simp_all add: tx_at_def)
  have err: "G s'" if "tx_at L c (Some me) s' \<or> tx_at (L @ [A]) c (Some me) s'" for s'
    using that G[of "[]" s' 0] G[of "[]" s' 1] by (auto simp: tx_at_def order_plan_def A_def)
  have look: "wp t (bind (try_catch (reads (\<lambda>s. ch_eligible (chain s) p)) (\<lambda>_. ret [])) (\<lambda>el.
      andthen (place_deal (market_call cid gb days p (fifteen dummies el) ad) d) (andthen (prove_replication cid) (show_view v))))
      (\<lambda>_. G) (\<lambda>_. G) s'" if s': "tx_at (L @ [A]) c (Some me) s'" for s' d v
  proof (intro wp_bind wp_try_catch wp_reads wp_ret)
    have "wp t (andthen (place_deal (market_call cid gb days p (fifteen dummies el) ad) d) (andthen (prove_replication cid) (show_view v)))
        (\<lambda>_. G) (\<lambda>_. G) s'" if "el \<in> {ch_eligible c p, []}" for el
      using G[OF that] by (intro wp_deal_rest[OF s']) (simp add: order_plan_def A_def)
    then show "wp t (andthen (place_deal (market_call cid gb days p (fifteen dummies (ch_eligible (chain s') p)) ad) d)
          (andthen (prove_replication cid) (show_view v))) (\<lambda>_. G) (\<lambda>_. G) s'"
        "wp t (andthen (place_deal (market_call cid gb days p (fifteen dummies []) ad) d) (andthen (prove_replication cid) (show_view v)))
          (\<lambda>_. G) (\<lambda>_. G) s'"
      using s' by (simp_all add: tx_at_def)
  qed
  show ?thesis
    unfolding order_deal_def
    by (rule wp_bind, rule wp_my_address[OF s(1)], rule wp_bind, rule wp_reads, rule err, use start in simp, unfold s(2) A_def[symmetric],
        rule wp_andthen, rule wp_cosmetic[OF cosmetic_basic(2) start], rule wp_andthen,
        rule wp_send_with_gas[OF cosmetic_basic(4)], assumption, rule wp_andthen,
        rule wp_cosmetic[OF cosmetic_basic(2)], assumption, rule look) (use err in auto)
qed

text \<open>
  C26. Creating a deal sends transactions in order. Whatever fails, the calls made are a beginning of this
  plan: approve the cost, create the deal with fifteen entries, submit the proof of replication. The
  providers are the first fifteen eligible ones, or, if fewer are found or the search fails, what was
  found filled up with random addresses.
\<close>

theorem create_deal_follows_plan:
  assumes "wallet_ok (db w)"
  shows "\<exists>eligible \<in> {ch_eligible (chain (db w)) (nat (js_round (df_price f * 1000000))), []}.
    follows_plan (calls (db w)) (if signer (db w) then create_plan dummies rnd f (chain (db w)) eligible else [])
      (final (handleCreateDeal dummies rnd f) w)"
proof -
  define G where "G = (\<lambda>s. \<exists>el \<in> {ch_eligible (chain (db w)) (nat (js_round (df_price f * 1000000))), []}.
    follows_plan (calls (db w)) (if signer (db w) then create_plan dummies rnd f (chain (db w)) el else []) s)"
  have zero: "G s" if "sent s = sent (db w)" for s using that by (auto simp: G_def follows_plan_def calls_def)
  have toasts: "G (showNotification k h s)" if "G s" for k h s
    using that by (simp add: G_def follows_plan_def calls_def showNotification_def)
  have "wp t (handleCreateDeal dummies rnd f) (\<lambda>_. G) (\<lambda>_ _. False) (db w)" for t
    unfolding handleCreateDeal_def
  proof (rule wp_with_signer[OF assms])
    assume sg: "signer (db w)"
    then obtain me where me: "userAddress (db w) = Some me" using assms by (auto simp: wallet_ok_def)
    have "tx_at (calls (db w)) (chain (db w)) (Some me) (db w)" using me by (simp add: tx_at_def)
    moreover have "G s" if "el \<in> {ch_eligible (chain (db w)) (nat (js_round (df_price f * 1000000))), []}"
        and "calls s = calls (db w) @ take k (create_plan dummies rnd f (chain (db w)) el)" for el k s
      using that follows_calls sg unfolding G_def by auto
    ultimately show "wp t (try_catch (order_deal dummies (if df_cid f = [] then ''Qm'' @ rnd else df_cid f) (nat \<lceil>df_size f\<rceil>)
        (nat (js_round (df_price f * 1000000))) (df_duration f) (if df_alertDays f = 0 then 3 else df_alertDays f))
       (\<lambda>_. toast ''error'' ''Transaction Failed'')) (\<lambda>_. G) (\<lambda>_ _. False) (db w)"
      unfolding create_plan_def
      by (intro wp_try_catch) (rule wp_mono[OF wp_order_deal[where G = G]], auto intro!: wp_toast toasts)
  qed (simp add: zero)
  then have "G (final (handleCreateDeal dummies rnd f) w)" by (rule final_ok)
  then show ?thesis by (simp only: G_def)
qed

lemma quietly_place_deal:
  assumes "tx_at L c a s" and "\<And>s'. tx_at (L @ [x]) (c\<lparr>ch_deals := ch_deals c @ [d t]\<rparr>) a s' \<Longrightarrow> Q () s'"
  shows "quietly t (place_deal x d) Q s"
  unfolding place_deal_def getGasFees_def submit_def
proof (rule quietly_andthen, rule quietly_cosmetic[OF quiet_cosmetic_basic(2) assms(1)], intro quiet_rules)
  fix s1 g e assume "tx_at L c a s1"
  then have s1: "tx_at (L @ [x]) c a (s1\<lparr>sent := sent s1 @ [\<lparr>tx_call = x, tx_gasPrice = Some (ch_gasPrice (chain s1) * 150 div 100),
      tx_gasLimit = Some (getGasLimitWithBuffer (ch_estimate (chain s1) x))\<rparr>]\<rparr>)"
    by (simp add: tx_at_def calls_def)
  show "quietly t (toast ''info'' ''Deal Pending'') (\<lambda>_. quietly t (bind now (\<lambda>t. andthen (writes (mined_deal (d t))) (toast ''success'' ''Deal Created!''))) Q)
      (s1\<lparr>sent := sent s1 @ [\<lparr>tx_call = x, tx_gasPrice = Some (ch_gasPrice (chain s1) * 150 div 100),
      tx_gasLimit = Some (getGasLimitWithBuffer (ch_estimate (chain s1) x))\<rparr>]\<rparr>)"
    by (rule quietly_cosmetic[OF quiet_cosmetic_basic(1) s1], intro quiet_rules,
        rule quietly_cosmetic[OF quiet_cosmetic_basic(1), of "L @ [x]" "c\<lparr>ch_deals := ch_deals c @ [d t]\<rparr>" a])
       (use assms(2) in \<open>auto simp: tx_at_def\<close>)
qed

lemma quietly_prove_replication:
  assumes "tx_at L c a s" and "\<And>s'. tx_at (L @ [porep_call (length (ch_deals c)) cid]) c a s' \<Longrightarrow> Q () s'"
  shows "quietly t (prove_replication cid) Q s"
  unfolding prove_replication_def
proof (rule quietly_andthen, rule quietly_cosmetic[OF quiet_cosmetic_basic(2) assms(1)], intro quietly_bind quietly_reads quietly_andthen)
  fix s1 assume s1: "tx_at L c a s1"
  then have "chain s1 = c" by (simp add: tx_at_def)
  then show "quietly t (send_with_gas (porep_call (length (ch_deals (chain s1))) cid) (ret ()))
      (\<lambda>_. quietly t (activity ''System'' ''PoRep verified successfully'' ''system'') Q) s1"
    using assms(2) by (intro quietly_send[OF quiet_cosmetic_basic(4) s1] quietly_cosmetic[OF quiet_cosmetic_basic(2)]) auto
qed

lemma quietly_order_deal:
  assumes start: "tx_at L c (Some me) s"
    and Q: "\<And>s' d. cd_client d = me \<Longrightarrow> tx_at (L @ order_plan dummies cid gb p days ad c (ch_eligible c p))
      (c\<lparr>ch_deals := ch_deals c @ [d]\<rparr>) (Some me) s' \<Longrightarrow> Q () s'"
  shows "quietly t (order_deal dummies cid gb p days ad) Q s"
proof -
  define A where "A = approve_call ''StorageMarketplace'' (deal_approval (ch_kynPriceUSD c) gb p days)"
  have s: "userAddress s = Some me" "chain s = c" using start by (simp_all add: tx_at_def)
  have look: "quietly t (bind (try_catch (reads (\<lambda>s. ch_eligible (chain s) p)) (\<lambda>_. ret [])) (\<lambda>el.
      andthen (place_deal (market_call cid gb days p (fifteen dummies el) ad) d) (andthen (prove_replication cid) (show_view v)))) Q s'"
    if s': "tx_at (L @ [A]) c (Some me) s'" and d: "cd_client (d t) = me" for s' d v
  proof (intro quietly_bind quietly_try_catch quietly_reads)
    have "chain s' = c" using s' by (simp add: tx_at_def)
    then show "quietly t (andthen (place_deal (market_call cid gb days p (fifteen dummies (ch_eligible (chain s') p)) ad) d)
        (andthen (prove_replication cid) (show_view v))) Q s'"
      using Q[OF d]
      by (auto intro!: quietly_andthen quietly_place_deal[OF s'] quietly_prove_replication quietly_cosmetic[OF quiet_cosmetic_basic(3)]
          simp: order_plan_def A_def)
  qed
  show ?thesis
    unfolding order_deal_def
    by (rule quietly_bind, rule quietly_my_address[OF s(1)], rule quietly_bind, rule quietly_reads, unfold s(2) A_def[symmetric],
        rule quietly_andthen, rule quietly_cosmetic[OF quiet_cosmetic_basic(2) start], rule quietly_andthen,
        rule quietly_send[OF quiet_cosmetic_basic(4)], assumption, rule quietly_andthen,
        rule quietly_cosmetic[OF quiet_cosmetic_basic(2)], assumption, rule look) auto
qed


section \<open>Without a wallet\<close>

text \<open>
  Nothing is sent without a connected wallet: from every consistent state with no signer, staking,
  registering, upgrading, leaving a pledge, withdrawing, creating and renewing deals and voting leave
  the list of submitted transactions as it is, however they fail.
\<close>

theorem nothing_sent_without_wallet:
  assumes "wallet_ok (db w)" and "\<not> signer (db w)"
    and "m \<in> {handleStake, handleRegisterNode rf, handleUpgradePledge gb, handleExitPledge i confirmed, withdrawEarnings,
              handleCreateDeal dummies rnd df, handleRenewDeal i days, voteProposal j choice}"
  shows "sent (final m w) = sent (db w)"
proof -
  let ?P = "\<lambda>s. sent s = sent (db w)"
  have guard: "wp (clock w) (with_signer k) (\<lambda>_. ?P) (\<lambda>_ _. False) (db w)" for k
    by (rule wp_mono[OF with_signer_blocked[OF assms(1,2)]]) auto
  have tell: "wp (clock w) (toast k h) (\<lambda>_. ?P) (\<lambda>_ _. False) (db w)" for k h
    by (simp add: toast_def wp_local_set showNotification_def)
  have "wp (clock w) m (\<lambda>_. ?P) (\<lambda>_ _. False) (db w)"
    using assms(3)
  proof (elim insertE emptyE)
    assume "m = handleRenewDeal i days"
    then show ?thesis using assms(2) tell unfolding handleRenewDeal_def by (auto intro!: wp_bind wp_local_get)
  next
    assume "m = voteProposal j choice"
    then show ?thesis
      using assms(2) tell unfolding voteProposal_def by (auto intro!: wp_bind wp_local_get wp_ret split: option.split)
  qed (auto simp: handleStake_def handleRegisterNode_def handleUpgradePledge_def handleExitPledge_def withdrawEarnings_def
      handleCreateDeal_def guard tell split: option.split)
  then show ?thesis by (rule final_ok)
qed

section \<open>Alerts\<close>

lemma push_is_take: "length ns \<le> 10 \<Longrightarrow> push_notification n ns = take 10 (n # ns)"
  by (cases "length ns = 10") (auto simp: push_notification_def MAX_NOTIFICATIONS_def butlast_is_take Let_def)

lemma pushes_are_take: "length ns \<le> 10 \<Longrightarrow> fold push_notification xs ns = take 10 (rev xs @ ns)"
proof (induction xs rule: rev_induct)
  case (snoc x xs)
  then have "fold push_notification (xs @ [x]) ns = take 10 (x # take 10 (rev xs @ ns))"
    by (simp add: push_is_take del: take_append)
  then show ?case using take_front[of 10 x 10 "rev xs @ ns"] by (simp del: take_append)
qed simp

lemma alerts_run:
  "script w = [] \<Longrightarrow> c = chain (db w) \<Longrightarrow>
   for_each is (\<lambda>i. bind (reads (\<lambda>s. deal_at (chain s) i)) (\<lambda>d. case deal_alert me t i d of
        None \<Rightarrow> ret () | Some n \<Rightarrow> local_set (\<lambda>s. s\<lparr>notifications := push_notification n (notifications s)\<rparr>))) w =
   (Inr (), w\<lparr>db := (db w)\<lparr>notifications := fold push_notification (List.map_filter (\<lambda>i. deal_alert me t i (deal_at c i)) is)
      (notifications (db w))\<rparr>\<rparr>)"
proof (induction "is" arbitrary: w)
  case Nil
  then show ?case by (simp add: map_filter_simps)
next
  case (Cons i "is")
  then show ?case by (cases "deal_alert me t i (deal_at c i)") (simp_all add: map_filter_simps)
qed

text \<open>
  The alerts are exactly those that are due. When nothing fails, a check adds one notification for
  each deal of the connected client that is active or in its grace period and has expired or expires
  within its alert period, newest deal first, before the older notifications, and the list keeps the
  first ten.
\<close>

theorem expiry_alerts_exact:
  assumes "userAddress (db w) = Some me" and "script w = []" and "length (notifications (db w)) \<le> 10"
    and "deals = ch_deals (chain (db w))"
  shows "notifications (final checkExpirations w) =
    take 10 (rev (List.map_filter (\<lambda>i. deal_alert me (clock w) i (deals ! i)) [0..<length deals]) @ notifications (db w))"
proof -
  have same: "List.map_filter (\<lambda>i. deal_alert me (clock w) i (deal_at (chain (db w)) i)) [0..<length deals] =
      List.map_filter (\<lambda>i. deal_alert me (clock w) i (deals ! i)) [0..<length deals]"
    unfolding List.map_filter_def using assms(4)
    by (intro arg_cong2[where f = map] map_cong filter_cong) (auto simp: deal_at_def)
  have "checkExpirations w = (Inr (), w\<lparr>db := (db w)\<lparr>notifications := fold push_notification
      (List.map_filter (\<lambda>i. deal_alert me (clock w) i (deal_at (chain (db w)) i)) [0..<length deals]) (notifications (db w))\<rparr>\<rparr>)"
    using assms(1,2,4) by (simp add: checkExpirations_def logged_def alerts_run[OF _ refl])
  then show ?thesis using assms(3) by (simp add: final_def same pushes_are_take)
qed

section \<open>Votes\<close>

datatype gov_step = Propose string string | Vote nat string "bool list"

fun gov_run :: "gov_step list \<Rightarrow> page \<Rightarrow> page" where
  "gov_run [] s = s"
| "gov_run (Propose title description # xs) s = gov_run xs (handleCreateProposal title description s)"
| "gov_run (Vote i type sc # xs) s = gov_run xs (final (voteProposal i type) \<lparr>db = s, clock = 0, script = sc\<rparr>)"

definition ballots :: "proposal list \<Rightarrow> nat" where
  "ballots ps = (\<Sum>p\<leftarrow>ps. votesFor p + votesAgainst p)"

definition voted :: "proposal list \<Rightarrow> nat" where
  "voted ps = length (filter (\<lambda>p. userVote p \<noteq> None) ps)"

lemma count_vote_effect:
  "find (\<lambda>p. pr_id p = i) ps = Some p \<Longrightarrow> userVote p = None \<Longrightarrow>
   ballots (count_vote i type ps) = ballots ps + 1 \<and> voted (count_vote i type ps) = voted ps + 1 \<and>
   map pr_id (count_vote i type ps) = map pr_id ps \<and> length (count_vote i type ps) = length ps"
  by (induction ps) (auto simp: ballots_def voted_def split: if_splits)

definition gov_inv :: "nat \<Rightarrow> nat \<Rightarrow> page \<Rightarrow> bool" where
  "gov_inv b t s \<longleftrightarrow> distinct (map pr_id (proposals s)) \<and> set (map pr_id (proposals s)) = {1..length (proposals s)} \<and>
     ballots (proposals s) = b + voted (proposals s) \<and> t + voted (proposals s) \<le> length (sent s)"

lemma gov_inv_create: "gov_inv b t s \<Longrightarrow> gov_inv b t (handleCreateProposal title description s)"
  by (auto simp: gov_inv_def handleCreateProposal_def showNotification_def addActivity_def ballots_def voted_def)

lemma gov_inv_vote:
  assumes "gov_inv b t (db w)"
  shows "gov_inv b t (final (voteProposal i type) w)"
proof -
  have other: "gov_inv b t (showNotification k h s) = gov_inv b t s" "gov_inv b t (s\<lparr>feed := g\<rparr>) = gov_inv b t s"
      "gov_inv b t s \<Longrightarrow> gov_inv b t (s\<lparr>sent := sent s @ [x]\<rparr>)" for k h g s x
    by (auto simp: gov_inv_def showNotification_def)
  have counted: "gov_inv b t (s\<lparr>sent := sent s @ [x], proposals := count_vote i type (proposals s)\<rparr>)"
    if "gov_inv b t s" "find (\<lambda>p. pr_id p = i) (proposals s) = Some p" "userVote p = None" for s p x
  proof -
    let ?ps = "count_vote i type (proposals s)"
    have eq: "map pr_id ?ps = map pr_id (proposals s)" "length ?ps = length (proposals s)"
        "ballots ?ps = ballots (proposals s) + 1" "voted ?ps = voted (proposals s) + 1"
      using count_vote_effect[OF that(2,3)] by simp_all
    have "distinct (map pr_id ?ps)" "set (map pr_id ?ps) = {1..length ?ps}"
      using that(1) unfolding eq(1,2) gov_inv_def by blast+
    then show ?thesis using that(1) eq(3,4) unfolding gov_inv_def by simp
  qed
  have "wp (clock w) (voteProposal i type) (\<lambda>_. gov_inv b t) (\<lambda>_ _. False) (db w)"
    unfolding voteProposal_def toast_def activity_def submit_def wait_tx_def
    using assms other counted
    by (auto intro!: wp_rules split: option.split simp: addActivity_def)
  then show ?thesis by (rule final_ok)
qed

lemma gov_inv_run: "gov_inv b t s \<Longrightarrow> gov_inv b t (gov_run xs s)"
  by (induction xs s rule: gov_run.induct) (auto simp: gov_inv_create gov_inv_vote)

text \<open>
  One vote for each proposal, and none without a transaction. After any sequence of proposals and
  votes on a freshly loaded page, failing in any way: the proposals are numbered 1 to n without
  repetition; the votes counted exceed the 3790 the page starts with by exactly the number of proposals
  the user has voted on; and that is at most the number of transactions submitted.
\<close>

theorem one_vote_per_proposal:
  "let s' = gov_run xs (load_page s) in
   distinct (map pr_id (proposals s')) \<and> set (map pr_id (proposals s')) = {1..length (proposals s')} \<and>
   ballots (proposals s') = 3790 + voted (proposals s') \<and>
   length (sent s) + voted (proposals s') \<le> length (sent s')"
proof -
  have "gov_inv 3790 (length (sent s)) (load_page s)"
    by (auto simp: gov_inv_def load_page_def loadSettings_def loadSavedTheme_def fresh_page_def initial_proposals_def ballots_def voted_def
        split: option.split)
  then have "gov_inv 3790 (length (sent s)) (gov_run xs (load_page s))" by (rule gov_inv_run)
  then show ?thesis by (simp add: gov_inv_def Let_def)
qed

section \<open>Witnesses\<close>

definition deal0 :: deal_form where
  "deal0 = \<lparr>df_size = 5 / 2, df_price = 1 / 100, df_duration = 45, df_cid = ''Qmfile'', df_alertDays = 0\<rparr>"

definition client_page :: page where
  "client_page = page0\<lparr>chain := (chain page0)\<lparr>ch_deals :=
     [\<lparr>cd_client = ''0xABCDEF0123456789'', cd_fileSizeGB = 1, cd_pricePerGBMonth = 1, cd_endTime = 100000, cd_alertDays = 0, cd_status = 0\<rparr>,
      \<lparr>cd_client = ''0xother'', cd_fileSizeGB = 1, cd_pricePerGBMonth = 1, cd_endTime = 0, cd_alertDays = 3, cd_status = 0\<rparr>]\<rparr>\<rparr>"

theorem approval_covers_charge_witness:
  "sol_deal_charge 300 100000 3 10000 45 \<le> deal_approval 100000 3 10000 45 \<and>
   \<not> sol_deal_charge 300 100000 1 5001 30 \<le> deal_approval 100000 1 5001 30"
proof
  have pos: "0 < (100000 :: nat)" by simp
  have "(1000 :: nat) dvd 10000" by simp
  then show "sol_deal_charge 300 100000 3 10000 45 \<le> deal_approval 100000 3 10000 45"
    using approval_covers_charge[OF pos, of 3 10000 45] by blast
  have "\<not> (100 :: nat) dvd 1 * 5001 * months_of 30" by (simp add: months_of_def)
  then show "\<not> sol_deal_charge 300 100000 1 5001 30 \<le> deal_approval 100000 1 5001 30"
    using approval_covers_charge[OF pos, of 1 5001 30] by blast
qed

theorem renewal_approval_exact_witness:
  "renewal_approval \<lparr>cd_client = [], cd_fileSizeGB = 2, cd_pricePerGBMonth = 50000, cd_endTime = 0, cd_alertDays = 3, cd_status = 0\<rparr> 30
   < sol_renew_charge 500 \<lparr>cd_client = [], cd_fileSizeGB = 2, cd_pricePerGBMonth = 50000, cd_endTime = 0, cd_alertDays = 3, cd_status = 0\<rparr> 30"
  using renewal_approval_exact[of "\<lparr>cd_client = [], cd_fileSizeGB = 2, cd_pricePerGBMonth = 50000, cd_endTime = 0, cd_alertDays = 3, cd_status = 0\<rparr>" 30 500]
  by (simp add: months_of_def)

theorem create_deal_follows_plan_witness:
  "\<exists>el \<in> {ch_eligible (chain page0) (nat (js_round (df_price deal0 * 1000000))), []}.
     follows_plan (calls page0) (create_plan [] ''r'' deal0 (chain page0) el)
       (final (handleCreateDeal [] ''r'' deal0) \<lparr>db = page0, clock = 0, script = [False, False, False, False, False, True]\<rparr>)"
  using create_deal_follows_plan[of "\<lparr>db = page0, clock = 0, script = [False, False, False, False, False, True]\<rparr>" deal0 "[]" "''r''"]
  by (simp add: wallet_ok_def page0_def)


theorem nothing_sent_without_wallet_witness:
  "sent (final (handleStake) \<lparr>db = eth_page, clock = 0, script = []\<rparr>) = sent eth_page"
  using nothing_sent_without_wallet[of "\<lparr>db = eth_page, clock = 0, script = []\<rparr>" handleStake] by (simp add: wallet_ok_def)

theorem expiry_alerts_exact_witness:
  "map n_title (notifications (final checkExpirations \<lparr>db = client_page, clock = 0, script = []\<rparr>)) = [''Expiring Soon'']"
proof -
  have "to_lower ''0xABCDEF0123456789'' = to_lower ''0xabcdef0123456789''" "to_lower ''0xother'' \<noteq> to_lower ''0xabcdef0123456789''"
    by code_simp+
  then show ?thesis
    using expiry_alerts_exact[of "\<lparr>db = client_page, clock = 0, script = []\<rparr>" "''0xabcdef0123456789''" "ch_deals (chain client_page)"]
    by (simp add: client_page_def page0_def List.map_filter_simps deal_alert_def upt_rec)
qed

end
