(* ===== verification/Dash_Files.thy ===== *)
theory Dash_Files
  imports Dash_Deals Deal_Pipeline Auth_Wrapper File_Encryption
begin

text \<open>
  Files in the dashboard (\<^verbatim>\<open>dashboard/app.js\<close>): selecting a file, which encrypts and uploads it,
  downloading and decrypting, and cancelling a deal. The page talks to the REST API, whose routes are
  those of \<open>Rest_Api\<close> and \<open>Deal_Pipeline\<close>, run on the database part of a larger state; cancelling goes
  through the signing wrapper of \<open>Auth_Wrapper\<close>. The state is one browser tab with the server behind it.

  The platform's cryptography, the wallet's signature, the identifier function of IPFS and the error
  page of the public gateway are parameters, the random key and nonce arguments. Progress texts
  that the same handler overwrites are left out, and so are dashes and icons in texts.
\<close>

section \<open>State\<close>

record selected_file =
  sf_name :: string
  sf_bytes :: bytes
  sf_encrypted :: "encrypted_file option"

text \<open>A row of the table of deals: number, client, size and status (a status without a name is undefined).\<close>

record shown_deal =
  sd_id :: string
  sd_client :: string
  sd_size :: rat
  sd_status :: "string option"

record tab =
  pg :: page
  selected :: "selected_file option"
  file_cid :: string
  enc_status :: string
  server :: database
  opened :: "string list"
  saved :: "(string \<times> bytes) list"
  alerted :: "string list"
  deal_rows :: "shown_deal list"

record browser =
  b_lib :: crypto_lib
  b_sign :: "string \<Rightarrow> string"
  b_cid :: "bytes \<Rightarrow> string"
  b_recover :: recovery
  b_error_page :: bytes

definition on_server :: "'a sql \<Rightarrow> (tab, 'a) act" where
  "on_server m = zoom server (\<lambda>d t. t\<lparr>server := d\<rparr>) m"

text \<open>A request may fail before the server sees it, and its answer may get lost.\<close>

definition request :: "'a reply sql \<Rightarrow> (tab, 'a reply) act" where
  "request m = andthen (reads (\<lambda>_. ())) (bind (on_server m) (\<lambda>r. reads (\<lambda>_. r)))"

definition page_activity :: "string \<Rightarrow> string \<Rightarrow> string \<Rightarrow> (tab, unit) act" where
  "page_activity user msg type = local_set (\<lambda>t. t\<lparr>pg := addActivity user msg type (pg t)\<rparr>)"

definition set_status :: "string \<Rightarrow> (tab, unit) act" where
  "set_status x = local_set (\<lambda>t. t\<lparr>enc_status := x\<rparr>)"

definition alert :: "string \<Rightarrow> (tab, unit) act" where
  "alert msg = local_set (\<lambda>t. t\<lparr>alerted := alerted t @ [msg]\<rparr>)"

text \<open>The wallet signs the fixed message, or the user refuses.\<close>

definition wallet_signature :: "browser \<Rightarrow> (tab, string) act" where
  "wallet_signature env = reads (\<lambda>t. b_sign env (case userAddress (pg t) of Some a \<Rightarrow> a | None \<Rightarrow> []))"

section \<open>Selecting a file\<close>

definition detectFileCategory :: "string \<Rightarrow> string" where
  "detectFileCategory fileName =
     (let ext = to_lower (rev (takeWhile (\<lambda>c. c \<noteq> CHR ''.'') (rev fileName))) in
      if ext \<in> set [''mp4'', ''mov'', ''avi'', ''mkv'', ''webm''] then ''Video Streaming''
      else if ext \<in> set [''csv'', ''json'', ''hdf5'', ''dat'', ''fits''] then ''Scientific Data''
      else if ext \<in> set [''zip'', ''tar'', ''gz'', ''7z'', ''rar'', ''bak''] then ''Backups''
      else if ext \<in> set [''html'', ''css'', ''js'', ''png'', ''jpg'', ''jpeg'', ''svg'', ''webp''] then ''Web Assets''
      else ''General Data'')"

definition uploadToIPFS :: "browser \<Rightarrow> string \<Rightarrow> bytes \<Rightarrow> (tab, unit) act" where
  "uploadToIPFS env name blob = try_catch
     (bind (request (post_upload (b_cid env) (Some (name, blob)))) (\<lambda>r. case r of
          Err _ _ \<Rightarrow> throw ''Upload failed''
        | Ok d \<Rightarrow>
            andthen (local_set (\<lambda>t. t\<lparr>file_cid := up_cid d\<rparr>))
           (bind (local_get selected) (\<lambda>f. case f of
                None \<Rightarrow> throw ''TypeError''
              | Some f \<Rightarrow>
                  andthen (if sf_encrypted f = None then set_status ''Uploaded to IPFS'' else ret ())
                          (page_activity ''System'' (''File uploaded to IPFS: '' @ take 12 (up_cid d) @ ''...'') ''system'')))))
     (\<lambda>_. set_status ''Upload failed'')"

text \<open>The reader's callback when a wallet is connected.\<close>

definition encrypt_and_upload :: "browser \<Rightarrow> bytes \<Rightarrow> bytes \<Rightarrow> string \<Rightarrow> bytes \<Rightarrow> (tab, unit) act" where
  "encrypt_and_upload env aesKey iv name fileBuffer = try_catch
     (bind (wallet_signature env) (\<lambda>signature.
      let encrypted = encryptFile (b_lib env) signature aesKey iv fileBuffer in
      andthen (local_set (\<lambda>t. t\<lparr>selected := map_option (\<lambda>f. f\<lparr>sf_encrypted := Some encrypted\<rparr>) (selected t)\<rparr>))
     (andthen (page_activity ''Security'' (''File '' @ name @ '' encrypted with AES-256-GCM'') ''system'')
     (andthen (uploadToIPFS env name (ef_data encrypted))
              (set_status ''End-to-End Encrypted'')))))
     (\<lambda>_. andthen (set_status ''Encryption failed, uploading raw'') (uploadToIPFS env name fileBuffer))"

text \<open>The activity is logged before the upload that the handler started gets anywhere.\<close>

definition handleFileSelect :: "browser \<Rightarrow> bytes \<Rightarrow> bytes \<Rightarrow> string \<Rightarrow> bytes \<Rightarrow> (tab, unit) act" where
  "handleFileSelect env aesKey iv name fileBuffer =
     andthen (local_set (\<lambda>t. t\<lparr>selected := Some \<lparr>sf_name = name, sf_bytes = fileBuffer, sf_encrypted = None\<rparr>\<rparr>))
    (andthen (page_activity ''User'' (''Selected file: '' @ name @ '' ('' @ detectFileCategory name @ '')'') ''user'')
    (bind (local_get (\<lambda>t. provider (pg t) \<and> userAddress (pg t) \<noteq> None)) (\<lambda>connected.
       if connected then encrypt_and_upload env aesKey iv name fileBuffer
       else andthen (set_status ''Uploading...'') (uploadToIPFS env name fileBuffer))))"

text \<open>The input with the content identifier keeps its value.\<close>

definition removeFile :: "tab \<Rightarrow> tab" where
  "removeFile t = t\<lparr>selected := None\<rparr>"

section \<open>Downloading\<close>

text \<open>\<^verbatim>\<open>cid.replace('ipfs://', '')\<close> removes the first occurrence.\<close>

fun remove_first :: "string \<Rightarrow> string \<Rightarrow> string" where
  "remove_first pat [] = []"
| "remove_first pat (c # s) = (if starts_with (c # s) pat then drop (length pat) (c # s) else c # remove_first pat s)"

definition gateway :: "string \<Rightarrow> string" where
  "gateway cid = ''https://ipfs.io/ipfs/'' @ remove_first ''ipfs://'' cid"

definition window_open :: "string \<Rightarrow> (tab, unit) act" where
  "window_open url = local_set (\<lambda>t. t\<lparr>opened := opened t @ [url]\<rparr>)"

text \<open>The key as the API answers it; every failure counts as not encrypted.\<close>

definition key_status :: "string \<Rightarrow> (tab, key_view option) act" where
  "key_status dealId = try_catch
     (bind (request (get_key dealId)) (\<lambda>r. ret (case r of Ok v \<Rightarrow> (if kv_encrypted v then Some v else None) | Err _ _ \<Rightarrow> None)))
     (\<lambda>_. ret None)"

text \<open>The gateway's answer is used whatever its status: a missing file gives the error page.\<close>

definition fetch_gateway :: "browser \<Rightarrow> string \<Rightarrow> (tab, bytes) act" where
  "fetch_gateway env cid = reads (\<lambda>t. case blocks (server t) (remove_first ''ipfs://'' cid) of
       Some b \<Rightarrow> b | None \<Rightarrow> b_error_page env)"

definition decrypt_and_save :: "browser \<Rightarrow> string \<Rightarrow> key_view \<Rightarrow> bytes \<Rightarrow> (tab, unit) act" where
  "decrypt_and_save env dealId v encryptedBuffer = try_catch
     (case (kv_key v, kv_iv v, kv_tag v) of
        (Some k, Some i, Some g) \<Rightarrow>
          bind (wallet_signature env) (\<lambda>signature.
            case decryptFile (b_lib env) signature \<lparr>ef_data = encryptedBuffer, ef_key = k, ef_iv = i, ef_tag = g\<rparr> of
              None \<Rightarrow> throw ''OperationError''
            | Some decrypted \<Rightarrow>
                andthen (local_set (\<lambda>t. t\<lparr>saved := saved t @ [(''kyneto_decrypted_deal_'' @ dealId, decrypted)]\<rparr>))
                        (page_activity ''System'' ''Download and decryption successful'' ''system''))
      | _ \<Rightarrow> throw ''TypeError'')
     (\<lambda>_. alert ''Decryption failed. Please ensure you are connected with the correct wallet.'')"

definition downloadFile :: "browser \<Rightarrow> string \<Rightarrow> string \<Rightarrow> (tab, unit) act" where
  "downloadFile env cid dealId = (if cid = [] then ret () else try_catch
     (andthen (page_activity ''System'' (''Downloading file: '' @ cid) ''system'')
     (bind (local_get (\<lambda>t. provider (pg t) \<and> userAddress (pg t) \<noteq> None)) (\<lambda>connected.
        if dealId = [] \<or> \<not> connected then window_open (gateway cid)
        else bind (key_status dealId) (\<lambda>key. case key of
            None \<Rightarrow> window_open (gateway cid)
          | Some v \<Rightarrow>
              andthen (page_activity ''Security'' ''Decrypting file locally via KynetoEncrypt...'' ''system'')
             (bind (fetch_gateway env cid) (decrypt_and_save env dealId v))))))
     (\<lambda>_. alert ''Could not download or decrypt the file.''))"

section \<open>Cancelling\<close>

text \<open>
  The wrapper looks for \<^verbatim>\<open>window.signer\<close> and \<^verbatim>\<open>window.userAddress\<close>. The page declares both with \<^verbatim>\<open>let\<close> at the top
  level of a script, and such a variable is no property of the window object: the wrapper finds
  neither, whatever the page's variables hold.
\<close>

definition window_properties :: "page \<Rightarrow> page_wallet" where
  "window_properties s = \<lparr>w_signer = None, w_userAddress = []\<rparr>"

definition cancel_request :: "string \<Rightarrow> string \<Rightarrow> page \<Rightarrow> fetch_req" where
  "cancel_request host dealId s = \<lparr>fr_url = host @ ''/api/deals/'' @ dealId, fr_method = ''DELETE'',
     fr_headers = (''Content-Type'', ''application/json'') # (case userAddress s of None \<Rightarrow> [] | Some a \<Rightarrow> [(''x-client-address'', a)]),
     fr_body = NoBody\<rparr>"

text \<open>
  \<^verbatim>\<open>win\<close> is the window object the wrapper sees. After a cancellation the handler calls
  \<^verbatim>\<open>fetchDashboardStats\<close>, which is defined nowhere.
\<close>

definition cancel_deal_in :: "(page \<Rightarrow> page_wallet) \<Rightarrow> browser \<Rightarrow> string \<Rightarrow> string \<Rightarrow> bool \<Rightarrow> (tab, unit) act" where
  "cancel_deal_in win env host dealId confirmed = (if \<not> confirmed then ret () else try_catch
     (bind (local_get pg) (\<lambda>s.
        case kyneto_fetch (win s) (cancel_request host dealId s) of
          Inl e \<Rightarrow> throw e
        | Inr r \<Rightarrow> bind (request (serve_delete (b_recover env) r)) (\<lambda>reply. case reply of
              Err _ msg \<Rightarrow> throw (if msg = [] then ''Failed to cancel deal'' else msg)
            | Ok _ \<Rightarrow>
                bind now (\<lambda>t.
                andthen (page_activity ''User'' (''Deal '' @ dealId @ '' cancelled successfully'') ''user'')
               (andthen (local_set (\<lambda>x. x\<lparr>pg := addNotification t ''deal'' ''Deal Cancelled''
                   (''Storage deal '' @ dealId @ '' has been cancelled and shards are being deleted.'') (Some (JStr dealId)) (pg x)\<rparr>))
               (andthen (if signer s then page_activity ''System'' ''Attempting to cancel deal on-chain...'' ''system'' else ret ())
                        (throw ''fetchDashboardStats is not defined'')))))))
     (\<lambda>e. alert (''Failed to cancel deal: '' @ e)))"

definition cancelDeal :: "browser \<Rightarrow> string \<Rightarrow> string \<Rightarrow> bool \<Rightarrow> (tab, unit) act" where
  "cancelDeal = cancel_deal_in window_properties"

section \<open>What reaches the network\<close>

lemma wp_on_server [wp_rules]:
  "wp t m (\<lambda>x d. Q x (s\<lparr>server := d\<rparr>)) (\<lambda>e d. E e (s\<lparr>server := d\<rparr>)) (server s) \<Longrightarrow> wp t (on_server m) Q E s"
  unfolding on_server_def by (rule wp_zoom)

lemma wp_request:
  assumes "E ''rejected'' s"
    and "wp t m (\<lambda>r d. E ''rejected'' (s\<lparr>server := d\<rparr>) \<and> Q r (s\<lparr>server := d\<rparr>)) (\<lambda>e d. E e (s\<lparr>server := d\<rparr>)) (server s)"
  shows "wp t (request m) Q E s"
  unfolding request_def
  by (intro wp_andthen wp_bind wp_reads wp_on_server assms(1)) (auto intro!: wp_mono[OF assms(2)] wp_reads)

lemma wp_post_upload:
  assumes "\<And>c msg. Q (Err c msg) s"
    and "\<And>d. up_cid d = cid_of b \<Longrightarrow> Q (Ok d) (s\<lparr>blocks := (blocks s)(cid_of b \<mapsto> b)\<rparr>)"
  shows "wp t (post_upload cid_of (Some (n, b))) Q E s"
  unfolding post_upload_def or_500_def ipfs_add_def
  by (intro wp_try_catch) (auto intro!: wp_bind wp_effect wp_ret assms)

lemma wp_tab_local [wp_rules]:
  "Q () (s\<lparr>pg := addActivity u m k (pg s)\<rparr>) \<Longrightarrow> wp t (page_activity u m k) Q E s"
  "Q () (s\<lparr>enc_status := x\<rparr>) \<Longrightarrow> wp t (set_status x) Q E s"
  "Q () (s\<lparr>alerted := alerted s @ [msg]\<rparr>) \<Longrightarrow> wp t (alert msg) Q E s"
  "Q () (s\<lparr>opened := opened s @ [url]\<rparr>) \<Longrightarrow> wp t (window_open url) Q E s"
  by (simp_all add: page_activity_def set_status_def alert_def window_open_def wp_local_set)

definition wallet_account :: "page \<Rightarrow> string" where
  "wallet_account s = (case userAddress s of Some a \<Rightarrow> a | None \<Rightarrow> [])"

definition wallet_on :: "tab \<Rightarrow> bool" where
  "wallet_on t \<longleftrightarrow> provider (pg t) \<and> userAddress (pg t) \<noteq> None"

lemma activity_keeps [simp]:
  "provider (addActivity u m k s) = provider s" "userAddress (addActivity u m k s) = userAddress s"
  "signer (addActivity u m k s) = signer s"
  by (simp_all add: addActivity_def)

text \<open>An upload stores its blob or nothing, and the identifier shown is that of a stored blob.\<close>

definition uploaded :: "browser \<Rightarrow> bytes \<Rightarrow> tab \<Rightarrow> tab \<Rightarrow> bool" where
  "uploaded env blob t t' \<longleftrightarrow> selected t' = selected t \<and>
     server t' \<in> {server t, (server t)\<lparr>blocks := (blocks (server t))(b_cid env blob \<mapsto> blob)\<rparr>} \<and>
     (file_cid t' \<noteq> file_cid t \<longrightarrow> file_cid t' = b_cid env blob \<and> blocks (server t') (b_cid env blob) = Some blob)"

lemma wp_uploadToIPFS:
  assumes "selected s \<noteq> None" and "\<And>s'. uploaded env blob s s' \<Longrightarrow> Q () s'"
  shows "wp t (uploadToIPFS env name blob) Q E s"
proof -
  obtain f where f: "selected s = Some f" using assms(1) by blast
  show ?thesis
    unfolding uploadToIPFS_def
    by (rule wp_try_catch, rule wp_bind, rule wp_request)
       (auto intro!: wp_rules wp_post_upload assms(2) simp: f uploaded_def)
qed

text \<open>
  What is put on IPFS when a file is selected. However the wallet, the network and the server fail, the
  server stores one block at most: the ciphertext if the file counts as encrypted afterwards, and
  the file itself otherwise. A file counts as encrypted only with a connected wallet, and then with
  the data that this wallet can decrypt. An identifier that appears in the form names a stored block.
\<close>

theorem selected_file_content:
  assumes "final (handleFileSelect env aesKey iv name content) w = t'"
  shows "\<exists>enc. selected t' = Some \<lparr>sf_name = name, sf_bytes = content, sf_encrypted = enc\<rparr> \<and>
    (enc = None \<or> wallet_on (db w) \<and> enc = Some (encryptFile (b_lib env) (b_sign env (wallet_account (pg (db w)))) aesKey iv content)) \<and>
    (let blob = (case enc of None \<Rightarrow> content | Some e \<Rightarrow> ef_data e); s = server (db w)
     in server t' \<in> {s, s\<lparr>blocks := (blocks s)(b_cid env blob \<mapsto> blob)\<rparr>} \<and>
        (file_cid t' \<noteq> file_cid (db w) \<longrightarrow> file_cid t' = b_cid env blob \<and> blocks (server t') (file_cid t') = Some blob))"
  (is "?P t'")
proof -
  have "?P (final (handleFileSelect env aesKey iv name content) w)"
  proof (rule wp_final_now[where P = ?P])
    show "wp (clock w) (handleFileSelect env aesKey iv name content) (\<lambda>_. ?P) (\<lambda>_. ?P) (db w)"
      unfolding handleFileSelect_def encrypt_and_upload_def wallet_signature_def Let_def
      by (auto intro!: wp_rules wp_uploadToIPFS simp: uploaded_def wallet_on_def wallet_account_def)
  qed
  then show ?thesis unfolding assms .
qed

section \<open>Uploads that go wrong\<close>

lemma quietly_request [quiet_rules]:
  "quietly t m (\<lambda>r d. Q r (s\<lparr>server := d\<rparr>)) (server s) \<Longrightarrow> quietly t (request m) Q s"
  unfolding request_def on_server_def
  by (intro quietly_andthen quietly_bind quietly_reads quietly_zoom) (auto elim!: quietly_mono intro: quietly_reads)

lemma quietly_tab_local [quiet_rules]:
  "Q () (s\<lparr>pg := addActivity u m k (pg s)\<rparr>) \<Longrightarrow> quietly t (page_activity u m k) Q s"
  "Q () (s\<lparr>enc_status := x\<rparr>) \<Longrightarrow> quietly t (set_status x) Q s"
  "Q () (s\<lparr>alerted := alerted s @ [msg]\<rparr>) \<Longrightarrow> quietly t (alert msg) Q s"
  "Q () (s\<lparr>opened := opened s @ [url]\<rparr>) \<Longrightarrow> quietly t (window_open url) Q s"
  by (simp_all add: page_activity_def set_status_def alert_def window_open_def quietly_local)

lemma quietly_post_upload:
  assumes "\<And>d. up_cid d = cid_of b \<Longrightarrow> Q (Ok d) (s\<lparr>blocks := (blocks s)(cid_of b \<mapsto> b)\<rparr>)"
  shows "quietly t (post_upload cid_of (Some (n, b))) Q s"
  unfolding post_upload_def or_500_def ipfs_add_def
  using assms by (auto simp: quietly_def effect_Nil)

text \<open>An upload when nothing fails.\<close>

definition upload_done :: "browser \<Rightarrow> bytes \<Rightarrow> tab \<Rightarrow> tab \<Rightarrow> bool" where
  "upload_done env blob t t' \<longleftrightarrow> selected t' = selected t \<and> file_cid t' = b_cid env blob \<and>
     server t' = (server t)\<lparr>blocks := (blocks (server t))(b_cid env blob \<mapsto> blob)\<rparr> \<and>
     (enc_status t' = (if \<exists>f. selected t = Some f \<and> sf_encrypted f = None then ''Uploaded to IPFS'' else enc_status t)) \<and>
     opened t' = opened t \<and> saved t' = saved t \<and> alerted t' = alerted t \<and> wallet_on t' = wallet_on t \<and>
     userAddress (pg t') = userAddress (pg t)"

lemma quietly_uploadToIPFS:
  assumes "selected s \<noteq> None" and "\<And>s'. upload_done env blob s s' \<Longrightarrow> Q () s'"
  shows "quietly t (uploadToIPFS env name blob) Q s"
proof -
  obtain f where f: "selected s = Some f" using assms(1) by blast
  show ?thesis
    unfolding uploadToIPFS_def
    by (rule quietly_try_catch, rule quietly_bind, rule quietly_request, rule quietly_post_upload)
       (auto intro!: quiet_rules assms(2) simp: f upload_done_def wallet_on_def)
qed

text \<open>
  A refused signature puts the file itself on IPFS. With a connected wallet whose user declines to sign,
  and no other failure, the file is uploaded in clear and its identifier offered for the deal; the
  status reads as after any other upload.
\<close>

theorem refused_signature_uploads_plaintext:
  assumes "wallet_on (db w)" and "script w = [True]"
    and "final (handleFileSelect env aesKey iv name content) w = t'"
  shows "blocks (server t') (b_cid env content) = Some content \<and> file_cid t' = b_cid env content \<and>
    enc_status t' = ''Uploaded to IPFS''"
proof -
  let ?s = "(db w)\<lparr>selected := Some \<lparr>sf_name = name, sf_bytes = content, sf_encrypted = None\<rparr>,
      pg := addActivity ''User'' (''Selected file: '' @ name @ '' ('' @ detectFileCategory name @ '')'') ''user'' (pg (db w)),
      enc_status := ''Encryption failed, uploading raw''\<rparr>"
  let ?P = "\<lambda>t'. blocks (server t') (b_cid env content) = Some content \<and> file_cid t' = b_cid env content \<and> enc_status t' = ''Uploaded to IPFS''"
  have "final (handleFileSelect env aesKey iv name content) w = final (uploadToIPFS env name content) (w\<lparr>script := [], db := ?s\<rparr>)"
    using assms(1,2)
    by (simp add: final_def handleFileSelect_def encrypt_and_upload_def wallet_signature_def page_activity_def set_status_def wallet_on_def)
  moreover have "?P (final (uploadToIPFS env name content) (w\<lparr>script := [], db := ?s\<rparr>))"
    by (rule quietly_final[where P = ?P], rule quietly_uploadToIPFS) (auto simp: upload_done_def)
  ultimately show ?thesis using assms(3) by simp
qed

section \<open>Downloads\<close>

definition key_answer :: "string \<Rightarrow> database \<Rightarrow> key_view option" where
  "key_answer i s = (case find_deal i s of
       Some d \<Rightarrow> (if d_is_encrypted d \<and> d_key d \<noteq> None \<and> d_key d \<noteq> Some []
                  then Some \<lparr>kv_encrypted = True, kv_key = d_key d, kv_iv = d_iv d, kv_tag = d_tag d, kv_client = Some (d_client d)\<rparr>
                  else None)
     | None \<Rightarrow> None)"

lemma quietly_key_status:
  "Q (key_answer i (server s)) s \<Longrightarrow> quietly t (key_status i) Q s"
  unfolding key_status_def get_key_def or_500_def
  by (rule quietly_try_catch, rule quietly_bind, rule quietly_request)
     (auto intro!: quiet_rules simp: key_answer_def split: option.split)

definition row_holds_key :: "encrypted_file \<Rightarrow> deal_row \<Rightarrow> bool" where
  "row_holds_key e d \<longleftrightarrow> d_is_encrypted d \<and> d_key d = Some (ef_key e) \<and> d_iv d = Some (ef_iv e) \<and> d_tag d = Some (ef_tag e)"

lemma ef_key_nonempty: "aesKey \<noteq> [] \<Longrightarrow> ef_key (encryptFile lib sg aesKey iv content) \<noteq> []"
  using length_wrap[of "deriveWrappingKey lib sg" aesKey]
  by (cases "wrapKeyWithWallet (deriveWrappingKey lib sg) aesKey") (auto simp: encryptFile_def Let_def arrayToHex_def byte_hex_def)

lemma quietly_decrypt_and_save:
  assumes "gcm_ok (b_lib env)" and "e = encryptFile (b_lib env) (b_sign env (wallet_account (pg s))) aesKey iv content"
    and "kv_key v = Some (ef_key e)" and "kv_iv v = Some (ef_iv e)" and "kv_tag v = Some (ef_tag e)"
    and "Q () (s\<lparr>saved := saved s @ [(''kyneto_decrypted_deal_'' @ i, content)],
      pg := addActivity ''System'' ''Download and decryption successful'' ''system'' (pg s)\<rparr>)"
  shows "quietly t (decrypt_and_save env i v (ef_data e)) Q s"
proof -
  have "decryptFile (b_lib env) (b_sign env (wallet_account (pg s)))
      \<lparr>ef_data = ef_data e, ef_key = ef_key e, ef_iv = ef_iv e, ef_tag = ef_tag e\<rparr> = Some content"
    using decrypt_encrypt[OF assms(1), where signature = "b_sign env (wallet_account (pg s))" and aesKey = aesKey and iv = iv and fileBuffer = content]
    unfolding assms(2)[symmetric] by (cases e) simp
  then show ?thesis
    using assms(3-6) unfolding decrypt_and_save_def wallet_signature_def wallet_account_def[symmetric]
    by (auto intro!: quiet_rules)
qed

lemma activity_account [simp]: "wallet_account (addActivity u m k s) = wallet_account s"
  by (simp add: wallet_account_def)

lemma download_stored:
  assumes "gcm_ok (b_lib env)" and "wallet_on s" and "cid \<noteq> []" and "i \<noteq> []" and "aesKey \<noteq> []"
    and e: "e = encryptFile (b_lib env) (b_sign env (wallet_account (pg s))) aesKey iv content"
    and "find_deal i (server s) = Some d" and "row_holds_key e d"
    and stored: "blocks (server s) (remove_first ''ipfs://'' cid) = Some (ef_data e)"
  shows "quietly t (downloadFile env cid i) (\<lambda>_ t'. saved t' = saved s @ [(''kyneto_decrypted_deal_'' @ i, content)] \<and>
    opened t' = opened s \<and> alerted t' = alerted s) s"
proof -
  have key: "key_answer i (server s) = Some \<lparr>kv_encrypted = True, kv_key = Some (ef_key e), kv_iv = Some (ef_iv e),
      kv_tag = Some (ef_tag e), kv_client = Some (d_client d)\<rparr>"
    using assms(7,8) ef_key_nonempty[OF assms(5)] e by (simp add: key_answer_def row_holds_key_def)
  show ?thesis
    using assms(2-4) unfolding downloadFile_def fetch_gateway_def
    by (auto intro!: quiet_rules quietly_key_status
          quietly_decrypt_and_save[OF assms(1), where e = e and aesKey = aesKey and iv = iv and content = content] e
        simp: key stored activity_account wallet_on_def)
qed

text \<open>
  A file whose key is stored comes back. If the row of the deal holds the key material of the file as the
  page encrypted it under the connected wallet, and the ciphertext is on IPFS under the identifier (with
  or without its scheme), then downloading saves exactly the original file, when nothing fails: no
  tab is opened and no alert shown.
\<close>

theorem stored_key_download:
  assumes "gcm_ok (b_lib env)" and "wallet_on (db w)" and "script w = []" and "cid \<noteq> []" and "i \<noteq> []" and "aesKey \<noteq> []"
    and "e = encryptFile (b_lib env) (b_sign env (wallet_account (pg (db w)))) aesKey iv content"
    and "find_deal i (server (db w)) = Some d" and "row_holds_key e d"
    and "blocks (server (db w)) (remove_first ''ipfs://'' cid) = Some (ef_data e)"
  shows "saved (final (downloadFile env cid i) w) = saved (db w) @ [(''kyneto_decrypted_deal_'' @ i, content)] \<and>
    opened (final (downloadFile env cid i) w) = opened (db w) \<and> alerted (final (downloadFile env cid i) w) = alerted (db w)"
  using quietly_final[OF download_stored[OF assms(1,2,4-10)] assms(3)] .

lemma download_unkeyed:
  assumes "wallet_on (db w)" and "script w = []" and "cid \<noteq> []" and "key_answer i (server (db w)) = None"
  shows "opened (final (downloadFile env cid i) w) = opened (db w) @ [''https://ipfs.io/ipfs/'' @ remove_first ''ipfs://'' cid] \<and>
    saved (final (downloadFile env cid i) w) = saved (db w)"
proof -
  let ?P = "\<lambda>t'. opened t' = opened (db w) @ [gateway cid] \<and> saved t' = saved (db w)"
  have "quietly (clock w) (downloadFile env cid i) (\<lambda>_. ?P) (db w)"
    using assms(1,3,4) unfolding downloadFile_def
    by (auto intro!: quiet_rules quietly_key_status simp: wallet_on_def)
  then have "?P (final (downloadFile env cid i) w)" using assms(2) by (rule quietly_final)
  then show ?thesis by (simp add: gateway_def)
qed

text \<open>
  A deal without a stored key is never decrypted: downloading opens the public gateway, where an
  encrypted file is its ciphertext, and saves nothing.
\<close>

theorem unkeyed_download_opens_gateway:
  assumes "wallet_on (db w)" and "script w = []" and "cid \<noteq> []" and "key_answer i (server (db w)) = None"
  shows "opened (final (downloadFile env cid i) w) = opened (db w) @ [''https://ipfs.io/ipfs/'' @ remove_first ''ipfs://'' cid] \<and>
    saved (final (downloadFile env cid i) w) = saved (db w)"
  using assms by (rule download_unkeyed)

section \<open>Cancelling\<close>

text \<open>
  C40. The page cannot cancel a deal. Whatever wallet is connected, and whatever the server would say, a
  confirmed cancellation fails in the signing wrapper: nothing is sent, the server and the page stay as
  they are, and the user is told to connect the wallet.
\<close>

theorem cancel_never_sent:
  assumes "i \<noteq> []" and "CHR ''/'' \<notin> set i" and "CHR ''?'' \<notin> set i"
  shows "final (cancelDeal env host i True) w =
    (db w)\<lparr>alerted := alerted (db w) @ [''Failed to cancel deal: Wallet not connected. Please connect your wallet first.'']\<rparr>"
proof -
  have "kyneto_fetch (window_properties s) (cancel_request host i s) = Inl ''Wallet not connected. Please connect your wallet first.''" for s
    using cancel_match_url[OF assms, of host]
    by (simp add: kyneto_fetch_def cancel_request_def window_properties_def getSignature_def upper_delete)
  then show ?thesis by (simp add: cancelDeal_def cancel_deal_in_def final_def alert_def)
qed

lemma orderly_delete_deal: "orderly (delete_deal recover i a sg)"
  unfolding delete_deal_def or_500_def by (auto intro!: orderly_rules split: option.split)

text \<open>
  And with the variables where the wrapper looks for them, a cancellation that succeeds would still be
  reported as failed: the deal is cancelled and its shards are released on the server, the page
  notes the success, and then alerts the failure of the call to a function that does not exist.
\<close>

theorem cancelled_but_reported_failed:
  assumes "i \<noteq> []" and "CHR ''/'' \<notin> set i" and "CHR ''?'' \<notin> set i"
    and "w_signer (win (pg (db w))) = Some sign" and "sign (''cancel-deal-'' @ i) = Some sg" and "sg \<noteq> []"
    and "w_userAddress (win (pg (db w))) \<noteq> []"
    and "verifySignature (b_recover env) (''cancel-deal-'' @ i) sg (d_client d)"
    and "script w = []" and "find_deal i (server (db w)) = Some d" and "d_status d \<in> {Active, InGracePeriod}"
  shows "status_of (server (final (cancel_deal_in win env host i True) w)) i = Some Cancelled \<and>
    active_shards i (server (final (cancel_deal_in win env host i True) w)) = [] \<and>
    alerted (final (cancel_deal_in win env host i True) w) =
      alerted (db w) @ [''Failed to cancel deal: fetchDashboardStats is not defined'']"
proof -
  let ?r = "(cancel_request host i (pg (db w)))\<lparr>fr_headers := put_header ''Content-Type'' ''application/json'' (fr_headers (cancel_request host i (pg (db w)))),
      fr_body := Json (JObj [(''client_address'', JStr (w_userAddress (win (pg (db w))))), (''signature'', JStr sg)])\<rparr>"
  have url: "cancel_match (fr_url (cancel_request host i s)) = Some i" "fr_method (cancel_request host i s) = ''DELETE''" for s
    using cancel_match_url[OF assms(1-3), of host] by (simp_all add: cancel_request_def)
  have fetch: "kyneto_fetch (win (pg (db w))) (cancel_request host i (pg (db w))) = Inr ?r"
    using url assms(4,5) by (simp add: kyneto_fetch_def getSignature_def upper_delete Let_def)
  have serve: "serve_delete (b_recover env) ?r = delete_deal (b_recover env) i (w_userAddress (win (pg (db w)))) sg"
    using url by (simp add: serve_delete_def str_field_def)
  let ?u = "\<lparr>db = server (db w), clock = clock w, script = script w\<rparr>"
  obtain u where u: "delete_deal (b_recover env) i (w_userAddress (win (pg (db w)))) sg ?u =
        (Inr (Ok (length (active_shards i (server (db w))))), u)"
      "status_of (db u) i = Some Cancelled" "active_shards i (db u) = []"
    using delete_deal_run[of ?u, OF _ _ assms(11,8,7,6)] assms(9,10) by auto
  have "orderly (delete_deal (b_recover env) i (w_userAddress (win (pg (db w)))) sg)" by (rule orderly_delete_deal)
  then have su: "script u = []" using orderly_quiet[of _ ?u] u(1) assms(9) by fastforce
  have req: "request (serve_delete (b_recover env) ?r) w =
      (Inr (Ok (length (active_shards i (server (db w))))), \<lparr>db = (db w)\<lparr>server := db u\<rparr>, clock = clock u, script = []\<rparr>)"
    using u(1) su assms(9) unfolding serve by (simp add: request_def on_server_def zoom_def)
  show ?thesis
    using u(2,3) by (cases "signer (pg (db w))") (simp_all add: final_def cancel_deal_in_def fetch req page_activity_def alert_def)
qed

section \<open>A tab with a connected wallet\<close>

definition tab0 :: tab where
  "tab0 = \<lparr>pg = page0\<lparr>userAddress := Some ''aB''\<rparr>, selected = None, file_cid = [], enc_status = [], server = db (api_world ''ab''),
     opened = [], saved = [], alerted = [], deal_rows = []\<rparr>"

definition env0 :: browser where
  "env0 = \<lparr>b_lib = toy_crypto, b_sign = (\<lambda>a. a), b_cid = (\<lambda>b. ''Q''), b_recover = plain_recovery, b_error_page = [1]\<rparr>"

definition tab_world :: "bool list \<Rightarrow> tab world" where
  "tab_world sc = \<lparr>db = tab0, clock = 0, script = sc\<rparr>"

lemma tab0_facts [simp]: "wallet_on tab0" "userAddress (pg tab0) = Some ''aB''" "wallet_account (pg tab0) = ''aB''"
  "saved tab0 = []" "opened tab0 = []" "alerted tab0 = []" "db (tab_world sc) = tab0" "script (tab_world sc) = sc"
  "clock (tab_world sc) = 0" "server tab0 = db (api_world ''ab'')"
  by (simp_all add: tab0_def wallet_on_def wallet_account_def tab_world_def page0_def)

theorem selected_file_content_witness:
  "\<exists>enc. selected (final (handleFileSelect env0 [1] [7] ''a.txt'' [10, 20]) (tab_world [False, True])) =
     Some \<lparr>sf_name = ''a.txt'', sf_bytes = [10, 20], sf_encrypted = enc\<rparr>"
  using selected_file_content[OF refl, of env0 "[1]" "[7]" "''a.txt''" "[10, 20]" "tab_world [False, True]"] by blast

theorem refused_signature_uploads_plaintext_witness:
  "blocks (server (final (handleFileSelect env0 [1] [7] ''a.txt'' [10, 20]) (tab_world [True]))) ''Q'' = Some [10, 20]"
  using refused_signature_uploads_plaintext[OF _ _ refl, of "tab_world [True]" env0 "[1]" "[7]" "''a.txt''" "[10, 20]"]
  by (simp add: env0_def)

theorem stored_key_download_witness:
  "\<exists>w. saved (final (downloadFile env0 ''ipfs://Q'' ''7'') w) = [(''kyneto_decrypted_deal_7'', [10, 20])]"
proof -
  let ?e = "encryptFile toy_crypto ''aB'' [1] [7] [10, 20]"
  let ?d = "(api_deal ''ab'' Active)\<lparr>d_key := Some (ef_key ?e), d_iv := Some (ef_iv ?e), d_tag := Some (ef_tag ?e)\<rparr>"
  let ?w = "\<lparr>db = tab0\<lparr>server := empty_db\<lparr>t_deals := [?d], blocks := [''Q'' \<mapsto> ef_data ?e]\<rparr>\<rparr>, clock = 0, script = []\<rparr>"
  have "wallet_on (db ?w)" "wallet_account (pg (db ?w)) = ''aB''" by (simp_all add: tab0_def wallet_on_def wallet_account_def page0_def)
  then have "saved (final (downloadFile env0 ''ipfs://Q'' ''7'') ?w) = saved (db ?w) @ [(''kyneto_decrypted_deal_'' @ ''7'', [10, 20])]"
    using stored_key_download[of env0 ?w "''ipfs://Q''" "''7''" "[1]" ?e "[7]" "[10, 20]" ?d] toy_gcm
    by (simp add: env0_def row_holds_key_def find_deal_def api_deal_def)
  then show ?thesis by (intro exI[of _ ?w]) simp
qed

theorem unkeyed_download_opens_gateway_witness:
  "opened (final (downloadFile env0 ''Qm'' ''7'') (tab_world [])) = [''https://ipfs.io/ipfs/Qm'']"
  using unkeyed_download_opens_gateway[of "tab_world []" "''Qm''" "''7''" env0]
  by (simp add: key_answer_def api_sample)

theorem cancel_never_sent_witness:
  "server (final (cancelDeal env0 [] ''7'' True) (tab_world [])) = db (api_world ''ab'') \<and>
   alerted (final (cancelDeal env0 [] ''7'' True) (tab_world [])) = [''Failed to cancel deal: Wallet not connected. Please connect your wallet first.'']"
  using cancel_never_sent[of "''7''" env0 "[]" "tab_world []"] by simp

theorem cancelled_but_reported_failed_witness:
  "alerted (final (cancel_deal_in (\<lambda>_. \<lparr>w_signer = Some (\<lambda>_. Some ''aB''), w_userAddress = ''aB''\<rparr>) env0 [] ''7'' True) (tab_world [])) =
     [''Failed to cancel deal: fetchDashboardStats is not defined'']"
  using cancelled_but_reported_failed[of "''7''" "\<lambda>_. \<lparr>w_signer = Some (\<lambda>_. Some ''aB''), w_userAddress = ''aB''\<rparr>" "tab_world []"
      "\<lambda>_. Some ''aB''" "''aB''" env0 "api_deal ''ab'' Active" "[]"]
  by (simp add: env0_def api_sample to_lower_ab)

end
