(* ===== verification/Dash_Startup.thy ===== *)
theory Dash_Startup
  imports Dash_Files
begin

text \<open>
  What the dashboard (\<^verbatim>\<open>dashboard/app.js\<close>) does when it starts: it looks for a wallet that is already
  connected, a bounded number of times; it lists the deals, from the API or, if that has none, from
  the chain; and it keeps the cost summary of the order form up to date. The summary is computed in
  floating point; here its numbers are exact.
\<close>

section \<open>Looking for a wallet\<close>

text \<open>
  \<^verbatim>\<open>seen r\<close> is what \<^verbatim>\<open>window.ethereum\<close> holds at the attempt with \<^verbatim>\<open>r\<close> retries left: wallets are injected late.
\<close>

definition wallet_attempt :: "ethereum option \<Rightarrow> unit ui \<Rightarrow> unit ui" where
  "wallet_attempt e retry = andthen (local_set (\<lambda>s. s\<lparr>ethereum := e\<rparr>)) (case e of
       None \<Rightarrow> retry
     | Some _ \<Rightarrow> try_catch
         (bind (reads (\<lambda>s. case ethereum s of Some e \<Rightarrow> eth_accounts e | None \<Rightarrow> [])) (\<lambda>accounts. case accounts of
              a # _ \<Rightarrow> andthen (later (InitializeWallet a ''Auto-Check'')) (local_set (\<lambda>s. s\<lparr>walletListenersRegistered := True\<rparr>))
            | [] \<Rightarrow> retry))
         (\<lambda>_. ret ()))"

primrec checkWalletConnection :: "(nat \<Rightarrow> ethereum option) \<Rightarrow> nat \<Rightarrow> unit ui" where
  "checkWalletConnection seen 0 = wallet_attempt (seen 0) (ret ())"
| "checkWalletConnection seen (Suc retries) = wallet_attempt (seen (Suc retries)) (checkWalletConnection seen retries)"

section \<open>The list of deals\<close>

definition chain_status :: "nat \<Rightarrow> string option" where
  "chain_status n = (if n < 4 then Some ([''active'', ''completed'', ''failed'', ''cancelled''] ! n) else None)"

definition api_shown :: "deal_row \<Rightarrow> shown_deal" where
  "api_shown d = \<lparr>sd_id = d_id d, sd_client = d_client d, sd_size = d_size_gb d, sd_status = Some (status_name (d_status d))\<rparr>"

definition chain_shown :: "nat \<Rightarrow> chain_deal \<Rightarrow> shown_deal" where
  "chain_shown i d = \<lparr>sd_id = nat_str i, sd_client = cd_client d, sd_size = of_nat (cd_fileSizeGB d), sd_status = chain_status (cd_status d)\<rparr>"

definition api_deals :: "(tab, shown_deal list) act" where
  "api_deals = try_catch
     (bind (request (get_deals [] [])) (\<lambda>r. ret (case r of Ok rows \<Rightarrow> map api_shown rows | Err _ _ \<Rightarrow> [])))
     (\<lambda>_. ret [])"

text \<open>One deal that cannot be read is left out.\<close>

primrec chain_deals :: "nat list \<Rightarrow> (tab, shown_deal list) act" where
  "chain_deals [] = ret []"
| "chain_deals (i # is) =
     bind (try_catch (bind (reads (\<lambda>t. deal_at (chain (pg t)) i)) (\<lambda>d. ret [chain_shown i d])) (\<lambda>_. ret [])) (\<lambda>one.
     bind (chain_deals is) (\<lambda>rest. ret (one @ rest)))"

definition fetchDeals :: "(tab, unit) act" where
  "fetchDeals = try_catch
     (bind api_deals (\<lambda>deals.
      bind (if deals = []
            then bind (reads (\<lambda>t. length (ch_deals (chain (pg t))))) (\<lambda>numDeals. chain_deals (rev [numDeals - 5..<numDeals]))
            else ret deals) (\<lambda>deals.
      local_set (\<lambda>t. t\<lparr>deal_rows := deals\<rparr>))))
     (\<lambda>_. local_set (\<lambda>t. t\<lparr>deal_rows := []\<rparr>))"

section \<open>The cost summary\<close>

text \<open>The total in KYN and in dollars.\<close>

definition updateSummary :: "nat \<Rightarrow> rat \<Rightarrow> rat \<Rightarrow> nat \<Rightarrow> rat \<times> rat" where
  "updateSummary kynPrice gb priceUSD duration =
     (let storageCostUSD = gb * priceUSD * of_nat (ceil_div duration 30);
          protocolFeeUSD = storageCostUSD * 3 / 100;
          storageCostKYN = storageCostUSD * 1000000 / of_nat kynPrice;
          protocolFeeKYN = protocolFeeUSD * 1000000 / of_nat kynPrice
      in (storageCostKYN + protocolFeeKYN, storageCostUSD + protocolFeeUSD))"

section \<open>The search for a wallet ends\<close>

definition found_wallet :: "(nat \<Rightarrow> ethereum option) \<Rightarrow> nat list \<Rightarrow> task list" where
  "found_wallet seen rs = (case find (\<lambda>r. \<exists>e. seen r = Some e \<and> eth_accounts e \<noteq> []) rs of
       None \<Rightarrow> [] | Some r \<Rightarrow> [InitializeWallet (hd (eth_accounts (the (seen r)))) ''Auto-Check''])"

lemma quietly_attempt:
  assumes "\<And>s'. tasks s' = tasks s @ found_wallet seen [r] \<Longrightarrow> found_wallet seen [r] \<noteq> [] \<Longrightarrow> Q () s'"
    and "\<And>s'. tasks s' = tasks s \<Longrightarrow> found_wallet seen [r] = [] \<Longrightarrow> quietly t retry Q s'"
  shows "quietly t (wallet_attempt (seen r) retry) Q s"
proof (cases "seen r")
  case None
  then show ?thesis using assms(2) by (auto simp: wallet_attempt_def found_wallet_def intro!: quiet_rules)
next
  case (Some e)
  then show ?thesis using assms
    by (cases "eth_accounts e") (auto simp: wallet_attempt_def found_wallet_def later_def intro!: quiet_rules)
qed

lemma found_wallet_Cons: "found_wallet seen (r # rs) = (if found_wallet seen [r] = [] then found_wallet seen rs else found_wallet seen [r])"
  by (auto simp: found_wallet_def)

lemma wallet_search_run:
  "(\<And>s'. tasks s' = tasks s @ found_wallet seen (rev [0..<Suc n]) \<Longrightarrow> Q () s') \<Longrightarrow> quietly t (checkWalletConnection seen n) Q s"
proof (induction n arbitrary: s)
  case 0
  then show ?case by (auto intro!: quietly_attempt quietly_ret)
next
  case (Suc n)
  have "found_wallet seen (rev [0..<Suc (Suc n)]) =
      (if found_wallet seen [Suc n] = [] then found_wallet seen (rev [0..<Suc n]) else found_wallet seen [Suc n])"
    using found_wallet_Cons[of seen "Suc n" "rev [0..<Suc n]"] by simp
  then show ?case using Suc by (auto intro!: quietly_attempt)
qed

text \<open>
  The search for a connected wallet ends after at most one attempt more than the retries given, whatever
  is injected when; when nothing fails it starts exactly one initialisation, with the first account of
  the wallet at the first attempt that shows any, and none if no attempt does.
\<close>

theorem wallet_search_exact:
  assumes "script w = []"
  shows "\<exists>w'. checkWalletConnection seen n w = (Inr (), w') \<and>
    tasks (db w') = tasks (db w) @
      (case find (\<lambda>r. \<exists>e. seen r = Some e \<and> eth_accounts e \<noteq> []) (rev [0..<Suc n]) of
         None \<Rightarrow> []
       | Some r \<Rightarrow> [InitializeWallet (hd (eth_accounts (the (seen r)))) ''Auto-Check''])"
proof -
  have "quietly (clock w) (checkWalletConnection seen n) (\<lambda>_ s'. tasks s' = tasks (db w) @ found_wallet seen (rev [0..<Suc n])) (db w)"
    by (rule wallet_search_run)
  from quietlyD[OF this assms] show ?thesis unfolding found_wallet_def by auto
qed

section \<open>The cost shown and the amount approved\<close>

lemma rat_div_bounds:
  assumes "0 < k"
  shows "(of_nat (a div k) :: rat) \<le> of_nat a / of_nat k" "(of_nat a / of_nat k :: rat) < of_nat (a div k) + 1"
proof -
  have k: "(0 :: rat) < of_nat k" using assms by simp
  have "of_nat (a div k * k) \<le> (of_nat a :: rat)" unfolding of_nat_le_iff by simp
  then show "(of_nat (a div k) :: rat) \<le> of_nat a / of_nat k" using k by (simp add: pos_le_divide_eq)
  have "a < (a div k + 1) * k" using dividend_less_div_times[OF assms, of a] by simp
  then have "(of_nat a :: rat) < of_nat ((a div k + 1) * k)" unfolding of_nat_less_iff .
  then show "(of_nat a / of_nat k :: rat) < of_nat (a div k) + 1" using k by (simp add: pos_divide_less_eq algebra_simps)
qed

text \<open>
  The summary prices the size as it is entered, the order whole gigabytes. For a price of a whole number
  of micro-dollars, the amount approved is the cost shown scaled up to whole gigabytes, up to one
  micro-dollar in KYN and one base unit lost by rounding: half a gigabyte is shown at half of what
  is approved.
\<close>

theorem summary_and_approval:
  assumes "0 < k" and "0 < gb" and "price = of_nat p / 1000000"
    and "whole = of_int \<lceil>gb\<rceil> / gb * fst (updateSummary k gb price days)"
    and "approved = of_nat (deal_approval k (nat \<lceil>gb\<rceil>) p days) / 10 ^ 18"
  shows "approved \<le> whole \<and> whole < approved + 1 / of_nat k + 1 / 10 ^ 18"
proof -
  let ?x = "nat \<lceil>gb\<rceil> * p * ceil_div days 30"
  define total where "total = ?x + ?x * 300 div 10000"
  have k: "(0 :: rat) < of_nat k" using assms(1) by simp
  have whole: "whole = of_nat ?x * 103 / 100 / of_nat k"
    using assms(2) k by (simp add: assms(3,4) updateSummary_def Let_def field_simps)
  have approved: "approved = of_nat (total * 10 ^ 18 div k) / 10 ^ 18"
    unfolding assms(5) deal_approval_def Let_def total_def ..
  have T: "(of_nat total :: rat) \<le> of_nat ?x * 103 / 100" "(of_nat ?x * 103 / 100 :: rat) < of_nat total + 1"
    using rat_div_bounds[of 10000 "?x * 300"] by (simp_all add: total_def del: of_nat_div)
  have "approved \<le> of_nat (total * 10 ^ 18) / of_nat k / 10 ^ 18"
    unfolding approved by (rule divide_right_mono[OF rat_div_bounds(1)[OF assms(1)]]) simp
  also have "\<dots> = of_nat total / of_nat k" by simp
  also have "\<dots> \<le> whole" using divide_right_mono[OF T(1), of "of_nat k"] k unfolding whole by simp
  finally have low: "approved \<le> whole" .
  have "whole < (of_nat total + 1) / of_nat k" using divide_strict_right_mono[OF T(2) k] unfolding whole .
  also have "\<dots> = of_nat (total * 10 ^ 18) / of_nat k / 10 ^ 18 + 1 / of_nat k" by (simp add: add_divide_distrib)
  also have "of_nat (total * 10 ^ 18) / of_nat k / 10 ^ 18 < (of_nat (total * 10 ^ 18 div k) + 1) / (10 ^ 18 :: rat)"
    by (rule divide_strict_right_mono[OF rat_div_bounds(2)[OF assms(1)]]) simp
  finally show ?thesis using low by (simp add: approved add_divide_distrib del: of_nat_div)
qed

section \<open>The deals shown\<close>

definition newest_deals_of :: "database \<Rightarrow> deal_row list" where
  "newest_deals_of s = take 100 (order_by (\<lambda>d. - d_created_at d) (t_deals s))"

definition last_numbers :: "chain \<Rightarrow> nat list" where
  "last_numbers c = rev [length (ch_deals c) - 5..<length (ch_deals c)]"

definition chain_rows :: "chain \<Rightarrow> nat list \<Rightarrow> shown_deal list" where
  "chain_rows c is = map (\<lambda>i. chain_shown i (deal_at c i)) is"

lemma wp_get_deals:
  "(\<And>n msg. Q (Err n msg) s) \<Longrightarrow> Q (Ok (newest_deals_of s)) s \<Longrightarrow> wp t (get_deals [] []) Q E s"
  unfolding get_deals_def or_500_def newest_deals_of_def by (intro wp_try_catch) (auto intro!: wp_rules)

lemma wp_api_deals:
  "Q [] s \<Longrightarrow> Q (map api_shown (newest_deals_of (server s))) s \<Longrightarrow> wp t api_deals Q E s"
  unfolding api_deals_def
  by (rule wp_try_catch, rule wp_bind, rule wp_request) (auto intro!: wp_ret wp_get_deals)

lemma wp_chain_deals:
  "(\<And>js. subseq js is \<Longrightarrow> Q (chain_rows (chain (pg s)) js) s) \<Longrightarrow> wp t (chain_deals is) Q E s"
proof (induction "is" arbitrary: Q)
  case Nil
  show ?case unfolding chain_deals.simps by (rule wp_ret) (use Nil[of "[]"] in \<open>simp add: chain_rows_def\<close>)
next
  case (Cons i "is")
  have rest: "wp t (chain_deals is) (\<lambda>rest. wp t (ret (one @ rest)) Q E) E s"
    if "one = [] \<or> one = [chain_shown i (deal_at (chain (pg s)) i)]" for one
  proof (rule Cons.IH)
    fix js assume "subseq js is"
    then have "subseq js (i # is)" "subseq (i # js) (i # is)" by auto
    then show "wp t (ret (one @ chain_rows (chain (pg s)) js)) Q E s"
      using that Cons.prems[of js] Cons.prems[of "i # js"] by (auto intro!: wp_ret simp: chain_rows_def)
  qed
  show ?case unfolding chain_deals.simps
    by (rule wp_bind, rule wp_try_catch, rule wp_bind, rule wp_reads) (auto intro!: wp_ret wp_bind rest)
qed

lemma quietly_chain_deals: "Q (chain_rows (chain (pg s)) is) s \<Longrightarrow> quietly t (chain_deals is) Q s"
proof (induction "is" arbitrary: Q)
  case (Cons i "is")
  show ?case unfolding chain_deals.simps
    by (rule quietly_bind, rule quietly_try_catch, rule quietly_bind, rule quietly_reads, rule quietly_ret,
        rule quietly_bind, rule Cons.IH, rule quietly_ret) (use Cons.prems in \<open>simp add: chain_rows_def\<close>)
qed (auto intro: quietly_ret simp: chain_rows_def)

text \<open>
  The deals shown are deals. However requests fail, the table holds the newest hundred deals at most of
  the server, or a selection of the last five deals on the chain, newest first; and nothing but the
  table changes.
\<close>

theorem deals_shown_are_deals:
  assumes "t' = final fetchDeals w"
  shows "\<exists>rows. t' = (db w)\<lparr>deal_rows := rows\<rparr> \<and>
    (rows = map api_shown (take 100 (order_by (\<lambda>d. - d_created_at d) (t_deals (server (db w))))) \<or>
     (\<exists>is. subseq is (rev [length (ch_deals (chain (pg (db w)))) - 5..<length (ch_deals (chain (pg (db w))))]) \<and>
        rows = map (\<lambda>i. chain_shown i (deal_at (chain (pg (db w))) i)) is))"
proof -
  let ?s = "db w"
  let ?P = "\<lambda>t'. \<exists>rows. t' = ?s\<lparr>deal_rows := rows\<rparr> \<and> (rows = map api_shown (newest_deals_of (server ?s)) \<or>
     (\<exists>is. subseq is (last_numbers (chain (pg ?s))) \<and> rows = chain_rows (chain (pg ?s)) is))"
  have empty: "?P (?s\<lparr>deal_rows := []\<rparr>)" by (auto simp: chain_rows_def intro!: exI[of _ "[]"])
  have rows: "?P (?s\<lparr>deal_rows := chain_rows (chain (pg ?s)) js\<rparr>)" if "subseq js (last_numbers (chain (pg ?s)))" for js
    using that by blast
  have served: "?P (?s\<lparr>deal_rows := map api_shown (newest_deals_of (server ?s))\<rparr>)" by blast
  have set: "wp t (bind (if deals = []
            then bind (reads (\<lambda>t. length (ch_deals (chain (pg t))))) (\<lambda>numDeals. chain_deals (rev [numDeals - 5..<numDeals]))
            else ret deals) (\<lambda>deals. local_set (\<lambda>t. t\<lparr>deal_rows := deals\<rparr>))) (\<lambda>_. ?P) E ?s"
    if "?P (?s\<lparr>deal_rows := deals\<rparr>)" and "E ''rejected'' ?s" for t deals E
  proof (cases "deals = []")
    case True
    then show ?thesis using that(2)
      by (auto intro!: wp_bind wp_reads wp_chain_deals wp_local_set rows simp flip: last_numbers_def)
  next
    case False
    then show ?thesis using that(1) by (auto intro!: wp_bind wp_local_set wp_ret)
  qed
  have "?P (final fetchDeals w)"
    unfolding fetchDeals_def
    by (rule wp_final_now[where P = ?P], rule wp_try_catch, rule wp_bind, rule wp_api_deals)
       (rule set, rule empty served, rule wp_local_set, rule empty)+
  then show ?thesis unfolding assms newest_deals_of_def last_numbers_def chain_rows_def .
qed


section \<open>Concrete instances\<close>

definition late_wallet :: "nat \<Rightarrow> ethereum option" where
  "late_wallet r = (if r < 2 then Some \<lparr>eth_accounts = [nat_str r], eth_offered = [], eth_chainId = [], eth_known = []\<rparr> else None)"

theorem wallet_search_exact_witness:
  "\<exists>w'. checkWalletConnection late_wallet 3 \<lparr>db = page0, clock = 0, script = []\<rparr> = (Inr (), w') \<and>
     tasks (db w') = [InitializeWallet ''1'' ''Auto-Check'']"
proof -
  have "nat_str 1 = ''1''" by code_simp
  moreover have "rev [0..<Suc 3] = [3, 2, 1, 0]" by (simp add: upt_rec)
  ultimately show ?thesis
    using wallet_search_exact[of "\<lparr>db = page0, clock = 0, script = []\<rparr>" late_wallet 3]
    by (auto simp: late_wallet_def page0_def)
qed

theorem summary_and_approval_witness:
  "fst (updateSummary 2 (1 / 2) (3 / 1000000) 60) = 309 / 200 \<and>
   (of_nat (deal_approval 2 1 3 60) / 10 ^ 18 :: rat) \<le> 309 / 100 \<and>
   (309 / 100 :: rat) < of_nat (deal_approval 2 1 3 60) / 10 ^ 18 + 1 / 2 + 1 / 10 ^ 18"
proof -
  have c: "\<lceil>1 / 2 :: rat\<rceil> = 1" by (rule ceiling_unique) simp_all
  have f: "fst (updateSummary 2 (1 / 2) (3 / 1000000) 60) = 309 / 200"
    by (simp add: updateSummary_def ceil_div_def)
  show ?thesis
    using summary_and_approval[of 2 "1 / 2" "3 / 1000000" 3 _ 60, OF _ _ _ refl refl] by (simp add: c f)
qed

theorem deals_shown_are_deals_witness:
  "\<exists>rows. final fetchDeals (tab_world []) = tab0\<lparr>deal_rows := rows\<rparr>"
  using deals_shown_are_deals[OF refl, of "tab_world []"] by auto

end
