(* ===== verification/Dash_Views.thy ===== *)
theory Dash_Views
  imports Dash_Startup
begin

text \<open>
  The views of the dashboard (\<^verbatim>\<open>dashboard/app.js\<close>, with the elements of \<^verbatim>\<open>dashboard/index.html\<close>): switching between
  them, the menus and the confirmation box, the statistics of the network with their detail views, the tables of
  deals, the earnings and the reputation gauge. The state is the tab with what these views show. Numbers
  are exact where the page has floats or decimal strings, and what is shown is the numbers, before they are put into text.
\<close>

section \<open>State\<close>

text \<open>Totals the contracts keep.\<close>

record chain_totals =
  totalPledgedCapacityGB :: nat
  getProviderCount :: nat
  totalFeesCollected :: nat
  totalTokensBurned :: nat

text \<open>The object with the statistics: a missing field is undefined.\<close>

record stats =
  active_deals :: "rat option"
  total_deals :: "rat option"
  deals_completed :: "rat option"
  deals_failed :: "rat option"
  active_providers :: "rat option"
  total_providers :: "rat option"
  active_shards :: "rat option"
  total_capacity_gb :: "rat option"
  total_capacity_all_gb :: "rat option"
  total_utilization_gb :: "rat option"
  avg_reputation :: "rat option"
  total_protocol_revenue :: "rat option"
  total_tokens_burned :: "rat option"

text \<open>The cards of the first page; the utilisation may be NaN.\<close>

record stat_cards =
  card_deals :: rat
  card_active_providers :: rat
  card_total_providers :: rat
  card_capacity :: rat
  card_revenue :: rat
  card_burned :: rat
  card_utilization :: "int option"

record earnings_shown =
  earned_available :: rat
  earned_total :: rat
  earned_withdrawn :: rat

text \<open>What a handler starts and does not wait for.\<close>

datatype background =
  CheckProviderStatus | FetchDeals | FetchEarnings | FetchEarningsHistory | RenderProfile | RenderProposals
  | FetchMyDeals string | DetectRegion | SimulateDetailData string

record board =
  tb :: tab
  totals :: chain_totals
  api_online :: bool
  cachedNetworkStats :: stats
  stat_shown :: stat_cards
  market :: "shown_deal list"
  my_deals :: "shown_deal list"
  earnings :: earnings_shown
  nav_active :: "nat option"
  view_title :: string
  upgrade_form :: bool
  settings_shown :: "json option list"
  profile_dropdown :: bool
  sidebar_dropdown :: bool
  started :: "background list"

definition on_tab :: "(tab, 'a) act \<Rightarrow> (board, 'a) act" where
  "on_tab m = zoom tb (\<lambda>t b. b\<lparr>tb := t\<rparr>) m"

definition start :: "background \<Rightarrow> board \<Rightarrow> board" where
  "start x b = b\<lparr>started := started b @ [x]\<rparr>"

section \<open>Statistics\<close>

text \<open>JavaScript's or on numbers, \<^verbatim>\<open>parseInt\<close>, and the number a big integer fits into.\<close>

definition js_or :: "rat option \<Rightarrow> rat option \<Rightarrow> rat option" where
  "js_or a b = (case a of Some x \<Rightarrow> if x = 0 then b else a | None \<Rightarrow> b)"

definition or0 :: "rat option \<Rightarrow> rat" where
  "or0 a = (case a of Some x \<Rightarrow> x | None \<Rightarrow> 0)"

definition parseInt0 :: "rat option \<Rightarrow> int" where
  "parseInt0 a = (if or0 a < 0 then \<lceil>or0 a\<rceil> else \<lfloor>or0 a\<rfloor>)"

definition toNumber :: "nat \<Rightarrow> (board, rat) act" where
  "toNumber n = (if n < 2 ^ 53 then ret (of_nat n) else throw ''overflow'')"

definition percent :: "rat \<Rightarrow> rat \<Rightarrow> int" where
  "percent part whole = (if 0 < whole then js_round (part / whole * 100) else 0)"

definition no_stats :: stats where
  "no_stats = \<lparr>active_deals = None, total_deals = None, deals_completed = None, deals_failed = None, active_providers = None,
     total_providers = None, active_shards = None, total_capacity_gb = None, total_capacity_all_gb = None,
     total_utilization_gb = None, avg_reputation = None, total_protocol_revenue = None, total_tokens_burned = None\<rparr>"

definition api_stats :: "net_stats \<Rightarrow> stats" where
  "api_stats r = \<lparr>active_deals = Some (of_nat (st_active_deals r)), total_deals = Some (of_nat (st_total_deals r)),
     deals_completed = Some (of_nat (st_completed r)), deals_failed = Some (of_nat (st_failed r)),
     active_providers = Some (of_nat (st_active_providers r)), total_providers = Some (of_nat (st_total_providers r)),
     active_shards = Some (of_nat (st_active_shards r)), total_capacity_gb = Some (st_capacity_gb r),
     total_capacity_all_gb = Some (st_capacity_all_gb r), total_utilization_gb = Some (st_utilization_gb r),
     avg_reputation = st_avg_reputation r, total_protocol_revenue = Some (st_revenue r),
     total_tokens_burned = Some (of_nat (st_burned r))\<rparr>"

definition setOnlineStatus :: "bool \<Rightarrow> board \<Rightarrow> board" where
  "setOnlineStatus up b = b\<lparr>api_online := up\<rparr>"

definition cards_of :: "stats \<Rightarrow> stat_cards" where
  "cards_of s =
     (let cap = js_or (total_capacity_all_gb s) (total_capacity_gb s); totalCap = or0 cap in
      \<lparr>card_deals = or0 (active_deals s), card_active_providers = or0 (active_providers s),
       card_total_providers = or0 (total_providers s), card_capacity = or0 cap,
       card_revenue = or0 (total_protocol_revenue s), card_burned = or0 (total_tokens_burned s),
       card_utilization = (if 0 < totalCap then map_option (\<lambda>u. js_round (u / totalCap * 100)) (total_utilization_gb s) else Some 0)\<rparr>)"

definition updateStatsUI :: "stats \<Rightarrow> board \<Rightarrow> board" where
  "updateStatsUI s b = b\<lparr>cachedNetworkStats := s, stat_shown := cards_of s\<rparr>"

definition merged_stats :: "stats \<Rightarrow> rat \<Rightarrow> rat \<Rightarrow> rat \<Rightarrow> nat \<Rightarrow> nat \<Rightarrow> stats" where
  "merged_stats apiStats activeDeals providerCount totalCapacity feesCollected tokensBurned = no_stats\<lparr>
     active_deals := Some (max (or0 (active_deals apiStats)) activeDeals),
     active_providers := Some (or0 (active_providers apiStats)),
     total_providers := Some (case total_providers apiStats of Some p \<Rightarrow> p | None \<Rightarrow> providerCount),
     total_capacity_all_gb := Some (max (or0 (total_capacity_all_gb apiStats)) totalCapacity),
     total_capacity_gb := Some (or0 (total_capacity_gb apiStats)),
     total_utilization_gb := Some (or0 (total_utilization_gb apiStats)),
     total_protocol_revenue := Some (of_nat feesCollected / 10 ^ 18),
     total_tokens_burned := Some (of_nat tokensBurned / 10 ^ 18)\<rparr>"

definition zero_stats :: stats where
  "zero_stats = no_stats\<lparr>active_deals := Some 0, active_providers := Some 0, total_capacity_gb := Some 0,
     total_utilization_gb := Some 0, total_protocol_revenue := Some 0, total_tokens_burned := Some 0\<rparr>"

definition fetch_api_stats :: "(board, stats) act" where
  "fetch_api_stats = try_catch
     (bind (on_tab (request get_stats)) (\<lambda>r. ret (case r of Ok n \<Rightarrow> api_stats n | Err _ _ \<Rightarrow> no_stats)))
     (\<lambda>_. ret no_stats)"

text \<open>
  A read-only provider always exists, so the branch without one is never taken. The
  number of providers is converted only if the API does not give it.
\<close>

definition fetchStats :: "(board, unit) act" where
  "fetchStats = try_catch
     (bind fetch_api_stats (\<lambda>apiStats.
      bind (reads (\<lambda>b. totalPledgedCapacityGB (totals b))) (\<lambda>totalCapacity.
      bind (reads (\<lambda>b. length (ch_deals (chain (pg (tb b)))))) (\<lambda>activeDeals.
      bind (reads (\<lambda>b. getProviderCount (totals b))) (\<lambda>providerCount.
      bind (reads (\<lambda>b. totalFeesCollected (totals b))) (\<lambda>feesCollected.
      bind (reads (\<lambda>b. totalTokensBurned (totals b))) (\<lambda>tokensBurned.
      bind (toNumber activeDeals) (\<lambda>activeDeals.
      bind (if total_providers apiStats = None then toNumber providerCount else ret 0) (\<lambda>providerCount.
      bind (toNumber totalCapacity) (\<lambda>totalCapacity.
      andthen (local_set (updateStatsUI (merged_stats apiStats activeDeals providerCount totalCapacity feesCollected tokensBurned)))
              (local_set (setOnlineStatus True))))))))))))
     (\<lambda>_. andthen (local_set (setOnlineStatus False)) (local_set (updateStatsUI zero_stats)))"

section \<open>Detail views\<close>

text \<open>Active, completed, failed, all, and the rate of success.\<close>

definition deals_detail :: "stats \<Rightarrow> int \<times> int \<times> int \<times> int \<times> int" where
  "deals_detail s =
     (let active = parseInt0 (active_deals s); total = parseInt0 (total_deals s);
          completed = parseInt0 (deals_completed s); failed = parseInt0 (deals_failed s)
      in (active, completed, failed, total, percent (of_int completed) (of_int total)))"

text \<open>Active, all, offline, the rate of availability, the capacity and the reputation.\<close>

definition providers_detail :: "stats \<Rightarrow> int \<times> int \<times> int \<times> int \<times> rat \<times> rat" where
  "providers_detail s =
     (let active = parseInt0 (active_providers s); total = parseInt0 (total_providers s)
      in (active, total, max 0 (total - active), percent (of_int active) (of_int total),
          or0 (total_capacity_all_gb s), or0 (avg_reputation s)))"

text \<open>All, active and free capacity, the used part, and the utilisation.\<close>

definition capacity_detail :: "stats \<Rightarrow> rat \<times> rat \<times> rat \<times> rat \<times> int" where
  "capacity_detail s =
     (let activeCap = or0 (total_capacity_gb s); totalCap = or0 (total_capacity_all_gb s);
          activeCap = (if activeCap = 0 \<and> 0 < parseInt0 (active_providers s) then totalCap else activeCap);
          used = or0 (total_utilization_gb s)
      in (totalCap, activeCap, max 0 (totalCap - used), used, percent used totalCap))"

definition utilization_detail :: "stats \<Rightarrow> rat \<times> rat \<times> int \<times> int \<times> rat" where
  "utilization_detail s =
     (let totalCap = or0 (total_capacity_all_gb s); used = or0 (total_utilization_gb s)
      in (used, max 0 (totalCap - used), percent used totalCap, parseInt0 (active_providers s), totalCap))"

definition revenue_detail :: "stats \<Rightarrow> rat \<times> rat \<times> rat" where
  "revenue_detail s =
     (let rev = or0 (total_protocol_revenue s); burned = or0 (total_tokens_burned s) in (rev, burned, max 0 (rev - burned)))"

definition burned_detail :: "stats \<Rightarrow> rat \<times> int \<times> int" where
  "burned_detail s =
     (let burned = or0 (total_tokens_burned s); rev = or0 (total_protocol_revenue s)
      in (burned, percent burned rev, parseInt0 (active_shards s)))"

section \<open>Tables of deals and earnings\<close>

definition fetchMarketplace :: "(board, unit) act" where
  "fetchMarketplace = try_catch
     (bind (on_tab (request (get_deals ''active'' []))) (\<lambda>r. case r of
          Ok rows \<Rightarrow> local_set (\<lambda>b. b\<lparr>market := map api_shown rows\<rparr>)
        | Err _ _ \<Rightarrow> throw ''TypeError''))
     (\<lambda>_. local_set (\<lambda>b. b\<lparr>market := []\<rparr>))"

definition fetchMyDeals :: "string \<Rightarrow> (board, unit) act" where
  "fetchMyDeals type = try_catch
     (bind (on_tab (request (get_deals [] []))) (\<lambda>r.
      let deals = (case r of Ok rows \<Rightarrow> map api_shown rows | Err _ _ \<Rightarrow> []);
          deals = (if type = ''provider'' then map (\<lambda>d. d\<lparr>sd_status := Some ''active''\<rparr>) deals else deals)
      in local_set (\<lambda>b. b\<lparr>my_deals := deals\<rparr>)))
     (\<lambda>_. local_set (\<lambda>b. b\<lparr>my_deals := []\<rparr>))"

text \<open>The total is a simulation.\<close>

definition updateEarningsUI :: "rat \<Rightarrow> board \<Rightarrow> board" where
  "updateEarningsUI amount b = b\<lparr>earnings := \<lparr>earned_available = amount, earned_total = amount + 500, earned_withdrawn = 500\<rparr>\<rparr>"

definition fetchEarnings :: "(board, unit) act" where
  "fetchEarnings = bind (local_get (\<lambda>b. pg (tb b))) (\<lambda>p. case userAddress p of
       None \<Rightarrow> ret ()
     | Some a \<Rightarrow> if \<not> provider p then ret () else try_catch
         (bind (reads (\<lambda>b. ch_earnings (chain (pg (tb b))) a)) (\<lambda>earned. local_set (updateEarningsUI (of_nat earned / 10 ^ 18))))
         (\<lambda>_. local_set (updateEarningsUI 0)))"

text \<open>One tick of the interval that runs the gauge up: the counter and whether the interval goes on.\<close>

definition reputation_tick :: "int \<Rightarrow> nat \<times> bool \<Rightarrow> nat \<times> bool" where
  "reputation_tick target g = (case g of (current, running) \<Rightarrow>
     if \<not> running then g else if target \<le> int current then (current, False) else (Suc current, True))"

primrec animateReputation :: "int \<Rightarrow> nat \<Rightarrow> nat \<times> bool" where
  "animateReputation target 0 = (0, True)"
| "animateReputation target (Suc ticks) = reputation_tick target (animateReputation target ticks)"

definition reputation_status :: "int \<Rightarrow> string" where
  "reputation_status target = (if 80 \<le> target then ''Excellent'' else if 50 \<le> target then ''Good'' else ''Poor'')"

section \<open>Views and menus\<close>

definition view_ids :: "string list" where
  "view_ids = [''dashboard'', ''deals-detail'', ''providers-detail'', ''capacity-detail'', ''utilization-detail'',
     ''revenue-detail'', ''burned-detail'', ''marketplace'', ''provider'', ''become-provider'', ''governance'', ''files'',
     ''upgrade-pledge'', ''create-deal'', ''earnings'', ''profile'', ''my-deals'', ''settings'', ''edit-profile'']"

text \<open>The buttons of the side bar, by the view they switch to, in the order of the page.\<close>

definition nav_buttons :: "string list" where
  "nav_buttons = [''dashboard'', ''marketplace'', ''provider'', ''governance'', ''files'', ''settings'']"

definition navItems :: "string \<rightharpoonup> nat" where
  "navItems = [''dashboard'' \<mapsto> 0, ''marketplace'' \<mapsto> 1, ''provider'' \<mapsto> 2, ''governance'' \<mapsto> 3, ''files'' \<mapsto> 4, ''settings'' \<mapsto> 5]"

definition titles :: "string \<rightharpoonup> string" where
  "titles = [''dashboard'' \<mapsto> ''Network Dashboard'', ''marketplace'' \<mapsto> ''Storage Marketplace'', ''provider'' \<mapsto> ''Provider Portal'',
     ''governance'' \<mapsto> ''Protocol Governance'', ''files'' \<mapsto> ''My Uploaded Files'', ''create-deal'' \<mapsto> ''Create Storage Deal'',
     ''deals-detail'' \<mapsto> ''Active Deals Analytics'', ''providers-detail'' \<mapsto> ''Provider Network Stats'',
     ''capacity-detail'' \<mapsto> ''Network Capacity'', ''utilization-detail'' \<mapsto> ''Storage Utilization'',
     ''revenue-detail'' \<mapsto> ''Protocol Revenue'', ''burned-detail'' \<mapsto> ''Token Burn Analytics'',
     ''become-provider'' \<mapsto> ''Become a Provider'', ''upgrade-pledge'' \<mapsto> ''Upgrade Storage Pledge'',
     ''earnings'' \<mapsto> ''Earnings & Rewards'', ''profile'' \<mapsto> ''My Profile'', ''my-deals'' \<mapsto> ''My Deals'',
     ''settings'' \<mapsto> ''Protocol Settings'']"

fun str_includes :: "string \<Rightarrow> string \<Rightarrow> bool" where
  "str_includes part [] = (part = [])"
| "str_includes part (c # cs) = (take (length part) (c # cs) = part \<or> str_includes part cs)"

definition set_page :: "(page \<Rightarrow> page) \<Rightarrow> board \<Rightarrow> board" where
  "set_page f b = b\<lparr>tb := (tb b)\<lparr>pg := f (pg (tb b))\<rparr>\<rparr>"

text \<open>The work a view starts when it is shown, in the order of the code.\<close>

definition view_work :: "string \<Rightarrow> background list" where
  "view_work viewId =
     (if viewId = ''earnings'' then [FetchEarnings, FetchEarningsHistory] else []) @
     (if viewId = ''profile'' then [RenderProfile] else []) @
     (if viewId = ''dashboard'' then [FetchDeals] else []) @
     (if viewId = ''my-deals'' then [FetchMyDeals ''client''] else []) @
     (if viewId = ''files'' then [FetchDeals] else []) @
     (if viewId = ''governance'' then [RenderProposals] else []) @
     (if str_includes ''detail'' viewId then [SimulateDetailData viewId] else [])"

definition enter_become_provider :: "board \<Rightarrow> board" where
  "enter_become_provider b =
     (let b = start DetectRegion b in
      if isProvider (pg (tb b))
      then (set_page (addActivity ''System'' ''Preparing pledge upgrade...'' ''system'') b)\<lparr>upgrade_form := True\<rparr>
      else b)"

text \<open>
  The view of the page is the name it was switched to; a name without an element leaves every view hidden.
  Reading the settings throws if a group is missing.
\<close>

definition switchView :: "string \<Rightarrow> board \<Rightarrow> string + board" where
  "switchView viewId b =
     (let b = set_page (\<lambda>p. p\<lparr>view := viewId\<rparr>) (b\<lparr>nav_active := None\<rparr>) in
      if viewId \<notin> set view_ids then Inr b
      else let b = b\<lparr>nav_active := navItems (takeWhile (\<lambda>c. c \<noteq> CHR ''-'') viewId)\<rparr>;
               b = (if viewId = ''become-provider'' then enter_become_provider b else b);
               b = b\<lparr>view_title := (case titles viewId of Some t \<Rightarrow> t | None \<Rightarrow> ''Dashboard'')\<rparr>
           in case (if viewId = ''settings'' then settings_view (pg (tb b)) else Inr (settings_shown b)) of
                Inl e \<Rightarrow> Inl e
              | Inr vs \<Rightarrow> Inr (b\<lparr>settings_shown := vs, started := started b @ view_work viewId\<rparr>))"

definition toggleProfileDropdown :: "board \<Rightarrow> board" where
  "toggleProfileDropdown b = b\<lparr>profile_dropdown := \<not> profile_dropdown b, sidebar_dropdown := False\<rparr>"

definition toggleSidebarDropdown :: "board \<Rightarrow> board" where
  "toggleSidebarDropdown b = b\<lparr>sidebar_dropdown := \<not> sidebar_dropdown b, profile_dropdown := False\<rparr>"

text \<open>Where a click lands, and what the document's listener does after the element's own.\<close>

datatype place = ProfileTrigger | ProfileMenu | SidebarProfile | SidebarMenu | Elsewhere

definition click_outside :: "place \<Rightarrow> board \<Rightarrow> board" where
  "click_outside target b =
     (let b = (if profile_dropdown b \<and> target \<notin> {ProfileTrigger, ProfileMenu} then b\<lparr>profile_dropdown := False\<rparr> else b)
      in if sidebar_dropdown b \<and> target \<notin> {SidebarProfile, SidebarMenu} then b\<lparr>sidebar_dropdown := False\<rparr> else b)"

definition click :: "place \<Rightarrow> board \<Rightarrow> board" where
  "click target b = click_outside target (case target of
       ProfileTrigger \<Rightarrow> toggleProfileDropdown b
     | SidebarProfile \<Rightarrow> toggleSidebarDropdown b
     | _ \<Rightarrow> b)"

section \<open>Events of the socket\<close>

text \<open>The name of the daemon's account that the handlers look for first is never set.\<close>

definition my_address :: "board \<Rightarrow> string" where
  "my_address b = to_lower (case userAddress (pg (tb b)) of Some a \<Rightarrow> a | None \<Rightarrow> [])"

definition on_provider_status :: "string \<Rightarrow> bool \<Rightarrow> board \<Rightarrow> board" where
  "on_provider_status address up b =
     (if my_address b \<noteq> [] \<and> address \<noteq> [] \<and> to_lower address = my_address b then start CheckProviderStatus b else b)"

definition on_heartbeat :: "string \<Rightarrow> board \<Rightarrow> board" where
  "on_heartbeat address b =
     (if my_address b \<noteq> [] \<and> address \<noteq> [] \<and> to_lower address = my_address b then start CheckProviderStatus b else b)"

definition on_new_deal :: "string \<Rightarrow> board \<Rightarrow> board" where
  "on_new_deal deal_id b = start FetchDeals
     (set_page (addActivity ''Network'' (''New deal initiated: #'' @ deal_id) ''network'') b)"


section \<open>The statistics agree\<close>

lemma round_bounds:
  assumes "0 \<le> x" and "x \<le> 100"
  shows "0 \<le> js_round x" "js_round x \<le> 100"
  using assms by (auto simp: js_round_def le_floor_iff floor_le_iff)

lemma percent_bounds:
  assumes "0 \<le> part" and "part \<le> whole"
  shows "0 \<le> percent part whole \<and> percent part whole \<le> 100"
  using assms round_bounds[of "part / whole * 100"] by (auto simp: percent_def divide_le_eq)

text \<open>What the cards and the views for capacity have in common when the capacity online is part of all.\<close>

definition stats_ok :: "stats \<Rightarrow> bool" where
  "stats_ok s = (total_utilization_gb s \<noteq> None \<and> (or0 (total_capacity_all_gb s) = 0 \<longrightarrow> or0 (total_capacity_gb s) = 0))"

lemma cards_agree:
  assumes "stats_ok s"
  shows "card_utilization (cards_of s) = Some (percent (or0 (total_utilization_gb s)) (or0 (total_capacity_all_gb s))) \<and>
    card_capacity (cards_of s) = or0 (total_capacity_all_gb s)"
proof -
  have "or0 (js_or (total_capacity_all_gb s) (total_capacity_gb s)) = or0 (total_capacity_all_gb s)"
    using assms by (auto simp: stats_ok_def js_or_def or0_def split: option.splits)
  then show ?thesis
    using assms by (auto simp: cards_of_def stats_ok_def percent_def Let_def or0_def split: option.splits)
qed

lemma sum_list_filter_le:
  fixes f :: "'a \<Rightarrow> rat"
  shows "(\<And>x. x \<in> set xs \<Longrightarrow> 0 \<le> f x) \<Longrightarrow> 0 \<le> sum_list (map f (filter P xs)) \<and> sum_list (map f (filter P xs)) \<le> sum_list (map f xs)"
  by (induction xs) (auto intro: add_increasing)

lemma capacity_part:
  assumes "\<forall>c \<in> set (t_pledges s). 0 \<le> c_capacity_gb c"
  shows "0 \<le> st_capacity_gb (net_stats_of t s)" "st_capacity_gb (net_stats_of t s) \<le> st_capacity_all_gb (net_stats_of t s)"
  using sum_list_filter_le[of "filter c_active (t_pledges s)" c_capacity_gb] assms
  by (simp_all add: net_stats_of_def Let_def del: filter_filter)

lemma utilization_part:
  assumes "\<forall>c \<in> set (t_pledges s). 0 \<le> c_utilization_gb c \<and> c_utilization_gb c \<le> c_capacity_gb c"
  shows "0 \<le> st_utilization_gb (net_stats_of t s)" "st_utilization_gb (net_stats_of t s) \<le> st_capacity_all_gb (net_stats_of t s)"
  using assms by (auto simp: net_stats_of_def Let_def intro!: sum_list_nonneg sum_list_mono)


lemma wp_on_tab: "wp t m (\<lambda>x p. Q x (b\<lparr>tb := p\<rparr>)) (\<lambda>e p. E e (b\<lparr>tb := p\<rparr>)) (tb b) \<Longrightarrow> wp t (on_tab m) Q E b"
  unfolding on_tab_def by (rule wp_zoom)

text \<open>Reading from the server leaves the board alone.\<close>

lemma wp_on_tab_request:
  assumes "E ''rejected'' b" and "wp t m (\<lambda>r d. d = server (tb b) \<and> Q r b) (\<lambda>_ _. False) (server (tb b))"
  shows "wp t (on_tab (request m)) Q E b"
proof (rule wp_on_tab, rule wp_request)
  show "E ''rejected'' (b\<lparr>tb := tb b\<rparr>)" using assms(1) by simp
  show "wp t m (\<lambda>r d. E ''rejected'' (b\<lparr>tb := (tb b)\<lparr>server := d\<rparr>\<rparr>) \<and> Q r (b\<lparr>tb := (tb b)\<lparr>server := d\<rparr>\<rparr>))
      (\<lambda>e d. E e (b\<lparr>tb := (tb b)\<lparr>server := d\<rparr>\<rparr>)) (server (tb b))"
    using assms(1) by (auto intro!: wp_mono[OF assms(2)])
qed

lemma wp_get_stats:
  "(\<And>n msg. Q (Err n msg) s) \<Longrightarrow> Q (Ok (net_stats_of t s)) s \<Longrightarrow> wp t get_stats Q E s"
  unfolding get_stats_def or_500_def by (intro wp_try_catch) (auto intro!: wp_rules)

lemma wp_fetch_api_stats:
  "Q no_stats b \<Longrightarrow> Q (api_stats (net_stats_of t (server (tb b)))) b \<Longrightarrow> wp t fetch_api_stats Q E b"
  unfolding fetch_api_stats_def
  by (rule wp_try_catch, rule wp_bind, rule wp_on_tab_request) (auto intro!: wp_ret wp_get_stats)

lemma wp_toNumber: "E ''overflow'' b \<Longrightarrow> (n < 2 ^ 53 \<Longrightarrow> Q (of_nat n) b) \<Longrightarrow> wp t (toNumber n) Q E b"
  unfolding toNumber_def by (auto intro: wp_ret wp_throw)

lemma wp_toNumber_if:
  "E ''overflow'' b \<Longrightarrow> (\<And>x. Q x b) \<Longrightarrow> wp t (if c then toNumber n else ret 0) Q E b"
  by (auto intro: wp_ret wp_toNumber)

text \<open>The two ways the statistics can end.\<close>

definition stats_from :: "int \<Rightarrow> board \<Rightarrow> stats \<Rightarrow> bool" where
  "stats_from t b s = (\<exists>apiStats providerCount.
     (apiStats = no_stats \<or> apiStats = api_stats (net_stats_of t (server (tb b)))) \<and>
     s = merged_stats apiStats (of_nat (length (ch_deals (chain (pg (tb b)))))) providerCount
           (of_nat (totalPledgedCapacityGB (totals b))) (totalFeesCollected (totals b)) (totalTokensBurned (totals b)))"

lemma fetchStats_ends:
  "(final fetchStats w = setOnlineStatus False (updateStatsUI zero_stats (db w))) \<or>
   (\<exists>s. stats_from (clock w) (db w) s \<and> final fetchStats w = setOnlineStatus True (updateStatsUI s (db w)))"
    (is "?P (final fetchStats w)")
proof (rule wp_final_now[where P = ?P])
  have off: "?P (updateStatsUI zero_stats (setOnlineStatus False (db w)))"
    by (simp add: setOnlineStatus_def updateStatsUI_def)
  have on: "?P (setOnlineStatus True (updateStatsUI (merged_stats a (of_nat (length (ch_deals (chain (pg (tb (db w))))))) p
      (of_nat (totalPledgedCapacityGB (totals (db w)))) (totalFeesCollected (totals (db w))) (totalTokensBurned (totals (db w)))) (db w)))"
    if "a = no_stats \<or> a = api_stats (net_stats_of (clock w) (server (tb (db w))))" for a p
    using that unfolding stats_from_def by blast
  show "wp (clock w) fetchStats (\<lambda>_. ?P) (\<lambda>_. ?P) (db w)"
    unfolding fetchStats_def
    by (rule wp_try_catch, rule wp_bind, rule wp_fetch_api_stats)
       (intro wp_bind wp_reads wp_toNumber wp_toNumber_if wp_andthen wp_local_set off on disjI1 disjI2 refl)+
qed


lemma stats_from_capacity:
  assumes "stats_from t b s" and "\<forall>c \<in> set (t_pledges (server (tb b))). 0 \<le> c_utilization_gb c \<and> c_utilization_gb c \<le> c_capacity_gb c"
  shows "stats_ok s" "0 \<le> or0 (total_utilization_gb s)" "or0 (total_utilization_gb s) \<le> or0 (total_capacity_all_gb s)"
    "0 \<le> or0 (total_capacity_gb s)" "or0 (total_capacity_gb s) \<le> or0 (total_capacity_all_gb s)"
proof -
  let ?r = "net_stats_of t (server (tb b))"
  have cap: "\<forall>c \<in> set (t_pledges (server (tb b))). 0 \<le> c_capacity_gb c" using assms(2) by force
  note parts = capacity_part[OF cap, of t] utilization_part[OF assms(2), of t]
  obtain a p where a: "a = no_stats \<or> a = api_stats ?r"
      and s: "s = merged_stats a (of_nat (length (ch_deals (chain (pg (tb b)))))) p
           (of_nat (totalPledgedCapacityGB (totals b))) (totalFeesCollected (totals b)) (totalTokensBurned (totals b))"
    using assms(1) unfolding stats_from_def by blast
  have vals: "or0 (total_utilization_gb s) = or0 (total_utilization_gb a)" "or0 (total_capacity_gb s) = or0 (total_capacity_gb a)"
    "or0 (total_capacity_all_gb s) = max (or0 (total_capacity_all_gb a)) (of_nat (totalPledgedCapacityGB (totals b)))"
    "total_utilization_gb s \<noteq> None"
    by (simp_all add: s merged_stats_def or0_def)
  have api: "0 \<le> or0 (total_utilization_gb a)" "or0 (total_utilization_gb a) \<le> or0 (total_capacity_all_gb a)"
    "0 \<le> or0 (total_capacity_gb a)" "or0 (total_capacity_gb a) \<le> or0 (total_capacity_all_gb a)"
    using a parts by (auto simp: no_stats_def api_stats_def or0_def)
  show "0 \<le> or0 (total_utilization_gb s)" "or0 (total_utilization_gb s) \<le> or0 (total_capacity_all_gb s)"
    "0 \<le> or0 (total_capacity_gb s)" "or0 (total_capacity_gb s) \<le> or0 (total_capacity_all_gb s)"
    using api by (simp_all add: vals max.coboundedI1)
  then show "stats_ok s" using vals(4) by (simp add: stats_ok_def)
qed

lemma stats_zero: "stats_ok zero_stats" "or0 (total_utilization_gb zero_stats) = 0" "or0 (total_capacity_all_gb zero_stats) = 0"
    "or0 (total_capacity_gb zero_stats) = 0"
  by (simp_all add: zero_stats_def no_stats_def or0_def stats_ok_def)

text \<open>
  The first page and the detail views agree about the capacity of the network. Whatever request
  fails, as long as no pledge on the server is used beyond its size, after the statistics are fetched the
  card, the capacity view and the utilisation view show one utilisation, between 0 and 100 per cent, used and free capacity add up
  to the capacity on the card, and the capacity online is part of it.
\<close>

theorem stats_views_agree:
  assumes "\<forall>c \<in> set (t_pledges (server (tb (db w)))). 0 \<le> c_utilization_gb c \<and> c_utilization_gb c \<le> c_capacity_gb c"
    and "b = final fetchStats w"
  shows "\<exists>used free u n a. card_utilization (stat_shown b) = Some u \<and> 0 \<le> u \<and> u \<le> 100 \<and>
    utilization_detail (cachedNetworkStats b) = (used, free, u, n, card_capacity (stat_shown b)) \<and>
    capacity_detail (cachedNetworkStats b) = (card_capacity (stat_shown b), a, free, used, u) \<and>
    used + free = card_capacity (stat_shown b) \<and> 0 \<le> a \<and> a \<le> card_capacity (stat_shown b)"
proof -
  obtain s where s: "stat_shown b = cards_of s" "cachedNetworkStats b = s"
      and nums: "stats_ok s" "0 \<le> or0 (total_utilization_gb s)" "or0 (total_utilization_gb s) \<le> or0 (total_capacity_all_gb s)"
        "0 \<le> or0 (total_capacity_gb s)" "or0 (total_capacity_gb s) \<le> or0 (total_capacity_all_gb s)"
    using fetchStats_ends[of w] stats_from_capacity[OF _ assms(1), of "clock w"] stats_zero
    unfolding assms(2) by (auto simp: setOnlineStatus_def updateStatsUI_def)
  note agree = cards_agree[OF nums(1)] and pct = percent_bounds[OF nums(2,3)]
  show ?thesis
    unfolding s utilization_detail_def capacity_detail_def Let_def using agree pct nums(2-5) by auto
qed

text \<open>
  The detail views lose what the API counts. The statistics built from the contracts keep neither the
  number of all, completed and failed deals nor the average reputation and the active shards; so, whatever the
  server answers, the views show no completed and no failed deal, a rate of success of 0 per cent, a reputation of 0 and no shards.
\<close>

theorem detail_counts_dropped:
  "\<exists>active n total offline pct cap burned ratio.
     deals_detail (cachedNetworkStats (final fetchStats w)) = (active, 0, 0, 0, 0) \<and>
     providers_detail (cachedNetworkStats (final fetchStats w)) = (n, total, offline, pct, cap, 0) \<and>
     burned_detail (cachedNetworkStats (final fetchStats w)) = (burned, ratio, 0)"
proof -
  obtain s where "cachedNetworkStats (final fetchStats w) = s"
      "total_deals s = None" "deals_completed s = None" "deals_failed s = None" "avg_reputation s = None" "active_shards s = None"
    using fetchStats_ends[of w]
    by (auto simp: setOnlineStatus_def updateStatsUI_def stats_from_def merged_stats_def zero_stats_def no_stats_def)
  moreover have "parseInt0 None = 0" "or0 None = 0" "percent 0 0 = 0" by (simp_all add: parseInt0_def or0_def percent_def)
  ultimately show ?thesis
    by (simp add: deals_detail_def providers_detail_def burned_detail_def Let_def)
qed

section \<open>Navigation\<close>

lemma nav_cases: "j < length nav_buttons \<Longrightarrow> j = 0 \<or> j = 1 \<or> j = 2 \<or> j = 3 \<or> j = 4 \<or> j = 5"
  by (auto simp: nav_buttons_def)

lemma settings_view_cong: "settings p = settings q \<Longrightarrow> settings_view p = settings_view q"
  by (simp add: settings_view_def)

text \<open>
  Every button of the side bar opens its view and lights itself: the table of positions in the code
  follows the order of the buttons in the page. With settings of the saved shape opening a view never throws.
\<close>

theorem nav_button_lights_itself:
  assumes "j < length nav_buttons" and "settings_shape (settings (pg (tb b)))"
  shows "\<exists>b'. switchView (nav_buttons ! j) b = Inr b' \<and> nav_active b' = Some j \<and>
    view (pg (tb b')) = nav_buttons ! j \<and> nav_buttons ! j \<in> set view_ids \<and> view_title b' = the (titles (nav_buttons ! j))"
proof -
  obtain vs where "settings_view (pg (tb b)) = Inr vs" using settings_view_shape[OF assms(2)] by blast
  then have vs: "settings_view ((pg (tb b))\<lparr>view := ''settings''\<rparr>) = Inr vs"
    using settings_view_cong[of "(pg (tb b))\<lparr>view := ''settings''\<rparr>" "pg (tb b)"] by simp
  show ?thesis
    using nav_cases[OF assms(1)] vs
    by (elim disjE) (simp_all add: switchView_def nav_buttons_def view_ids_def navItems_def titles_def set_page_def Let_def)
qed

section \<open>Menus\<close>

text \<open>At most one of the two menus is open, whatever is clicked in whatever order; a click elsewhere closes both.\<close>

theorem one_menu_open:
  assumes "\<not> (profile_dropdown b \<and> sidebar_dropdown b)" and "b' = fold click places b"
  shows "\<not> (profile_dropdown b' \<and> sidebar_dropdown b') \<and>
    (places \<noteq> [] \<longrightarrow> last places = Elsewhere \<longrightarrow> \<not> profile_dropdown b' \<and> \<not> sidebar_dropdown b')"
  unfolding assms(2)
proof (induction places rule: rev_induct)
  case Nil
  show ?case using assms(1) by simp
next
  case (snoc p ps)
  then show ?case by (cases p) (auto simp: click_def click_outside_def toggleProfileDropdown_def toggleSidebarDropdown_def Let_def)
qed

section \<open>The reputation gauge\<close>

lemma gauge_running: "int n \<le> target \<or> n = 0 \<Longrightarrow> animateReputation target n = (n, True)"
proof (induction n)
  case (Suc n)
  then show ?case by (auto simp: reputation_tick_def)
qed simp

text \<open>
  The gauge comes to rest: after one tick more than the target the interval is cleared, the counter shows the target,
  and no further tick changes it; a target below zero shows zero.
\<close>

theorem gauge_stops: "animateReputation target (Suc (nat target + k)) = (nat target, False)"
proof (induction k)
  case 0
  have "animateReputation target (nat target) = (nat target, True)" by (rule gauge_running) auto
  then show ?case by (simp add: reputation_tick_def)
next
  case (Suc k)
  then show ?case by (simp add: reputation_tick_def)
qed


section \<open>My deals\<close>

lemma quietly_on_tab: "quietly t m (\<lambda>x p. Q x (b\<lparr>tb := p\<rparr>)) (tb b) \<Longrightarrow> quietly t (on_tab m) Q b"
  unfolding on_tab_def by (rule quietly_zoom)

lemma quietly_get_deals: "Q (Ok (newest_deals_of s)) s \<Longrightarrow> quietly t (get_deals [] []) Q s"
  unfolding get_deals_def or_500_def newest_deals_of_def by (rule quietly_try_catch) (auto intro!: quiet_rules)

text \<open>
  The page of the user's deals lists everybody's. When nothing fails, the tab of a provider shows the newest hundred
  deals of the server, whoever the client and the holders of shards are, and each as active, whatever its status;
  the tab of a client shows the same deals with their status.
\<close>

theorem my_deals_are_all_deals:
  assumes "script w = []"
  shows "my_deals (final (fetchMyDeals ''client'') w) = map api_shown (take 100 (order_by (\<lambda>d. - d_created_at d) (t_deals (server (tb (db w)))))) \<and>
    my_deals (final (fetchMyDeals ''provider'') w) =
      map (\<lambda>d. (api_shown d)\<lparr>sd_status := Some ''active''\<rparr>) (take 100 (order_by (\<lambda>d. - d_created_at d) (t_deals (server (tb (db w))))))"
proof -
  let ?rows = "newest_deals_of (server (tb (db w)))"
  have "quietly (clock w) (fetchMyDeals type) (\<lambda>_ b. my_deals b = (if type = ''provider''
      then map (\<lambda>d. (api_shown d)\<lparr>sd_status := Some ''active''\<rparr>) ?rows else map api_shown ?rows)) (db w)" for type
    unfolding fetchMyDeals_def
    by (rule quietly_try_catch, rule quietly_bind, rule quietly_on_tab, rule quietly_request, rule quietly_get_deals)
       (auto simp: Let_def intro!: quiet_rules)
  from quietly_final[OF this assms] show ?thesis unfolding newest_deals_of_def by simp
qed

section \<open>Concrete instances\<close>

definition board0 :: board where
  "board0 = \<lparr>tb = tab0, totals = \<lparr>totalPledgedCapacityGB = 10, getProviderCount = 2, totalFeesCollected = 0, totalTokensBurned = 0\<rparr>,
     api_online = False, cachedNetworkStats = no_stats, stat_shown = cards_of no_stats, market = [], my_deals = [],
     earnings = \<lparr>earned_available = 0, earned_total = 0, earned_withdrawn = 0\<rparr>, nav_active = Some 0, view_title = [],
     upgrade_form = False, settings_shown = [], profile_dropdown = False, sidebar_dropdown = False, started = []\<rparr>"

theorem stats_views_agree_witness:
  "\<exists>u. card_utilization (stat_shown (final fetchStats \<lparr>db = board0, clock = 0, script = []\<rparr>)) = Some u \<and> 0 \<le> u \<and> u \<le> 100"
proof -
  have "\<forall>c \<in> set (t_pledges (server (tb (db \<lparr>db = board0, clock = 0, script = []\<rparr>)))). 0 \<le> c_utilization_gb c \<and> c_utilization_gb c \<le> c_capacity_gb c"
    by (simp add: board0_def api_world_def empty_db_def)
  from stats_views_agree[OF this refl] show ?thesis by blast
qed

theorem nav_button_lights_itself_witness: "\<exists>b'. switchView ''files'' board0 = Inr b' \<and> nav_active b' = Some 4 \<and> view_title b' = ''My Uploaded Files''"
proof -
  have "settings_shape (settings (pg (tb board0)))" by (simp add: board0_def tab0_def page0_shape)
  from nav_button_lights_itself[OF _ this, of 4] show ?thesis by (auto simp: nav_buttons_def titles_def)
qed

theorem one_menu_open_witness:
  "\<not> (profile_dropdown (fold click [ProfileTrigger, SidebarProfile] board0) \<and> sidebar_dropdown (fold click [ProfileTrigger, SidebarProfile] board0))"
  using one_menu_open[OF _ refl, of board0 "[ProfileTrigger, SidebarProfile]"] by (simp add: board0_def)

theorem my_deals_are_all_deals_witness:
  "map sd_status (my_deals (final (fetchMyDeals ''provider'') \<lparr>db = board0, clock = 0, script = []\<rparr>)) =
     replicate (length (t_deals (server tab0))) (Some ''active'')"
  using my_deals_are_all_deals[of "\<lparr>db = board0, clock = 0, script = []\<rparr>"]
  by (simp add: board0_def api_world_def empty_db_def)

end
