(* ===== verification/Cli_Tools.thy ===== *)
theory Cli_Tools
  imports Kyn_Effects
begin

text \<open>
  The command line tools (\<^verbatim>\<open>cli/client-cli.ts\<close>, \<^verbatim>\<open>cli/provider-cli.ts\<close>): the quote and the verdict a client sees, and the
  transactions a provider sends. The commands run against the chain with the failing effects of
  \<open>Kyn_Effects\<close>; an exception ends the process with code 1. Sizes and costs are exact.
\<close>

section \<open>Client\<close>

record quote =
  q_sizeGB :: rat
  q_encodedGB :: rat
  q_months :: nat
  q_cost :: rat

definition upload_quote :: "nat \<Rightarrow> nat \<Rightarrow> rat \<Rightarrow> quote" where
  "upload_quote bytes duration price =
     (let fileSizeGB = of_nat (ceil_div bytes (1024 * 1024 * 1024 * 10)) / 100;
          months = ceil_div duration 30;
          encodedSize = fileSizeGB * 3 / 2
      in \<lparr>q_sizeGB = fileSizeGB, q_encodedGB = encodedSize, q_months = months, q_cost = encodedSize * price * of_nat months\<rparr>)"

definition status_name_cli :: "nat \<Rightarrow> string option" where
  "status_name_cli n = (if n < 4 then Some ([''Active'', ''Completed'', ''Failed'', ''Cancelled''] ! n) else None)"

definition shard_verdict :: "nat \<Rightarrow> string" where
  "shard_verdict activeShards =
     (if 15 \<le> activeShards then ''All shards healthy''
      else if 10 \<le> activeShards then ''Some shards lost, but data can still be reconstructed''
      else ''Critical: Too many shards lost!'')"

section \<open>Provider\<close>

datatype cli_call =
  CliRegister string string string | CliApprove nat | CliPledge nat nat nat | CliWithdraw

record cli =
  cli_sent :: "cli_call list"
  cli_earnings :: nat
  cli_output :: "string list"
  cli_exit :: "nat option"

text \<open>Sending may fail, and so may waiting for what was sent.\<close>

definition cli_send :: "cli_call \<Rightarrow> (cli, unit) act" where
  "cli_send c = andthen (writes (\<lambda>s. s\<lparr>cli_sent := cli_sent s @ [c]\<rparr>)) (reads (\<lambda>_. ()))"

definition print :: "string \<Rightarrow> (cli, unit) act" where
  "print x = local_set (\<lambda>s. s\<lparr>cli_output := cli_output s @ [x]\<rparr>)"

definition cli_action :: "(cli, unit) act \<Rightarrow> (cli, unit) act" where
  "cli_action m = try_catch m (\<lambda>e. andthen (print (''Error: '' @ e)) (local_set (\<lambda>s. s\<lparr>cli_exit := Some 1\<rparr>)))"

definition cli_register :: "string \<Rightarrow> string \<Rightarrow> string \<Rightarrow> (cli, unit) act" where
  "cli_register peerId endpoint region = cli_action
     (andthen (cli_send (CliRegister peerId endpoint region)) (print ''Successfully registered!''))"

text \<open>The collateral is in base units of the token.\<close>

definition cli_pledge :: "nat \<Rightarrow> nat \<Rightarrow> nat \<Rightarrow> (cli, unit) act" where
  "cli_pledge capacity duration collateralWei = cli_action
     (andthen (cli_send (CliApprove collateralWei))
     (andthen (print ''Tokens approved'')
     (andthen (cli_send (CliPledge capacity (duration * 24 * 60 * 60) collateralWei))
              (print ''Pledge created successfully!''))))"

definition cli_withdraw :: "(cli, unit) act" where
  "cli_withdraw = cli_action
     (bind (reads cli_earnings) (\<lambda>available.
      if available = 0 then print ''No earnings available to withdraw''
      else andthen (cli_send CliWithdraw) (print ''Withdrawal successful!'')))"

section \<open>The quote is too low\<close>

lemma quoted_units:
  assumes "1073741824 \<le> n"
  shows "ceil_div n 10737418240 * 1073741824 \<le> n" "n \<le> ceil_div n 10737418240 * 10737418240"
proof -
  define c where "c = ceil_div n 10737418240"
  have less: "10737418240 * c < n + 10737418240" and ge: "n \<le> 10737418240 * c"
    unfolding c_def by (rule ceil_div_less, simp, rule ceil_div_ge, simp)
  show "ceil_div n 10737418240 * 1073741824 \<le> n"
    unfolding c_def[symmetric] using less assms by (cases "c \<le> 1") linarith+
  show "n \<le> ceil_div n 10737418240 * 10737418240" unfolding c_def[symmetric] using ge by linarith
qed

text \<open>
  The size the upload command computes is a hundredth to a thousandth of the size of the file, for every file of
  a gigabyte or more: the bytes are divided by ten gigabytes and then by a hundred, not by a gigabyte with two
  decimals. The cost shown is low by the same factor.
\<close>

theorem upload_quote_too_low:
  assumes "2 ^ 30 \<le> bytes" and "0 \<le> price" and "x = of_nat bytes / 2 ^ 30"
    and "cost = x * (3 / 2) * price * of_nat (q_months (upload_quote bytes duration price))"
  shows "x / 1000 \<le> q_sizeGB (upload_quote bytes duration price) \<and> q_sizeGB (upload_quote bytes duration price) \<le> x / 100 \<and>
    cost / 1000 \<le> q_cost (upload_quote bytes duration price) \<and> q_cost (upload_quote bytes duration price) \<le> cost / 100"
proof -
  let ?c = "ceil_div bytes 10737418240" and ?m = "ceil_div duration 30"
  define g where "g = (of_nat ?c / 100 :: rat)"
  define y where "y = 3 / 2 * price * of_nat ?m"
  have q: "q_sizeGB (upload_quote bytes duration price) = g" "q_months (upload_quote bytes duration price) = ?m"
    "q_cost (upload_quote bytes duration price) = g * y"
    by (simp_all add: upload_quote_def Let_def g_def y_def)
  have units: "?c * 1073741824 \<le> bytes" "bytes \<le> ?c * 10737418240" using quoted_units[of bytes] assms(1) by simp_all
  have "of_nat (?c * 1073741824) \<le> (of_nat bytes :: rat)" "(of_nat bytes :: rat) \<le> of_nat (?c * 10737418240)"
    using units by (simp_all only: of_nat_le_iff)
  then have size: "x / 1000 \<le> g" "g \<le> x / 100" by (simp_all add: g_def assms(3))
  have cost: "cost = x * y" by (simp add: assms(4) q(2) y_def)
  have y: "0 \<le> y" using assms(2) by (simp add: y_def)
  have "x / 1000 * y \<le> g * y" "g * y \<le> x / 100 * y" by (rule mult_right_mono[OF size(1) y], rule mult_right_mono[OF size(2) y])
  then show ?thesis using size by (simp add: q cost)
qed

section \<open>The transactions sent\<close>

text \<open>
  However sending and waiting fail, pledging sends nothing, the approval alone, or the approval and then one
  pledge backed by exactly the approved amount; success is reported only in the last case, and otherwise the exit code is 1.
\<close>

theorem cli_pledge_order:
  assumes "s = final (cli_pledge capacity days collateral) w" and "cli_exit (db w) = None" and "cli_output (db w) = []"
    and "both = cli_sent (db w) @ [CliApprove collateral, CliPledge capacity (days * 86400) collateral]"
  shows "(cli_sent s = cli_sent (db w) \<or> cli_sent s = cli_sent (db w) @ [CliApprove collateral] \<or> cli_sent s = both) \<and>
    (''Pledge created successfully!'' \<in> set (cli_output s) \<longleftrightarrow> cli_exit s = None) \<and> (cli_exit s = None \<longrightarrow> cli_sent s = both)"
  unfolding assms(1) cli_pledge_def cli_action_def cli_send_def print_def
  by (rule wp_final_now) (auto intro!: wp_rules simp: assms(2-4))

text \<open>Withdrawing sends at most one transaction, and none when there is nothing to withdraw.\<close>

theorem cli_withdraw_once:
  assumes "s = final cli_withdraw w"
  shows "cli_sent s = cli_sent (db w) \<or> (cli_earnings (db w) \<noteq> 0 \<and> cli_sent s = cli_sent (db w) @ [CliWithdraw])"
proof -
  let ?P = "\<lambda>s. cli_sent s = cli_sent (db w) \<or> (cli_earnings (db w) \<noteq> 0 \<and> cli_sent s = cli_sent (db w) @ [CliWithdraw])"
  show ?thesis
    unfolding assms cli_withdraw_def cli_action_def cli_send_def print_def
    by (rule wp_final_now[where P = ?P]) (auto intro!: wp_rules)
qed

section \<open>Concrete instances\<close>

definition cli0 :: cli where
  "cli0 = \<lparr>cli_sent = [], cli_earnings = 5, cli_output = [], cli_exit = None\<rparr>"

theorem upload_quote_too_low_witness:
  "q_sizeGB (upload_quote (2 ^ 31) 30 1) = 1 / 100 \<and> q_sizeGB (upload_quote (2 ^ 31) 30 1) \<le> 2 / 100"
  using upload_quote_too_low[of "2 ^ 31" 1 2 _ 30, OF _ _ _ refl] by (simp add: upload_quote_def ceil_div_def Let_def)

theorem cli_pledge_order_witness:
  "cli_sent (final (cli_pledge 100 30 7) \<lparr>db = cli0, clock = 0, script = [False, True]\<rparr>) \<in>
     {[], [CliApprove 7], [CliApprove 7, CliPledge 100 (30 * 86400) 7]}"
  using cli_pledge_order[OF refl _ _ refl, of "\<lparr>db = cli0, clock = 0, script = [False, True]\<rparr>" 100 30 7] by (auto simp: cli0_def)

theorem cli_withdraw_once_witness:
  "cli_sent (final cli_withdraw \<lparr>db = cli0, clock = 0, script = []\<rparr>) \<in> {[], [CliWithdraw]}"
  using cli_withdraw_once[OF refl, of "\<lparr>db = cli0, clock = 0, script = []\<rparr>"] by (auto simp: cli0_def)

end
