(* ===== verification/Sol_Registry.thy ===== *)
theory Sol_Registry
  imports Kyn_Prelude
begin

text \<open>
  Contract calls, and the registry of providers (\<^verbatim>\<open>smart-contracts/contracts/core/ProviderRegistry.sol\<close>). A call is a function
  on the contract's state that gives the state after it or the reason of its revert; a revert leaves the state as it was. Addresses are
  natural numbers, 0 is the zero address. Amounts and times are natural numbers: the revert of a call that
  overflows 256 bits is not modelled, an underflow is. Events are left out.
\<close>

section \<open>Calls\<close>

type_synonym addr = nat

definition req :: "bool \<Rightarrow> string \<Rightarrow> string + 'a \<Rightarrow> string + 'a" where
  "req c msg k = (if c then k else Inl msg)"

definition and_then :: "string + 'a \<Rightarrow> ('a \<Rightarrow> string + 'b) \<Rightarrow> string + 'b" where
  "and_then m f = (case m of Inl e \<Rightarrow> Inl e | Inr x \<Rightarrow> f x)"

text \<open>A call that reverts changes nothing.\<close>

definition transact :: "('s \<Rightarrow> string + 's) \<Rightarrow> 's \<Rightarrow> 's" where
  "transact f s = (case f s of Inl _ \<Rightarrow> s | Inr s' \<Rightarrow> s')"

lemma req_Inr [simp]: "req c msg k = Inr x \<longleftrightarrow> c \<and> k = Inr x"
  by (simp add: req_def)

lemma and_then_Inr [simp]: "and_then m f = Inr y \<longleftrightarrow> (\<exists>x. m = Inr x \<and> f x = Inr y)"
  by (simp add: and_then_def split: sum.splits)

lemma and_then_simps [simp]: "and_then (Inr x) f = f x" "and_then (Inl e) f = Inl e"
  by (simp_all add: and_then_def)

lemma req_True [simp]: "req True msg k = k" "req False msg k = Inl msg"
  by (simp_all add: req_def)

lemma transact_cases: "transact f s = s \<or> f s = Inr (transact f s)"
  by (simp add: transact_def split: sum.split)

section \<open>The registry\<close>

record reg_provider =
  reg_registered :: bool
  registrationTime :: nat
  totalCapacityGB :: nat
  reputationScore :: nat
  peerId :: string
  reg_endpoint :: string
  reg_region :: string
  totalDealsCompleted :: nat
  totalDealsFailed :: nat
  totalSlashingEvents :: nat
  reg_active :: bool
  deactivatedUntil :: nat
  minPriceUSD :: nat

definition no_provider :: reg_provider where
  "no_provider = \<lparr>reg_registered = False, registrationTime = 0, totalCapacityGB = 0, reputationScore = 0, peerId = [], reg_endpoint = [],
     reg_region = [], totalDealsCompleted = 0, totalDealsFailed = 0, totalSlashingEvents = 0, reg_active = False,
     deactivatedUntil = 0, minPriceUSD = 0\<rparr>"

record registry =
  reg_owner :: addr
  reg_providers :: "addr \<Rightarrow> reg_provider"
  providerList :: "addr list"
  recordKeepers :: "addr \<Rightarrow> bool"

definition new_registry :: "addr \<Rightarrow> registry" where
  "new_registry deployer = \<lparr>reg_owner = deployer, reg_providers = (\<lambda>_. no_provider), providerList = [], recordKeepers = (\<lambda>_. False)\<rparr>"

definition set_provider :: "addr \<Rightarrow> (reg_provider \<Rightarrow> reg_provider) \<Rightarrow> registry \<Rightarrow> registry" where
  "set_provider p f r = r\<lparr>reg_providers := (reg_providers r)(p := f (reg_providers r p))\<rparr>"

definition registerProvider :: "addr \<Rightarrow> nat \<Rightarrow> string \<Rightarrow> string \<Rightarrow> string \<Rightarrow> nat \<Rightarrow> registry \<Rightarrow> string + registry" where
  "registerProvider sender timestamp pid ep rg minPrice r =
     req (\<not> reg_registered (reg_providers r sender)) ''Already registered'' (
     req (pid \<noteq> []) ''Invalid peer ID'' (
     Inr ((set_provider sender (\<lambda>_. \<lparr>reg_registered = True, registrationTime = timestamp, totalCapacityGB = 0, reputationScore = 50,
            peerId = pid, reg_endpoint = ep, reg_region = rg, totalDealsCompleted = 0, totalDealsFailed = 0,
            totalSlashingEvents = 0, reg_active = True, deactivatedUntil = 0, minPriceUSD = minPrice\<rparr>) r)
          \<lparr>providerList := providerList r @ [sender]\<rparr>)))"

definition updateProvider :: "addr \<Rightarrow> string \<Rightarrow> string \<Rightarrow> nat \<Rightarrow> registry \<Rightarrow> string + registry" where
  "updateProvider sender ep rg minPrice r =
     req (reg_registered (reg_providers r sender)) ''Not registered'' (
     Inr (set_provider sender (\<lambda>p. p\<lparr>reg_endpoint := ep, reg_region := rg, minPriceUSD := minPrice\<rparr>) r))"

definition updateCapacity :: "addr \<Rightarrow> addr \<Rightarrow> nat \<Rightarrow> registry \<Rightarrow> string + registry" where
  "updateCapacity sender p gb r =
     req (sender = reg_owner r) ''OwnableUnauthorizedAccount'' (
     req (reg_registered (reg_providers r p)) ''Provider not registered'' (
     Inr (set_provider p (\<lambda>x. x\<lparr>totalCapacityGB := gb\<rparr>) r)))"

definition is_keeper :: "addr \<Rightarrow> registry \<Rightarrow> bool" where
  "is_keeper sender r = (sender = reg_owner r \<or> recordKeepers r sender)"

definition authorizeRecordKeeper :: "addr \<Rightarrow> addr \<Rightarrow> registry \<Rightarrow> string + registry" where
  "authorizeRecordKeeper sender keeper r =
     req (sender = reg_owner r) ''OwnableUnauthorizedAccount'' (Inr (r\<lparr>recordKeepers := (recordKeepers r)(keeper := True)\<rparr>))"

definition revokeRecordKeeper :: "addr \<Rightarrow> addr \<Rightarrow> registry \<Rightarrow> string + registry" where
  "revokeRecordKeeper sender keeper r =
     req (sender = reg_owner r) ''OwnableUnauthorizedAccount'' (Inr (r\<lparr>recordKeepers := (recordKeepers r)(keeper := False)\<rparr>))"

definition deactivateProvider :: "nat \<Rightarrow> addr \<Rightarrow> registry \<Rightarrow> registry" where
  "deactivateProvider timestamp p r = set_provider p (\<lambda>x. x\<lparr>reg_active := False, deactivatedUntil := timestamp + 7 * 86400\<rparr>) r"

definition increaseReputation :: "addr \<Rightarrow> addr \<Rightarrow> nat \<Rightarrow> registry \<Rightarrow> string + registry" where
  "increaseReputation sender p amount r =
     req (is_keeper sender r) ''Not authorized'' (
     req (reg_registered (reg_providers r p)) ''Provider not registered'' (
     Inr (set_provider p (\<lambda>x. x\<lparr>reputationScore := (let s = reputationScore x + amount in if s > 100 then 100 else s)\<rparr>) r)))"

definition decreaseReputation :: "addr \<Rightarrow> nat \<Rightarrow> addr \<Rightarrow> nat \<Rightarrow> registry \<Rightarrow> string + registry" where
  "decreaseReputation sender timestamp p amount r =
     req (is_keeper sender r) ''Not authorized'' (
     req (reg_registered (reg_providers r p)) ''Provider not registered'' (
     let current = reputationScore (reg_providers r p);
         score = (if current > amount then current - amount else 0);
         r = set_provider p (\<lambda>x. x\<lparr>reputationScore := score\<rparr>) r
     in Inr (if score < 20 then deactivateProvider timestamp p r else r)))"

definition recordDealCompleted :: "addr \<Rightarrow> addr \<Rightarrow> registry \<Rightarrow> string + registry" where
  "recordDealCompleted sender p r =
     req (is_keeper sender r) ''Not authorized'' (
     req (reg_registered (reg_providers r p)) ''Provider not registered'' (
     increaseReputation sender p 1 (set_provider p (\<lambda>x. x\<lparr>totalDealsCompleted := totalDealsCompleted x + 1\<rparr>) r)))"

definition recordDealFailed :: "addr \<Rightarrow> nat \<Rightarrow> addr \<Rightarrow> registry \<Rightarrow> string + registry" where
  "recordDealFailed sender timestamp p r =
     req (is_keeper sender r) ''Not authorized'' (
     req (reg_registered (reg_providers r p)) ''Provider not registered'' (
     decreaseReputation sender timestamp p 5 (set_provider p (\<lambda>x. x\<lparr>totalDealsFailed := totalDealsFailed x + 1\<rparr>) r)))"

definition recordSlashing :: "addr \<Rightarrow> nat \<Rightarrow> addr \<Rightarrow> registry \<Rightarrow> string + registry" where
  "recordSlashing sender timestamp p r =
     req (is_keeper sender r) ''Not authorized'' (
     req (reg_registered (reg_providers r p)) ''Provider not registered'' (
     and_then (decreaseReputation sender timestamp p 20
                 (set_provider p (\<lambda>x. x\<lparr>totalSlashingEvents := totalSlashingEvents x + 1\<rparr>) r)) (\<lambda>r.
     Inr (if totalSlashingEvents (reg_providers r p) \<ge> 5 then deactivateProvider timestamp p r else r))))"

definition reactivateProvider :: "addr \<Rightarrow> nat \<Rightarrow> registry \<Rightarrow> string + registry" where
  "reactivateProvider sender timestamp r =
     req (reg_registered (reg_providers r sender)) ''Not registered'' (
     req (\<not> reg_active (reg_providers r sender)) ''Already active'' (
     req (timestamp \<ge> deactivatedUntil (reg_providers r sender)) ''Cooldown not complete'' (
     Inr (set_provider sender (\<lambda>x. x\<lparr>reg_active := True, reputationScore := 50, totalSlashingEvents := 0\<rparr>) r))))"

definition isProviderActive :: "addr \<Rightarrow> registry \<Rightarrow> bool" where
  "isProviderActive p r = (reg_registered (reg_providers r p) \<and> reg_active (reg_providers r p))"

definition getEligibleProviders :: "nat \<Rightarrow> nat \<Rightarrow> registry \<Rightarrow> addr list" where
  "getEligibleProviders maxPriceUSD minReputation r = filter (\<lambda>p. reg_active (reg_providers r p) \<and>
     reputationScore (reg_providers r p) \<ge> minReputation \<and> minPriceUSD (reg_providers r p) \<le> maxPriceUSD) (providerList r)"

section \<open>Runs\<close>

datatype registry_call =
    RegRegister addr nat string string string nat
  | RegUpdate addr string string nat
  | RegCapacity addr addr nat
  | RegAuthorize addr addr
  | RegRevoke addr addr
  | RegIncrease addr addr nat
  | RegDecrease addr nat addr nat
  | RegCompleted addr addr
  | RegFailed addr nat addr
  | RegSlashed addr nat addr
  | RegReactivate addr nat

fun registry_exec :: "registry_call \<Rightarrow> registry \<Rightarrow> string + registry" where
  "registry_exec (RegRegister s t pid ep rg m) = registerProvider s t pid ep rg m"
| "registry_exec (RegUpdate s ep rg m) = updateProvider s ep rg m"
| "registry_exec (RegCapacity s p gb) = updateCapacity s p gb"
| "registry_exec (RegAuthorize s k) = authorizeRecordKeeper s k"
| "registry_exec (RegRevoke s k) = revokeRecordKeeper s k"
| "registry_exec (RegIncrease s p n) = increaseReputation s p n"
| "registry_exec (RegDecrease s t p n) = decreaseReputation s t p n"
| "registry_exec (RegCompleted s p) = recordDealCompleted s p"
| "registry_exec (RegFailed s t p) = recordDealFailed s t p"
| "registry_exec (RegSlashed s t p) = recordSlashing s t p"
| "registry_exec (RegReactivate s t) = reactivateProvider s t"

definition registry_run :: "registry_call list \<Rightarrow> registry \<Rightarrow> registry" where
  "registry_run cs r = fold (\<lambda>c. transact (registry_exec c)) cs r"


section \<open>The state of every provider stays sound\<close>

definition provider_ok :: "reg_provider \<Rightarrow> bool" where
  "provider_ok x = (reputationScore x \<le> 100 \<and>
     (reg_active x \<longrightarrow> reg_registered x \<and> 20 \<le> reputationScore x \<and> totalSlashingEvents x < 5))"

definition registry_inv :: "registry \<Rightarrow> bool" where
  "registry_inv r = (distinct (providerList r) \<and>
     (\<forall>p. provider_ok (reg_providers r p) \<and> (reg_registered (reg_providers r p) \<longleftrightarrow> p \<in> set (providerList r))))"

lemma set_provider_at [simp]:
  "reg_providers (set_provider p f r) = (reg_providers r)(p := f (reg_providers r p))"
  "providerList (set_provider p f r) = providerList r" "is_keeper k (set_provider p f r) = is_keeper k r"
  by (simp_all add: set_provider_def is_keeper_def)

lemma deactivate_at [simp]:
  "reg_providers (deactivateProvider t p r) =
     (reg_providers r)(p := (reg_providers r p)\<lparr>reg_active := False, deactivatedUntil := t + 7 * 86400\<rparr>)"
  "providerList (deactivateProvider t p r) = providerList r"
  by (simp_all add: deactivateProvider_def)

text \<open>A call that touches one provider keeps the invariant if that provider stays sound.\<close>

definition changes_only :: "addr \<Rightarrow> registry \<Rightarrow> registry \<Rightarrow> bool" where
  "changes_only p r r' = (providerList r' = providerList r \<and> (\<forall>q. q \<noteq> p \<longrightarrow> reg_providers r' q = reg_providers r q) \<and>
     reg_registered (reg_providers r' p) = reg_registered (reg_providers r p) \<and>
     (provider_ok (reg_providers r p) \<longrightarrow> provider_ok (reg_providers r' p)))"

lemma changes_only_inv: "changes_only p r r' \<Longrightarrow> registry_inv r \<Longrightarrow> registry_inv r'"
  unfolding changes_only_def registry_inv_def by metis

lemma decrease_at:
  assumes "decreaseReputation s t p n r = Inr r'"
  shows "providerList r' = providerList r" "q \<noteq> p \<Longrightarrow> reg_providers r' q = reg_providers r q"
    "reg_registered (reg_providers r' p) = reg_registered (reg_providers r p)"
    "totalSlashingEvents (reg_providers r' p) = totalSlashingEvents (reg_providers r p)"
    "reputationScore (reg_providers r' p) \<le> reputationScore (reg_providers r p)"
    "reg_active (reg_providers r' p) \<Longrightarrow> reg_active (reg_providers r p) \<and> 20 \<le> reputationScore (reg_providers r' p)"
  using assms by (auto simp: decreaseReputation_def Let_def split: if_splits)

lemma decrease_changes: "decreaseReputation s t p n r = Inr r' \<Longrightarrow> changes_only p r r'"
  using decrease_at[of s t p n r r'] unfolding changes_only_def provider_ok_def by fastforce

lemma increase_changes: "increaseReputation s p n r = Inr r' \<Longrightarrow> changes_only p r r'"
  by (auto simp: increaseReputation_def changes_only_def provider_ok_def Let_def)

lemma changes_after_set:
  assumes "changes_only p (set_provider p f r) r'" and "reg_registered (f (reg_providers r p)) = reg_registered (reg_providers r p)"
    and "provider_ok (reg_providers r p) \<Longrightarrow> provider_ok (f (reg_providers r p))"
  shows "changes_only p r r'"
  using assms by (auto simp: changes_only_def)

lemma slashing_changes:
  assumes "recordSlashing s t p r = Inr r'"
  shows "changes_only p r r'"
proof -
  let ?r = "set_provider p (\<lambda>x. x\<lparr>totalSlashingEvents := totalSlashingEvents x + 1\<rparr>) r"
  obtain r1 where r1: "decreaseReputation s t p 20 ?r = Inr r1"
      and r': "r' = (if 5 \<le> totalSlashingEvents (reg_providers r1 p) then deactivateProvider t p r1 else r1)"
    using assms by (auto simp: recordSlashing_def)
  define x where "x = reg_providers r p"
  define x1 where "x1 = reg_providers r1 p"
  have at: "providerList r1 = providerList r" "\<And>q. q \<noteq> p \<Longrightarrow> reg_providers r1 q = reg_providers r q"
    "reg_registered x1 = reg_registered x" "totalSlashingEvents x1 = totalSlashingEvents x + 1"
    "reputationScore x1 \<le> reputationScore x" "reg_active x1 \<Longrightarrow> reg_active x \<and> 20 \<le> reputationScore x1"
    using decrease_at[OF r1] by (simp_all add: x_def x1_def)
  have r'_at: "providerList r' = providerList r1" "\<And>q. q \<noteq> p \<Longrightarrow> reg_providers r' q = reg_providers r1 q"
    "reg_providers r' p = (if 5 \<le> totalSlashingEvents x1 then x1\<lparr>reg_active := False, deactivatedUntil := t + 7 * 86400\<rparr> else x1)"
    by (simp_all add: r' x1_def)
  have "provider_ok x \<longrightarrow> provider_ok (reg_providers r' p)" using at(3-6) by (auto simp: r'_at(3) provider_ok_def)
  then show ?thesis using at r'_at by (simp add: changes_only_def x_def[symmetric])
qed

lemma registry_exec_inv:
  assumes "registry_exec c r = Inr r'" and "registry_inv r"
  shows "registry_inv r'"
proof (cases c)
  case (RegRegister s t pid ep rg m)
  then obtain x where x: "reg_providers r' = (reg_providers r)(s := x)" "providerList r' = providerList r @ [s]"
      "reg_registered x" "provider_ok x" "\<not> reg_registered (reg_providers r s)"
    using assms(1) by (auto simp: registerProvider_def provider_ok_def)
  then have "s \<notin> set (providerList r)" using assms(2) by (metis registry_inv_def)
  then show ?thesis using assms(2) x unfolding registry_inv_def by simp
next
  case (RegAuthorize s k)
  then show ?thesis using assms by (auto simp: authorizeRecordKeeper_def registry_inv_def)
next
  case (RegRevoke s k)
  then show ?thesis using assms by (auto simp: revokeRecordKeeper_def registry_inv_def)
next
  case (RegUpdate s ep rg m)
  then have "changes_only s r r'" using assms(1) by (auto simp: updateProvider_def changes_only_def provider_ok_def)
  then show ?thesis using assms(2) by (rule changes_only_inv)
next
  case (RegCapacity s p gb)
  then have "changes_only p r r'" using assms(1) by (auto simp: updateCapacity_def changes_only_def provider_ok_def)
  then show ?thesis using assms(2) by (rule changes_only_inv)
next
  case (RegIncrease s p n)
  then show ?thesis using assms increase_changes changes_only_inv by fastforce
next
  case (RegDecrease s t p n)
  then show ?thesis using assms decrease_changes changes_only_inv by fastforce
next
  case (RegCompleted s p)
  then have "changes_only p (set_provider p (\<lambda>x. x\<lparr>totalDealsCompleted := totalDealsCompleted x + 1\<rparr>) r) r'"
    using assms(1) increase_changes by (auto simp: recordDealCompleted_def)
  then have "changes_only p r r'" by (rule changes_after_set) (auto simp: provider_ok_def)
  then show ?thesis using assms(2) by (rule changes_only_inv)
next
  case (RegFailed s t p)
  then have "changes_only p (set_provider p (\<lambda>x. x\<lparr>totalDealsFailed := totalDealsFailed x + 1\<rparr>) r) r'"
    using assms(1) decrease_changes by (auto simp: recordDealFailed_def)
  then have "changes_only p r r'" by (rule changes_after_set) (auto simp: provider_ok_def)
  then show ?thesis using assms(2) by (rule changes_only_inv)
next
  case (RegSlashed s t p)
  then show ?thesis using assms slashing_changes changes_only_inv by fastforce
next
  case (RegReactivate s t)
  then have "changes_only s r r'" using assms(1) by (auto simp: reactivateProvider_def changes_only_def provider_ok_def)
  then show ?thesis using assms(2) by (rule changes_only_inv)
qed

lemma registry_run_inv: "registry_inv r \<Longrightarrow> registry_inv (registry_run cs r)"
  unfolding registry_run_def
  by (induction cs arbitrary: r) (auto simp: transact_def registry_exec_inv split: sum.split)

text \<open>
  C19. The registry of providers stays sound under any sequence of calls by anybody: reputations stay between 0 and 100, an active
  provider is registered, has at least 20 points and fewer than five slashing events, every provider is
  listed once, and who is offered for new shards is active, registered, and asks no more than the price.
\<close>

theorem registry_sound:
  assumes "r = registry_run calls (new_registry deployer)"
  shows "reputationScore (reg_providers r p) \<le> 100 \<and>
    (isProviderActive p r \<longrightarrow> 20 \<le> reputationScore (reg_providers r p) \<and> totalSlashingEvents (reg_providers r p) < 5) \<and>
    distinct (getEligibleProviders price rep r) \<and>
    set (getEligibleProviders price rep r) = {q. isProviderActive q r \<and> rep \<le> reputationScore (reg_providers r q) \<and> minPriceUSD (reg_providers r q) \<le> price}"
proof -
  have "registry_inv (new_registry deployer)"
    by (simp add: registry_inv_def new_registry_def provider_ok_def no_provider_def)
  then have "registry_inv r" unfolding assms by (rule registry_run_inv)
  then show ?thesis
    unfolding registry_inv_def provider_ok_def isProviderActive_def getEligibleProviders_def by auto
qed

theorem registry_sound_witness:
  "reputationScore (reg_providers (registry_run [RegRegister 7 0 ''p'' [] [] 1, RegSlashed 1 5 7] (new_registry 1)) 7) \<le> 100"
  using registry_sound[OF refl, of "[RegRegister 7 0 ''p'' [] [] 1, RegSlashed 1 5 7]" 1 7] by blast

end
