(* ===== verification/Sol_Token.thy ===== *)
theory Sol_Token
  imports Sol_Registry
begin

text \<open>
  The token of the network (\<^verbatim>\<open>smart-contracts/contracts/core/StorageToken.sol\<close>). It extends the ERC-20 of a library that is not part of
  the repository: the ledger of balances, supply and allowances is a parameter \<^verbatim>\<open>'k\<close> with the operations of that library, and
  \<^verbatim>\<open>oz_ok\<close> states what the library documents of them.
\<close>

section \<open>The library's ledger\<close>

record 'k openzeppelin =
  oz_balanceOf :: "'k \<Rightarrow> addr \<Rightarrow> nat"
  oz_totalSupply :: "'k \<Rightarrow> nat"
  oz_transfer :: "addr \<Rightarrow> addr \<Rightarrow> nat \<Rightarrow> 'k \<Rightarrow> 'k option"
  oz_transferFrom :: "addr \<Rightarrow> addr \<Rightarrow> addr \<Rightarrow> nat \<Rightarrow> 'k \<Rightarrow> 'k option"
  oz_approve :: "addr \<Rightarrow> addr \<Rightarrow> nat \<Rightarrow> 'k \<Rightarrow> 'k option"
  oz_mint :: "addr \<Rightarrow> nat \<Rightarrow> 'k \<Rightarrow> 'k option"
  oz_burn :: "addr \<Rightarrow> nat \<Rightarrow> 'k \<Rightarrow> 'k option"

text \<open>A successful transfer moves the amount and nothing else, and the sender had it.\<close>

definition moved :: "('k \<Rightarrow> addr \<Rightarrow> nat) \<Rightarrow> addr \<Rightarrow> addr \<Rightarrow> nat \<Rightarrow> 'k \<Rightarrow> 'k \<Rightarrow> bool" where
  "moved bal a b n k k' = (n \<le> bal k a \<and>
     (\<forall>c. bal k' c = (if a = b then bal k c else if c = a then bal k c - n else if c = b then bal k c + n else bal k c)))"

definition oz_ok :: "'k openzeppelin \<Rightarrow> bool" where
  "oz_ok T =
     ((\<forall>a b n k k'. oz_transfer T a b n k = Some k' \<longrightarrow> moved (oz_balanceOf T) a b n k k' \<and> oz_totalSupply T k' = oz_totalSupply T k) \<and>
      (\<forall>s a b n k k'. oz_transferFrom T s a b n k = Some k' \<longrightarrow> moved (oz_balanceOf T) a b n k k' \<and> oz_totalSupply T k' = oz_totalSupply T k) \<and>
      (\<forall>s a n k k'. oz_approve T s a n k = Some k' \<longrightarrow> oz_balanceOf T k' = oz_balanceOf T k \<and> oz_totalSupply T k' = oz_totalSupply T k) \<and>
      (\<forall>a n k k'. oz_mint T a n k = Some k' \<longrightarrow>
         oz_totalSupply T k' = oz_totalSupply T k + n \<and> (\<forall>c. oz_balanceOf T k' c = oz_balanceOf T k c + (if c = a then n else 0))) \<and>
      (\<forall>a n k k'. oz_burn T a n k = Some k' \<longrightarrow> n \<le> oz_balanceOf T k a \<and>
         oz_totalSupply T k = oz_totalSupply T k' + n \<and> (\<forall>c. oz_balanceOf T k' c = oz_balanceOf T k c - (if c = a then n else 0))))"

section \<open>The token\<close>

record 'k token =
  ledger :: 'k
  token_owner :: addr
  annualInflationRate :: nat
  lastInflationTimestamp :: nat
  authorizedMinters :: "addr \<Rightarrow> bool"
  authorizedBurners :: "addr \<Rightarrow> bool"
  sol_totalTokensBurned :: nat

definition on_ledger :: "('k \<Rightarrow> 'k option) \<Rightarrow> 'k token \<Rightarrow> 'k token option" where
  "on_ledger f tok = map_option (\<lambda>k. tok\<lparr>ledger := k\<rparr>) (f (ledger tok))"

definition balanceOf :: "'k openzeppelin \<Rightarrow> 'k token \<Rightarrow> addr \<Rightarrow> nat" where
  "balanceOf T tok a = oz_balanceOf T (ledger tok) a"

definition totalSupply :: "'k openzeppelin \<Rightarrow> 'k token \<Rightarrow> nat" where
  "totalSupply T tok = oz_totalSupply T (ledger tok)"

definition transfer :: "'k openzeppelin \<Rightarrow> addr \<Rightarrow> addr \<Rightarrow> nat \<Rightarrow> 'k token \<Rightarrow> 'k token option" where
  "transfer T sender to_addr n = on_ledger (oz_transfer T sender to_addr n)"

definition transferFrom :: "'k openzeppelin \<Rightarrow> addr \<Rightarrow> addr \<Rightarrow> addr \<Rightarrow> nat \<Rightarrow> 'k token \<Rightarrow> 'k token option" where
  "transferFrom T sender from_addr to_addr n = on_ledger (oz_transferFrom T sender from_addr to_addr n)"

definition approve :: "'k openzeppelin \<Rightarrow> addr \<Rightarrow> addr \<Rightarrow> nat \<Rightarrow> 'k token \<Rightarrow> 'k token option" where
  "approve T sender spender n = on_ledger (oz_approve T sender spender n)"

text \<open>A call of another contract that reverts, or that returns false, makes the caller revert.\<close>

definition transferring :: "'a option \<Rightarrow> string \<Rightarrow> string + 'a" where
  "transferring r msg = (case r of None \<Rightarrow> Inl msg | Some k \<Rightarrow> Inr k)"

definition INITIAL_SUPPLY :: nat where "INITIAL_SUPPLY = 500000000 * 10 ^ 18"

definition MAX_SUPPLY :: nat where "MAX_SUPPLY = 1000000000 * 10 ^ 18"

definition new_token :: "'k openzeppelin \<Rightarrow> addr \<Rightarrow> nat \<Rightarrow> 'k \<Rightarrow> 'k token option" where
  "new_token T deployer timestamp k0 = map_option (\<lambda>k. \<lparr>ledger = k, token_owner = deployer, annualInflationRate = 500,
     lastInflationTimestamp = timestamp, authorizedMinters = (\<lambda>_. False), authorizedBurners = (\<lambda>_. False), sol_totalTokensBurned = 0\<rparr>)
     (oz_mint T deployer INITIAL_SUPPLY k0)"

definition mint :: "'k openzeppelin \<Rightarrow> addr \<Rightarrow> addr \<Rightarrow> nat \<Rightarrow> 'k token \<Rightarrow> string + 'k token" where
  "mint T sender to_addr amount tok =
     req (authorizedMinters tok sender) ''Not authorized to mint'' (
     req (totalSupply T tok + amount \<le> MAX_SUPPLY) ''Exceeds max supply'' (
     transferring (on_ledger (oz_mint T to_addr amount) tok) ''_mint''))"

definition burn :: "'k openzeppelin \<Rightarrow> addr \<Rightarrow> nat \<Rightarrow> 'k token \<Rightarrow> string + 'k token" where
  "burn T sender amount tok =
     and_then (transferring (on_ledger (oz_burn T sender amount) tok) ''_burn'') (\<lambda>tok.
     Inr (tok\<lparr>sol_totalTokensBurned := sol_totalTokensBurned tok + amount\<rparr>))"

definition burnFrom :: "'k openzeppelin \<Rightarrow> addr \<Rightarrow> addr \<Rightarrow> nat \<Rightarrow> 'k token \<Rightarrow> string + 'k token" where
  "burnFrom T sender from_addr amount tok =
     req (authorizedBurners tok sender) ''Not authorized to burn'' (
     and_then (transferring (on_ledger (oz_burn T from_addr amount) tok) ''_burn'') (\<lambda>tok.
     Inr (tok\<lparr>sol_totalTokensBurned := sol_totalTokensBurned tok + amount\<rparr>)))"

definition authorizeBurner :: "addr \<Rightarrow> addr \<Rightarrow> 'k token \<Rightarrow> string + 'k token" where
  "authorizeBurner sender burner tok =
     req (sender = token_owner tok) ''OwnableUnauthorizedAccount'' (Inr (tok\<lparr>authorizedBurners := (authorizedBurners tok)(burner := True)\<rparr>))"

definition revokeBurner :: "addr \<Rightarrow> addr \<Rightarrow> 'k token \<Rightarrow> string + 'k token" where
  "revokeBurner sender burner tok =
     req (sender = token_owner tok) ''OwnableUnauthorizedAccount'' (Inr (tok\<lparr>authorizedBurners := (authorizedBurners tok)(burner := False)\<rparr>))"

definition authorizeMinter :: "addr \<Rightarrow> addr \<Rightarrow> 'k token \<Rightarrow> string + 'k token" where
  "authorizeMinter sender minter tok =
     req (sender = token_owner tok) ''OwnableUnauthorizedAccount'' (Inr (tok\<lparr>authorizedMinters := (authorizedMinters tok)(minter := True)\<rparr>))"

definition revokeMinter :: "addr \<Rightarrow> addr \<Rightarrow> 'k token \<Rightarrow> string + 'k token" where
  "revokeMinter sender minter tok =
     req (sender = token_owner tok) ''OwnableUnauthorizedAccount'' (Inr (tok\<lparr>authorizedMinters := (authorizedMinters tok)(minter := False)\<rparr>))"

definition updateInflationRate :: "addr \<Rightarrow> nat \<Rightarrow> 'k token \<Rightarrow> string + 'k token" where
  "updateInflationRate sender timestamp tok =
     req (sender = token_owner tok) ''OwnableUnauthorizedAccount'' (
     req (lastInflationTimestamp tok + 365 * 86400 \<le> timestamp) ''Too early'' (
     let rate = annualInflationRate tok;
         tok = (if rate > 0 then tok\<lparr>annualInflationRate := (if rate > 50 then rate - 50 else 0)\<rparr> else tok)
     in Inr (tok\<lparr>lastInflationTimestamp := timestamp\<rparr>)))"

fun transfer_each :: "'k openzeppelin \<Rightarrow> addr \<Rightarrow> (addr \<times> nat) list \<Rightarrow> 'k token \<Rightarrow> string + 'k token" where
  "transfer_each T sender [] tok = Inr tok"
| "transfer_each T sender ((a, n) # xs) tok = and_then (transferring (transfer T sender a n tok) ''transfer'') (transfer_each T sender xs)"

definition batchTransfer :: "'k openzeppelin \<Rightarrow> addr \<Rightarrow> addr list \<Rightarrow> nat list \<Rightarrow> 'k token \<Rightarrow> string + 'k token" where
  "batchTransfer T sender recipients amounts tok =
     req (length recipients = length amounts) ''Arrays length mismatch'' (
     req (length recipients \<le> 100) ''Too many recipients'' (transfer_each T sender (zip recipients amounts) tok))"

datatype token_call =
    TTransfer addr addr nat
  | TTransferFrom addr addr addr nat
  | TApprove addr addr nat
  | TMint addr addr nat
  | TBurn addr nat
  | TBurnFrom addr addr nat
  | TMinter addr addr bool
  | TBurner addr addr bool
  | TInflation addr nat
  | TBatch addr "addr list" "nat list"

fun token_exec :: "'k openzeppelin \<Rightarrow> token_call \<Rightarrow> 'k token \<Rightarrow> string + 'k token" where
  "token_exec T (TTransfer s a n) tok = transferring (transfer T s a n tok) ''transfer''"
| "token_exec T (TTransferFrom s a b n) tok = transferring (transferFrom T s a b n tok) ''transferFrom''"
| "token_exec T (TApprove s a n) tok = transferring (approve T s a n tok) ''approve''"
| "token_exec T (TMint s a n) tok = mint T s a n tok"
| "token_exec T (TBurn s n) tok = burn T s n tok"
| "token_exec T (TBurnFrom s a n) tok = burnFrom T s a n tok"
| "token_exec T (TMinter s a on) tok = (if on then authorizeMinter s a tok else revokeMinter s a tok)"
| "token_exec T (TBurner s a on) tok = (if on then authorizeBurner s a tok else revokeBurner s a tok)"
| "token_exec T (TInflation s t) tok = updateInflationRate s t tok"
| "token_exec T (TBatch s as ns) tok = batchTransfer T s as ns tok"

definition token_run :: "'k openzeppelin \<Rightarrow> token_call list \<Rightarrow> 'k token \<Rightarrow> 'k token" where
  "token_run T cs tok = fold (\<lambda>c. transact (token_exec T c)) cs tok"

section \<open>Laws of the calls\<close>

lemma transferring_Inr [simp]: "transferring r msg = Inr k \<longleftrightarrow> r = Some k"
  by (simp add: transferring_def split: option.splits)

lemma on_ledger_Some [simp]: "on_ledger f tok = Some tok' \<longleftrightarrow> (\<exists>k. f (ledger tok) = Some k \<and> tok' = tok\<lparr>ledger := k\<rparr>)"
  by (auto simp: on_ledger_def)

lemma moved_other: "moved bal a b n k k' \<Longrightarrow> c \<noteq> a \<Longrightarrow> c \<noteq> b \<Longrightarrow> bal k' c = bal k c"
  by (simp add: moved_def)

lemma moved_out: "moved bal a b n k k' \<Longrightarrow> bal k a \<le> bal k' a + n"
  by (auto simp: moved_def)

lemma moved_in: "moved bal a b n k k' \<Longrightarrow> a \<noteq> b \<Longrightarrow> bal k' b = bal k b + n"
  by (simp add: moved_def)

lemma moved_grows: "moved bal a b n k k' \<Longrightarrow> c \<noteq> a \<Longrightarrow> bal k c \<le> bal k' c"
  by (auto simp: moved_def)

lemma token_moved:
  assumes "oz_ok T"
  shows "transfer T a b n k = Some k' \<Longrightarrow> moved (balanceOf T) a b n k k'"
    "transferFrom T s a b n k = Some k' \<Longrightarrow> moved (balanceOf T) a b n k k'"
proof -
  show "transfer T a b n k = Some k' \<Longrightarrow> moved (balanceOf T) a b n k k'"
    using assms unfolding oz_ok_def transfer_def balanceOf_def moved_def by fastforce
  show "transferFrom T s a b n k = Some k' \<Longrightarrow> moved (balanceOf T) a b n k k'"
    using assms unfolding oz_ok_def transferFrom_def balanceOf_def moved_def by fastforce
qed

text \<open>Calls that take nothing from an account: no transfer by it or out of it, no burning.\<close>

fun spares :: "addr \<Rightarrow> token_call \<Rightarrow> bool" where
  "spares self (TTransfer s a n) = (s \<noteq> self)"
| "spares self (TTransferFrom s a b n) = (a \<noteq> self)"
| "spares self (TBurn s n) = (s \<noteq> self)"
| "spares self (TBurnFrom s a n) = (a \<noteq> self)"
| "spares self (TBatch s as ns) = (s \<noteq> self)"
| "spares self c = True"

text \<open>What the token itself keeps: one supply, and the sum of supply and burned tokens never falls below what was minted first.\<close>

definition token_inv :: "'k openzeppelin \<Rightarrow> 'k token \<Rightarrow> bool" where
  "token_inv T tok = (totalSupply T tok \<le> MAX_SUPPLY \<and> INITIAL_SUPPLY \<le> totalSupply T tok + sol_totalTokensBurned tok \<and> annualInflationRate tok \<le> 500)"

lemma ledger_only_inv:
  "totalSupply T tok' = totalSupply T tok \<Longrightarrow> sol_totalTokensBurned tok' = sol_totalTokensBurned tok \<Longrightarrow> annualInflationRate tok' = annualInflationRate tok \<Longrightarrow>
     token_inv T tok \<Longrightarrow> token_inv T tok'"
  by (simp add: token_inv_def)

lemma oz_supply:
  assumes "oz_ok T"
  shows "oz_transfer T a b n k = Some k' \<Longrightarrow> oz_totalSupply T k' = oz_totalSupply T k"
    "oz_transferFrom T s a b n k = Some k' \<Longrightarrow> oz_totalSupply T k' = oz_totalSupply T k"
    "oz_mint T a n k = Some k' \<Longrightarrow> oz_totalSupply T k' = oz_totalSupply T k + n"
    "oz_burn T a n k = Some k' \<Longrightarrow> oz_totalSupply T k = oz_totalSupply T k' + n"
    "oz_approve T s a n k = Some k' \<Longrightarrow> oz_totalSupply T k' = oz_totalSupply T k"
  by (use assms in \<open>unfold oz_ok_def, metis\<close>)+

lemma oz_balance:
  assumes "oz_ok T"
  shows "oz_transfer T a b n k = Some k' \<Longrightarrow> moved (oz_balanceOf T) a b n k k'"
    "oz_transferFrom T s a b n k = Some k' \<Longrightarrow> moved (oz_balanceOf T) a b n k k'"
    "oz_mint T a n k = Some k' \<Longrightarrow> oz_balanceOf T k' c = oz_balanceOf T k c + (if c = a then n else 0)"
    "oz_burn T a n k = Some k' \<Longrightarrow> oz_balanceOf T k' c = oz_balanceOf T k c - (if c = a then n else 0)"
    "oz_burn T a n k = Some k' \<Longrightarrow> n \<le> oz_balanceOf T k a"
    "oz_approve T s a n k = Some k' \<Longrightarrow> oz_balanceOf T k' = oz_balanceOf T k"
  by (use assms in \<open>unfold oz_ok_def, metis\<close>)+

lemma transfer_each_spares:
  "oz_ok T \<Longrightarrow> transfer_each T s xs tok = Inr tok' \<Longrightarrow> s \<noteq> self \<Longrightarrow> balanceOf T tok self \<le> balanceOf T tok' self"
proof (induction xs arbitrary: tok)
  case (Cons x xs)
  obtain a n where x: "x = (a, n)" by force
  obtain tok1 where tok1: "transfer T s a n tok = Some tok1" "transfer_each T s xs tok1 = Inr tok'" using Cons.prems(2) by (auto simp: x)
  have "balanceOf T tok self \<le> balanceOf T tok1 self" using moved_grows[OF token_moved(1)[OF Cons.prems(1) tok1(1)]] Cons.prems(3) by simp
  with Cons.IH[OF Cons.prems(1) tok1(2) Cons.prems(3)] show ?case by simp
qed simp

lemma spares_balance:
  assumes "oz_ok T" and "token_exec T c tok = Inr tok'" and "spares self c"
  shows "balanceOf T tok self \<le> balanceOf T tok' self"
proof (cases c)
  case (TTransfer s a n)
  then show ?thesis using assms moved_grows[OF token_moved(1)[OF assms(1)], of s a n tok tok' self] by simp
next
  case (TTransferFrom s a b n)
  then show ?thesis using assms moved_grows[OF token_moved(2)[OF assms(1)], of s a b n tok tok' self] by simp
next
  case (TBatch s as ns)
  then show ?thesis using assms transfer_each_spares[OF assms(1)] by (auto simp: batchTransfer_def)
qed (use assms oz_balance(3,4,6)[OF assms(1)] in \<open>auto simp: approve_def mint_def burn_def burnFrom_def balanceOf_def authorizeMinter_def revokeMinter_def
  authorizeBurner_def revokeBurner_def updateInflationRate_def Let_def split: if_splits\<close>)

lemma transfer_each_inv: "oz_ok T \<Longrightarrow> transfer_each T s xs tok = Inr tok' \<Longrightarrow> token_inv T tok \<Longrightarrow> token_inv T tok'"
proof (induction xs arbitrary: tok)
  case (Cons x xs)
  obtain a n where x: "x = (a, n)" by force
  obtain tok1 where "transfer T s a n tok = Some tok1" "transfer_each T s xs tok1 = Inr tok'" using Cons.prems(2) by (auto simp: x)
  moreover from this(1) have "token_inv T tok1"
    using oz_supply(1)[OF Cons.prems(1)] Cons.prems(3) by (auto simp: transfer_def token_inv_def totalSupply_def)
  ultimately show ?case using Cons.IH Cons.prems(1) by blast
qed simp

lemma token_exec_inv:
  assumes "oz_ok T" and "token_exec T c tok = Inr tok'" and "token_inv T tok"
  shows "token_inv T tok'"
proof (cases c)
  case (TBatch s as ns)
  then show ?thesis using assms transfer_each_inv[OF assms(1)] by (auto simp: batchTransfer_def)
qed (use assms oz_supply[OF assms(1)] in \<open>auto simp: approve_def transfer_def transferFrom_def mint_def burn_def burnFrom_def token_inv_def totalSupply_def
  authorizeMinter_def revokeMinter_def authorizeBurner_def revokeBurner_def updateInflationRate_def Let_def split: if_splits\<close>)

lemma token_run_inv:
  assumes "oz_ok T" and "token_inv T tok"
  shows "token_inv T (token_run T cs tok)"
  using assms(2) unfolding token_run_def
proof (induction cs arbitrary: tok)
  case (Cons c cs)
  have "token_inv T (transact (token_exec T c) tok)"
    using token_exec_inv[OF assms(1) _ Cons.prems, of c] Cons.prems by (simp add: transact_def split: sum.split)
  then show ?case using Cons.IH by simp
qed simp

text \<open>
  The supply of the token stays within its bounds under any sequence of calls by anybody: never above one billion tokens, never lower than
  the first 500 million less what was burned; and the inflation rate never grows above its first value.
\<close>

theorem supply_bounded:
  assumes "oz_ok T" and "oz_totalSupply T k0 = 0" and "new_token T deployer t0 k0 = Some tok0" and "tok = token_run T calls tok0"
  shows "totalSupply T tok \<le> MAX_SUPPLY \<and> INITIAL_SUPPLY - sol_totalTokensBurned tok \<le> totalSupply T tok \<and> annualInflationRate tok \<le> 500"
proof -
  have "token_inv T tok0"
    using assms(3) oz_supply(3)[OF assms(1)] assms(2)
    by (auto simp: new_token_def token_inv_def totalSupply_def INITIAL_SUPPLY_def MAX_SUPPLY_def)
  then have "token_inv T tok" unfolding assms(4) by (rule token_run_inv[OF assms(1)])
  then show ?thesis by (auto simp: token_inv_def)
qed

section \<open>A ledger with the library's laws\<close>

text \<open>Balances as an association list, so that examples compute; every account has approved every other.\<close>

type_synonym book = "(addr \<times> nat) list"

definition book_at :: "book \<Rightarrow> addr \<Rightarrow> nat" where
  "book_at k a = (case map_of k a of None \<Rightarrow> 0 | Some n \<Rightarrow> n)"

fun book_add :: "addr \<Rightarrow> nat \<Rightarrow> book \<Rightarrow> book" where
  "book_add a n [] = [(a, n)]"
| "book_add a n ((b, m) # k) = (if a = b then (b, m + n) # k else (b, m) # book_add a n k)"

fun book_sub :: "addr \<Rightarrow> nat \<Rightarrow> book \<Rightarrow> book" where
  "book_sub a n [] = []"
| "book_sub a n ((b, m) # k) = (if a = b then (b, m - n) # k else (b, m) # book_sub a n k)"

definition book_move :: "addr \<Rightarrow> addr \<Rightarrow> nat \<Rightarrow> book \<Rightarrow> book option" where
  "book_move a b n k = (if n \<le> book_at k a then Some (if a = b then k else book_add b n (book_sub a n k)) else None)"

definition book_ledger :: "book openzeppelin" where
  "book_ledger = \<lparr>oz_balanceOf = book_at, oz_totalSupply = (\<lambda>k. sum_list (map snd k)), oz_transfer = book_move, oz_transferFrom = (\<lambda>_. book_move),
     oz_approve = (\<lambda>_ _ _. Some),
     oz_mint = (\<lambda>a n k. Some (book_add a n k)),
     oz_burn = (\<lambda>a n k. if n \<le> book_at k a then Some (book_sub a n k) else None)\<rparr>"

lemma book_at_add: "book_at (book_add a n k) c = book_at k c + (if c = a then n else 0)"
  by (induction a n k rule: book_add.induct) (auto simp: book_at_def)

lemma book_at_sub: "book_at (book_sub a n k) c = book_at k c - (if c = a then n else 0)"
  by (induction a n k rule: book_sub.induct) (auto simp: book_at_def)

lemma book_sum_add: "sum_list (map snd (book_add a n k)) = sum_list (map snd k) + n"
  by (induction a n k rule: book_add.induct) auto

lemma book_sum_sub: "n \<le> book_at k a \<Longrightarrow> sum_list (map snd k) = sum_list (map snd (book_sub a n k)) + n"
  by (induction a n k rule: book_sub.induct) (auto simp: book_at_def split: if_splits)

lemma book_move_ok: "book_move a b n k = Some k' \<Longrightarrow> moved book_at a b n k k' \<and> sum_list (map snd k') = sum_list (map snd k)"
  using book_sum_sub[of n k a] by (auto simp: book_move_def moved_def book_at_add book_at_sub book_sum_add split: if_splits)

lemma book_ledger_ok: "oz_ok book_ledger"
  unfolding oz_ok_def book_ledger_def
  by (auto simp: book_move_ok book_at_add book_at_sub book_sum_add book_sum_sub split: if_splits)

definition book_token :: "book \<Rightarrow> book token" where
  "book_token k = \<lparr>ledger = k, token_owner = 1, annualInflationRate = 500, lastInflationTimestamp = 0, authorizedMinters = (\<lambda>_. False),
     authorizedBurners = (\<lambda>_. False), sol_totalTokensBurned = 0\<rparr>"

theorem supply_bounded_witness:
  "\<exists>tok0. new_token book_ledger 1 0 [] = Some tok0 \<and>
     totalSupply book_ledger (token_run book_ledger [TMinter 1 2 True, TMint 2 3 (10 ^ 30), TTransfer 1 5 7] tok0) \<le> MAX_SUPPLY"
proof -
  obtain tok0 where tok0: "new_token book_ledger 1 0 [] = Some tok0" by (simp add: new_token_def book_ledger_def)
  have zero: "oz_totalSupply book_ledger [] = 0" by (simp add: book_ledger_def)
  from supply_bounded[OF book_ledger_ok zero tok0 refl] tok0 show ?thesis by blast
qed

end
