(* ===== verification/Sol_Market.thy ===== *)
theory Sol_Market
  imports Sol_Token
begin

text \<open>
  The marketplace of storage deals (\<^verbatim>\<open>smart-contracts/contracts/core/StorageMarketplace.sol\<close>): deals and their escrow, shards,
  retrievals, fees. Its state holds the registry it calls and the state of the token. Mappings are total functions
  with the default value of the language: a deal that was never created has status \<^verbatim>\<open>Active\<close> and no shards.
\<close>

section \<open>State\<close>

datatype sol_status = SolActive | SolCompleted | SolFailed | SolCancelled | SolInGracePeriod

record allocation =
  al_index :: nat
  al_cid :: string
  al_size :: nat
  al_active :: bool

record sol_deal =
  k_client :: addr
  k_fileCID :: string
  k_fileSizeGB :: nat
  k_duration :: nat
  k_pricePerGBMonth :: nat
  k_totalCost :: nat
  k_startTime :: nat
  k_endTime :: nat
  k_providers :: "addr list"
  k_alloc :: "addr \<Rightarrow> allocation"
  k_activeShards :: nat
  k_status :: sol_status
  k_escrow :: nat
  k_alertDays :: nat

record retrieval =
  rt_deal :: nat
  rt_client :: addr
  rt_provider :: addr
  rt_amount :: nat
  rt_completed :: bool

record deal_params =
  dp_fileCID :: string
  dp_fileSizeGB :: nat
  dp_durationDays :: nat
  dp_pricePerGBMonthUSD :: nat
  dp_selectedProviders :: "addr list"
  dp_shardCIDs :: "string list"
  dp_shardSizes :: "nat list"
  dp_alertDays :: nat

record 'k market =
  mk_self :: addr
  mk_owner :: addr
  mk_treasury :: addr
  mk_feeBasisPoints :: nat
  mk_kynPriceUSD :: nat
  mk_totalFeesCollected :: nat
  mk_paymentDistributor :: addr
  mk_deals :: "nat \<Rightarrow> sol_deal"
  mk_dealCount :: nat
  mk_providerDeals :: "addr \<Rightarrow> nat list"
  mk_retrievals :: "nat \<Rightarrow> retrieval"
  mk_retrievalCount :: nat
  mk_registry :: registry
  mk_token :: "'k token"

definition no_allocation :: allocation where
  "no_allocation = \<lparr>al_index = 0, al_cid = [], al_size = 0, al_active = False\<rparr>"

definition no_deal :: sol_deal where
  "no_deal = \<lparr>k_client = 0, k_fileCID = [], k_fileSizeGB = 0, k_duration = 0, k_pricePerGBMonth = 0, k_totalCost = 0, k_startTime = 0,
     k_endTime = 0, k_providers = [], k_alloc = (\<lambda>_. no_allocation), k_activeShards = 0, k_status = SolActive, k_escrow = 0, k_alertDays = 0\<rparr>"

definition no_retrieval :: retrieval where
  "no_retrieval = \<lparr>rt_deal = 0, rt_client = 0, rt_provider = 0, rt_amount = 0, rt_completed = False\<rparr>"

definition new_market :: "addr \<Rightarrow> addr \<Rightarrow> addr \<Rightarrow> registry \<Rightarrow> 'k token \<Rightarrow> 'k market" where
  "new_market self deployer treasury r k = \<lparr>mk_self = self, mk_owner = deployer, mk_treasury = treasury, mk_feeBasisPoints = 300,
     mk_kynPriceUSD = 100000, mk_totalFeesCollected = 0, mk_paymentDistributor = 0, mk_deals = (\<lambda>_. no_deal), mk_dealCount = 0,
     mk_providerDeals = (\<lambda>_. []), mk_retrievals = (\<lambda>_. no_retrieval), mk_retrievalCount = 0, mk_registry = r, mk_token = k\<rparr>"

definition set_deal :: "nat \<Rightarrow> sol_deal \<Rightarrow> 'k market \<Rightarrow> 'k market" where
  "set_deal i d m = m\<lparr>mk_deals := (mk_deals m)(i := d)\<rparr>"

definition open_deal :: "sol_deal \<Rightarrow> bool" where
  "open_deal d = (k_status d = SolActive \<or> k_status d = SolInGracePeriod)"

section \<open>Creating and renewing\<close>

fun check_providers :: "registry \<Rightarrow> addr list \<Rightarrow> addr list \<Rightarrow> string + unit" where
  "check_providers r seen [] = Inr ()"
| "check_providers r seen (p # ps) =
     req (p \<noteq> 0) ''Invalid provider'' (
     req (isProviderActive p r) ''Provider not active'' (
     req (p \<notin> set seen) ''Duplicate provider'' (check_providers r (seen @ [p]) ps)))"

definition assign_shards :: "deal_params \<Rightarrow> (addr \<Rightarrow> allocation) \<Rightarrow> addr \<Rightarrow> allocation" where
  "assign_shards q = fold (\<lambda>i al. al(dp_selectedProviders q ! i :=
     \<lparr>al_index = i, al_cid = dp_shardCIDs q ! i, al_size = dp_shardSizes q ! i, al_active = True\<rparr>)) [0..<15]"

definition sol_createDeal :: "'k openzeppelin \<Rightarrow> addr \<Rightarrow> nat \<Rightarrow> deal_params \<Rightarrow> 'k market \<Rightarrow> string + 'k market" where
  "sol_createDeal T sender timestamp q m =
     req (length (dp_selectedProviders q) = 15) ''Must have 15 providers'' (
     req (length (dp_shardCIDs q) = 15) ''Must have 15 shard CIDs'' (
     req (length (dp_shardSizes q) = 15) ''Must have 15 shard sizes'' (
     req (5000 \<le> dp_pricePerGBMonthUSD q) ''Price too low'' (
     let pricePerGBMonth = dp_pricePerGBMonthUSD q * 10 ^ 18 div mk_kynPriceUSD m in
     and_then (check_providers (mk_registry m) [] (dp_selectedProviders q)) (\<lambda>_.
     let totalMonths = (dp_durationDays q + 29) div 30;
         providerPayment = dp_fileSizeGB q * pricePerGBMonth * totalMonths;
         protocolFee = providerPayment * mk_feeBasisPoints m div 10000;
         totalCost = providerPayment + protocolFee
     in and_then (transferring (transferFrom T (mk_self m) sender (mk_self m) totalCost (mk_token m)) ''Payment failed'') (\<lambda>k.
        let dealId = mk_dealCount m; d = mk_deals m dealId in
        Inr ((set_deal dealId \<lparr>k_client = sender, k_fileCID = dp_fileCID q, k_fileSizeGB = dp_fileSizeGB q, k_duration = dp_durationDays q,
                k_pricePerGBMonth = pricePerGBMonth, k_totalCost = totalCost, k_startTime = timestamp,
                k_endTime = timestamp + dp_durationDays q * 86400, k_providers = k_providers d @ dp_selectedProviders q, k_alloc = assign_shards q (k_alloc d),
                k_activeShards = 15, k_status = SolActive, k_escrow = totalCost, k_alertDays = dp_alertDays q\<rparr> m)
             \<lparr>mk_totalFeesCollected := mk_totalFeesCollected m + protocolFee, mk_dealCount := dealId + 1,
              mk_providerDeals := (\<lambda>p. mk_providerDeals m p @ (if p \<in> set (dp_selectedProviders q) then [dealId] else [])),
              mk_token := k\<rparr>)))))))"

definition renewDeal :: "'k openzeppelin \<Rightarrow> addr \<Rightarrow> nat \<Rightarrow> nat \<Rightarrow> 'k market \<Rightarrow> string + 'k market" where
  "renewDeal T sender dealId additionalDays m =
     (let d = mk_deals m dealId in
     req (open_deal d) ''Deal not renewable'' (
     req (k_client d = sender) ''Not your deal'' (
     let totalMonths = (additionalDays + 29) div 30;
         renewalCost = k_fileSizeGB d * k_pricePerGBMonth d * totalMonths;
         protocolFee = renewalCost * mk_feeBasisPoints m div 10000;
         totalCost = renewalCost + protocolFee
     in and_then (transferring (transferFrom T (mk_self m) sender (mk_self m) totalCost (mk_token m)) ''Payment failed'') (\<lambda>k.
        Inr ((set_deal dealId (d\<lparr>k_endTime := k_endTime d + additionalDays * 86400, k_duration := k_duration d + additionalDays,
                k_escrow := k_escrow d + totalCost, k_status := SolActive\<rparr>) m)
             \<lparr>mk_totalFeesCollected := mk_totalFeesCollected m + protocolFee, mk_token := k\<rparr>)))))"

section \<open>Ending a deal\<close>

text \<open>The loops over the providers: a count that is already 0 cannot be decremented.\<close>

fun complete_shards :: "addr \<Rightarrow> addr list \<Rightarrow> registry \<Rightarrow> sol_deal \<Rightarrow> string + (registry \<times> sol_deal)" where
  "complete_shards self [] r d = Inr (r, d)"
| "complete_shards self (p # ps) r d =
     (if al_active (k_alloc d p)
      then and_then (recordDealCompleted self p r) (\<lambda>r.
           req (0 < k_activeShards d) ''Panic'' (
           complete_shards self ps r (d\<lparr>k_alloc := (k_alloc d)(p := (k_alloc d p)\<lparr>al_active := False\<rparr>), k_activeShards := k_activeShards d - 1\<rparr>)))
      else complete_shards self ps r d)"

fun cancel_shards :: "addr list \<Rightarrow> sol_deal \<Rightarrow> string + sol_deal" where
  "cancel_shards [] d = Inr d"
| "cancel_shards (p # ps) d =
     (if al_active (k_alloc d p)
      then req (0 < k_activeShards d) ''Panic'' (
           cancel_shards ps (d\<lparr>k_alloc := (k_alloc d)(p := (k_alloc d p)\<lparr>al_active := False\<rparr>), k_activeShards := k_activeShards d - 1\<rparr>))
      else cancel_shards ps d)"

definition completeDeal :: "'k openzeppelin \<Rightarrow> nat \<Rightarrow> nat \<Rightarrow> 'k market \<Rightarrow> string + 'k market" where
  "completeDeal T timestamp dealId m =
     (let d = mk_deals m dealId in
     req (k_status d = SolActive) ''Deal not active'' (
     req (k_endTime d \<le> timestamp) ''Deal not expired'' (
     req (10 \<le> k_activeShards d) ''Too many shard failures'' (
     and_then (complete_shards (mk_self m) (k_providers d) (mk_registry m) (d\<lparr>k_status := SolCompleted\<rparr>)) (\<lambda>(r, d).
     let protocolFee = k_totalCost d * mk_feeBasisPoints m div 10000 in
     req (protocolFee \<le> k_escrow d) ''Panic'' (
     let providerPayment = k_escrow d - protocolFee;
         m = (set_deal dealId (d\<lparr>k_escrow := 0\<rparr>) m)\<lparr>mk_registry := r\<rparr>
     in if 0 < providerPayment \<and> mk_paymentDistributor m \<noteq> 0
        then and_then (transferring (transfer T (mk_self m) (mk_paymentDistributor m) providerPayment (mk_token m))
                         ''Provider payment transfer failed'') (\<lambda>k. Inr (m\<lparr>mk_token := k\<rparr>))
        else Inr m))))))"

definition sol_cancelDeal :: "'k openzeppelin \<Rightarrow> addr \<Rightarrow> nat \<Rightarrow> nat \<Rightarrow> 'k market \<Rightarrow> string + 'k market" where
  "sol_cancelDeal T sender timestamp dealId m =
     (let d = mk_deals m dealId in
     req (open_deal d) ''Deal not active'' (
     req (k_client d = sender) ''Not your deal'' (
     and_then (cancel_shards (k_providers d) (d\<lparr>k_status := SolCancelled\<rparr>)) (\<lambda>d.
     let elapsed = timestamp - k_startTime d;
         totalDuration = k_endTime d - k_startTime d;
         refundAmount = (if elapsed < totalDuration \<and> 0 < k_escrow d then k_escrow d * (totalDuration - elapsed) div totalDuration else 0)
     in if 0 < refundAmount
        then and_then (transferring (transfer T (mk_self m) (k_client d) refundAmount (mk_token m)) ''Refund failed'') (\<lambda>k.
             Inr ((set_deal dealId (d\<lparr>k_escrow := k_escrow d - refundAmount\<rparr>) m)\<lparr>mk_token := k\<rparr>))
        else Inr (set_deal dealId d m)))))"

section \<open>Shards\<close>

definition reportLostShard :: "'k openzeppelin \<Rightarrow> addr \<Rightarrow> nat \<Rightarrow> nat \<Rightarrow> addr \<Rightarrow> 'k market \<Rightarrow> string + 'k market" where
  "reportLostShard T sender timestamp dealId p m =
     (let d = mk_deals m dealId in
     req (sender = mk_owner m) ''OwnableUnauthorizedAccount'' (
     req (open_deal d) ''Deal not active'' (
     req (al_active (k_alloc d p)) ''Shard already inactive'' (
     req (0 < k_activeShards d) ''Panic'' (
     let d = d\<lparr>k_alloc := (k_alloc d)(p := (k_alloc d p)\<lparr>al_active := False\<rparr>), k_activeShards := k_activeShards d - 1\<rparr> in
     if k_activeShards d < 10
     then and_then (if 0 < k_escrow d then transferring (transfer T (mk_self m) (k_client d) (k_escrow d) (mk_token m)) ''Refund failed''
                    else Inr (mk_token m)) (\<lambda>k.
          and_then (recordDealFailed (mk_self m) timestamp p (mk_registry m)) (\<lambda>r.
          Inr ((set_deal dealId (d\<lparr>k_status := SolFailed, k_escrow := 0\<rparr>) m)\<lparr>mk_token := k, mk_registry := r\<rparr>)))
     else Inr (set_deal dealId d m))))))"

fun replace_first :: "addr \<Rightarrow> addr \<Rightarrow> addr list \<Rightarrow> addr list" where
  "replace_first old new [] = []"
| "replace_first old new (p # ps) = (if p = old then new # ps else p # replace_first old new ps)"

text \<open>\<^verbatim>\<open>removeProviderDeal\<close>: the last entry takes the place of the first match.\<close>

fun swap_remove :: "nat \<Rightarrow> nat list \<Rightarrow> nat list" where
  "swap_remove i [] = []"
| "swap_remove i (x # xs) = (if x = i then (if xs = [] then [] else last xs # butlast xs) else x # swap_remove i xs)"

definition repair_shard_call :: "addr \<Rightarrow> nat \<Rightarrow> addr \<Rightarrow> addr \<Rightarrow> string \<Rightarrow> 'k market \<Rightarrow> string + 'k market" where
  "repair_shard_call sender dealId old new newShardCID m =
     (let d = mk_deals m dealId in
     req (sender = mk_owner m) ''OwnableUnauthorizedAccount'' (
     req (open_deal d) ''Deal not active'' (
     req (\<not> al_active (k_alloc d old)) ''Old shard still active'' (
     req (isProviderActive new (mk_registry m)) ''New provider not active'' (
     let a = k_alloc d old;
         pd = (mk_providerDeals m)(new := mk_providerDeals m new @ [dealId])
     in Inr ((set_deal dealId (d\<lparr>k_alloc := (k_alloc d)(old := no_allocation, new := \<lparr>al_index = al_index a, al_cid = newShardCID, al_size = al_size a, al_active = True\<rparr>),
                k_providers := replace_first old new (k_providers d), k_activeShards := k_activeShards d + 1\<rparr>) m)
             \<lparr>mk_providerDeals := pd(old := swap_remove dealId (pd old))\<rparr>))))))"

section \<open>Retrievals and administration\<close>

definition initiateRetrieval :: "'k openzeppelin \<Rightarrow> addr \<Rightarrow> nat \<Rightarrow> addr \<Rightarrow> nat \<Rightarrow> 'k market \<Rightarrow> string + 'k market" where
  "initiateRetrieval T sender dealId p amount m =
     req (k_status (mk_deals m dealId) = SolActive) ''Deal not active'' (
     req (0 < amount) ''Amount must be > 0'' (
     and_then (transferring (transferFrom T (mk_self m) sender (mk_self m) amount (mk_token m)) ''Payment failed'') (\<lambda>k.
     Inr (m\<lparr>mk_retrievals := (mk_retrievals m)(mk_retrievalCount m :=
              \<lparr>rt_deal = dealId, rt_client = sender, rt_provider = p, rt_amount = amount, rt_completed = False\<rparr>),
            mk_retrievalCount := mk_retrievalCount m + 1, mk_token := k\<rparr>))))"

definition claimRetrievalPayment :: "'k openzeppelin \<Rightarrow> addr \<Rightarrow> nat \<Rightarrow> 'k market \<Rightarrow> string + 'k market" where
  "claimRetrievalPayment T sender i m =
     (let x = mk_retrievals m i in
     req (\<not> rt_completed x) ''Already claimed'' (
     req (sender = rt_provider x) ''Not the provider'' (
     and_then (transferring (transfer T (mk_self m) (rt_provider x) (rt_amount x) (mk_token m)) ''Transfer failed'') (\<lambda>k.
     Inr (m\<lparr>mk_retrievals := (mk_retrievals m)(i := x\<lparr>rt_completed := True\<rparr>), mk_token := k\<rparr>)))))"

definition setProtocolFee :: "addr \<Rightarrow> nat \<Rightarrow> 'k market \<Rightarrow> string + 'k market" where
  "setProtocolFee sender fee m =
     req (sender = mk_owner m) ''OwnableUnauthorizedAccount'' (
     req (fee \<le> 1000) ''Fee too high'' (Inr (m\<lparr>mk_feeBasisPoints := fee\<rparr>)))"

definition setTreasury :: "addr \<Rightarrow> addr \<Rightarrow> 'k market \<Rightarrow> string + 'k market" where
  "setTreasury sender t m =
     req (sender = mk_owner m) ''OwnableUnauthorizedAccount'' (
     req (t \<noteq> 0) ''Invalid address'' (Inr (m\<lparr>mk_treasury := t\<rparr>)))"

definition updateKynPrice :: "addr \<Rightarrow> nat \<Rightarrow> 'k market \<Rightarrow> string + 'k market" where
  "updateKynPrice sender price m =
     req (sender = mk_owner m) ''OwnableUnauthorizedAccount'' (
     req (0 < price) ''Invalid price'' (Inr (m\<lparr>mk_kynPriceUSD := price\<rparr>)))"

definition setPaymentDistributor :: "addr \<Rightarrow> addr \<Rightarrow> 'k market \<Rightarrow> string + 'k market" where
  "setPaymentDistributor sender a m =
     req (sender = mk_owner m) ''OwnableUnauthorizedAccount'' (
     req (mk_paymentDistributor m = 0) ''Already set'' (
     req (a \<noteq> 0) ''Invalid address'' (Inr (m\<lparr>mk_paymentDistributor := a\<rparr>))))"

definition withdrawFees :: "'k openzeppelin \<Rightarrow> addr \<Rightarrow> 'k market \<Rightarrow> string + 'k market" where
  "withdrawFees T sender m =
     req (sender = mk_owner m) ''OwnableUnauthorizedAccount'' (
     req (0 < mk_totalFeesCollected m) ''No fees to withdraw'' (
     and_then (transferring (transfer T (mk_self m) (mk_treasury m) (mk_totalFeesCollected m) (mk_token m)) ''Transfer failed'') (\<lambda>k.
     Inr (m\<lparr>mk_totalFeesCollected := 0, mk_token := k\<rparr>))))"

section \<open>Calls\<close>

datatype market_call =
    MCreate addr nat deal_params
  | MRenew addr nat nat
  | MComplete nat nat
  | MCancel addr nat nat
  | MLost addr nat nat addr
  | MRepair addr nat addr addr string
  | MRetrieve addr nat addr nat
  | MClaim addr nat
  | MFee addr nat
  | MTreasury addr addr
  | MPrice addr nat
  | MDistributor addr addr
  | MWithdraw addr
  | MRegistry registry_call
  | MToken token_call

fun market_exec :: "'k openzeppelin \<Rightarrow> market_call \<Rightarrow> 'k market \<Rightarrow> string + 'k market" where
  "market_exec T (MCreate s t q) m = sol_createDeal T s t q m"
| "market_exec T (MRenew s i n) m = renewDeal T s i n m"
| "market_exec T (MComplete t i) m = completeDeal T t i m"
| "market_exec T (MCancel s t i) m = sol_cancelDeal T s t i m"
| "market_exec T (MLost s t i p) m = reportLostShard T s t i p m"
| "market_exec T (MRepair s i old new c) m = repair_shard_call s i old new c m"
| "market_exec T (MRetrieve s i p n) m = initiateRetrieval T s i p n m"
| "market_exec T (MClaim s i) m = claimRetrievalPayment T s i m"
| "market_exec T (MFee s n) m = setProtocolFee s n m"
| "market_exec T (MTreasury s a) m = setTreasury s a m"
| "market_exec T (MPrice s n) m = updateKynPrice s n m"
| "market_exec T (MDistributor s a) m = setPaymentDistributor s a m"
| "market_exec T (MWithdraw s) m = withdrawFees T s m"
| "market_exec T (MRegistry c) m = and_then (registry_exec c (mk_registry m)) (\<lambda>r. Inr (m\<lparr>mk_registry := r\<rparr>))"
| "market_exec T (MToken c) m = and_then (token_exec T c (mk_token m)) (\<lambda>k. Inr (m\<lparr>mk_token := k\<rparr>))"


section \<open>The count of active shards\<close>

lemma complete_is_cancel: "complete_shards self ps r d = Inr (r', d') \<Longrightarrow> cancel_shards ps d = Inr d'"
  by (induction ps arbitrary: r d) (auto split: if_splits)

lemma cancel_shards_at:
  "cancel_shards ps d = Inr d' \<Longrightarrow>
     d' = d\<lparr>k_alloc := k_alloc d', k_activeShards := k_activeShards d'\<rparr> \<and>
     k_activeShards d' + card {p \<in> set ps. al_active (k_alloc d p)} = k_activeShards d \<and>
     (\<forall>p. al_active (k_alloc d' p) \<longleftrightarrow> al_active (k_alloc d p) \<and> p \<notin> set ps)"
proof (induction ps arbitrary: d)
  case (Cons p ps)
  show ?case
  proof (cases "al_active (k_alloc d p)")
    case True
    define d1 where "d1 = d\<lparr>k_alloc := (k_alloc d)(p := (k_alloc d p)\<lparr>al_active := False\<rparr>), k_activeShards := k_activeShards d - 1\<rparr>"
    have d1: "cancel_shards ps d1 = Inr d'" "0 < k_activeShards d" using Cons.prems True by (simp_all add: d1_def)
    have "{q \<in> set (p # ps). al_active (k_alloc d q)} = insert p {q \<in> set ps. al_active (k_alloc d1 q)}"
      using True by (auto simp: d1_def)
    then have "card {q \<in> set (p # ps). al_active (k_alloc d q)} = Suc (card {q \<in> set ps. al_active (k_alloc d1 q)})"
      by (simp add: d1_def)
    then show ?thesis using Cons.IH[OF d1(1)] d1(2) by (auto simp: d1_def)
  next
    case False
    then have "{q \<in> set (p # ps). al_active (k_alloc d q)} = {q \<in> set ps. al_active (k_alloc d q)}" by auto
    then show ?thesis using Cons.IH[of d] Cons.prems False by auto
  qed
qed simp

definition shards_ok :: "sol_deal \<Rightarrow> bool" where
  "shards_ok d = ((\<forall>p. al_active (k_alloc d p) \<longrightarrow> p \<in> set (k_providers d)) \<and>
     k_activeShards d = card {p \<in> set (k_providers d). al_active (k_alloc d p)} \<and>
     (k_status d \<in> {SolCompleted, SolCancelled} \<longrightarrow> k_activeShards d = 0))"

text \<open>The services repair with a holder of the deal whose shard is lost, and a provider that holds no active one.\<close>

fun repair_careful :: "market_call \<Rightarrow> 'k market \<Rightarrow> bool" where
  "repair_careful (MRepair s i old new c) m = (old \<in> set (k_providers (mk_deals m i)) \<and> \<not> al_active (k_alloc (mk_deals m i) new))"
| "repair_careful c m = True"

lemma ended_shards:
  assumes "cancel_shards (k_providers d) (d\<lparr>k_status := st\<rparr>) = Inr d'" and "shards_ok d"
  shows "k_activeShards d' = 0" "shards_ok (d'\<lparr>k_escrow := n\<rparr>)" "shards_ok d'" "k_escrow d' = k_escrow d" "k_status d' = st"
    "k_totalCost d' = k_totalCost d" "k_client d' = k_client d"
proof -
  note at = cancel_shards_at[OF assms(1)]
  then have frame: "d' = d\<lparr>k_status := st, k_alloc := k_alloc d', k_activeShards := k_activeShards d'\<rparr>" by simp
  have none: "\<not> al_active (k_alloc d' p)" for p using at assms(2) by (auto simp: shards_ok_def)
  show zero: "k_activeShards d' = 0" using at assms(2) by (simp add: shards_ok_def)
  show "k_escrow d' = k_escrow d" "k_status d' = st" "k_totalCost d' = k_totalCost d" "k_client d' = k_client d"
    by (subst frame, simp)+
  show "shards_ok (d'\<lparr>k_escrow := n\<rparr>)" "shards_ok d'" using none zero by (simp_all add: shards_ok_def)
qed

lemma set_replace_first: "old \<in> set ps \<Longrightarrow> insert old (set (replace_first old new ps)) = insert old (insert new (set ps))"
  by (induction ps) auto


lemma new_in_replace_first: "old \<in> set ps \<Longrightarrow> new \<in> set (replace_first old new ps)"
  by (induction ps) auto

lemma check_providers_iff:
  "check_providers r seen ps = Inr u \<longleftrightarrow>
     distinct ps \<and> set ps \<inter> set seen = {} \<and> (\<forall>p \<in> set ps. p \<noteq> 0 \<and> isProviderActive p r)"
  by (induction ps arbitrary: seen) auto

lemma assign_upto:
  "al_active (fold (\<lambda>i al. al(ps ! i := \<lparr>al_index = i, al_cid = cs ! i, al_size = ss ! i, al_active = True\<rparr>)) [0..<n] al0 p) \<longleftrightarrow>
     al_active (al0 p) \<or> p \<in> (!) ps ` {0..<n}"
proof (induction n)
  case (Suc n)
  then show ?case by (auto simp: atLeastLessThanSuc)
qed simp

lemma assign_shards_active:
  assumes "length (dp_selectedProviders q) = 15"
  shows "al_active (assign_shards q al p) \<longleftrightarrow> al_active (al p) \<or> p \<in> set (dp_selectedProviders q)"
proof -
  have "(!) (dp_selectedProviders q) ` {0..<15} = set (dp_selectedProviders q)"
    using assms by (metis atLeast_upt list.set_map map_nth set_upt)
  then show ?thesis unfolding assign_shards_def assign_upto by simp
qed

lemma shards_lost:
  assumes "shards_ok d" and "open_deal d" and "al_active (k_alloc d p)"
    and "d' = d\<lparr>k_alloc := (k_alloc d)(p := (k_alloc d p)\<lparr>al_active := False\<rparr>), k_activeShards := k_activeShards d - 1\<rparr>"
  shows "shards_ok d'" "shards_ok (d'\<lparr>k_status := SolFailed, k_escrow := n\<rparr>)"
proof -
  have p: "p \<in> set (k_providers d)" using assms(1,3) by (simp add: shards_ok_def)
  have "{q \<in> set (k_providers d). al_active (k_alloc d' q)} = {q \<in> set (k_providers d). al_active (k_alloc d q)} - {p}"
    by (auto simp: assms(4))
  then have "card {q \<in> set (k_providers d). al_active (k_alloc d' q)} = k_activeShards d - 1"
    using assms(1,3) p by (simp add: shards_ok_def)
  then have count: "k_activeShards d' = card {q \<in> set (k_providers d'). al_active (k_alloc d' q)}" by (simp add: assms(4))
  have mine: "\<forall>q. al_active (k_alloc d' q) \<longrightarrow> q \<in> set (k_providers d')" using assms(1) by (simp add: shards_ok_def assms(4))
  have st: "k_status d' \<notin> {SolCompleted, SolCancelled}" using assms(2) by (auto simp: assms(4) open_deal_def)
  show "shards_ok d'" using count mine st by (simp add: shards_ok_def)
  show "shards_ok (d'\<lparr>k_status := SolFailed, k_escrow := n\<rparr>)" using count mine by (simp add: shards_ok_def)
qed

lemma shards_repaired:
  assumes "shards_ok d" and "open_deal d" and "\<not> al_active (k_alloc d old)" and "\<not> al_active (k_alloc d new)" and "old \<in> set (k_providers d)"
    and "al_active a"
    and "d' = d\<lparr>k_alloc := (k_alloc d)(old := no_allocation, new := a), k_providers := replace_first old new (k_providers d), k_activeShards := k_activeShards d + 1\<rparr>"
  shows "shards_ok d'"
proof -
  have act: "al_active (k_alloc d' q) \<longleftrightarrow> q = new \<or> al_active (k_alloc d q)" for q
    using assms(3,6) by (auto simp: assms(7) no_allocation_def)
  have provs: "insert old (set (k_providers d')) = insert old (insert new (set (k_providers d)))"
    using set_replace_first[OF assms(5)] by (simp add: assms(7))
  have new: "new \<in> set (k_providers d')"
    using new_in_replace_first[OF assms(5)] by (simp add: assms(7))
  have inset: "q \<in> set (k_providers d') \<longleftrightarrow> q = new \<or> q \<in> set (k_providers d)" if "al_active (k_alloc d' q)" for q
    using provs new that act assms(3) by (metis insert_iff)
  have "{q \<in> set (k_providers d'). al_active (k_alloc d' q)} = insert new {q \<in> set (k_providers d). al_active (k_alloc d q)}"
    using inset act new by blast
  moreover have "new \<notin> {q \<in> set (k_providers d). al_active (k_alloc d q)}" using assms(4) by simp
  ultimately have "card {q \<in> set (k_providers d'). al_active (k_alloc d' q)} = k_activeShards d + 1"
    using assms(1) by (simp add: shards_ok_def)
  moreover have "\<forall>q. al_active (k_alloc d' q) \<longrightarrow> q \<in> set (k_providers d')"
    using inset act assms(1) by (auto simp: shards_ok_def)
  ultimately show ?thesis using assms(2) by (auto simp: shards_ok_def assms(7) open_deal_def)
qed


lemma set_deal_at [simp]:
  "mk_deals (set_deal i d m) = (mk_deals m)(i := d)" "mk_token (set_deal i d m) = mk_token m" "mk_self (set_deal i d m) = mk_self m"
  "mk_dealCount (set_deal i d m) = mk_dealCount m" "mk_retrievals (set_deal i d m) = mk_retrievals m"
  "mk_retrievalCount (set_deal i d m) = mk_retrievalCount m" "mk_paymentDistributor (set_deal i d m) = mk_paymentDistributor m"
  "mk_owner (set_deal i d m) = mk_owner m" "mk_registry (set_deal i d m) = mk_registry m"
  "mk_totalFeesCollected (set_deal i d m) = mk_totalFeesCollected m"
  by (simp_all add: set_deal_def)

text \<open>What a call does to deals, one shape per function: at most the deal it names changes.\<close>

lemma createDeal_effect:
  assumes "sol_createDeal T s t q m = Inr m'" and "mk_deals m (mk_dealCount m) = no_deal"
  obtains cost k d where "mk_deals m' = (mk_deals m)(mk_dealCount m := d)" "mk_dealCount m' = mk_dealCount m + 1" "k_escrow d = cost"
    "transferFrom T (mk_self m) s (mk_self m) cost (mk_token m) = Some k" "mk_token m' = k" "mk_self m' = mk_self m"
    "mk_retrievals m' = mk_retrievals m" "mk_retrievalCount m' = mk_retrievalCount m" "shards_ok d" "k_status d = SolActive"
    "k_totalCost d = cost" "k_client d = s" "k_startTime d = t" "k_endTime d = t + dp_durationDays q * 86400" "k_activeShards d = 15"
proof -
  let ?ps = "dp_selectedProviders q"
  define price where "price = dp_pricePerGBMonthUSD q * 10 ^ 18 div mk_kynPriceUSD m"
  define pay where "pay = dp_fileSizeGB q * price * ((dp_durationDays q + 29) div 30)"
  define cost where "cost = pay + pay * mk_feeBasisPoints m div 10000"
  define d where "d = \<lparr>k_client = s, k_fileCID = dp_fileCID q, k_fileSizeGB = dp_fileSizeGB q, k_duration = dp_durationDays q,
     k_pricePerGBMonth = price, k_totalCost = cost, k_startTime = t, k_endTime = t + dp_durationDays q * 86400, k_providers = ?ps,
     k_alloc = assign_shards q (\<lambda>_. no_allocation), k_activeShards = 15, k_status = SolActive, k_escrow = cost, k_alertDays = dp_alertDays q\<rparr>"
  obtain k where len: "length ?ps = 15" and ok: "check_providers (mk_registry m) [] ?ps = Inr ()"
      and k: "transferFrom T (mk_self m) s (mk_self m) cost (mk_token m) = Some k"
      and m': "mk_deals m' = (mk_deals m)(mk_dealCount m := d)" "mk_dealCount m' = mk_dealCount m + 1" "mk_token m' = k"
        "mk_self m' = mk_self m" "mk_retrievals m' = mk_retrievals m" "mk_retrievalCount m' = mk_retrievalCount m"
    using assms unfolding sol_createDeal_def Let_def price_def[symmetric] pay_def[symmetric] cost_def[symmetric]
    by (auto simp: d_def assms(2) no_deal_def)
  have "distinct ?ps" using ok by (simp add: check_providers_iff)
  then have "card (set ?ps) = 15" using len by (simp add: distinct_card)
  moreover have act: "al_active (assign_shards q (\<lambda>_. no_allocation) p) \<longleftrightarrow> p \<in> set ?ps" for p
    using assign_shards_active[OF len] by (simp add: no_allocation_def)
  ultimately have "shards_ok d" by (simp add: shards_ok_def d_def)
  then show thesis using that[of d cost k] m' k by (simp add: d_def)
qed


section \<open>The invariant\<close>

fun caller :: "market_call \<Rightarrow> addr option" where
  "caller (MCreate s t q) = Some s"
| "caller (MRenew s i n) = Some s"
| "caller (MComplete t i) = None"
| "caller (MCancel s t i) = Some s"
| "caller (MLost s t i p) = Some s"
| "caller (MRepair s i old new c) = Some s"
| "caller (MRetrieve s i p n) = Some s"
| "caller (MClaim s i) = Some s"
| "caller (MFee s n) = Some s"
| "caller (MTreasury s a) = Some s"
| "caller (MPrice s n) = Some s"
| "caller (MDistributor s a) = Some s"
| "caller (MWithdraw s) = Some s"
| "caller (MRegistry c) = None"
| "caller (MToken c) = None"

text \<open>
  A caller is neither the zero address nor the marketplace, which calls none of its own functions. On the token anything may happen
  between the calls, except what takes from the marketplace: it never approves anybody, and nobody slashes it.
\<close>

definition plausible :: "market_call \<Rightarrow> 'k market \<Rightarrow> bool" where
  "plausible c m = ((case caller c of None \<Rightarrow> True | Some s \<Rightarrow> s \<noteq> 0 \<and> s \<noteq> mk_self m) \<and> repair_careful c m \<and>
     (case c of MToken c' \<Rightarrow> spares (mk_self m) c' | _ \<Rightarrow> True))"

definition market_inv :: "'k market \<Rightarrow> bool" where
  "market_inv m = ((\<forall>i. shards_ok (mk_deals m i)) \<and> (\<forall>i \<ge> mk_dealCount m. mk_deals m i = no_deal) \<and>
     (\<forall>j \<ge> mk_retrievalCount m. mk_retrievals m j = no_retrieval))"

lemma shards_ok_no_deal: "shards_ok no_deal"
  by (simp add: shards_ok_def no_deal_def no_allocation_def)

lemma market_inv_new: "market_inv (new_market self deployer treasury r k)"
  by (simp add: market_inv_def new_market_def shards_ok_no_deal)

lemma existing:
  assumes "market_inv m"
    and "k_client (mk_deals m i) \<noteq> 0 \<or> k_activeShards (mk_deals m i) \<noteq> 0 \<or> k_providers (mk_deals m i) \<noteq> [] \<or> al_active (k_alloc (mk_deals m i) p)"
  shows "i < mk_dealCount m"
proof (rule ccontr)
  assume "\<not> i < mk_dealCount m"
  then have "mk_deals m i = no_deal" using assms(1) by (simp add: market_inv_def)
  then show False using assms(2) by (simp add: no_deal_def no_allocation_def)
qed

lemma existing_retrieval: "market_inv m \<Longrightarrow> rt_provider (mk_retrievals m j) \<noteq> 0 \<Longrightarrow> j < mk_retrievalCount m"
  by (rule ccontr) (simp add: market_inv_def no_retrieval_def)

lemma market_inv_shards: "market_inv m \<Longrightarrow> shards_ok (mk_deals m i)"
  by (simp add: market_inv_def)

text \<open>What most calls do: change one existing deal, and nothing of the retrievals.\<close>

definition deal_update :: "nat \<Rightarrow> sol_deal \<Rightarrow> 'k market \<Rightarrow> 'k market \<Rightarrow> bool" where
  "deal_update i d m m' = (i < mk_dealCount m \<and> mk_deals m' = (mk_deals m)(i := d) \<and> mk_dealCount m' = mk_dealCount m \<and>
     mk_retrievals m' = mk_retrievals m \<and> mk_retrievalCount m' = mk_retrievalCount m \<and> mk_self m' = mk_self m)"

lemma deal_update_inv: "deal_update i d m m' \<Longrightarrow> shards_ok d \<Longrightarrow> market_inv m \<Longrightarrow> market_inv m'"
  by (auto simp: deal_update_def market_inv_def)

lemma renew_effect:
  assumes "renewDeal T s i n m = Inr m'" and "s \<noteq> 0" and "market_inv m"
  obtains cost d k where "deal_update i d m m'" "shards_ok d" "k_escrow d = k_escrow (mk_deals m i) + cost"
    "transferFrom T (mk_self m) s (mk_self m) cost (mk_token m) = Some k" "mk_token m' = k"
proof -
  let ?d = "mk_deals m i"
  have "k_client ?d = s" using assms(1) by (auto simp: renewDeal_def Let_def)
  then have i: "i < mk_dealCount m" using existing[OF assms(3), of i] assms(2) by simp
  have "shards_ok ?d" "open_deal ?d" using assms(1) market_inv_shards[OF assms(3)] by (auto simp: renewDeal_def Let_def)
  then have ok: "shards_ok (?d\<lparr>k_endTime := x, k_duration := y, k_escrow := z, k_status := SolActive\<rparr>)" for x y z
    by (simp add: shards_ok_def)
  show thesis using assms(1) i ok
    by (auto simp: renewDeal_def Let_def deal_update_def intro!: that)
qed

lemma complete_effect:
  assumes "completeDeal T t i m = Inr m'" and "market_inv m"
  obtains pay d where "deal_update i d m m'" "shards_ok d" "k_escrow d = 0" "pay \<le> k_escrow (mk_deals m i)" "k_status d = SolCompleted"
    "k_activeShards d = 0"
    "mk_token m' = mk_token m \<or> transfer T (mk_self m) (mk_paymentDistributor m) pay (mk_token m) = Some (mk_token m')"
proof -
  let ?d = "mk_deals m i"
  have "10 \<le> k_activeShards ?d" using assms(1) by (auto simp: completeDeal_def Let_def)
  then have i: "i < mk_dealCount m" using existing[OF assms(2), of i] by simp
  obtain r d1 where d1: "complete_shards (mk_self m) (k_providers ?d) (mk_registry m) (?d\<lparr>k_status := SolCompleted\<rparr>) = Inr (r, d1)"
    using assms(1) by (auto simp: completeDeal_def Let_def)
  note ended = ended_shards[OF complete_is_cancel[OF d1] market_inv_shards[OF assms(2)]]
  let ?pay = "k_escrow d1 - k_totalCost d1 * mk_feeBasisPoints m div 10000"
  have "deal_update i (d1\<lparr>k_escrow := 0\<rparr>) m m'" and
    "mk_token m' = mk_token m \<or> transfer T (mk_self m) (mk_paymentDistributor m) ?pay (mk_token m) = Some (mk_token m')"
    using assms(1) i d1 by (auto simp: completeDeal_def Let_def deal_update_def split: if_splits)
  then show thesis using that[of "d1\<lparr>k_escrow := 0\<rparr>" ?pay] ended by simp
qed


lemma cancel_effect:
  assumes "sol_cancelDeal T s t i m = Inr m'" and "s \<noteq> 0" and "market_inv m"
  obtains refund d where "deal_update i d m m'" "shards_ok d" "k_escrow d + refund = k_escrow (mk_deals m i)" "k_status d = SolCancelled"
    "(refund = 0 \<and> mk_token m' = mk_token m) \<or> transfer T (mk_self m) s refund (mk_token m) = Some (mk_token m')"
proof -
  let ?d = "mk_deals m i"
  have c: "k_client ?d = s" using assms(1) by (auto simp: sol_cancelDeal_def Let_def)
  then have i: "i < mk_dealCount m" using existing[OF assms(3), of i] assms(2) by simp
  obtain d1 where d1: "cancel_shards (k_providers ?d) (?d\<lparr>k_status := SolCancelled\<rparr>) = Inr d1"
    using assms(1) by (auto simp: sol_cancelDeal_def Let_def)
  note ended = ended_shards[OF d1 market_inv_shards[OF assms(3)]]
  define dur where "dur = k_endTime d1 - k_startTime d1"
  define rest where "rest = dur - (t - k_startTime d1)"
  define refund where "refund = (if t - k_startTime d1 < dur \<and> 0 < k_escrow d1 then k_escrow d1 * rest div dur else 0)"
  have "k_escrow d1 * rest \<le> k_escrow d1 * dur" by (simp add: rest_def)
  then have "k_escrow d1 * rest div dur \<le> k_escrow d1 * dur div dur" by (rule div_le_mono)
  also have "\<dots> \<le> k_escrow d1" by (cases "dur = 0") simp_all
  finally have le: "refund \<le> k_escrow d1" by (simp add: refund_def)
  have run: "(if 0 < refund then and_then (transferring (transfer T (mk_self m) (k_client d1) refund (mk_token m)) ''Refund failed'') (\<lambda>k.
             Inr ((set_deal i (d1\<lparr>k_escrow := k_escrow d1 - refund\<rparr>) m)\<lparr>mk_token := k\<rparr>)) else Inr (set_deal i d1 m)) = Inr m'"
    using assms(1) d1 unfolding sol_cancelDeal_def Let_def refund_def rest_def dur_def by (simp only: req_Inr and_then_simps)
  show thesis
  proof (cases "0 < refund")
    case True
    then show thesis using run ended i c le by (intro that[of "d1\<lparr>k_escrow := k_escrow d1 - refund\<rparr>" refund]) (auto simp: deal_update_def)
  next
    case False
    then show thesis using run ended i by (intro that[of d1 0]) (auto simp: deal_update_def)
  qed
qed

lemma lost_effect:
  assumes "reportLostShard T s t i p m = Inr m'" and "market_inv m"
  obtains refund d where "deal_update i d m m'" "shards_ok d" "k_escrow d + refund = k_escrow (mk_deals m i)"
    "(refund = 0 \<and> mk_token m' = mk_token m) \<or> transfer T (mk_self m) (k_client (mk_deals m i)) refund (mk_token m) = Some (mk_token m')"
proof -
  let ?d = "mk_deals m i"
  define d1 where "d1 = ?d\<lparr>k_alloc := (k_alloc ?d)(p := (k_alloc ?d p)\<lparr>al_active := False\<rparr>), k_activeShards := k_activeShards ?d - 1\<rparr>"
  have guards: "open_deal ?d" "al_active (k_alloc ?d p)" using assms(1) by (auto simp: reportLostShard_def Let_def)
  have i: "i < mk_dealCount m" using existing[OF assms(2), of i p] guards(2) by simp
  note ok = shards_lost[OF market_inv_shards[OF assms(2)] guards d1_def]
  have run: "(if k_activeShards d1 < 10
     then and_then (if 0 < k_escrow d1 then transferring (transfer T (mk_self m) (k_client d1) (k_escrow d1) (mk_token m)) ''Refund failed''
                    else Inr (mk_token m)) (\<lambda>k.
          and_then (recordDealFailed (mk_self m) t p (mk_registry m)) (\<lambda>r.
          Inr ((set_deal i (d1\<lparr>k_status := SolFailed, k_escrow := 0\<rparr>) m)\<lparr>mk_token := k, mk_registry := r\<rparr>)))
     else Inr (set_deal i d1 m)) = Inr m'"
    using assms(1) unfolding reportLostShard_def Let_def d1_def by (simp add: req_def split: if_splits)
  have same: "k_escrow d1 = k_escrow ?d" "k_client d1 = k_client ?d" by (simp_all add: d1_def)
  show thesis
  proof (cases "k_activeShards d1 < 10")
    case True
    show thesis
      by (rule that[of "d1\<lparr>k_status := SolFailed, k_escrow := 0\<rparr>" "k_escrow ?d"])
         (use run True ok(2)[of 0] i same in \<open>auto simp: deal_update_def split: if_splits\<close>)
  next
    case False
    show thesis
      by (rule that[of d1 0]) (use run False ok(1) i same in \<open>auto simp: deal_update_def\<close>)
  qed
qed

lemma repair_effect:
  assumes "repair_shard_call s i old new c m = Inr m'" and "market_inv m" and "repair_careful (MRepair s i old new c) m"
  obtains d where "deal_update i d m m'" "shards_ok d" "k_escrow d = k_escrow (mk_deals m i)" "mk_token m' = mk_token m"
proof -
  let ?d = "mk_deals m i"
  let ?a = "\<lparr>al_index = al_index (k_alloc ?d old), al_cid = c, al_size = al_size (k_alloc ?d old), al_active = True\<rparr>"
  define d1 where "d1 = ?d\<lparr>k_alloc := (k_alloc ?d)(old := no_allocation, new := ?a),
     k_providers := replace_first old new (k_providers ?d), k_activeShards := k_activeShards ?d + 1\<rparr>"
  have guards: "open_deal ?d" "\<not> al_active (k_alloc ?d old)" using assms(1) by (auto simp: repair_shard_call_def Let_def)
  have careful: "old \<in> set (k_providers ?d)" "\<not> al_active (k_alloc ?d new)" using assms(3) by simp_all
  then have "k_providers ?d \<noteq> []" by (metis empty_iff empty_set)
  then have i: "i < mk_dealCount m" using existing[OF assms(2), of i] by simp
  have "shards_ok d1" by (rule shards_repaired[OF market_inv_shards[OF assms(2)] guards careful(2,1) _ d1_def]) simp
  moreover have "deal_update i d1 m m'" "mk_token m' = mk_token m" "k_escrow d1 = k_escrow ?d"
    using assms(1) i by (auto simp: repair_shard_call_def Let_def deal_update_def d1_def)
  ultimately show thesis using that by blast
qed


section \<open>Runs and the money owed\<close>

definition market_run :: "'k openzeppelin \<Rightarrow> market_call list \<Rightarrow> 'k market \<Rightarrow> 'k market" where
  "market_run T cs m = fold (\<lambda>c. transact (market_exec T c)) cs m"

fun plausible_run :: "'k openzeppelin \<Rightarrow> market_call list \<Rightarrow> 'k market \<Rightarrow> bool" where
  "plausible_run T [] m = True"
| "plausible_run T (c # cs) m = (plausible c m \<and> plausible_run T cs (transact (market_exec T c) m))"

definition unclaimed :: "retrieval \<Rightarrow> nat" where
  "unclaimed x = (if rt_completed x then 0 else rt_amount x)"

definition owed :: "'k market \<Rightarrow> nat" where
  "owed m = (\<Sum>i<mk_dealCount m. k_escrow (mk_deals m i)) + (\<Sum>j<mk_retrievalCount m. unclaimed (mk_retrievals m j))"

lemma sum_upd: "i < (n :: nat) \<Longrightarrow> (\<Sum>j<n. g ((f(i := x)) j)) + g (f i) = (\<Sum>j<n. g (f j)) + (g x :: nat)"
  by (simp add: sum.remove[of "{..<n}" i])

lemma owed_update: "deal_update i d m m' \<Longrightarrow> owed m' + k_escrow (mk_deals m i) = owed m + k_escrow d"
  using sum_upd[of i "mk_dealCount m" k_escrow "mk_deals m" d] by (simp add: owed_def deal_update_def del: fun_upd_apply)

definition solvent :: "'k openzeppelin \<Rightarrow> 'k market \<Rightarrow> bool" where
  "solvent T m = (owed m \<le> balanceOf T (mk_token m) (mk_self m))"

lemma paid_out: "oz_ok T \<Longrightarrow> transfer T self b n k = Some k' \<Longrightarrow> balanceOf T k self \<le> balanceOf T k' self + n"
  using moved_out[OF token_moved(1)] .

lemma paid_in: "oz_ok T \<Longrightarrow> transferFrom T self s self n k = Some k' \<Longrightarrow> s \<noteq> self \<Longrightarrow> balanceOf T k' self = balanceOf T k self + n"
  using moved_in[OF token_moved(2)] .

lemma solvent_update:
  assumes "deal_update i d m m'" and "solvent T m"
    and "balanceOf T (mk_token m) (mk_self m) + k_escrow d \<le> balanceOf T (mk_token m') (mk_self m) + k_escrow (mk_deals m i)"
  shows "solvent T m'"
  using owed_update[OF assms(1)] assms by (auto simp: solvent_def deal_update_def)

text \<open>Every call but the withdrawal of fees keeps the market sound and solvent.\<close>

lemma market_exec_inv:
  assumes "market_exec T c m = Inr m'" and "plausible c m" and "market_inv m"
  shows "market_inv m'"
proof (cases c)
  case (MCreate s t q)
  have fresh: "mk_deals m (mk_dealCount m) = no_deal" using assms(3) by (simp add: market_inv_def)
  from MCreate assms(1) have "sol_createDeal T s t q m = Inr m'" by simp
  from createDeal_effect[OF this fresh] obtain d where "mk_deals m' = (mk_deals m)(mk_dealCount m := d)" "shards_ok d"
      "mk_dealCount m' = mk_dealCount m + 1" "mk_retrievals m' = mk_retrievals m" "mk_retrievalCount m' = mk_retrievalCount m"
    by metis
  then show ?thesis using assms(3) by (simp add: market_inv_def)
next
  case (MRenew s i n)
  with assms(1,2) have "renewDeal T s i n m = Inr m'" "s \<noteq> 0" by (simp_all add: plausible_def)
  from renew_effect[OF this assms(3)] show ?thesis using deal_update_inv[OF _ _ assms(3)] by metis
next
  case (MComplete t i)
  with assms(1) have "completeDeal T t i m = Inr m'" by simp
  from complete_effect[OF this assms(3)] show ?thesis using deal_update_inv[OF _ _ assms(3)] by metis
next
  case (MCancel s t i)
  with assms(1,2) have "sol_cancelDeal T s t i m = Inr m'" "s \<noteq> 0" by (simp_all add: plausible_def)
  from cancel_effect[OF this assms(3)] show ?thesis using deal_update_inv[OF _ _ assms(3)] by metis
next
  case (MLost s t i p)
  with assms(1) have "reportLostShard T s t i p m = Inr m'" by simp
  from lost_effect[OF this assms(3)] show ?thesis using deal_update_inv[OF _ _ assms(3)] by metis
next
  case (MRepair s i old new c)
  with assms(1,2) have "repair_shard_call s i old new c m = Inr m'" "repair_careful (MRepair s i old new c) m"
    by (simp_all add: plausible_def)
  from repair_effect[OF this(1) assms(3) this(2)] show ?thesis using deal_update_inv[OF _ _ assms(3)] by metis
next
  case (MRetrieve s i p n)
  with assms show ?thesis by (auto simp: initiateRetrieval_def market_inv_def)
next
  case (MClaim s i)
  with assms(1,2) have c: "claimRetrievalPayment T s i m = Inr m'" "s \<noteq> 0" by (simp_all add: plausible_def)
  then have "i < mk_retrievalCount m" using existing_retrieval[OF assms(3), of i] by (auto simp: claimRetrievalPayment_def Let_def)
  with c(1) assms(3) show ?thesis by (auto simp: claimRetrievalPayment_def Let_def market_inv_def)
qed (use assms in \<open>auto simp: setProtocolFee_def setTreasury_def updateKynPrice_def setPaymentDistributor_def withdrawFees_def market_inv_def\<close>)


lemma market_exec_solvent:
  assumes "market_exec T c m = Inr m'" and "plausible c m" and "market_inv m" and "oz_ok T" and "\<forall>s. c \<noteq> MWithdraw s" and "solvent T m"
  shows "solvent T m'"
proof (cases c)
  case (MCreate s t q)
  have fresh: "mk_deals m (mk_dealCount m) = no_deal" using assms(3) by (simp add: market_inv_def)
  from MCreate assms(1) have "sol_createDeal T s t q m = Inr m'" by simp
  from createDeal_effect[OF this fresh] obtain d k where d: "mk_deals m' = (mk_deals m)(mk_dealCount m := d)"
      "mk_dealCount m' = mk_dealCount m + 1" "mk_retrievals m' = mk_retrievals m" "mk_retrievalCount m' = mk_retrievalCount m"
      "mk_self m' = mk_self m" "transferFrom T (mk_self m) s (mk_self m) (k_escrow d) (mk_token m) = Some k" "mk_token m' = k"
    by metis
  have "owed m' = owed m + k_escrow d" using d(1-4) by (simp add: owed_def)
  moreover have "s \<noteq> mk_self m" using assms(2) MCreate by (simp add: plausible_def)
  ultimately show ?thesis using paid_in[OF assms(4) d(6)] assms(6) d(5,7) by (simp add: solvent_def)
next
  case (MRenew s i n)
  with assms(1,2) have c: "renewDeal T s i n m = Inr m'" "s \<noteq> 0" "s \<noteq> mk_self m" by (simp_all add: plausible_def)
  from renew_effect[OF c(1,2) assms(3)] obtain cost d where "deal_update i d m m'" "k_escrow d = k_escrow (mk_deals m i) + cost"
      "transferFrom T (mk_self m) s (mk_self m) cost (mk_token m) = Some (mk_token m')" by metis
  then show ?thesis using paid_in[OF assms(4) _ c(3)] solvent_update[OF _ assms(6)] by force
next
  case (MComplete t i)
  with assms(1) have "completeDeal T t i m = Inr m'" by simp
  from complete_effect[OF this assms(3)] obtain pay d where d: "deal_update i d m m'" "k_escrow d = 0" "pay \<le> k_escrow (mk_deals m i)"
      "mk_token m' = mk_token m \<or> transfer T (mk_self m) (mk_paymentDistributor m) pay (mk_token m) = Some (mk_token m')" by metis
  have "balanceOf T (mk_token m) (mk_self m) \<le> balanceOf T (mk_token m') (mk_self m) + pay"
    using d(4) paid_out[OF assms(4)] by auto
  then show ?thesis using d(2,3) by (intro solvent_update[OF d(1) assms(6)]) simp
next
  case (MCancel s t i)
  with assms(1,2) have c: "sol_cancelDeal T s t i m = Inr m'" "s \<noteq> 0" by (simp_all add: plausible_def)
  from cancel_effect[OF c assms(3)] obtain refund d where d: "deal_update i d m m'" "k_escrow d + refund = k_escrow (mk_deals m i)"
      "(refund = 0 \<and> mk_token m' = mk_token m) \<or> transfer T (mk_self m) s refund (mk_token m) = Some (mk_token m')" by metis
  have "balanceOf T (mk_token m) (mk_self m) \<le> balanceOf T (mk_token m') (mk_self m) + refund"
    using d(3) paid_out[OF assms(4)] by auto
  then show ?thesis using d(2) by (intro solvent_update[OF d(1) assms(6)]) simp
next
  case (MLost s t i p)
  with assms(1) have "reportLostShard T s t i p m = Inr m'" by simp
  from lost_effect[OF this assms(3)] obtain refund d where d: "deal_update i d m m'" "k_escrow d + refund = k_escrow (mk_deals m i)"
      "(refund = 0 \<and> mk_token m' = mk_token m) \<or> transfer T (mk_self m) (k_client (mk_deals m i)) refund (mk_token m) = Some (mk_token m')" by metis
  have "balanceOf T (mk_token m) (mk_self m) \<le> balanceOf T (mk_token m') (mk_self m) + refund"
    using d(3) paid_out[OF assms(4)] by auto
  then show ?thesis using d(2) by (intro solvent_update[OF d(1) assms(6)]) simp
next
  case (MRepair s i old new c)
  with assms(1,2) have c: "repair_shard_call s i old new c m = Inr m'" "repair_careful (MRepair s i old new c) m"
    by (simp_all add: plausible_def)
  from repair_effect[OF c(1) assms(3) c(2)] obtain d where "deal_update i d m m'" "k_escrow d = k_escrow (mk_deals m i)" "mk_token m' = mk_token m"
    by metis
  then show ?thesis using solvent_update[OF _ assms(6)] by force
next
  case (MRetrieve s i p n)
  with assms(1,2) have c: "initiateRetrieval T s i p n m = Inr m'" "s \<noteq> mk_self m" by (simp_all add: plausible_def)
  obtain x where x: "mk_retrievals m' = (mk_retrievals m)(mk_retrievalCount m := x)" "unclaimed x = n"
      "mk_retrievalCount m' = mk_retrievalCount m + 1" "mk_deals m' = mk_deals m" "mk_dealCount m' = mk_dealCount m" "mk_self m' = mk_self m"
      "transferFrom T (mk_self m) s (mk_self m) n (mk_token m) = Some (mk_token m')"
    using c(1) by (auto simp: initiateRetrieval_def unclaimed_def)
  then have "owed m' = owed m + n" by (simp add: owed_def)
  then show ?thesis using x(6) paid_in[OF assms(4) x(7) c(2)] assms(6) by (simp add: solvent_def)
next
  case (MClaim s i)
  let ?x = "mk_retrievals m i"
  from MClaim assms(1,2) have c: "claimRetrievalPayment T s i m = Inr m'" "s \<noteq> 0" by (simp_all add: plausible_def)
  then have x: "\<not> rt_completed ?x" "s = rt_provider ?x" "transfer T (mk_self m) s (rt_amount ?x) (mk_token m) = Some (mk_token m')"
      "mk_retrievals m' = (mk_retrievals m)(i := ?x\<lparr>rt_completed := True\<rparr>)" "mk_deals m' = mk_deals m" "mk_dealCount m' = mk_dealCount m"
      "mk_retrievalCount m' = mk_retrievalCount m" "mk_self m' = mk_self m"
    by (auto simp: claimRetrievalPayment_def Let_def)
  then have i: "i < mk_retrievalCount m" using existing_retrieval[OF assms(3), of i] c(2) by simp
  have "owed m' + rt_amount ?x = owed m"
    using sum_upd[OF i, of unclaimed "mk_retrievals m" "?x\<lparr>rt_completed := True\<rparr>"] x(1,4-7)
    by (simp add: owed_def unclaimed_def del: fun_upd_apply)
  then show ?thesis using paid_out[OF assms(4) x(3)] assms(6) x(8) by (simp add: solvent_def)
next
  case (MToken c')
  with assms(1,2) obtain k where k: "token_exec T c' (mk_token m) = Inr k" "spares (mk_self m) c'" "m' = m\<lparr>mk_token := k\<rparr>"
    by (auto simp: plausible_def)
  have "owed m' = owed m" using k(3) by (simp add: owed_def)
  then show ?thesis using spares_balance[OF assms(4) k(1,2)] assms(6) k(3) by (simp add: solvent_def)
next
  case (MWithdraw s)
  with assms(5) show ?thesis by simp
qed (use assms in \<open>auto simp: setProtocolFee_def setTreasury_def updateKynPrice_def setPaymentDistributor_def solvent_def owed_def\<close>)


lemma market_run_inv:
  assumes "plausible_run T cs m" and "market_inv m"
  shows "market_inv (market_run T cs m)"
  using assms unfolding market_run_def
  by (induction cs arbitrary: m) (auto simp: transact_def market_exec_inv split: sum.splits)

lemma market_run_solvent:
  assumes "plausible_run T cs m" and "market_inv m" and "oz_ok T" and "\<forall>s. MWithdraw s \<notin> set cs" and "solvent T m"
  shows "solvent T (market_run T cs m)"
  using assms
proof (induction cs arbitrary: m)
  case (Cons c cs)
  let ?m = "transact (market_exec T c) m"
  have run: "market_run T (c # cs) m = market_run T cs ?m" by (simp add: market_run_def)
  have "market_inv ?m" using Cons.prems(1,2) market_exec_inv[of T c m] by (auto simp: transact_def split: sum.split)
  moreover have "solvent T ?m"
    using Cons.prems market_exec_solvent[of T c m] by (auto simp: transact_def split: sum.split)
  ultimately show ?case unfolding run using Cons.prems by (intro Cons.IH) auto
qed (simp add: market_run_def)

section \<open>A market with fifteen providers\<close>

definition sol_deal0 :: deal_params where
  "sol_deal0 = \<lparr>dp_fileCID = ''Qm'', dp_fileSizeGB = 1, dp_durationDays = 30, dp_pricePerGBMonthUSD = 5000, dp_selectedProviders = [10..<25],
     dp_shardCIDs = replicate 15 ''Qs'', dp_shardSizes = replicate 15 68, dp_alertDays = 7\<rparr>"

definition sol_registry0 :: registry where
  "sol_registry0 = (new_registry 1)\<lparr>reg_providers := (\<lambda>p. if p \<in> {10..<25} then no_provider\<lparr>reg_registered := True, reg_active := True, reputationScore := 50\<rparr> else no_provider),
     providerList := [10..<25]\<rparr>"

definition sol_market0 :: "book market" where
  "sol_market0 = new_market 9 1 1 sol_registry0 (book_token [(2, 10 ^ 20)])"

lemma sol_deal0_runs:
  obtains m1 where "sol_createDeal book_ledger 2 0 sol_deal0 sol_market0 = Inr m1" "mk_totalFeesCollected m1 = 15 * 10 ^ 14" "mk_owner m1 = 1" "mk_treasury m1 = 1" "mk_self m1 = 9"
    "balanceOf book_ledger (mk_token m1) 9 = 515 * 10 ^ 14"
proof -
  have "check_providers sol_registry0 [] [10..<25] = Inr ()"
    by (simp add: check_providers_iff isProviderActive_def sol_registry0_def)
  then show thesis
    by (intro that) (auto simp: sol_createDeal_def sol_deal0_def sol_market0_def new_market_def Let_def transferFrom_def on_ledger_def book_ledger_def
        book_move_def book_at_def book_token_def transferring_def set_deal_def balanceOf_def)
qed

lemma completeDeal_pays:
  assumes "completeDeal T t i m = Inr m'"
  shows "mk_self m' = mk_self m"
    and "mk_token m' = mk_token m \<or> (\<exists>n. transfer T (mk_self m) (mk_paymentDistributor m) n (mk_token m) = Some (mk_token m'))"
proof -
  let ?d = "mk_deals m i"
  obtain r d1 where d1: "complete_shards (mk_self m) (k_providers ?d) (mk_registry m) (?d\<lparr>k_status := SolCompleted\<rparr>) = Inr (r, d1)"
    using assms by (auto simp: completeDeal_def Let_def)
  define pay where "pay = k_escrow d1 - k_totalCost d1 * mk_feeBasisPoints m div 10000"
  define m1 where "m1 = (set_deal i (d1\<lparr>k_escrow := 0\<rparr>) m)\<lparr>mk_registry := r\<rparr>"
  have m1: "mk_self m1 = mk_self m" "mk_token m1 = mk_token m" "mk_paymentDistributor m1 = mk_paymentDistributor m" by (simp_all add: m1_def)
  have "(if 0 < pay \<and> mk_paymentDistributor m1 \<noteq> 0
      then and_then (transferring (transfer T (mk_self m1) (mk_paymentDistributor m1) pay (mk_token m1)) ''Provider payment transfer failed'')
        (\<lambda>k. Inr (m1\<lparr>mk_token := k\<rparr>)) else Inr m1) = Inr m'"
    using assms d1 unfolding completeDeal_def Let_def pay_def m1_def by (simp only: req_Inr and_then_simps prod.case)
  then show "mk_self m' = mk_self m" "mk_token m' = mk_token m \<or> (\<exists>n. transfer T (mk_self m) (mk_paymentDistributor m) n (mk_token m) = Some (mk_token m'))"
    using m1 by (auto split: if_splits)
qed

lemma market_exec_self:
  assumes "market_exec T c m = Inr m'"
  shows "mk_self m' = mk_self m"
proof (cases c)
  case (MCreate s t q)
  then show ?thesis using assms by (auto simp: sol_createDeal_def Let_def)
next
  case (MComplete t i)
  then show ?thesis using assms completeDeal_pays by fastforce
next
  case (MCancel s t i)
  then show ?thesis using assms by (auto simp: sol_cancelDeal_def Let_def split: if_splits)
next
  case (MLost s t i p)
  then show ?thesis using assms by (auto simp: reportLostShard_def Let_def split: if_splits)
qed (use assms in \<open>auto simp: renewDeal_def repair_shard_call_def initiateRetrieval_def claimRetrievalPayment_def setProtocolFee_def
  setTreasury_def updateKynPrice_def setPaymentDistributor_def withdrawFees_def Let_def\<close>)

lemma plausible_callers:
  assumes "\<forall>c \<in> set cs. \<exists>s. caller c = Some s \<and> s \<noteq> 0 \<and> s \<noteq> mk_self m \<and> (\<forall>i p q x. c \<noteq> MRepair s i p q x)"
  shows "plausible_run T cs m"
  using assms
proof (induction cs arbitrary: m)
  case (Cons c cs)
  have "mk_self (transact (market_exec T c) m) = mk_self m"
    using transact_cases[of "market_exec T c" m] market_exec_self[of T c m "transact (market_exec T c) m"] by metis
  moreover have "plausible c m" using Cons.prems by (cases c) (auto simp: plausible_def)
  ultimately show ?case using Cons.prems Cons.IH[of "transact (market_exec T c) m"] by simp
qed simp



section \<open>The fee is owed twice\<close>

lemma cancel_shards_total: "card {p \<in> set ps. al_active (k_alloc d p)} \<le> k_activeShards d \<Longrightarrow> \<exists>d'. cancel_shards ps d = Inr d'"
proof (induction ps arbitrary: d)
  case (Cons p ps)
  show ?case
  proof (cases "al_active (k_alloc d p)")
    case True
    let ?d = "d\<lparr>k_alloc := (k_alloc d)(p := (k_alloc d p)\<lparr>al_active := False\<rparr>), k_activeShards := k_activeShards d - 1\<rparr>"
    have split: "{q \<in> set (p # ps). al_active (k_alloc d q)} = insert p {q \<in> set ps. al_active (k_alloc ?d q)}" using True by auto
    then have c: "card {q \<in> set (p # ps). al_active (k_alloc d q)} = Suc (card {q \<in> set ps. al_active (k_alloc ?d q)})" by simp
    then have "card {q \<in> set ps. al_active (k_alloc ?d q)} \<le> k_activeShards ?d" "0 < k_activeShards d" using Cons.prems by simp_all
    then show ?thesis using Cons.IH[of ?d] True by simp
  next
    case False
    then have "{q \<in> set (p # ps). al_active (k_alloc d q)} = {q \<in> set ps. al_active (k_alloc d q)}" by auto
    then show ?thesis using Cons.IH[of d] Cons.prems False by simp
  qed
qed simp

lemma cancel_shards_frame:
  "cancel_shards ps d = Inr d' \<Longrightarrow> k_escrow d' = k_escrow d \<and> k_startTime d' = k_startTime d \<and> k_endTime d' = k_endTime d \<and> k_client d' = k_client d"
  by (induction ps arbitrary: d) (auto split: if_splits)



end
