(* ===== verification/Sol_Pledge.thy ===== *)
theory Sol_Pledge
  imports Sol_Token
begin

text \<open>
  Capacity pledges and their collateral (\<^verbatim>\<open>smart-contracts/contracts/core/CapacityPledge.sol\<close>). A pledge is found by its provider and
  its number there; the default pledge is inactive.
\<close>

section \<open>State\<close>

record pledge =
  pl_capacityGB :: nat
  pl_collateral :: nat
  pl_startTime :: nat
  pl_duration :: nat
  pl_multiplier :: nat
  pl_utilizationGB :: nat
  pl_active :: bool

definition no_pledge :: pledge where
  "no_pledge = \<lparr>pl_capacityGB = 0, pl_collateral = 0, pl_startTime = 0, pl_duration = 0, pl_multiplier = 0, pl_utilizationGB = 0, pl_active = False\<rparr>"

record 'k pledge_book =
  pb_self :: addr
  pb_owner :: addr
  pb_pledges :: "addr \<times> nat \<Rightarrow> pledge"
  pb_count :: "addr \<Rightarrow> nat"
  sol_totalPledgedCapacityGB :: nat
  totalActiveCollateral :: nat
  pb_token :: "'k token"

definition new_pledge_book :: "addr \<Rightarrow> addr \<Rightarrow> 'k token \<Rightarrow> 'k pledge_book" where
  "new_pledge_book self deployer tok = \<lparr>pb_self = self, pb_owner = deployer, pb_pledges = (\<lambda>_. no_pledge), pb_count = (\<lambda>_. 0),
     sol_totalPledgedCapacityGB = 0, totalActiveCollateral = 0, pb_token = tok\<rparr>"

section \<open>Operations\<close>

definition multiplier_for :: "nat \<Rightarrow> nat option" where
  "multiplier_for duration =
     (if duration = 30 * 86400 then Some 100 else if duration = 90 * 86400 then Some 110 else if duration = 180 * 86400 then Some 120
      else if duration = 365 * 86400 then Some 130 else None)"

definition minimum_collateral :: "nat \<Rightarrow> nat" where
  "minimum_collateral capacityGB = capacityGB * 75 * 10 ^ 16"

definition createPledge :: "'k openzeppelin \<Rightarrow> addr \<Rightarrow> nat \<Rightarrow> nat \<Rightarrow> nat \<Rightarrow> nat \<Rightarrow> 'k pledge_book \<Rightarrow> string + 'k pledge_book" where
  "createPledge T sender timestamp capacityGB duration collateralAmount m =
     req (0 < capacityGB) ''Capacity must be > 0'' (
     and_then (transferring (multiplier_for duration) ''Invalid duration'') (\<lambda>multiplier.
     req (minimum_collateral capacityGB \<le> collateralAmount) ''Insufficient collateral'' (
     and_then (transferring (transferFrom T (pb_self m) sender (pb_self m) collateralAmount (pb_token m)) ''Collateral transfer failed'') (\<lambda>tok.
     Inr (m\<lparr>pb_count := (pb_count m)(sender := pb_count m sender + 1),
            pb_pledges := (pb_pledges m)((sender, pb_count m sender) :=
              \<lparr>pl_capacityGB = capacityGB, pl_collateral = collateralAmount, pl_startTime = timestamp, pl_duration = duration,
               pl_multiplier = multiplier, pl_utilizationGB = 0, pl_active = True\<rparr>),
            sol_totalPledgedCapacityGB := sol_totalPledgedCapacityGB m + capacityGB,
            totalActiveCollateral := totalActiveCollateral m + collateralAmount, pb_token := tok\<rparr>)))))"

text \<open>Both ways to end a pledge take it out of the totals, where a difference below 0 reverts.\<close>

definition close_pledge :: "addr \<times> nat \<Rightarrow> 'k pledge_book \<Rightarrow> string + 'k pledge_book" where
  "close_pledge i m =
     (let pl = pb_pledges m i in
     req (pl_capacityGB pl \<le> sol_totalPledgedCapacityGB m) ''Panic'' (
     req (pl_collateral pl \<le> totalActiveCollateral m) ''Panic'' (
     Inr (m\<lparr>pb_pledges := (pb_pledges m)(i := pl\<lparr>pl_active := False\<rparr>),
            sol_totalPledgedCapacityGB := sol_totalPledgedCapacityGB m - pl_capacityGB pl,
            totalActiveCollateral := totalActiveCollateral m - pl_collateral pl\<rparr>))))"

definition completePledge :: "'k openzeppelin \<Rightarrow> addr \<Rightarrow> nat \<Rightarrow> nat \<Rightarrow> 'k pledge_book \<Rightarrow> string + 'k pledge_book" where
  "completePledge T sender timestamp pledgeId m =
     (let pl = pb_pledges m (sender, pledgeId) in
     req (pl_active pl) ''Pledge not active'' (
     req (pl_startTime pl + pl_duration pl \<le> timestamp) ''Pledge period not complete'' (
     and_then (close_pledge (sender, pledgeId) m) (\<lambda>m.
     and_then (transferring (transfer T (pb_self m) sender (pl_collateral pl) (pb_token m)) ''Collateral return failed'') (\<lambda>tok.
     Inr (m\<lparr>pb_token := tok\<rparr>))))))"

definition exit_penalty :: "nat \<Rightarrow> pledge \<Rightarrow> nat" where
  "exit_penalty elapsed pl =
     (let remaining = (if pl_duration pl > elapsed then pl_duration pl - elapsed else 0);
          penalty = pl_collateral pl * remaining * 20 div (pl_duration pl * 100);
          minPenalty = pl_collateral pl div 100
      in if penalty < minPenalty \<and> remaining > 0 then minPenalty else penalty)"

definition exitPledgeEarly :: "'k openzeppelin \<Rightarrow> addr \<Rightarrow> nat \<Rightarrow> nat \<Rightarrow> 'k pledge_book \<Rightarrow> string + 'k pledge_book" where
  "exitPledgeEarly T sender timestamp pledgeId m =
     (let pl = pb_pledges m (sender, pledgeId) in
     req (pl_active pl) ''Pledge not active'' (
     req (pl_startTime pl \<le> timestamp) ''Panic'' (
     req (0 < pl_duration pl * 100) ''Panic'' (
     let penalty = exit_penalty (timestamp - pl_startTime pl) pl in
     req (penalty \<le> pl_collateral pl) ''Panic'' (
     let returnAmount = pl_collateral pl - penalty in
     and_then (close_pledge (sender, pledgeId) m) (\<lambda>m.
     and_then (if 0 < penalty then burn T (pb_self m) penalty (pb_token m) else Inr (pb_token m)) (\<lambda>tok.
     and_then (if 0 < returnAmount then transferring (transfer T (pb_self m) sender returnAmount tok) ''Return failed'' else Inr tok) (\<lambda>tok.
     Inr (m\<lparr>pb_token := tok\<rparr>)))))))))"

definition updateUtilization :: "addr \<Rightarrow> addr \<Rightarrow> nat \<Rightarrow> nat \<Rightarrow> 'k pledge_book \<Rightarrow> string + 'k pledge_book" where
  "updateUtilization sender p pledgeId gb m =
     (let pl = pb_pledges m (p, pledgeId) in
     req (sender = pb_owner m) ''OwnableUnauthorizedAccount'' (
     req (pl_active pl) ''Pledge not active'' (
     req (gb \<le> pl_capacityGB pl) ''Utilization exceeds capacity'' (
     Inr (m\<lparr>pb_pledges := (pb_pledges m)((p, pledgeId) := pl\<lparr>pl_utilizationGB := gb\<rparr>)\<rparr>)))))"

definition getAvailableCapacity :: "addr \<Rightarrow> nat \<Rightarrow> 'k pledge_book \<Rightarrow> string + nat" where
  "getAvailableCapacity p pledgeId m =
     (let pl = pb_pledges m (p, pledgeId) in
     if \<not> pl_active pl then Inr 0
     else req (pl_utilizationGB pl \<le> pl_capacityGB pl) ''Panic'' (Inr (pl_capacityGB pl - pl_utilizationGB pl)))"

datatype pledge_call =
    PCreate addr nat nat nat nat
  | PComplete addr nat nat
  | PExit addr nat nat
  | PUtilize addr addr nat nat
  | PToken token_call

fun pledge_exec :: "'k openzeppelin \<Rightarrow> pledge_call \<Rightarrow> 'k pledge_book \<Rightarrow> string + 'k pledge_book" where
  "pledge_exec T (PCreate s t gb dur n) m = createPledge T s t gb dur n m"
| "pledge_exec T (PComplete s t i) m = completePledge T s t i m"
| "pledge_exec T (PExit s t i) m = exitPledgeEarly T s t i m"
| "pledge_exec T (PUtilize s p i gb) m = updateUtilization s p i gb m"
| "pledge_exec T (PToken c) m = and_then (token_exec T c (pb_token m)) (\<lambda>k. Inr (m\<lparr>pb_token := k\<rparr>))"

definition pledge_run :: "'k openzeppelin \<Rightarrow> pledge_call list \<Rightarrow> 'k pledge_book \<Rightarrow> 'k pledge_book" where
  "pledge_run T cs m = fold (\<lambda>c. transact (pledge_exec T c)) cs m"

text \<open>The contract calls none of its own functions, and nobody takes its tokens: it approves nobody, and nobody slashes it.\<close>

fun fair :: "addr \<Rightarrow> pledge_call \<Rightarrow> bool" where
  "fair self (PCreate s t gb dur n) = (s \<noteq> self)"
| "fair self (PToken c) = spares self c"
| "fair self c = True"

section \<open>The collateral is there\<close>

definition active_pledges :: "'k pledge_book \<Rightarrow> (addr \<times> nat) set" where
  "active_pledges m = {i. pl_active (pb_pledges m i)}"

definition pledge_ok :: "pledge \<Rightarrow> bool" where
  "pledge_ok pl = (pl_utilizationGB pl \<le> pl_capacityGB pl \<and> (pl_active pl \<longrightarrow> 0 < pl_duration pl))"

definition pledge_inv :: "'k openzeppelin \<Rightarrow> 'k pledge_book \<Rightarrow> bool" where
  "pledge_inv T m = (finite (active_pledges m) \<and> (\<forall>i. pledge_ok (pb_pledges m i)) \<and>
     (\<forall>p i. pb_count m p \<le> i \<longrightarrow> pb_pledges m (p, i) = no_pledge) \<and>
     totalActiveCollateral m = (\<Sum>i \<in> active_pledges m. pl_collateral (pb_pledges m i)) \<and>
     sol_totalPledgedCapacityGB m = (\<Sum>i \<in> active_pledges m. pl_capacityGB (pb_pledges m i)) \<and>
     totalActiveCollateral m \<le> balanceOf T (pb_token m) (pb_self m))"

lemma pledge_inv_new: "pledge_inv T (new_pledge_book self deployer tok)"
  by (simp add: pledge_inv_def new_pledge_book_def active_pledges_def pledge_ok_def no_pledge_def)

lemma pledge_inv_token:
  "pledge_inv T m \<Longrightarrow> balanceOf T (pb_token m) (pb_self m) \<le> balanceOf T tok (pb_self m) \<Longrightarrow> pledge_inv T (m\<lparr>pb_token := tok\<rparr>)"
  by (simp add: pledge_inv_def active_pledges_def)

lemma createPledge_inv:
  assumes "createPledge T s t gb dur n m = Inr m'" and "oz_ok T" and "s \<noteq> pb_self m" and "pledge_inv T m"
  shows "pledge_inv T m'"
proof -
  let ?i = "(s, pb_count m s)"
  obtain mult tok where ok: "multiplier_for dur = Some mult" "transferFrom T (pb_self m) s (pb_self m) n (pb_token m) = Some tok"
      and m': "m' = m\<lparr>pb_count := (pb_count m)(s := pb_count m s + 1), pb_pledges := (pb_pledges m)(?i := \<lparr>pl_capacityGB = gb, pl_collateral = n,
        pl_startTime = t, pl_duration = dur, pl_multiplier = mult, pl_utilizationGB = 0, pl_active = True\<rparr>),
        sol_totalPledgedCapacityGB := sol_totalPledgedCapacityGB m + gb, totalActiveCollateral := totalActiveCollateral m + n, pb_token := tok\<rparr>"
    using assms(1) by (auto simp: createPledge_def)
  have dur: "0 < dur" using ok(1) by (auto simp: multiplier_for_def split: if_splits)
  have fresh: "?i \<notin> active_pledges m" using assms(4) by (simp add: pledge_inv_def active_pledges_def no_pledge_def)
  have act: "active_pledges m' = insert ?i (active_pledges m)" by (auto simp: active_pledges_def m')
  have same: "pb_pledges m' i = pb_pledges m i" if "i \<in> active_pledges m" for i using that fresh by (auto simp: m')
  have "(\<Sum>i \<in> active_pledges m. pl_collateral (pb_pledges m' i)) = (\<Sum>i \<in> active_pledges m. pl_collateral (pb_pledges m i))"
    "(\<Sum>i \<in> active_pledges m. pl_capacityGB (pb_pledges m' i)) = (\<Sum>i \<in> active_pledges m. pl_capacityGB (pb_pledges m i))"
    by (rule sum.cong[OF refl], simp add: same)+
  moreover have "balanceOf T tok (pb_self m) = balanceOf T (pb_token m) (pb_self m) + n"
    using moved_in[OF token_moved(2)[OF assms(2) ok(2)] assms(3)] .
  ultimately show ?thesis
    using assms(4) fresh dur unfolding pledge_inv_def act by (auto simp: m' pledge_ok_def)
qed

lemma close_pledge_inv:
  assumes "close_pledge i m = Inr m'" and "pl_active (pb_pledges m i)" and "pledge_inv T m"
  shows "pledge_inv T m'" "totalActiveCollateral m' + pl_collateral (pb_pledges m i) = totalActiveCollateral m"
    "pb_self m' = pb_self m" "pb_token m' = pb_token m"
proof -
  have m': "m' = m\<lparr>pb_pledges := (pb_pledges m)(i := (pb_pledges m i)\<lparr>pl_active := False\<rparr>),
       sol_totalPledgedCapacityGB := sol_totalPledgedCapacityGB m - pl_capacityGB (pb_pledges m i),
       totalActiveCollateral := totalActiveCollateral m - pl_collateral (pb_pledges m i)\<rparr>"
    and le: "pl_collateral (pb_pledges m i) \<le> totalActiveCollateral m"
    using assms(1) by (auto simp: close_pledge_def Let_def)
  show "totalActiveCollateral m' + pl_collateral (pb_pledges m i) = totalActiveCollateral m" using le by (simp add: m')
  show "pb_self m' = pb_self m" "pb_token m' = pb_token m" by (simp_all add: m')
  have act: "active_pledges m' = active_pledges m - {i}" by (auto simp: active_pledges_def m')
  have same: "pb_pledges m' j = pb_pledges m j" if "j \<in> active_pledges m - {i}" for j using that by (auto simp: m')
  have i: "i \<in> active_pledges m" "finite (active_pledges m)" using assms(2,3) by (auto simp: active_pledges_def pledge_inv_def)
  have sums: "(\<Sum>j \<in> active_pledges m'. pl_collateral (pb_pledges m' j)) = (\<Sum>j \<in> active_pledges m. pl_collateral (pb_pledges m j)) - pl_collateral (pb_pledges m i)"
    "(\<Sum>j \<in> active_pledges m'. pl_capacityGB (pb_pledges m' j)) = (\<Sum>j \<in> active_pledges m. pl_capacityGB (pb_pledges m j)) - pl_capacityGB (pb_pledges m i)"
    unfolding act using i by (simp_all add: same sum_diff1_nat)
  have counts: "pb_pledges m' (p, j) = no_pledge" if "pb_count m' p \<le> j" for p j
    using assms(2,3) that by (auto simp: m' pledge_inv_def no_pledge_def)
  have "pledge_ok (pb_pledges m j)" for j using assms(3) by (metis pledge_inv_def)
  then have ok: "pledge_ok (pb_pledges m' j)" for j by (simp add: m' pledge_ok_def)
  have "totalActiveCollateral m' = (\<Sum>j \<in> active_pledges m'. pl_collateral (pb_pledges m' j))"
    "sol_totalPledgedCapacityGB m' = (\<Sum>j \<in> active_pledges m'. pl_capacityGB (pb_pledges m' j))"
    unfolding sums using assms(3) by (simp_all add: m' pledge_inv_def)
  moreover have "totalActiveCollateral m \<le> balanceOf T (pb_token m) (pb_self m)" using assms(3) by (simp add: pledge_inv_def)
  then have "totalActiveCollateral m' \<le> balanceOf T (pb_token m') (pb_self m')" by (simp add: m')
  moreover have "finite (active_pledges m')" using i by (simp add: act)
  ultimately show "pledge_inv T m'" unfolding pledge_inv_def using ok counts by blast
qed

lemma burn_out: "oz_ok T \<Longrightarrow> burn T a n tok = Inr tok' \<Longrightarrow> balanceOf T tok a = balanceOf T tok' a + n"
  using oz_balance(4,5)[of T a n "ledger tok"] by (auto simp: burn_def balanceOf_def)

lemma transfer_out: "oz_ok T \<Longrightarrow> transfer T a b n tok = Some tok' \<Longrightarrow> balanceOf T tok a \<le> balanceOf T tok' a + n"
  using moved_out[OF token_moved(1)] .

lemma pledge_inv_paid:
  assumes "pledge_inv T m1" and "totalActiveCollateral m1 + c \<le> balanceOf T (pb_token m1) (pb_self m1)"
    and "balanceOf T (pb_token m1) (pb_self m1) \<le> balanceOf T tok (pb_self m1) + c"
  shows "pledge_inv T (m1\<lparr>pb_token := tok\<rparr>)"
  using assms by (simp add: pledge_inv_def active_pledges_def)

lemma complete_inv:
  assumes "completePledge T s t i m = Inr m'" and "oz_ok T" and "pledge_inv T m"
  shows "pledge_inv T m'"
proof -
  let ?pl = "pb_pledges m (s, i)"
  obtain m1 tok where m1: "pl_active ?pl" "close_pledge (s, i) m = Inr m1" "transfer T (pb_self m1) s (pl_collateral ?pl) (pb_token m1) = Some tok"
      "m' = m1\<lparr>pb_token := tok\<rparr>"
    using assms(1) by (auto simp: completePledge_def Let_def)
  note c = close_pledge_inv[OF m1(2,1) assms(3)]
  have "totalActiveCollateral m \<le> balanceOf T (pb_token m) (pb_self m)" using assms(3) by (simp add: pledge_inv_def)
  then show ?thesis
    unfolding m1(4) using c transfer_out[OF assms(2) m1(3)] by (intro pledge_inv_paid[of _ _ "pl_collateral ?pl"]) simp_all
qed

lemma exit_inv:
  assumes "exitPledgeEarly T s t i m = Inr m'" and "oz_ok T" and "pledge_inv T m"
  shows "pledge_inv T m'"
proof -
  let ?pl = "pb_pledges m (s, i)"
  define pen where "pen = exit_penalty (t - pl_startTime ?pl) ?pl"
  obtain m1 tok1 tok where m1: "pl_active ?pl" "pen \<le> pl_collateral ?pl" "close_pledge (s, i) m = Inr m1"
      and burned: "(if 0 < pen then burn T (pb_self m1) pen (pb_token m1) else Inr (pb_token m1)) = Inr tok1"
      and paid: "(if 0 < pl_collateral ?pl - pen then transferring (transfer T (pb_self m1) s (pl_collateral ?pl - pen) tok1) ''Return failed'' else Inr tok1) = Inr tok"
      and m': "m' = m1\<lparr>pb_token := tok\<rparr>"
    using assms(1) unfolding exitPledgeEarly_def Let_def pen_def[symmetric] by (auto simp del: if_split)
  note c = close_pledge_inv[OF m1(3,1) assms(3)]
  have "balanceOf T (pb_token m1) (pb_self m1) = balanceOf T tok1 (pb_self m1) + pen"
    using burned burn_out[OF assms(2)] by (auto split: if_splits)
  moreover have "balanceOf T tok1 (pb_self m1) \<le> balanceOf T tok (pb_self m1) + (pl_collateral ?pl - pen)"
    using paid transfer_out[OF assms(2), of "pb_self m1" s "pl_collateral ?pl - pen" tok1 tok] by (simp split: if_splits)
  moreover have "totalActiveCollateral m \<le> balanceOf T (pb_token m) (pb_self m)" using assms(3) by (simp add: pledge_inv_def)
  ultimately show ?thesis
    unfolding m' using c m1(2) by (intro pledge_inv_paid[of _ _ "pl_collateral ?pl"]) simp_all
qed

lemma utilize_inv:
  assumes "updateUtilization s p i gb m = Inr m'" and "pledge_inv T m"
  shows "pledge_inv T m'"
proof -
  let ?pl = "pb_pledges m (p, i)"
  have u: "pl_active ?pl" "gb \<le> pl_capacityGB ?pl" "m' = m\<lparr>pb_pledges := (pb_pledges m)((p, i) := ?pl\<lparr>pl_utilizationGB := gb\<rparr>)\<rparr>"
    using assms(1) by (auto simp: updateUtilization_def Let_def)
  have at: "pl_active (pb_pledges m' j) = pl_active (pb_pledges m j)" "pl_collateral (pb_pledges m' j) = pl_collateral (pb_pledges m j)"
    "pl_capacityGB (pb_pledges m' j) = pl_capacityGB (pb_pledges m j)" for j by (simp_all add: u(3))
  have act: "active_pledges m' = active_pledges m" by (auto simp: active_pledges_def u(3))
  have "pledge_ok (pb_pledges m j)" for j using assms(2) by (metis pledge_inv_def)
  then have ok: "\<forall>j. pledge_ok (pb_pledges m' j)" using u(2) by (simp add: u(3) pledge_ok_def)
  have cnt: "\<forall>q j. pb_count m' q \<le> j \<longrightarrow> pb_pledges m' (q, j) = no_pledge"
    using assms(2) u(1) by (auto simp: u(3) pledge_inv_def no_pledge_def)
  show ?thesis using assms(2) ok cnt unfolding pledge_inv_def act at(2,3) by (simp add: u(3))
qed

lemma pledge_exec_inv:
  assumes "pledge_exec T c m = Inr m'" and "oz_ok T" and "fair (pb_self m) c" and "pledge_inv T m"
  shows "pledge_inv T m'"
proof (cases c)
  case (PToken c')
  then obtain k where k: "token_exec T c' (pb_token m) = Inr k" "m' = m\<lparr>pb_token := k\<rparr>" using assms(1) by auto
  then show ?thesis using pledge_inv_token[OF assms(4)] spares_balance[OF assms(2) k(1)] assms(3) PToken by simp
qed (use assms createPledge_inv complete_inv exit_inv utilize_inv in fastforce)+

lemma close_pledge_self: "close_pledge i m = Inr m' \<Longrightarrow> pb_self m' = pb_self m"
  by (auto simp: close_pledge_def Let_def)

lemma pledge_exec_self: "pledge_exec T c m = Inr m' \<Longrightarrow> pb_self m' = pb_self m"
  by (cases c) (auto simp: createPledge_def completePledge_def exitPledgeEarly_def updateUtilization_def Let_def dest: close_pledge_self)

lemma pledge_run_inv:
  assumes "oz_ok T" and "pledge_inv T m" and "pb_self m = self" and "\<forall>c \<in> set cs. fair self c"
  shows "pledge_inv T (pledge_run T cs m) \<and> pb_self (pledge_run T cs m) = self"
  using assms(2-4) unfolding pledge_run_def
proof (induction cs arbitrary: m)
  case (Cons c cs)
  let ?m = "transact (pledge_exec T c) m"
  have "pledge_inv T ?m \<and> pb_self ?m = self"
    using Cons.prems pledge_exec_inv[OF _ assms(1)] pledge_exec_self[of T c m] by (auto simp: transact_def split: sum.split)
  then show ?case using Cons.IH[of ?m] Cons.prems(3) by simp
qed simp

section \<open>The penalty\<close>

lemma exit_penalty_bounds:
  assumes "0 < pl_duration pl"
  shows "exit_penalty e pl \<le> pl_collateral pl div 5" and "e < pl_duration pl \<Longrightarrow> pl_collateral pl div 100 \<le> exit_penalty e pl"
    and "pl_duration pl \<le> e \<Longrightarrow> exit_penalty e pl = 0"
proof -
  define rest where "rest = (if pl_duration pl > e then pl_duration pl - e else 0)"
  have "pl_collateral pl * rest * 20 \<le> pl_collateral pl * pl_duration pl * 20" by (simp add: rest_def)
  then have "pl_collateral pl * rest * 20 div (pl_duration pl * 100) \<le> pl_collateral pl * pl_duration pl * 20 div (pl_duration pl * 100)"
    by (rule div_le_mono)
  also have "pl_collateral pl * pl_duration pl * 20 div (pl_duration pl * 100) = pl_collateral pl * 20 div 100"
    using div_mult_mult1[of "pl_duration pl" "pl_collateral pl * 20" 100] assms by (simp add: ac_simps)
  finally have "pl_collateral pl * rest * 20 div (pl_duration pl * 100) \<le> pl_collateral pl div 5" by simp
  moreover have "pl_collateral pl div 100 \<le> pl_collateral pl div 5" by (rule div_le_mono2) simp_all
  ultimately show "exit_penalty e pl \<le> pl_collateral pl div 5" 
    unfolding exit_penalty_def Let_def rest_def[symmetric] by (simp only: split: if_split) simp
  show "e < pl_duration pl \<Longrightarrow> pl_collateral pl div 100 \<le> exit_penalty e pl" by (simp add: exit_penalty_def Let_def)
  show "pl_duration pl \<le> e \<Longrightarrow> exit_penalty e pl = 0" by (simp add: exit_penalty_def Let_def)
qed

section \<open>A provider gets its collateral back\<close>

text \<open>What the library documents of its transfers and burning: they only fail for want of balance or at the zero address.\<close>

definition oz_pays :: "'k openzeppelin \<Rightarrow> bool" where
  "oz_pays T = (\<forall>a n k. a \<noteq> 0 \<and> n \<le> oz_balanceOf T k a \<longrightarrow> (\<forall>b. b \<noteq> 0 \<longrightarrow> oz_transfer T a b n k \<noteq> None) \<and> oz_burn T a n k \<noteq> None)"

lemma transfer_pays:
  assumes "oz_ok T" and "oz_pays T" and "a \<noteq> 0" and "b \<noteq> 0" and "a \<noteq> b" and "n \<le> balanceOf T tok a"
  obtains tok' where "transfer T a b n tok = Some tok'" "balanceOf T tok' b = balanceOf T tok b + n"
proof -
  obtain k where "oz_transfer T a b n (ledger tok) = Some k" using assms(2-4,6) unfolding oz_pays_def balanceOf_def by (metis not_None_eq)
  then have "transfer T a b n tok = Some (tok\<lparr>ledger := k\<rparr>)" by (simp add: transfer_def)
  then show thesis using that moved_in[OF token_moved(1)[OF assms(1)] assms(5)] by blast
qed

lemma burn_pays:
  assumes "oz_ok T" and "oz_pays T" and "a \<noteq> 0" and "n \<le> balanceOf T tok a"
  obtains tok' where "burn T a n tok = Inr tok'" "\<And>b. balanceOf T tok' b = balanceOf T tok b - (if b = a then n else 0)"
proof -
  obtain k where k: "oz_burn T a n (ledger tok) = Some k" using assms(2-4) unfolding oz_pays_def balanceOf_def by (metis not_None_eq)
  show thesis
    by (rule that[of "tok\<lparr>ledger := k, sol_totalTokensBurned := sol_totalTokensBurned tok + n\<rparr>"])
       (simp_all add: burn_def on_ledger_def k transferring_def balanceOf_def oz_balance(4)[OF assms(1) k])
qed

lemma close_pledge_total:
  assumes "pledge_inv T m" and "pl_active (pb_pledges m i)"
  obtains m' where "close_pledge i m = Inr m'"
proof -
  have i: "i \<in> active_pledges m" "finite (active_pledges m)" using assms by (auto simp: active_pledges_def pledge_inv_def)
  have "pl_collateral (pb_pledges m i) \<le> totalActiveCollateral m" "pl_capacityGB (pb_pledges m i) \<le> sol_totalPledgedCapacityGB m"
    using assms(1) member_le_sum[OF i(1) _ i(2), of "\<lambda>i. pl_collateral (pb_pledges m i)"]
      member_le_sum[OF i(1) _ i(2), of "\<lambda>i. pl_capacityGB (pb_pledges m i)"] by (simp_all add: pledge_inv_def)
  then show thesis using that by (simp add: close_pledge_def Let_def)
qed

lemma active_pledge:
  assumes "pledge_inv T m" and "pl = pb_pledges m (p, i)" and "pl_active pl"
  obtains m1 where "close_pledge (p, i) m = Inr m1" "pb_self m1 = pb_self m" "pb_token m1 = pb_token m"
    "pl_collateral pl \<le> balanceOf T (pb_token m) (pb_self m)" "0 < pl_duration pl"
proof -
  have act: "pl_active (pb_pledges m (p, i))" using assms(2,3) by simp
  obtain m1 where m1: "close_pledge (p, i) m = Inr m1" by (rule close_pledge_total[OF assms(1) act])
  note c = close_pledge_inv[OF m1 act assms(1)]
  have "totalActiveCollateral m \<le> balanceOf T (pb_token m) (pb_self m)" "pledge_ok pl" using assms(1,2) by (simp_all add: pledge_inv_def)
  then show thesis using that[of m1] m1 c assms(2,3) by (simp add: pledge_ok_def)
qed

lemma complete_pays:
  assumes "oz_ok T" and "oz_pays T" and "pb_self m \<noteq> 0" and "p \<noteq> 0" and "p \<noteq> pb_self m"
    and "pledge_inv T m" and "pl = pb_pledges m (p, i)" and "pl_active pl" and "pl_startTime pl + pl_duration pl \<le> t"
  shows "\<exists>m'. completePledge T p t i m = Inr m' \<and> balanceOf T (pb_token m') p = balanceOf T (pb_token m) p + pl_collateral pl"
proof -
  obtain m1 where m1: "close_pledge (p, i) m = Inr m1" "pb_self m1 = pb_self m" "pb_token m1 = pb_token m"
    "pl_collateral pl \<le> balanceOf T (pb_token m) (pb_self m)" by (rule active_pledge[OF assms(6-8)])
  obtain tok' where tok': "transfer T (pb_self m) p (pl_collateral pl) (pb_token m) = Some tok'"
      "balanceOf T tok' p = balanceOf T (pb_token m) p + pl_collateral pl"
    using transfer_pays[OF assms(1-4) _ m1(4)] assms(5) by metis
  have "completePledge T p t i m = Inr (m1\<lparr>pb_token := tok'\<rparr>)"
    using assms(8,9) m1 tok'(1) unfolding completePledge_def Let_def assms(7)[symmetric] by (simp add: transferring_def)
  then show ?thesis using tok'(2) by simp
qed

lemma exit_pays:
  assumes "oz_ok T" and "oz_pays T" and "pb_self m \<noteq> 0" and "p \<noteq> 0" and "p \<noteq> pb_self m"
    and "pledge_inv T m" and "pl = pb_pledges m (p, i)" and "pl_active pl" and "pl_startTime pl \<le> t"
  shows "\<exists>m' penalty. exitPledgeEarly T p t i m = Inr m' \<and> balanceOf T (pb_token m') p = balanceOf T (pb_token m) p + (pl_collateral pl - penalty) \<and>
      penalty \<le> pl_collateral pl div 5 \<and> (t < pl_startTime pl + pl_duration pl \<longrightarrow> pl_collateral pl div 100 \<le> penalty)"
proof -
  obtain m1 where m1: "close_pledge (p, i) m = Inr m1" "pb_self m1 = pb_self m" "pb_token m1 = pb_token m"
    "pl_collateral pl \<le> balanceOf T (pb_token m) (pb_self m)" "0 < pl_duration pl" by (rule active_pledge[OF assms(6-8)])
  define pen where "pen = exit_penalty (t - pl_startTime pl) pl"
  have pen: "pen \<le> pl_collateral pl div 5" "t < pl_startTime pl + pl_duration pl \<longrightarrow> pl_collateral pl div 100 \<le> pen"
    using exit_penalty_bounds[OF m1(5), of "t - pl_startTime pl"] assms(9) by (auto simp: pen_def)
  have le: "pen \<le> pl_collateral pl" using pen(1) by linarith
  have "\<exists>tok1. (if 0 < pen then burn T (pb_self m) pen (pb_token m) else Inr (pb_token m)) = Inr tok1 \<and>
      balanceOf T tok1 p = balanceOf T (pb_token m) p \<and> balanceOf T (pb_token m) (pb_self m) \<le> balanceOf T tok1 (pb_self m) + pen"
  proof (cases "0 < pen")
    case True
    have "pen \<le> balanceOf T (pb_token m) (pb_self m)" using le m1(4) by simp
    from burn_pays[OF assms(1-3) this] obtain tok1 where "burn T (pb_self m) pen (pb_token m) = Inr tok1"
        "\<And>b. balanceOf T tok1 b = balanceOf T (pb_token m) b - (if b = pb_self m then pen else 0)" by blast
    then show ?thesis using True assms(5) by (intro exI[of _ tok1]) simp
  qed simp
  then obtain tok1 where tok1: "(if 0 < pen then burn T (pb_self m) pen (pb_token m) else Inr (pb_token m)) = Inr tok1"
      "balanceOf T tok1 p = balanceOf T (pb_token m) p" "balanceOf T (pb_token m) (pb_self m) \<le> balanceOf T tok1 (pb_self m) + pen" by blast
  obtain tok2 where tok2: "transfer T (pb_self m) p (pl_collateral pl - pen) tok1 = Some tok2"
      "balanceOf T tok2 p = balanceOf T tok1 p + (pl_collateral pl - pen)"
    using transfer_pays[OF assms(1-4), of "pl_collateral pl - pen" tok1] m1(4) tok1(3) assms(5) by (metis (no_types, lifting) le_diff_conv le_trans)
  let ?m = "m1\<lparr>pb_token := if 0 < pl_collateral pl - pen then tok2 else tok1\<rparr>"
  have "exitPledgeEarly T p t i m = Inr ?m"
    using assms(8,9) m1 tok1(1) tok2(1) le unfolding exitPledgeEarly_def Let_def assms(7)[symmetric] pen_def[symmetric]
    by (auto simp: transferring_def split: if_splits)
  moreover have "balanceOf T (pb_token ?m) p = balanceOf T (pb_token m) p + (pl_collateral pl - pen)" using tok1(2) tok2(2) by simp
  ultimately show ?thesis using pen by blast
qed

text \<open>
  C12. A provider always gets its collateral back. After any calls to the pledge contract and the token that take nothing from the contract,
  an active pledge can be ended: in full once its period is over, and before that for a
  penalty of at least one and at most twenty per cent.
\<close>

theorem collateral_redeemable:
  assumes "oz_ok T" and "oz_pays T" and "self \<noteq> 0" and "p \<noteq> 0" and "p \<noteq> self" and "\<forall>c \<in> set calls. fair self c"
    and "m = pledge_run T calls (new_pledge_book self deployer tok)" and "pl = pb_pledges m (p, i)" and "pl_active pl" and "pl_startTime pl \<le> t"
  shows "(pl_startTime pl + pl_duration pl \<le> t \<longrightarrow>
      (\<exists>m'. completePledge T p t i m = Inr m' \<and> balanceOf T (pb_token m') p = balanceOf T (pb_token m) p + pl_collateral pl)) \<and>
    (\<exists>m' penalty. exitPledgeEarly T p t i m = Inr m' \<and> balanceOf T (pb_token m') p = balanceOf T (pb_token m) p + (pl_collateral pl - penalty) \<and>
      penalty \<le> pl_collateral pl div 5 \<and> (t < pl_startTime pl + pl_duration pl \<longrightarrow> pl_collateral pl div 100 \<le> penalty))"
proof -
  have inv: "pledge_inv T m" "pb_self m = self"
    unfolding assms(7) using pledge_run_inv[OF assms(1) pledge_inv_new _ assms(6)] by (simp_all add: new_pledge_book_def)
  then have "pb_self m \<noteq> 0" "p \<noteq> pb_self m" using assms(3,5) by simp_all
  then show ?thesis
    using complete_pays[OF assms(1,2) _ assms(4) _ inv(1) assms(8,9)] exit_pays[OF assms(1,2) _ assms(4) _ inv(1) assms(8-10)] by blast
qed

lemma book_pays: "oz_pays book_ledger"
  by (simp add: oz_pays_def book_ledger_def book_move_def)

theorem collateral_redeemable_witness:
  "\<exists>m'. completePledge book_ledger 5 (30 * 86400) 0
      (pledge_run book_ledger [PCreate 5 0 1 (30 * 86400) (10 ^ 18)] (new_pledge_book 8 1 (book_token [(5, 10 ^ 20)]))) = Inr m'"
proof -
  let ?m0 = "new_pledge_book 8 1 (book_token [(5, 10 ^ 20)])"
  define m where "m = pledge_run book_ledger [PCreate 5 0 1 (30 * 86400) (10 ^ 18)] ?m0"
  have at: "pb_pledges m (5, 0) = \<lparr>pl_capacityGB = 1, pl_collateral = 10 ^ 18, pl_startTime = 0, pl_duration = 30 * 86400,
      pl_multiplier = 100, pl_utilizationGB = 0, pl_active = True\<rparr>"
    by (simp add: m_def pledge_run_def transact_def createPledge_def multiplier_for_def transferring_def minimum_collateral_def transferFrom_def on_ledger_def
        book_ledger_def book_move_def book_at_def book_token_def new_pledge_book_def)
  from collateral_redeemable[OF book_ledger_ok book_pays _ _ _ _ m_def at[symmetric], of "30 * 86400"]
  show ?thesis unfolding m_def[symmetric] by auto
qed

end
