(* ===== verification/Sol_Distributor.thy ===== *)
theory Sol_Distributor
  imports Sol_Market Sol_Pledge
begin

text \<open>
  Payments to providers (\<^verbatim>\<open>smart-contracts/contracts/core/PaymentDistributor.sol\<close>). The distributor reads deals, shards and providers from
  the marketplace and its registry, and pledges from the pledge contract; its state holds the marketplace, with the one
  token they share, and the pledges, which may change between its calls.
\<close>

section \<open>State\<close>

record earned =
  capacityRewards :: nat
  usageRewards :: nat
  proofBonuses :: nat
  totalEarned :: nat
  totalWithdrawn :: nat
  lastClaimTimestamp :: nat

definition no_earnings :: earned where
  "no_earnings = \<lparr>capacityRewards = 0, usageRewards = 0, proofBonuses = 0, totalEarned = 0, totalWithdrawn = 0, lastClaimTimestamp = 0\<rparr>"

record 'k distributor =
  ds_self :: addr
  ds_owner :: addr
  capacityRatePerGBMonth :: nat
  usageRatePerGBMonth :: nat
  postBonusPerSubmission :: nat
  protocolFeeCollected :: nat
  repairReserve :: nat
  ds_earnings :: "addr \<Rightarrow> earned"
  ds_market :: "'k market"
  ds_pledges :: "addr \<times> nat \<Rightarrow> pledge"

definition new_distributor :: "addr \<Rightarrow> addr \<Rightarrow> 'k market \<Rightarrow> (addr \<times> nat \<Rightarrow> pledge) \<Rightarrow> 'k distributor" where
  "new_distributor self deployer m pls = \<lparr>ds_self = self, ds_owner = deployer, capacityRatePerGBMonth = 10 ^ 15, usageRatePerGBMonth = 3 * 10 ^ 15,
     postBonusPerSubmission = 10 ^ 17, protocolFeeCollected = 0, repairReserve = 0, ds_earnings = (\<lambda>_. no_earnings), ds_market = m, ds_pledges = pls\<rparr>"

definition ds_token :: "'k distributor \<Rightarrow> 'k token" where
  "ds_token d = mk_token (ds_market d)"

definition set_token :: "'k token \<Rightarrow> 'k distributor \<Rightarrow> 'k distributor" where
  "set_token tok d = d\<lparr>ds_market := (ds_market d)\<lparr>mk_token := tok\<rparr>\<rparr>"

definition earn :: "addr \<Rightarrow> (earned \<Rightarrow> earned) \<Rightarrow> 'k distributor \<Rightarrow> 'k distributor" where
  "earn p f d = d\<lparr>ds_earnings := (ds_earnings d)(p := f (ds_earnings d p))\<rparr>"

section \<open>Operations\<close>

definition distributeCapacityRewards :: "'k openzeppelin \<Rightarrow> addr \<Rightarrow> addr \<Rightarrow> nat \<Rightarrow> 'k distributor \<Rightarrow> string + 'k distributor" where
  "distributeCapacityRewards T sender p pledgeId d =
     req (sender = ds_owner d) ''OwnableUnauthorizedAccount'' (
     let pl = ds_pledges d (p, pledgeId) in
     req (pl_active pl) ''Pledge not active'' (
     req (isProviderActive p (mk_registry (ds_market d))) ''Provider not active'' (
     let reward = pl_capacityGB pl * capacityRatePerGBMonth d * pl_multiplier pl div 100 in
     and_then (mint T (ds_self d) (ds_self d) reward (ds_token d)) (\<lambda>tok.
     Inr (earn p (\<lambda>e. e\<lparr>capacityRewards := capacityRewards e + reward, totalEarned := totalEarned e + reward\<rparr>) (set_token tok d))))))"

fun reward_shards :: "(addr \<Rightarrow> allocation) \<Rightarrow> nat \<Rightarrow> addr list \<Rightarrow> 'k distributor \<Rightarrow> 'k distributor" where
  "reward_shards al n [] d = d"
| "reward_shards al n (p # ps) d = reward_shards al n ps
     (if al_active (al p) then earn p (\<lambda>e. e\<lparr>usageRewards := usageRewards e + n, totalEarned := totalEarned e + n\<rparr>) d else d)"

definition distributeUsageRewards :: "'k openzeppelin \<Rightarrow> addr \<Rightarrow> nat \<Rightarrow> 'k distributor \<Rightarrow> string + 'k distributor" where
  "distributeUsageRewards T sender dealId d =
     req (sender = ds_owner d) ''OwnableUnauthorizedAccount'' (
     let x = mk_deals (ds_market d) dealId in
     req (k_status x = SolCompleted) ''Deal not completed'' (
     req (10 \<le> k_activeShards x) ''Too many failures'' (
     let protocolFee = k_totalCost x * 300 div 10000;
         reserve = k_totalCost x * 500 div 10000;
         providerPool = k_totalCost x - protocolFee - reserve;
         perShardReward = providerPool div 15
     in req (providerPool \<le> balanceOf T (ds_token d) (ds_self d)) ''Insufficient balance for usage rewards'' (
        Inr (reward_shards (k_alloc x) perShardReward (k_providers x)
          (d\<lparr>protocolFeeCollected := protocolFeeCollected d + protocolFee, repairReserve := repairReserve d + reserve\<rparr>))))))"

definition payProofBonus :: "'k openzeppelin \<Rightarrow> addr \<Rightarrow> addr \<Rightarrow> 'k distributor \<Rightarrow> string + 'k distributor" where
  "payProofBonus T sender p d =
     req (sender = ds_owner d) ''OwnableUnauthorizedAccount'' (
     req (isProviderActive p (mk_registry (ds_market d))) ''Provider not active'' (
     let n = postBonusPerSubmission d;
         d = earn p (\<lambda>e. e\<lparr>proofBonuses := proofBonuses e + n, totalEarned := totalEarned e + n\<rparr>) d
     in and_then (mint T (ds_self d) (ds_self d) n (ds_token d)) (\<lambda>tok. Inr (set_token tok d))))"

definition sol_withdrawEarnings :: "'k openzeppelin \<Rightarrow> addr \<Rightarrow> nat \<Rightarrow> 'k distributor \<Rightarrow> string + 'k distributor" where
  "sol_withdrawEarnings T sender timestamp d =
     (let e = ds_earnings d sender in
     req (totalWithdrawn e \<le> totalEarned e) ''Panic'' (
     let available = totalEarned e - totalWithdrawn e in
     req (0 < available) ''No earnings available'' (
     let d = earn sender (\<lambda>e. e\<lparr>totalWithdrawn := totalWithdrawn e + available, lastClaimTimestamp := timestamp\<rparr>) d in
     and_then (transferring (transfer T (ds_self d) sender available (ds_token d)) ''Transfer failed'') (\<lambda>tok. Inr (set_token tok d)))))"

definition withdrawProtocolFees :: "'k openzeppelin \<Rightarrow> addr \<Rightarrow> addr \<Rightarrow> 'k distributor \<Rightarrow> string + 'k distributor" where
  "withdrawProtocolFees T sender recipient d =
     req (sender = ds_owner d) ''OwnableUnauthorizedAccount'' (
     req (0 < protocolFeeCollected d) ''No fees to withdraw'' (
     and_then (transferring (transfer T (ds_self d) recipient (protocolFeeCollected d) (ds_token d)) ''Transfer failed'') (\<lambda>tok.
     Inr (set_token tok (d\<lparr>protocolFeeCollected := 0\<rparr>)))))"

definition useRepairReserve :: "addr \<Rightarrow> addr \<Rightarrow> nat \<Rightarrow> 'k distributor \<Rightarrow> string + 'k distributor" where
  "useRepairReserve sender p amount d =
     req (sender = ds_owner d) ''OwnableUnauthorizedAccount'' (
     req (amount \<le> repairReserve d) ''Insufficient reserve'' (
     Inr (earn p (\<lambda>e. e\<lparr>usageRewards := usageRewards e + amount, totalEarned := totalEarned e + amount\<rparr>)
       (d\<lparr>repairReserve := repairReserve d - amount\<rparr>))))"

definition updateRates :: "addr \<Rightarrow> nat \<Rightarrow> nat \<Rightarrow> nat \<Rightarrow> 'k distributor \<Rightarrow> string + 'k distributor" where
  "updateRates sender cap usage post d =
     req (sender = ds_owner d) ''OwnableUnauthorizedAccount'' (
     Inr (d\<lparr>capacityRatePerGBMonth := cap, usageRatePerGBMonth := usage, postBonusPerSubmission := post\<rparr>))"

definition getAvailableEarnings :: "addr \<Rightarrow> 'k distributor \<Rightarrow> string + nat" where
  "getAvailableEarnings p d = (let e = ds_earnings d p in
     req (totalWithdrawn e \<le> totalEarned e) ''Panic'' (Inr (totalEarned e - totalWithdrawn e)))"

datatype dist_call =
    DCapacity addr addr nat
  | DUsage addr nat
  | DProof addr addr
  | DWithdraw addr nat
  | DFees addr addr
  | DReserve addr addr nat
  | DRates addr nat nat nat
  | DMarket market_call
  | DPledges "addr \<times> nat \<Rightarrow> pledge"

fun dist_exec :: "'k openzeppelin \<Rightarrow> dist_call \<Rightarrow> 'k distributor \<Rightarrow> string + 'k distributor" where
  "dist_exec T (DCapacity s p i) d = distributeCapacityRewards T s p i d"
| "dist_exec T (DUsage s i) d = distributeUsageRewards T s i d"
| "dist_exec T (DProof s p) d = payProofBonus T s p d"
| "dist_exec T (DWithdraw s t) d = sol_withdrawEarnings T s t d"
| "dist_exec T (DFees s a) d = withdrawProtocolFees T s a d"
| "dist_exec T (DReserve s p n) d = useRepairReserve s p n d"
| "dist_exec T (DRates s a b c) d = updateRates s a b c d"
| "dist_exec T (DMarket c) d = and_then (market_exec T c (ds_market d)) (\<lambda>m. Inr (d\<lparr>ds_market := m\<rparr>))"
| "dist_exec T (DPledges pls) d = Inr (d\<lparr>ds_pledges := pls\<rparr>)"

text \<open>The distributor calls nothing of the marketplace, and nobody takes its tokens.\<close>

fun dist_fair :: "dist_call \<Rightarrow> 'k distributor \<Rightarrow> bool" where
  "dist_fair (DMarket c) d = (plausible c (ds_market d) \<and> caller c \<noteq> Some (ds_self d) \<and>
     (case c of MToken c' \<Rightarrow> spares (ds_self d) c' | _ \<Rightarrow> True))"
| "dist_fair c d = True"

fun dist_run :: "'k openzeppelin \<Rightarrow> dist_call list \<Rightarrow> 'k distributor \<Rightarrow> 'k distributor" where
  "dist_run T [] d = d"
| "dist_run T (c # cs) d = dist_run T cs (transact (dist_exec T c) d)"

fun dist_fair_run :: "'k openzeppelin \<Rightarrow> dist_call list \<Rightarrow> 'k distributor \<Rightarrow> bool" where
  "dist_fair_run T [] d = True"
| "dist_fair_run T (c # cs) d = (dist_fair c d \<and> dist_fair_run T cs (transact (dist_exec T c) d))"

section \<open>What a market call does to other accounts\<close>

lemma market_token_step:
  assumes "market_exec T c m = Inr m'"
  shows "mk_token m' = mk_token m \<or> (\<exists>b n. transfer T (mk_self m) b n (mk_token m) = Some (mk_token m')) \<or>
    (\<exists>s n. caller c = Some s \<and> transferFrom T (mk_self m) s (mk_self m) n (mk_token m) = Some (mk_token m')) \<or>
    (\<exists>c'. c = MToken c' \<and> token_exec T c' (mk_token m) = Inr (mk_token m'))"
proof (cases c)
  case (MCreate s t q)
  then show ?thesis using assms by (auto simp: sol_createDeal_def Let_def)
next
  case (MComplete t i)
  then show ?thesis using assms completeDeal_pays(2)[of T t i m m'] by auto
next
  case (MCancel s t i)
  then show ?thesis using assms by (auto simp: sol_cancelDeal_def Let_def split: if_splits)
next
  case (MLost s t i p)
  then show ?thesis using assms by (auto simp: reportLostShard_def Let_def split: if_splits)
qed (use assms in \<open>auto simp: renewDeal_def repair_shard_call_def initiateRetrieval_def claimRetrievalPayment_def setProtocolFee_def
  setTreasury_def updateKynPrice_def setPaymentDistributor_def withdrawFees_def Let_def\<close>)

lemma market_exec_spares:
  assumes "market_exec T c m = Inr m'" and "oz_ok T" and "caller c \<noteq> Some a" and "a \<noteq> mk_self m"
    and "case c of MToken c' \<Rightarrow> spares a c' | _ \<Rightarrow> True"
  shows "balanceOf T (mk_token m) a \<le> balanceOf T (mk_token m') a"
proof -
  consider "mk_token m' = mk_token m" | b n where "transfer T (mk_self m) b n (mk_token m) = Some (mk_token m')" |
    s n where "caller c = Some s" "transferFrom T (mk_self m) s (mk_self m) n (mk_token m) = Some (mk_token m')" |
    c' where "c = MToken c'" "token_exec T c' (mk_token m) = Inr (mk_token m')"
    using market_token_step[OF assms(1)] by blast
  then show ?thesis
  proof cases
    case (2 b n)
    then show ?thesis using moved_grows[OF token_moved(1)[OF assms(2)]] assms(4) by metis
  next
    case (3 s n)
    then show ?thesis using moved_grows[OF token_moved(2)[OF assms(2)]] assms(3) by metis
  next
    case (4 c')
    then show ?thesis using spares_balance[OF assms(2)] assms(5) by simp
  qed simp
qed

section \<open>The earnings are there\<close>

definition dist_available :: "'k distributor \<Rightarrow> addr \<Rightarrow> nat" where
  "dist_available d p = totalEarned (ds_earnings d p) - totalWithdrawn (ds_earnings d p)"

definition dist_inv :: "'k openzeppelin \<Rightarrow> 'k distributor \<Rightarrow> bool" where
  "dist_inv T d = (market_inv (ds_market d) \<and> ds_self d \<noteq> mk_self (ds_market d) \<and> protocolFeeCollected d = 0 \<and> repairReserve d = 0 \<and>
     (\<forall>p. totalWithdrawn (ds_earnings d p) \<le> totalEarned (ds_earnings d p)) \<and>
     (\<forall>A. finite A \<longrightarrow> (\<Sum>p \<in> A. dist_available d p) \<le> balanceOf T (ds_token d) (ds_self d)))"

lemma market_inv_token: "market_inv (m\<lparr>mk_token := tok\<rparr>) = market_inv m"
  by (simp add: market_inv_def)

lemma set_token_at [simp]:
  "ds_token (set_token tok d) = tok" "ds_self (set_token tok d) = ds_self d" "ds_earnings (set_token tok d) = ds_earnings d"
  "protocolFeeCollected (set_token tok d) = protocolFeeCollected d" "repairReserve (set_token tok d) = repairReserve d"
  "ds_market (set_token tok d) = (ds_market d)\<lparr>mk_token := tok\<rparr>" "dist_available (set_token tok d) = dist_available d"
  by (simp_all add: set_token_def ds_token_def dist_available_def fun_eq_iff)

lemma earn_at [simp]:
  "ds_token (earn p f d) = ds_token d" "ds_self (earn p f d) = ds_self d" "ds_earnings (earn p f d) = (ds_earnings d)(p := f (ds_earnings d p))"
  "protocolFeeCollected (earn p f d) = protocolFeeCollected d" "repairReserve (earn p f d) = repairReserve d" "ds_market (earn p f d) = ds_market d"
  by (simp_all add: earn_def ds_token_def)

lemma usage_rewards_revert:
  assumes "market_inv (ds_market d)"
  shows "\<exists>e. distributeUsageRewards T s i d = Inl e"
proof -
  have "shards_ok (mk_deals (ds_market d) i)" by (rule market_inv_shards[OF assms])
  then have "k_status (mk_deals (ds_market d) i) = SolCompleted \<longrightarrow> k_activeShards (mk_deals (ds_market d) i) = 0"
    unfolding shards_ok_def by blast
  then show ?thesis by (auto simp: distributeUsageRewards_def Let_def req_def)
qed

text \<open>Earning what was minted, and withdrawing what was earned.\<close>

lemma sum_one: "finite A \<Longrightarrow> (\<Sum>q \<in> A. f q + (if q = p then n else 0)) \<le> (\<Sum>q \<in> A. f q) + (n :: nat)"
  by (simp add: sum.distrib)

lemma minted_inv:
  assumes "dist_inv T d" and "oz_ok T" and "mint T s (ds_self d) n (ds_token d) = Inr tok"
    and "ds_earnings d' = (ds_earnings d)(p := e)" and "totalEarned e = totalEarned (ds_earnings d p) + n" and "totalWithdrawn e = totalWithdrawn (ds_earnings d p)"
    and "ds_market d' = (ds_market d)\<lparr>mk_token := tok\<rparr>" "ds_self d' = ds_self d" "protocolFeeCollected d' = 0" "repairReserve d' = 0"
  shows "dist_inv T d'"
proof -
  have bal: "balanceOf T tok (ds_self d) = balanceOf T (ds_token d) (ds_self d) + n"
    using assms(3) oz_balance(3)[OF assms(2), of "ds_self d" n "ledger (ds_token d)"] by (auto simp: mint_def balanceOf_def)
  have w: "totalWithdrawn (ds_earnings d q) \<le> totalEarned (ds_earnings d q)" for q using assms(1) by (simp add: dist_inv_def)
  have av: "dist_available d' = (\<lambda>q. dist_available d q + (if q = p then n else 0))"
    using w[of p] assms(5,6) by (auto simp: dist_available_def assms(4))
  have "(\<Sum>q \<in> A. dist_available d' q) \<le> balanceOf T tok (ds_self d)" if "finite A" for A
    unfolding av using sum_one[OF that, of "dist_available d" p n] assms(1) that bal by (simp add: dist_inv_def) (meson add_le_mono1 order_trans)
  moreover have "totalWithdrawn (ds_earnings d' q) \<le> totalEarned (ds_earnings d' q)" for q
    using w[of q] assms(5,6) by (auto simp: assms(4))
  ultimately show ?thesis using assms(1,7-10) by (simp add: dist_inv_def market_inv_token ds_token_def)
qed

lemma withdrawn_inv:
  assumes "dist_inv T d" and "oz_ok T" and "sol_withdrawEarnings T s t d = Inr d'"
  shows "dist_inv T d'"
proof -
  define n where "n = dist_available d s"
  define d1 where "d1 = earn s (\<lambda>e. e\<lparr>totalWithdrawn := totalWithdrawn e + n, lastClaimTimestamp := t\<rparr>) d"
  obtain tok where tok: "transfer T (ds_self d) s n (ds_token d) = Some tok" "d' = set_token tok d1"
    using assms(3) by (auto simp: sol_withdrawEarnings_def Let_def d1_def n_def dist_available_def)
  have w: "totalWithdrawn (ds_earnings d q) \<le> totalEarned (ds_earnings d q)" for q using assms(1) by (simp add: dist_inv_def)
  have av: "dist_available d' q = (if q = s then 0 else dist_available d q)" for q
    using w[of s] by (simp add: tok(2) d1_def dist_available_def n_def)
  have "(\<Sum>q \<in> A. dist_available d' q) \<le> balanceOf T tok (ds_self d)" if "finite A" for A
  proof -
    have "(\<Sum>q \<in> A. dist_available d' q) = (\<Sum>q \<in> A - {s}. dist_available d q)"
      by (rule sum.mono_neutral_cong_right) (auto simp: av that)
    then have "(\<Sum>q \<in> A. dist_available d' q) + n = (\<Sum>q \<in> insert s A. dist_available d q)"
      by (simp add: n_def sum.insert_remove[OF that])
    also have "\<dots> \<le> balanceOf T (ds_token d) (ds_self d)" using assms(1) that by (simp add: dist_inv_def)
    also have "\<dots> \<le> balanceOf T tok (ds_self d) + n" by (rule transfer_out[OF assms(2) tok(1)])
    finally show ?thesis by simp
  qed
  moreover have "totalWithdrawn (ds_earnings d' q) \<le> totalEarned (ds_earnings d' q)" for q
    using w[of q] w[of s] by (simp add: tok(2) d1_def n_def dist_available_def)
  ultimately show ?thesis using assms(1) by (simp add: dist_inv_def market_inv_token tok(2) d1_def)
qed

lemma dist_exec_inv:
  assumes "dist_exec T c d = Inr d'" and "oz_ok T" and "dist_fair c d" and "dist_inv T d"
  shows "dist_inv T d'"
proof (cases c)
  case (DCapacity s p i)
  let ?n = "pl_capacityGB (ds_pledges d (p, i)) * capacityRatePerGBMonth d * pl_multiplier (ds_pledges d (p, i)) div 100"
  from DCapacity assms(1) obtain tok where tok: "mint T (ds_self d) (ds_self d) ?n (ds_token d) = Inr tok"
      "d' = earn p (\<lambda>e. e\<lparr>capacityRewards := capacityRewards e + ?n, totalEarned := totalEarned e + ?n\<rparr>) (set_token tok d)"
    by (auto simp: distributeCapacityRewards_def Let_def)
  show ?thesis
    by (rule minted_inv[OF assms(4,2) tok(1), where p = p and
          e = "(ds_earnings d p)\<lparr>capacityRewards := capacityRewards (ds_earnings d p) + ?n, totalEarned := totalEarned (ds_earnings d p) + ?n\<rparr>"])
       (use assms(4) in \<open>simp_all add: tok(2) dist_inv_def\<close>)
next
  case (DUsage s i)
  then show ?thesis using assms(1,4) usage_rewards_revert[of d T s i] by (auto simp: dist_inv_def)
next
  case (DProof s p)
  let ?n = "postBonusPerSubmission d"
  from DProof assms(1) obtain tok where tok: "mint T (ds_self d) (ds_self d) ?n (ds_token d) = Inr tok"
      "d' = set_token tok (earn p (\<lambda>e. e\<lparr>proofBonuses := proofBonuses e + ?n, totalEarned := totalEarned e + ?n\<rparr>) d)"
    by (auto simp: payProofBonus_def Let_def)
  show ?thesis
    by (rule minted_inv[OF assms(4,2) tok(1), where p = p and
          e = "(ds_earnings d p)\<lparr>proofBonuses := proofBonuses (ds_earnings d p) + ?n, totalEarned := totalEarned (ds_earnings d p) + ?n\<rparr>"])
       (use assms(4) in \<open>simp_all add: tok(2) dist_inv_def\<close>)
next
  case (DWithdraw s t)
  then show ?thesis using assms withdrawn_inv[OF assms(4,2)] by simp
next
  case (DFees s a)
  then show ?thesis using assms(1,4) by (auto simp: withdrawProtocolFees_def dist_inv_def)
next
  case (DReserve s p n)
  have "repairReserve d = 0" using assms(4) by (simp add: dist_inv_def)
  then have "d' = earn p (\<lambda>e. e\<lparr>usageRewards := usageRewards e + 0, totalEarned := totalEarned e + 0\<rparr>) (d\<lparr>repairReserve := 0\<rparr>)"
    using DReserve assms(1) by (auto simp: useRepairReserve_def)
  then have "ds_earnings d' = ds_earnings d" "ds_market d' = ds_market d" "ds_self d' = ds_self d" "protocolFeeCollected d' = protocolFeeCollected d" "repairReserve d' = 0"
    by (simp_all add: earn_def)
  then show ?thesis using assms(4) by (simp add: dist_inv_def dist_available_def ds_token_def)
next
  case (DRates s x y z)
  then show ?thesis using assms(1,4) by (auto simp: updateRates_def dist_inv_def dist_available_def ds_token_def)
next
  case (DMarket c')
  then obtain m where m: "market_exec T c' (ds_market d) = Inr m" "d' = d\<lparr>ds_market := m\<rparr>" using assms(1) by auto
  have fair: "plausible c' (ds_market d)" "caller c' \<noteq> Some (ds_self d)" "case c' of MToken x \<Rightarrow> spares (ds_self d) x | _ \<Rightarrow> True"
    using assms(3) DMarket by simp_all
  have inv: "market_inv (ds_market d)" "ds_self d \<noteq> mk_self (ds_market d)" using assms(4) by (simp_all add: dist_inv_def)
  have "market_inv m" by (rule market_exec_inv[OF m(1) fair(1) inv(1)])
  moreover have "balanceOf T (ds_token d) (ds_self d) \<le> balanceOf T (mk_token m) (ds_self d)"
    using market_exec_spares[OF m(1) assms(2) fair(2) inv(2) fair(3)] by (simp add: ds_token_def)
  moreover have "mk_self m = mk_self (ds_market d)" by (rule market_exec_self[OF m(1)])
  ultimately show ?thesis
    using assms(4) by (auto simp: m(2) dist_inv_def dist_available_def ds_token_def intro: order_trans)
next
  case (DPledges pls)
  then show ?thesis using assms(1,4) by (auto simp: dist_inv_def dist_available_def ds_token_def)
qed

lemma dist_run_inv: "oz_ok T \<Longrightarrow> dist_inv T d \<Longrightarrow> dist_fair_run T cs d \<Longrightarrow> dist_inv T (dist_run T cs d)"
proof (induction cs arbitrary: d)
  case (Cons c cs)
  have "dist_inv T (transact (dist_exec T c) d)"
    using Cons.prems dist_exec_inv[OF _ Cons.prems(1)] by (auto simp: transact_def split: sum.split)
  then show ?case using Cons by simp
qed simp

lemma dist_inv_new: "self \<noteq> mself \<Longrightarrow> dist_inv T (new_distributor self deployer (new_market mself mdeployer treasury r tok) pls)"
  using market_inv_new[of mself mdeployer treasury r tok]
  by (simp add: dist_inv_def new_distributor_def dist_available_def no_earnings_def new_market_def)

definition sol_calls0 :: "dist_call list" where
  "sol_calls0 = [DMarket (MCreate 2 0 sol_deal0), DProof 1 12, DWithdraw 12 5, DUsage 1 0]"

lemma sol_calls0_fair: "dist_fair_run T sol_calls0 (new_distributor 7 1 sol_market0 (\<lambda>_. no_pledge))"
  by (simp add: sol_calls0_def plausible_def new_distributor_def sol_market0_def new_market_def)

lemma sol_calls0_start:
  "new_distributor 7 1 sol_market0 (\<lambda>_. no_pledge) = new_distributor 7 1 (new_market 9 1 1 sol_registry0 (book_token [(2, 10 ^ 20)])) (\<lambda>_. no_pledge)"
  by (simp add: sol_market0_def)





end
