(* ===== verification/Sol_Slashing.thy ===== *)
theory Sol_Slashing
  imports Sol_Token
begin

text \<open>
  Penalties and appeals (\<^verbatim>\<open>smart-contracts/contracts/core/SlashingManager.sol\<close>). The manager burns tokens of the provider through the
  token, and records the event in the registry, each with the rights the deployment gave it there. A difference of times below 0 and a
  power of two beyond 256 bits revert.
\<close>

section \<open>State\<close>

record slash_record =
  sr_timestamp :: nat
  sr_amount :: nat
  sr_reason :: string
  sr_appealed :: bool
  sr_resolved :: bool

record penalty_state =
  consecutiveMissedPosts :: nat
  lastMissedPostTime :: nat
  totalSlashed :: nat
  lastSlashTime :: nat
  slashCountInWindow :: nat

definition no_penalty :: penalty_state where
  "no_penalty = \<lparr>consecutiveMissedPosts = 0, lastMissedPostTime = 0, totalSlashed = 0, lastSlashTime = 0, slashCountInWindow = 0\<rparr>"

record 'k slashing =
  sl_self :: addr
  sl_owner :: addr
  penaltyStates :: "addr \<Rightarrow> penalty_state"
  slashingHistory :: "addr \<Rightarrow> slash_record list"
  appealDeadlines :: "addr \<Rightarrow> nat \<Rightarrow> nat"
  sl_registry :: registry
  sl_token :: "'k token"

definition new_slashing :: "addr \<Rightarrow> addr \<Rightarrow> registry \<Rightarrow> 'k token \<Rightarrow> 'k slashing" where
  "new_slashing self deployer r tok = \<lparr>sl_self = self, sl_owner = deployer, penaltyStates = (\<lambda>_. no_penalty), slashingHistory = (\<lambda>_. []),
     appealDeadlines = (\<lambda>_ _. 0), sl_registry = r, sl_token = tok\<rparr>"

definition set_penalty :: "addr \<Rightarrow> (penalty_state \<Rightarrow> penalty_state) \<Rightarrow> 'k slashing \<Rightarrow> 'k slashing" where
  "set_penalty p f s = s\<lparr>penaltyStates := (penaltyStates s)(p := f (penaltyStates s p))\<rparr>"

section \<open>Operations\<close>

definition calculateRepeatMultiplier :: "nat \<Rightarrow> penalty_state \<Rightarrow> string + nat" where
  "calculateRepeatMultiplier timestamp x =
     req (lastSlashTime x \<le> timestamp) ''Panic'' (
     if timestamp - lastSlashTime x > 30 * 86400 then Inr 1
     else req (slashCountInWindow x < 256) ''Panic'' (
       let multiplier = 2 ^ slashCountInWindow x in Inr (if multiplier > 8 then 8 else multiplier)))"

definition applySlashing :: "'k openzeppelin \<Rightarrow> nat \<Rightarrow> addr \<Rightarrow> nat \<Rightarrow> string \<Rightarrow> 'k slashing \<Rightarrow> string + 'k slashing" where
  "applySlashing T timestamp p amount reason s =
     and_then (burnFrom T (sl_self s) p amount (sl_token s)) (\<lambda>tok.
     let s = set_penalty p (\<lambda>x. x\<lparr>totalSlashed := totalSlashed x + amount\<rparr>) (s\<lparr>sl_token := tok\<rparr>) in
     req (lastSlashTime (penaltyStates s p) \<le> timestamp) ''Panic'' (
     let s = set_penalty p (\<lambda>x. x\<lparr>slashCountInWindow := (if timestamp - lastSlashTime x \<le> 30 * 86400 then slashCountInWindow x + 1 else 1),
               lastSlashTime := timestamp\<rparr>) s;
         recordIndex = length (slashingHistory s p)
     in Inr (s\<lparr>slashingHistory := (slashingHistory s)(p := slashingHistory s p @
                 [\<lparr>sr_timestamp = timestamp, sr_amount = amount, sr_reason = reason, sr_appealed = False, sr_resolved = False\<rparr>]),
               appealDeadlines := (appealDeadlines s)(p := (appealDeadlines s p)(recordIndex := timestamp + 48 * 3600))\<rparr>)))"

definition on_registry :: "(registry \<Rightarrow> string + registry) \<Rightarrow> 'k slashing \<Rightarrow> string + 'k slashing" where
  "on_registry f s = and_then (f (sl_registry s)) (\<lambda>r. Inr (s\<lparr>sl_registry := r\<rparr>))"

definition slashMissedPost :: "'k openzeppelin \<Rightarrow> addr \<Rightarrow> nat \<Rightarrow> addr \<Rightarrow> nat \<Rightarrow> 'k slashing \<Rightarrow> string + 'k slashing" where
  "slashMissedPost T sender timestamp p collateral s =
     req (sender = sl_owner s) ''OwnableUnauthorizedAccount'' (
     req (lastMissedPostTime (penaltyStates s p) \<le> timestamp) ''Panic'' (
     let s = set_penalty p (\<lambda>x. x\<lparr>consecutiveMissedPosts := (if timestamp - lastMissedPostTime x \<le> 48 * 3600 then consecutiveMissedPosts x + 1 else 1),
               lastMissedPostTime := timestamp\<rparr>) s;
         basePenalty = collateral * 100 div 10000
     in and_then (calculateRepeatMultiplier timestamp (penaltyStates s p)) (\<lambda>multiplier.
        and_then (applySlashing T timestamp p (basePenalty * multiplier) ''Missed PoSt proof'' s)
          (on_registry (recordSlashing (sl_self s) timestamp p)))))"

definition slashDataLoss :: "'k openzeppelin \<Rightarrow> addr \<Rightarrow> nat \<Rightarrow> addr \<Rightarrow> nat \<Rightarrow> 'k slashing \<Rightarrow> string + 'k slashing" where
  "slashDataLoss T sender timestamp p dealCollateral s =
     req (sender = sl_owner s) ''OwnableUnauthorizedAccount'' (
     and_then (applySlashing T timestamp p dealCollateral ''Data loss'' s) (\<lambda>s.
     and_then (on_registry (decreaseReputation (sl_self s) timestamp p 50) s)
       (on_registry (recordSlashing (sl_self s) timestamp p))))"

definition slashEarlyExit :: "'k openzeppelin \<Rightarrow> addr \<Rightarrow> nat \<Rightarrow> addr \<Rightarrow> nat \<Rightarrow> 'k slashing \<Rightarrow> string + 'k slashing" where
  "slashEarlyExit T sender timestamp p penaltyAmount s =
     req (sender = sl_owner s) ''OwnableUnauthorizedAccount'' (applySlashing T timestamp p penaltyAmount ''Early pledge exit'' s)"

definition submitAppeal :: "addr \<Rightarrow> nat \<Rightarrow> nat \<Rightarrow> 'k slashing \<Rightarrow> string + 'k slashing" where
  "submitAppeal sender timestamp i s =
     req (i < length (slashingHistory s sender)) ''Invalid index'' (
     let x = slashingHistory s sender ! i in
     req (\<not> sr_appealed x) ''Already appealed'' (
     req (\<not> sr_resolved x) ''Already resolved'' (
     req (timestamp \<le> appealDeadlines s sender i) ''Appeal window closed'' (
     Inr (s\<lparr>slashingHistory := (slashingHistory s)(sender := (slashingHistory s sender)[i := x\<lparr>sr_appealed := True\<rparr>])\<rparr>)))))"

definition resolveAppeal :: "'k openzeppelin \<Rightarrow> addr \<Rightarrow> addr \<Rightarrow> nat \<Rightarrow> bool \<Rightarrow> 'k slashing \<Rightarrow> string + 'k slashing" where
  "resolveAppeal T sender p i upheld s =
     req (sender = sl_owner s) ''OwnableUnauthorizedAccount'' (
     req (i < length (slashingHistory s p)) ''Invalid index'' (
     let x = slashingHistory s p ! i in
     req (sr_appealed x) ''Not appealed'' (
     req (\<not> sr_resolved x) ''Already resolved'' (
     let s = s\<lparr>slashingHistory := (slashingHistory s)(p := (slashingHistory s p)[i := x\<lparr>sr_resolved := True\<rparr>])\<rparr>
     in if upheld then Inr s
        else and_then (mint T (sl_self s) p (sr_amount x) (sl_token s)) (\<lambda>tok.
             on_registry (increaseReputation (sl_self s) p 10) (s\<lparr>sl_token := tok\<rparr>))))))"

section \<open>What a penalty does\<close>

lemma set_penalty_at [simp]:
  "penaltyStates (set_penalty p f s) = (penaltyStates s)(p := f (penaltyStates s p))" "sl_token (set_penalty p f s) = sl_token s"
  "sl_self (set_penalty p f s) = sl_self s" "slashingHistory (set_penalty p f s) = slashingHistory s"
  "sl_registry (set_penalty p f s) = sl_registry s" "appealDeadlines (set_penalty p f s) = appealDeadlines s" "sl_owner (set_penalty p f s) = sl_owner s"
  by (simp_all add: set_penalty_def)

lemma burnFrom_balance:
  assumes "oz_ok T" and "burnFrom T s p n tok = Inr tok'"
  shows "balanceOf T tok p = balanceOf T tok' p + n" "authorizedBurners tok s"
    "authorizedMinters tok' = authorizedMinters tok" "totalSupply T tok = totalSupply T tok' + n"
  using assms(2) oz_balance(4,5)[OF assms(1), of p n "ledger tok"] oz_supply(4)[OF assms(1), of p n "ledger tok"]
  by (auto simp: burnFrom_def balanceOf_def totalSupply_def)

lemma applySlashing_at:
  assumes "applySlashing T t p n reason s = Inr s'" and "oz_ok T"
  shows "balanceOf T (sl_token s) p = balanceOf T (sl_token s') p + n" "authorizedBurners (sl_token s) (sl_self s)"
    "slashingHistory s' p = slashingHistory s p @
       [\<lparr>sr_timestamp = t, sr_amount = n, sr_reason = reason, sr_appealed = False, sr_resolved = False\<rparr>]"
    "appealDeadlines s' p (length (slashingHistory s p)) = t + 48 * 3600"
    "sl_registry s' = sl_registry s" "sl_self s' = sl_self s" "sl_owner s' = sl_owner s"
    "authorizedMinters (sl_token s') = authorizedMinters (sl_token s)"
    "totalSupply T (sl_token s) = totalSupply T (sl_token s') + n"
    "totalSlashed (penaltyStates s' p) = totalSlashed (penaltyStates s p) + n"
  using assms(1) burnFrom_balance[OF assms(2), of "sl_self s" p n "sl_token s"]
  by (auto simp: applySlashing_def Let_def)

lemma on_registry_Inr [simp]: "on_registry f s = Inr s' \<longleftrightarrow> (\<exists>r. f (sl_registry s) = Inr r \<and> s' = s\<lparr>sl_registry := r\<rparr>)"
  by (auto simp: on_registry_def)

lemma multiplier_range:
  assumes "calculateRepeatMultiplier t x = Inr k"
  shows "k \<in> {1, 2, 4, 8}"
proof (cases "t - lastSlashTime x > 30 * 86400")
  case False
  then have k: "k = (if 2 ^ slashCountInWindow x > (8 :: nat) then 8 else 2 ^ slashCountInWindow x)"
    using assms by (auto simp: calculateRepeatMultiplier_def Let_def)
  show ?thesis
  proof (cases "slashCountInWindow x \<le> 3")
    case True
    then have "slashCountInWindow x \<in> {0, 1, 2, 3}" by auto
    then show ?thesis using k by auto
  next
    case False
    then have "(2 :: nat) ^ 4 \<le> 2 ^ slashCountInWindow x" by (intro power_increasing) simp_all
    then show ?thesis using k by simp
  qed
qed (use assms in \<open>simp add: calculateRepeatMultiplier_def\<close>)

text \<open>
  A missed proof costs exactly what is recorded: one per cent of the collateral times 1, 2, 4 or 8. That amount leaves the provider's wallet, is added to
  its total, and can be appealed for two days; and the manager had the right to burn and to write to the registry.
\<close>

theorem missed_proof_penalty:
  assumes "oz_ok T" and "slashMissedPost T sender t p collateral s = Inr s'"
  shows "\<exists>k \<in> {1, 2, 4, 8}. let penalty = collateral * 100 div 10000 * k in
    balanceOf T (sl_token s) p = balanceOf T (sl_token s') p + penalty \<and>
    totalSlashed (penaltyStates s' p) = totalSlashed (penaltyStates s p) + penalty \<and>
    sr_amount (last (slashingHistory s' p)) = penalty \<and>
    appealDeadlines s' p (length (slashingHistory s' p) - 1) = t + 48 * 3600 \<and>
    authorizedBurners (sl_token s) (sl_self s) \<and> is_keeper (sl_self s) (sl_registry s)"
proof -
  define s1 where "s1 = set_penalty p (\<lambda>x. x\<lparr>consecutiveMissedPosts := (if t - lastMissedPostTime x \<le> 48 * 3600 then consecutiveMissedPosts x + 1 else 1),
    lastMissedPostTime := t\<rparr>) s"
  obtain k s2 r where k: "calculateRepeatMultiplier t (penaltyStates s1 p) = Inr k"
      and s2: "applySlashing T t p (collateral * 100 div 10000 * k) ''Missed PoSt proof'' s1 = Inr s2"
      and r: "recordSlashing (sl_self s1) t p (sl_registry s2) = Inr r" and s': "s' = s2\<lparr>sl_registry := r\<rparr>"
    using assms(2) unfolding slashMissedPost_def Let_def s1_def[symmetric] by auto
  note a = applySlashing_at[OF s2 assms(1)]
  have "is_keeper (sl_self s) (sl_registry s)" using r a(5) by (auto simp: recordSlashing_def s1_def)
  moreover have "totalSlashed (penaltyStates s1 p) = totalSlashed (penaltyStates s p)" "sl_token s1 = sl_token s" "sl_self s1 = sl_self s"
    by (simp_all add: s1_def)
  ultimately show ?thesis
    using a by (intro bexI[OF _ multiplier_range[OF k]]) (simp add: Let_def s')
qed

definition slashing0 :: "nat \<Rightarrow> book slashing" where
  "slashing0 n = new_slashing 6 1
     ((new_registry 1)\<lparr>reg_providers := (\<lambda>_. no_provider)(5 := no_provider\<lparr>reg_registered := True, reg_active := True, reputationScore := 50\<rparr>),
        recordKeepers := (\<lambda>_. False)(6 := True)\<rparr>)
     ((book_token [(5, n)])\<lparr>authorizedBurners := (\<lambda>_. False)(6 := True)\<rparr>)"

theorem missed_proof_penalty_witness:
  "\<exists>s'. slashMissedPost book_ledger 1 (100 * 86400) 5 1000 (slashing0 100) = Inr s' \<and>
     balanceOf book_ledger (sl_token (slashing0 100)) 5 > balanceOf book_ledger (sl_token s') 5"
proof -
  obtain s' where s': "slashMissedPost book_ledger 1 (100 * 86400) 5 1000 (slashing0 100) = Inr s'"
    by (simp add: slashing0_def slashMissedPost_def new_slashing_def no_penalty_def calculateRepeatMultiplier_def applySlashing_def Let_def
        burnFrom_def on_ledger_def book_ledger_def book_at_def book_token_def transferring_def on_registry_def recordSlashing_def is_keeper_def
        new_registry_def decreaseReputation_def no_provider_def set_provider_def)
  from missed_proof_penalty[OF book_ledger_ok s'] obtain k where "k \<in> {1, 2, 4, 8 :: nat}"
      "balanceOf book_ledger (sl_token (slashing0 100)) 5 = balanceOf book_ledger (sl_token s') 5 + 1000 * 100 div 10000 * k"
    unfolding Let_def by blast
  then show ?thesis using s' by auto
qed

text \<open>
  The collateral of a pledge lies in the pledge contract, and a penalty is burned from the provider's wallet. A
  provider whose wallet holds less than the penalty is not slashed at all: the call reverts, so its reputation stays as well.
\<close>

theorem empty_wallet_not_slashed:
  assumes "oz_ok T" and "balanceOf T (sl_token s) p < collateral * 100 div 10000"
  shows "transact (slashMissedPost T sender t p collateral) s = s"
proof (cases "slashMissedPost T sender t p collateral s")
  case (Inr s')
  define s1 where "s1 = set_penalty p (\<lambda>x. x\<lparr>consecutiveMissedPosts := (if t - lastMissedPostTime x \<le> 48 * 3600 then consecutiveMissedPosts x + 1 else 1),
    lastMissedPostTime := t\<rparr>) s"
  obtain k s2 where k: "calculateRepeatMultiplier t (penaltyStates s1 p) = Inr k"
      and s2: "applySlashing T t p (collateral * 100 div 10000 * k) ''Missed PoSt proof'' s1 = Inr s2"
    using Inr unfolding slashMissedPost_def Let_def s1_def[symmetric] by auto
  have bal: "collateral * 100 div 10000 * k \<le> balanceOf T (sl_token s) p"
    using applySlashing_at(1)[OF s2 assms(1)] by (simp add: s1_def)
  have "1 \<le> k" using multiplier_range[OF k] by auto
  then have "collateral * 100 div 10000 * 1 \<le> collateral * 100 div 10000 * k" by (rule mult_le_mono2)
  with bal have "collateral * 100 div 10000 * 1 \<le> balanceOf T (sl_token s) p" by (rule order_trans[rotated])
  with assms(2) show ?thesis by simp
qed (simp add: transact_def)

theorem empty_wallet_not_slashed_witness:
  "transact (slashMissedPost book_ledger 1 5 5 (10 ^ 20)) (slashing0 100) = slashing0 100"
  by (rule empty_wallet_not_slashed[OF book_ledger_ok])
     (simp add: slashing0_def new_slashing_def balanceOf_def book_ledger_def book_token_def book_at_def)

text \<open>An appeal that is won gives the penalty back, provided the manager may mint.\<close>

lemma appeal_restores:
  assumes "oz_ok T" and "slashEarlyExit T owner t p n s = Inr s1" and "i = length (slashingHistory s p)"
    and "submitAppeal p t' i s1 = Inr s2" and "resolveAppeal T owner p i False s2 = Inr s3"
  shows "balanceOf T (sl_token s3) p = balanceOf T (sl_token s) p" and "authorizedMinters (sl_token s) (sl_self s)"
proof -
  have s1: "applySlashing T t p n ''Early pledge exit'' s = Inr s1" using assms(2) by (auto simp: slashEarlyExit_def)
  note a = applySlashing_at[OF s1 assms(1)]
  have s2: "sl_token s2 = sl_token s1" "sl_self s2 = sl_self s1" "sr_amount (slashingHistory s2 p ! i) = n"
    using assms(3,4) a(3) by (auto simp: submitAppeal_def Let_def)
  obtain tok where tok: "mint T (sl_self s2) p n (sl_token s2) = Inr tok" "sl_token s3 = tok"
    using assms(5) s2(3) by (auto simp: resolveAppeal_def Let_def)
  have "balanceOf T tok p = balanceOf T (sl_token s2) p + n" "authorizedMinters (sl_token s2) (sl_self s2)"
    using tok(1) oz_balance(3)[OF assms(1), of p n "ledger (sl_token s2)"] by (auto simp: mint_def balanceOf_def)
  then show "balanceOf T (sl_token s3) p = balanceOf T (sl_token s) p" "authorizedMinters (sl_token s) (sl_self s)"
    using a(1,6,8) s2(1,2) tok(2) by simp_all
qed

end
