(* ===== verification/Deployment.thy ===== *)
theory Deployment
  imports Kyn_Effects Sol_Distributor Sol_Slashing
begin

text \<open>
  The scripts that put the contracts on a chain (\<^verbatim>\<open>smart-contracts/scripts/deploy.js\<close>, \<^verbatim>\<open>deploy-amoy.js\<close>,
  \<^verbatim>\<open>deploy-v2.js\<close>, \<^verbatim>\<open>deploy-local.js\<close>, \<^verbatim>\<open>upgrade-marketplace.js\<close>) and the key they sign with (\<^verbatim>\<open>hardhat.config.js\<close>). A network holds
  the contracts by address, each with the addresses it was constructed with, and the address files on disk. A contract that keeps another
  one's state in its own model gets that state from the network before a call and gives it back after. Every awaited
  call may fail; a transaction that was sent is mined in order.
\<close>

section \<open>The network\<close>

record addresses =
  ad_network :: string
  ad_chainId :: nat
  ad_deployer :: addr
  ad_token :: addr
  ad_registry :: addr
  ad_pledges :: addr
  ad_prover :: addr
  ad_slashing :: addr
  ad_marketplace :: addr
  ad_payments :: addr
  ad_deployedAt :: "int option"
  ad_version :: "string option"
  ad_testAccounts :: "(addr \<times> addr list) option"

record 'k net =
  next_addr :: addr
  tokens :: "addr \<Rightarrow> 'k token option"
  registries :: "addr \<Rightarrow> registry option"
  books :: "addr \<Rightarrow> (addr \<times> 'k pledge_book) option"
  provers :: "addr \<Rightarrow> addr option"
  slashings :: "addr \<Rightarrow> (addr \<times> addr \<times> 'k slashing) option"
  markets :: "addr \<Rightarrow> (addr \<times> addr \<times> addr \<times> 'k market) option"
  payments :: "addr \<Rightarrow> (addr \<times> addr \<times> addr \<times> addr \<times> addr) option"
  address_files :: "string \<Rightarrow> addresses option"

text \<open>What a script is run with: the ledger library, the network and its accounts, the time of the blocks.\<close>

record 'k deploy_env =
  de_oz :: "'k openzeppelin"
  de_k0 :: 'k
  de_network :: string
  de_chainId :: nat
  de_signers :: "addr list"
  de_block :: nat

datatype kind = StorageToken | ProviderRegistry | CapacityPledge | ProofVerifier | SlashingManager | StorageMarketplace | PaymentDistributor

fun arity :: "kind \<Rightarrow> nat" where
  "arity StorageToken = 0"
| "arity ProviderRegistry = 0"
| "arity CapacityPledge = 1"
| "arity ProofVerifier = 0"
| "arity SlashingManager = 2"
| "arity StorageMarketplace = 4"
| "arity PaymentDistributor = 4"

text \<open>What stands for the token and the registry inside a contract until a call brings the real ones.\<close>

definition blank_token :: "'k \<Rightarrow> 'k token" where
  "blank_token k = \<lparr>ledger = k, token_owner = 0, annualInflationRate = 0, lastInflationTimestamp = 0, authorizedMinters = (\<lambda>_. False),
     authorizedBurners = (\<lambda>_. False), sol_totalTokensBurned = 0\<rparr>"

definition construct :: "'k deploy_env \<Rightarrow> addr \<Rightarrow> kind \<Rightarrow> addr list \<Rightarrow> 'k net \<Rightarrow> 'k net option" where
  "construct env sender k args s =
     (let a = next_addr s; s = s\<lparr>next_addr := a + 1\<rparr> in
      case (k, args) of
        (StorageToken, []) \<Rightarrow> map_option (\<lambda>tok. s\<lparr>tokens := (tokens s)(a \<mapsto> tok)\<rparr>) (new_token (de_oz env) sender (de_block env) (de_k0 env))
      | (ProviderRegistry, []) \<Rightarrow> Some (s\<lparr>registries := (registries s)(a \<mapsto> new_registry sender)\<rparr>)
      | (CapacityPledge, [tk]) \<Rightarrow> Some (s\<lparr>books := (books s)(a \<mapsto> (tk, new_pledge_book a sender (blank_token (de_k0 env))))\<rparr>)
      | (ProofVerifier, []) \<Rightarrow> Some (s\<lparr>provers := (provers s)(a \<mapsto> sender)\<rparr>)
      | (SlashingManager, [tk, rg]) \<Rightarrow>
          Some (s\<lparr>slashings := (slashings s)(a \<mapsto> (tk, rg, new_slashing a sender (new_registry 0) (blank_token (de_k0 env))))\<rparr>)
      | (StorageMarketplace, [tk, rg, pl, treasury]) \<Rightarrow>
          Some (s\<lparr>markets := (markets s)(a \<mapsto> (tk, rg, pl, new_market a sender treasury (new_registry 0) (blank_token (de_k0 env))))\<rparr>)
      | (PaymentDistributor, [tk, mk, pl, rg]) \<Rightarrow> Some (s\<lparr>payments := (payments s)(a \<mapsto> (tk, mk, pl, rg, sender))\<rparr>)
      | _ \<Rightarrow> None)"

text \<open>
  \<^verbatim>\<open>getContractFactory\<close>, \<^verbatim>\<open>deploy\<close>, \<^verbatim>\<open>waitForDeployment\<close> and \<^verbatim>\<open>getAddress\<close>: the library refuses a wrong number of constructor arguments before
  anything is sent.
\<close>

definition deploy :: "'k deploy_env \<Rightarrow> addr \<Rightarrow> kind \<Rightarrow> addr list \<Rightarrow> ('k net, addr) act" where
  "deploy env sender k args =
     andthen (reads (\<lambda>_. ()))
       (if length args \<noteq> arity k then throw ''incorrect number of arguments to constructor''
        else bind (effect (\<lambda>s. map_option (\<lambda>s'. (next_addr s, s')) (construct env sender k args s))) (\<lambda>a.
             andthen (reads (\<lambda>_. ())) (ret a)))"

definition call_token :: "addr \<Rightarrow> ('k token \<Rightarrow> string + 'k token) \<Rightarrow> ('k net, unit) act" where
  "call_token a f = effect (\<lambda>s. case tokens s a of None \<Rightarrow> None
     | Some tok \<Rightarrow> (case f tok of Inl _ \<Rightarrow> None | Inr tok' \<Rightarrow> Some ((), s\<lparr>tokens := (tokens s)(a \<mapsto> tok')\<rparr>)))"

definition call_registry :: "addr \<Rightarrow> (registry \<Rightarrow> string + registry) \<Rightarrow> ('k net, unit) act" where
  "call_registry a f = effect (\<lambda>s. case registries s a of None \<Rightarrow> None
     | Some r \<Rightarrow> (case f r of Inl _ \<Rightarrow> None | Inr r' \<Rightarrow> Some ((), s\<lparr>registries := (registries s)(a \<mapsto> r')\<rparr>)))"

definition load_market :: "addr \<Rightarrow> 'k net \<Rightarrow> 'k market option" where
  "load_market a s = (case markets s a of None \<Rightarrow> None
     | Some (tk, rg, pl, m) \<Rightarrow> (case (tokens s tk, registries s rg) of
         (Some tok, Some r) \<Rightarrow> Some (m\<lparr>mk_registry := r, mk_token := tok\<rparr>) | _ \<Rightarrow> None))"

definition store_market :: "addr \<Rightarrow> 'k market \<Rightarrow> 'k net \<Rightarrow> 'k net" where
  "store_market a m s = (case markets s a of None \<Rightarrow> s
     | Some (tk, rg, pl, _) \<Rightarrow> s\<lparr>markets := (markets s)(a \<mapsto> (tk, rg, pl, m)), tokens := (tokens s)(tk \<mapsto> mk_token m),
         registries := (registries s)(rg \<mapsto> mk_registry m)\<rparr>)"

definition call_market :: "addr \<Rightarrow> ('k market \<Rightarrow> string + 'k market) \<Rightarrow> ('k net, unit) act" where
  "call_market a f = effect (\<lambda>s. case load_market a s of None \<Rightarrow> None
     | Some m \<Rightarrow> (case f m of Inl _ \<Rightarrow> None | Inr m' \<Rightarrow> Some ((), store_market a m' s)))"

definition load_slashing :: "addr \<Rightarrow> 'k net \<Rightarrow> 'k slashing option" where
  "load_slashing a s = (case slashings s a of None \<Rightarrow> None
     | Some (tk, rg, x) \<Rightarrow> (case (tokens s tk, registries s rg) of
         (Some tok, Some r) \<Rightarrow> Some (x\<lparr>sl_registry := r, sl_token := tok\<rparr>) | _ \<Rightarrow> None))"

definition call_book :: "addr \<Rightarrow> ('k pledge_book \<Rightarrow> string + 'k pledge_book) \<Rightarrow> ('k net, unit) act" where
  "call_book a f = effect (\<lambda>s. case books s a of None \<Rightarrow> None
     | Some (tk, b) \<Rightarrow> (case tokens s tk of None \<Rightarrow> None
         | Some tok \<Rightarrow> (case f (b\<lparr>pb_token := tok\<rparr>) of Inl _ \<Rightarrow> None
             | Inr b' \<Rightarrow> Some ((), s\<lparr>books := (books s)(a \<mapsto> (tk, b')), tokens := (tokens s)(tk \<mapsto> pb_token b')\<rparr>))))"

definition save :: "string \<Rightarrow> addresses \<Rightarrow> ('k net, unit) act" where
  "save path ad = writes (\<lambda>s. s\<lparr>address_files := (address_files s)(path \<mapsto> ad)\<rparr>)"

section \<open>The scripts\<close>

text \<open>The signer and its balance; with no account configured, the deployer is undefined.\<close>

definition first_signer :: "'k deploy_env \<Rightarrow> ('k net, addr) act" where
  "first_signer env = andthen (reads (\<lambda>_. ()))
     (case de_signers env of [] \<Rightarrow> throw ''Cannot read properties of undefined'' | d # _ \<Rightarrow> andthen (reads (\<lambda>_. ())) (ret d))"

definition deploy_five :: "'k deploy_env \<Rightarrow> addr \<Rightarrow> ('k net, unit) act \<Rightarrow> ('k net, addr \<times> addr \<times> addr \<times> addr \<times> addr) act" where
  "deploy_five env d shown =
     bind (deploy env d StorageToken []) (\<lambda>tokenAddress.
     andthen shown (
     bind (deploy env d ProviderRegistry []) (\<lambda>registryAddress.
     bind (deploy env d CapacityPledge [tokenAddress]) (\<lambda>pledgesAddress.
     bind (deploy env d ProofVerifier []) (\<lambda>proverAddress.
     bind (deploy env d SlashingManager [tokenAddress, registryAddress]) (\<lambda>slashingAddress.
     ret (tokenAddress, registryAddress, pledgesAddress, proverAddress, slashingAddress)))))))"

definition addresses_of :: "'k deploy_env \<Rightarrow> addr \<Rightarrow> addr \<times> addr \<times> addr \<times> addr \<times> addr \<Rightarrow> addr \<Rightarrow> addr \<Rightarrow> int \<Rightarrow> string option \<Rightarrow> addresses" where
  "addresses_of env d five mk pay t version = (case five of (tk, rg, pl, pr, sl) \<Rightarrow>
     \<lparr>ad_network = de_network env, ad_chainId = de_chainId env, ad_deployer = d, ad_token = tk, ad_registry = rg, ad_pledges = pl, ad_prover = pr,
      ad_slashing = sl, ad_marketplace = mk, ad_payments = pay, ad_deployedAt = Some t, ad_version = version, ad_testAccounts = None\<rparr>)"

definition file_of :: "string \<Rightarrow> 'k deploy_env \<Rightarrow> string" where
  "file_of prefix env = prefix @ de_network env @ ''.json''"

definition deploy_js :: "'k deploy_env \<Rightarrow> ('k net, unit) act" where
  "deploy_js env =
     bind (first_signer env) (\<lambda>d.
     bind (deploy_five env d (reads (\<lambda>_. ()))) (\<lambda>(tk, rg, pl, pr, sl).
     bind (deploy env d StorageMarketplace [tk, rg, pl]) (\<lambda>mk.
     bind (deploy env d PaymentDistributor [tk, mk, pl, rg]) (\<lambda>pay.
     andthen (call_token tk (authorizeMinter d pay)) (
     andthen (call_token tk (authorizeMinter d sl)) (
     bind now (\<lambda>t. save (file_of ''./deployed-addresses-'' env) (addresses_of env d (tk, rg, pl, pr, sl) mk pay t None))))))))"

definition deploy_amoy :: "'k deploy_env \<Rightarrow> ('k net, unit) act" where
  "deploy_amoy env =
     bind (first_signer env) (\<lambda>d.
     bind (deploy_five env d (ret ())) (\<lambda>(tk, rg, pl, pr, sl).
     bind (deploy env d StorageMarketplace [tk, rg, pl, d]) (\<lambda>mk.
     bind (deploy env d PaymentDistributor [tk, mk, pl, rg]) (\<lambda>pay.
     andthen (call_token tk (authorizeMinter d pay)) (
     andthen (call_token tk (authorizeMinter d sl)) (
     bind now (\<lambda>t. save (file_of ''./deployed-addresses-'' env) (addresses_of env d (tk, rg, pl, pr, sl) mk pay t None))))))))"

definition wire :: "addr \<Rightarrow> addr \<Rightarrow> addr \<Rightarrow> addr \<Rightarrow> addr \<Rightarrow> addr \<Rightarrow> ('k net, unit) act" where
  "wire d tk rg sl mk pay =
     andthen (call_market mk (setPaymentDistributor d pay)) (
     andthen (call_token tk (authorizeMinter d pay)) (
     andthen (call_token tk (authorizeBurner d sl)) (
     andthen (call_registry rg (authorizeRecordKeeper d sl))
             (call_registry rg (authorizeRecordKeeper d mk)))))"

definition deploy_v2 :: "'k deploy_env \<Rightarrow> ('k net, unit) act" where
  "deploy_v2 env =
     bind (first_signer env) (\<lambda>d.
     bind (deploy_five env d (ret ())) (\<lambda>(tk, rg, pl, pr, sl).
     bind (deploy env d StorageMarketplace [tk, rg, pl, d]) (\<lambda>mk.
     bind (deploy env d PaymentDistributor [tk, mk, pl, rg]) (\<lambda>pay.
     andthen (wire d tk rg sl mk pay) (
     bind now (\<lambda>t. save (file_of ''./deployed-addresses-v2-'' env) (addresses_of env d (tk, rg, pl, pr, sl) mk pay t (Some ''2.0.0-renewals''))))))))"

definition upgrade_file :: string where
  "upgrade_file = ''./deployed-addresses-v2-amoy.json''"

definition upgrade_marketplace :: "'k deploy_env \<Rightarrow> ('k net, unit) act" where
  "upgrade_marketplace env =
     bind (first_signer env) (\<lambda>d.
     bind (reads (\<lambda>s. address_files s upgrade_file)) (\<lambda>found. case found of
       None \<Rightarrow> throw ''ENOENT''
     | Some ad \<Rightarrow> bind (deploy env d StorageMarketplace [ad_token ad, ad_registry ad, ad_pledges ad, d]) (\<lambda>mk.
         bind now (\<lambda>t. save upgrade_file (ad\<lparr>ad_marketplace := mk, ad_deployedAt := Some t, ad_version := Some ''2.1.0-delete-propagation''\<rparr>)))))"

section \<open>The local chain and its first deal\<close>

definition seed_provider :: "'k deploy_env \<Rightarrow> addr \<Rightarrow> addr \<Rightarrow> addr \<Rightarrow> nat \<times> addr \<Rightarrow> ('k net, unit) act" where
  "seed_provider env tk rg pl = (\<lambda>(i, p).
     andthen (call_registry rg (registerProvider p (de_block env) (''12D3KooWTestProvider'' @ nat_str i @ ''PeerId'')
       (''https://provider'' @ nat_str i @ ''.local'') (if i mod 2 = 0 then ''US-East'' else ''EU-West'') 1)) (
     andthen (call_token tk (\<lambda>tok. transferring (approve (de_oz env) p pl (5000 * 10 ^ 18) tok) ''approve''))
             (call_book pl (createPledge (de_oz env) p (de_block env) (500 + i * 10) (30 * 24 * 60 * 60) (5000 * 10 ^ 18)))))"

definition test_deal :: "addr list \<Rightarrow> deal_params" where
  "test_deal ps = \<lparr>dp_fileCID = ''QmTestFileCID'', dp_fileSizeGB = 1, dp_durationDays = 30, dp_pricePerGBMonthUSD = 5000, dp_selectedProviders = ps,
     dp_shardCIDs = map (\<lambda>i. ''QmShardCID'' @ nat_str i) [0..<15], dp_shardSizes = replicate 15 68, dp_alertDays = 7\<rparr>"

definition seed :: "'k deploy_env \<Rightarrow> addr \<Rightarrow> addr \<Rightarrow> addr list \<Rightarrow> addr \<Rightarrow> addr \<Rightarrow> addr \<Rightarrow> addr \<Rightarrow> ('k net, unit) act" where
  "seed env d client ps tk rg pl mk =
     andthen (for_each (client # ps) (\<lambda>a. call_token tk (\<lambda>tok. transferring (transfer (de_oz env) d a (100000 * 10 ^ 18) tok) ''transfer''))) (
     andthen (for_each (zip [0..<length ps] ps) (seed_provider env tk rg pl)) (
     andthen (call_token tk (\<lambda>tok. transferring (approve (de_oz env) client mk (100 * 10 ^ 18) tok) ''approve'')) (
     andthen (call_market mk (sol_createDeal (de_oz env) client (de_block env) (test_deal ps)))
             (reads (\<lambda>_. ())))))"

definition local_file :: string where
  "local_file = ''./deployed-addresses-local.json''"

definition deploy_local :: "'k deploy_env \<Rightarrow> ('k net, unit) act" where
  "deploy_local env =
     andthen (reads (\<lambda>_. ()))
       (case de_signers env of
          d # client # rest \<Rightarrow>
            (let ps = take 15 rest in
             bind (deploy_five env d (ret ())) (\<lambda>(tk, rg, pl, pr, sl).
             bind (deploy env d StorageMarketplace [tk, rg, pl, d]) (\<lambda>mk.
             bind (deploy env d PaymentDistributor [tk, mk, pl, rg]) (\<lambda>pay.
             andthen (wire d tk rg sl mk pay) (
             andthen (seed env d client ps tk rg pl mk)
               (save local_file \<lparr>ad_network = ''hardhat'', ad_chainId = 31337, ad_deployer = d, ad_token = tk, ad_registry = rg, ad_pledges = pl,
                  ad_prover = pr, ad_slashing = sl, ad_marketplace = mk, ad_payments = pay, ad_deployedAt = None, ad_version = None,
                  ad_testAccounts = Some (client, ps)\<rparr>))))))
        | _ \<Rightarrow> throw ''Cannot read properties of undefined'')"

section \<open>Nothing but the last step writes an address file\<close>

definition same_files :: "'k net \<Rightarrow> 'k net \<Rightarrow> bool" where
  "same_files s s' = (address_files s' = address_files s)"

interpretation filed: step_rel "same_files :: 'k net \<Rightarrow> 'k net \<Rightarrow> bool"
  by unfold_locales (simp_all add: same_files_def)

lemma construct_files: "construct env d k args s = Some s' \<Longrightarrow> address_files s' = address_files s \<and> next_addr s' = next_addr s + 1"
  by (auto simp: construct_def Let_def split: kind.splits list.splits)

lemma deploy_files: "steps same_files (deploy env d k args)"
proof -
  have "steps same_files (effect (\<lambda>s. map_option (\<lambda>s'. (next_addr s, s')) (construct env d k args s)))"
    by (rule filed.effect_steps) (auto simp: same_files_def dest: construct_files)
  then show ?thesis
    unfolding deploy_def by (auto intro!: filed.andthen_steps filed.bind_steps filed.reads_steps filed.ret_steps filed.throw_steps)
qed

lemma call_files:
  "steps same_files (call_token a f)" "steps same_files (call_registry a g)" "steps same_files (call_market a h)" "steps same_files (call_book a b)"
  unfolding call_token_def call_registry_def call_market_def call_book_def
  by (rule filed.effect_steps; force simp: same_files_def store_market_def split: option.splits sum.splits prod.splits)+

lemma first_signer_files: "steps same_files (first_signer env)"
  unfolding first_signer_def by (auto intro!: filed.andthen_steps filed.reads_steps filed.ret_steps filed.throw_steps split: list.split)

lemma wire_files: "steps same_files (wire d tk rg sl mk pay)"
  unfolding wire_def by (intro filed.andthen_steps call_files)

lemma seed_files: "steps same_files (seed env d c ps tk rg pl mk)"
proof -
  have "steps same_files (seed_provider env tk rg pl x)" for x
    unfolding seed_provider_def by (cases x) (auto intro!: filed.andthen_steps call_files)
  then show ?thesis unfolding seed_def by (intro filed.andthen_steps filed.for_each_steps call_files filed.reads_steps)
qed

lemma five_files: "steps same_files shown \<Longrightarrow> steps same_files (deploy_five env d shown)"
  unfolding deploy_five_def by (intro filed.bind_steps filed.andthen_steps deploy_files filed.ret_steps)

text \<open>
  The first script can never finish: it constructs the marketplace with three of its four arguments. Whatever the network does, it ends with an
  error, and no address file is written.
\<close>

theorem deploy_js_never_finishes:
  "(\<exists>e. fst (deploy_js env w) = Inl e) \<and> address_files (final (deploy_js env) w) = address_files (db w)"
proof -
  define rest where "rest = (\<lambda>d (tk, rg, pl, pr, sl). bind (deploy env d StorageMarketplace [tk, rg, pl]) (\<lambda>mk.
     bind (deploy env d PaymentDistributor [tk, mk, pl, rg]) (\<lambda>pay.
     andthen (call_token tk (authorizeMinter d pay)) (
     andthen (call_token tk (authorizeMinter d sl)) (
     bind now (\<lambda>t. save (file_of ''./deployed-addresses-'' env) (addresses_of env d (tk, rg, pl, pr, sl) mk pay t None)))))))"
  have js: "deploy_js env = bind (first_signer env) (\<lambda>d. bind (deploy_five env d (reads (\<lambda>_. ()))) (rest d))"
    by (simp add: deploy_js_def rest_def)
  have fails: "\<exists>e w'. rest d five w = (Inl e, w') \<and> db w' = db w" for d five w
    by (cases five; cases "script w"; cases "hd (script w)")
       (auto simp: rest_def deploy_def bind_def andthen_def reads_def effect_def throw_def Let_def)
  have "steps same_files (rest d five)" for d five
    using fails[of d five] by (auto simp: steps_def same_files_def final_def) (metis snd_conv)
  then have "steps same_files (deploy_js env)"
    unfolding js by (intro filed.bind_steps first_signer_files five_files filed.reads_steps)
  moreover have "\<exists>e w'. bind m (rest d) w = (Inl e, w')" for m d w
    using fails by (auto simp: bind_def split: prod.splits sum.splits) (metis)
  then have "\<exists>e. fst (deploy_js env w) = Inl e"
    unfolding js by (auto simp: bind_def[of "first_signer env"] split: prod.splits sum.splits) (metis fst_conv)
  ultimately show ?thesis by (simp add: steps_def same_files_def)
qed

section \<open>What a finished deployment has wired\<close>

lemma wp_deploy:
  assumes "length args = arity k" and "E ''rejected'' s" and "E ''refused'' s"
    and "\<And>s'. construct env d k args s = Some s' \<Longrightarrow> E ''rejected'' s' \<and> Q (next_addr s) s'"
  shows "wp t (deploy env d k args) Q E s"
  unfolding deploy_def using assms
  by (auto intro!: wp_andthen wp_bind wp_reads wp_effect wp_ret)

lemma wp_call_token:
  assumes "E ''rejected'' s" and "E ''refused'' s"
    and "\<And>tok tok'. tokens s a = Some tok \<Longrightarrow> f tok = Inr tok' \<Longrightarrow> Q () (s\<lparr>tokens := (tokens s)(a \<mapsto> tok')\<rparr>)"
  shows "wp t (call_token a f) Q E s"
  unfolding call_token_def using assms by (intro wp_effect) (auto split: option.splits sum.splits)

lemma wp_call_registry:
  assumes "E ''rejected'' s" and "E ''refused'' s"
    and "\<And>r r'. registries s a = Some r \<Longrightarrow> f r = Inr r' \<Longrightarrow> Q () (s\<lparr>registries := (registries s)(a \<mapsto> r')\<rparr>)"
  shows "wp t (call_registry a f) Q E s"
  unfolding call_registry_def using assms by (intro wp_effect) (auto split: option.splits sum.splits)

lemma wp_call_market:
  assumes "E ''rejected'' s" and "E ''refused'' s"
    and "\<And>m m'. load_market a s = Some m \<Longrightarrow> f m = Inr m' \<Longrightarrow> Q () (store_market a m' s)"
  shows "wp t (call_market a f) Q E s"
  unfolding call_market_def using assms by (intro wp_effect) (auto split: option.splits sum.splits)

text \<open>The five contracts every script starts with, before any right is given.\<close>

definition five_ok :: "addr \<Rightarrow> addr \<times> addr \<times> addr \<times> addr \<times> addr \<Rightarrow> 'k net \<Rightarrow> bool" where
  "five_ok d five s = (case five of (tk, rg, pl, pr, sl) \<Rightarrow>
     (\<exists>tok. tokens s tk = Some tok \<and> token_owner tok = d \<and> authorizedMinters tok = (\<lambda>_. False) \<and> authorizedBurners tok = (\<lambda>_. False)) \<and>
     registries s rg = Some (new_registry d) \<and>
     (\<exists>x. slashings s sl = Some (tk, rg, x) \<and> sl_self x = sl \<and> sl_owner x = d) \<and> tk < next_addr s \<and> sl < next_addr s)"

lemma wp_five:
  assumes files: "\<And>e s'. address_files s' = address_files s \<Longrightarrow> E e s'"
    and post: "\<And>five s'. five_ok d five s' \<Longrightarrow> address_files s' = address_files s \<Longrightarrow> next_addr s < next_addr s' \<Longrightarrow> Q five s'"
  shows "wp t (deploy_five env d (ret ())) Q E s"
  unfolding deploy_five_def
  by (intro wp_bind wp_deploy wp_andthen wp_ret conjI)
     (auto simp: construct_def Let_def new_token_def five_ok_def new_slashing_def intro!: files post)

lemma wp_first_signer:
  assumes "\<And>e. E e s" and "\<And>d. d \<in> set (de_signers env) \<Longrightarrow> Q d s"
  shows "wp t (first_signer env) Q E s"
  unfolding first_signer_def using assms by (auto intro!: wp_andthen wp_reads wp_throw wp_ret split: list.split)

lemma wp_save: "E ''rejected'' s \<Longrightarrow> Q () (s\<lparr>address_files := (address_files s)(path \<mapsto> ad)\<rparr>) \<Longrightarrow> wp t (save path ad) Q E s"
  unfolding save_def by (rule wp_writes)

definition fresh_market :: "'k market \<Rightarrow> bool" where
  "fresh_market m = (mk_dealCount m = 0 \<and> mk_deals m = (\<lambda>_. no_deal) \<and> mk_kynPriceUSD m = 100000 \<and> mk_feeBasisPoints m = 300)"

text \<open>The seven contracts, with the addresses they were constructed with.\<close>

definition seven_ok :: "addr \<Rightarrow> addr \<times> addr \<times> addr \<times> addr \<times> addr \<Rightarrow> addr \<Rightarrow> addr \<Rightarrow> 'k net \<Rightarrow> bool" where
  "seven_ok d five mk pay s = (five_ok d five s \<and> (case five of (tk, rg, pl, pr, sl) \<Rightarrow>
     (\<exists>m. markets s mk = Some (tk, rg, pl, m) \<and> mk_self m = mk \<and> mk_paymentDistributor m = 0 \<and> mk_owner m = d \<and> fresh_market m) \<and>
     sl \<noteq> pay \<and> payments s pay = Some (tk, mk, pl, rg, d)))"

lemma wp_seven:
  assumes "five_ok d (tk, rg, pl, pr, sl) s" and files: "\<And>e s'. address_files s' = address_files s \<Longrightarrow> E e s'"
    and post: "\<And>mk pay s'. seven_ok d (tk, rg, pl, pr, sl) mk pay s' \<Longrightarrow> address_files s' = address_files s \<Longrightarrow> next_addr s \<le> mk \<Longrightarrow> wp t (f mk pay) Q E s'"
  shows "wp t (bind (deploy env d StorageMarketplace [tk, rg, pl, d]) (\<lambda>mk. bind (deploy env d PaymentDistributor [tk, mk, pl, rg]) (f mk))) Q E s"
  by (intro wp_bind wp_deploy wp_ret conjI)
     (use assms(1) in \<open>auto simp: construct_def Let_def seven_ok_def five_ok_def new_market_def fresh_market_def intro!: files post\<close>)

definition wired :: "addresses \<Rightarrow> 'k net \<Rightarrow> bool" where
  "wired ad s = (\<exists>tok r m x. tokens s (ad_token ad) = Some tok \<and> registries s (ad_registry ad) = Some r \<and>
     load_market (ad_marketplace ad) s = Some m \<and> mk_self m = ad_marketplace ad \<and> mk_token m = tok \<and> mk_registry m = r \<and>
     load_slashing (ad_slashing ad) s = Some x \<and> sl_self x = ad_slashing ad \<and> sl_token x = tok \<and> sl_registry x = r \<and>
     payments s (ad_payments ad) = Some (ad_token ad, ad_marketplace ad, ad_pledges ad, ad_registry ad, ad_deployer ad) \<and>
     mk_paymentDistributor m = ad_payments ad \<and> authorizedMinters tok (ad_payments ad) \<and> authorizedBurners tok (ad_slashing ad) \<and>
     is_keeper (ad_slashing ad) r \<and> is_keeper (ad_marketplace ad) r)"

definition wired_at :: "addr \<Rightarrow> addr \<Rightarrow> addr \<Rightarrow> addr \<Rightarrow> addr \<Rightarrow> addr \<Rightarrow> addr \<Rightarrow> 'k net \<Rightarrow> bool" where
  "wired_at d tk rg pl sl mk pay s = (\<exists>tok r m x. tokens s tk = Some tok \<and> registries s rg = Some r \<and> markets s mk = Some (tk, rg, pl, m) \<and>
     slashings s sl = Some (tk, rg, x) \<and> mk_self m = mk \<and> sl_self x = sl \<and> payments s pay = Some (tk, mk, pl, rg, d) \<and>
     mk_paymentDistributor m = pay \<and> authorizedMinters tok pay \<and> authorizedBurners tok sl \<and> is_keeper sl r \<and> is_keeper mk r \<and>
     sl \<noteq> pay \<and> (\<forall>a. authorizedMinters tok a \<longrightarrow> a = pay))"

definition fresh_at :: "addr \<Rightarrow> 'k net \<Rightarrow> bool" where
  "fresh_at mk s = (\<exists>tk rg pl m. markets s mk = Some (tk, rg, pl, m) \<and> fresh_market m)"

lemma new_registry_rights [simp]: "recordKeepers (new_registry d) = (\<lambda>_. False)" "reg_owner (new_registry d) = d"
  by (simp_all add: new_registry_def)

lemma wp_then:
  assumes "wp t m (\<lambda>_. P) E s" and "\<And>s'. P s' \<Longrightarrow> wp t k Q E s'"
  shows "wp t (andthen m k) Q E s"
  by (rule wp_andthen, rule wp_mono[OF assms(1)]) (use assms(2) in auto)

lemma wp_wire:
  assumes "seven_ok d (tk, rg, pl, pr, sl) mk pay s" and files: "\<And>e s'. address_files s' = address_files s \<Longrightarrow> E e s'"
    and post: "\<And>s'. wired_at d tk rg pl sl mk pay s' \<Longrightarrow> fresh_at mk s' \<Longrightarrow> address_files s' = address_files s \<Longrightarrow> Q () s'"
  shows "wp t (wire d tk rg sl mk pay) Q E s"
proof -
  obtain tok m x where s: "tokens s tk = Some tok" "token_owner tok = d" "registries s rg = Some (new_registry d)" "authorizedMinters tok = (\<lambda>_. False)"
      "markets s mk = Some (tk, rg, pl, m)" "mk_self m = mk" "slashings s sl = Some (tk, rg, x)" "sl_self x = sl" "payments s pay = Some (tk, mk, pl, rg, d)"
      "sl \<noteq> pay" "fresh_market m"
    using assms(1) by (auto simp: seven_ok_def five_ok_def)
  define m1 where "m1 = m\<lparr>mk_registry := new_registry d, mk_token := tok, mk_paymentDistributor := pay\<rparr>"
  have m1: "mk_self m1 = mk" "mk_paymentDistributor m1 = pay" "fresh_market m1" using s(6,11) by (simp_all add: m1_def fresh_market_def)
  define P where "P = (\<lambda>tok' r' (s' :: 'a net). tokens s' tk = Some tok' \<and> registries s' rg = Some r' \<and> markets s' mk = Some (tk, rg, pl, m1) \<and>
    slashings s' = slashings s \<and> payments s' = payments s \<and> address_files s' = address_files s)"
  have E: "P tok' r' s' \<Longrightarrow> E e s'" for tok' r' s' e by (rule files) (simp add: P_def)
  let ?t1 = "tok\<lparr>authorizedMinters := (\<lambda>_. False)(pay := True)\<rparr>"
  let ?t2 = "?t1\<lparr>authorizedBurners := (authorizedBurners tok)(sl := True)\<rparr>"
  let ?r1 = "(new_registry d)\<lparr>recordKeepers := (\<lambda>_. False)(sl := True)\<rparr>"
  let ?r2 = "?r1\<lparr>recordKeepers := (\<lambda>_. False)(sl := True, mk := True)\<rparr>"
  have 1: "wp t (call_market mk (setPaymentDistributor d pay)) (\<lambda>_. P tok (new_registry d)) E s"
  proof (rule wp_call_market)
    fix m0 m' assume m0: "load_market mk s = Some m0" "setPaymentDistributor d pay m0 = Inr m'"
    have "m0 = m\<lparr>mk_registry := new_registry d, mk_token := tok\<rparr>" using m0(1) s(1,3,5) by (simp add: load_market_def)
    moreover have "m' = m0\<lparr>mk_paymentDistributor := pay\<rparr>" using m0(2) by (simp add: setPaymentDistributor_def)
    ultimately have "m' = m1" by (simp add: m1_def)
    then show "P tok (new_registry d) (store_market mk m' s)"
      using s(5) m1 by (simp add: P_def store_market_def m1_def)
  qed (simp_all add: files)
  have 2: "wp t (call_token tk (authorizeMinter d pay)) (\<lambda>_. P ?t1 (new_registry d)) E s'" if "P tok (new_registry d) s'" for s'
    by (rule wp_call_token) (use that s E[OF that] in \<open>auto simp: P_def authorizeMinter_def\<close>)
  have 3: "wp t (call_token tk (authorizeBurner d sl)) (\<lambda>_. P ?t2 (new_registry d)) E s'" if "P ?t1 (new_registry d) s'" for s'
    by (rule wp_call_token) (use that s E[OF that] in \<open>auto simp: P_def authorizeBurner_def\<close>)
  have 4: "wp t (call_registry rg (authorizeRecordKeeper d sl)) (\<lambda>_. P ?t2 ?r1) E s'" if "P ?t2 (new_registry d) s'" for s'
  proof (rule wp_call_registry)
    fix r r' assume r: "registries s' rg = Some r" "authorizeRecordKeeper d sl r = Inr r'"
    have "r = new_registry d" using r(1) that by (simp add: P_def)
    then have "r' = ?r1" using r(2) by (simp add: authorizeRecordKeeper_def)
    then show "P ?t2 ?r1 (s'\<lparr>registries := (registries s')(rg \<mapsto> r')\<rparr>)" using that by (simp add: P_def)
  qed (rule E[OF that])+
  have 5: "wp t (call_registry rg (authorizeRecordKeeper d mk)) (\<lambda>_. P ?t2 ?r2) E s'" if "P ?t2 ?r1 s'" for s'
  proof (rule wp_call_registry)
    fix r r' assume r: "registries s' rg = Some r" "authorizeRecordKeeper d mk r = Inr r'"
    have "r = ?r1" using r(1) that by (simp add: P_def)
    then have "r' = ?r2" using r(2) by (simp add: authorizeRecordKeeper_def)
    then show "P ?t2 ?r2 (s'\<lparr>registries := (registries s')(rg \<mapsto> r')\<rparr>)" using that by (simp add: P_def)
  qed (rule E[OF that])+
  have fin: "Q () s'" if "P ?t2 ?r2 s'" for s'
  proof (rule post)
    show "wired_at d tk rg pl sl mk pay s'"
      unfolding wired_at_def using that s m1
      by (intro exI[of _ ?t2] exI[of _ ?r2] exI[of _ m1] exI[of _ x]) (simp add: P_def is_keeper_def)
  qed (use that m1(3) in \<open>auto simp: P_def fresh_at_def\<close>)
  show ?thesis
    unfolding wire_def
    by (intro wp_then[OF 1] wp_then[OF 2] wp_then[OF 3] wp_then[OF 4] wp_mono[OF 5]) (auto intro: fin)
qed

lemma wired_here:
  assumes "wired_at d tk rg pl sl mk pay s" and "ad_token ad = tk" "ad_registry ad = rg" "ad_pledges ad = pl" "ad_slashing ad = sl" "ad_marketplace ad = mk"
    "ad_payments ad = pay" "ad_deployer ad = d"
  shows "wired ad (s\<lparr>address_files := f\<rparr>)"
proof -
  obtain tok r m x where s: "tokens s tk = Some tok" "registries s rg = Some r" "markets s mk = Some (tk, rg, pl, m)" "slashings s sl = Some (tk, rg, x)"
      "mk_self m = mk" "sl_self x = sl" "payments s pay = Some (tk, mk, pl, rg, d)" "mk_paymentDistributor m = pay" "authorizedMinters tok pay"
      "authorizedBurners tok sl" "is_keeper sl r" "is_keeper mk r"
    using assms(1) unfolding wired_at_def by blast
  show ?thesis
    unfolding wired_def assms(2-8)
    by (intro exI[of _ tok] exI[of _ r] exI[of _ "m\<lparr>mk_registry := r, mk_token := tok\<rparr>"] exI[of _ "x\<lparr>sl_registry := r, sl_token := tok\<rparr>"])
       (simp add: load_market_def load_slashing_def s)
qed

text \<open>Nobody but the distributor may mint, so not the slashing manager either.\<close>

definition no_refunds :: "addresses \<Rightarrow> 'k net \<Rightarrow> bool" where
  "no_refunds ad s = (\<exists>x. load_slashing (ad_slashing ad) s = Some x \<and> \<not> authorizedMinters (sl_token x) (sl_self x))"

lemma no_refunds_here:
  assumes "wired_at d tk rg pl sl mk pay s" and "ad_slashing ad = sl"
  shows "no_refunds ad (s\<lparr>address_files := f\<rparr>)"
proof -
  obtain tok r x where s: "tokens s tk = Some tok" "registries s rg = Some r" "slashings s sl = Some (tk, rg, x)" "sl_self x = sl" "\<not> authorizedMinters tok sl"
    using assms(1) unfolding wired_at_def by blast
  then show ?thesis
    unfolding no_refunds_def assms(2) by (intro exI[of _ "x\<lparr>sl_registry := r, sl_token := tok\<rparr>"]) (simp add: load_slashing_def)
qed

lemma v2_result:
  assumes "f = file_of ''./deployed-addresses-v2-'' env" and "address_files (db w) f = None" and "address_files (final (deploy_v2 env) w) f = Some ad"
  shows "wired ad (final (deploy_v2 env) w) \<and> no_refunds ad (final (deploy_v2 env) w)"
proof -
  let ?P = "\<lambda>s :: 'a net. \<forall>ad. address_files s f = Some ad \<longrightarrow> wired ad s \<and> no_refunds ad s"
  have none: "?P s" if "address_files s = address_files (db w)" for s using that assms(2) by simp
  have "wp (clock w) (deploy_v2 env) (\<lambda>_. ?P) (\<lambda>_. ?P) (db w)"
    unfolding deploy_v2_def
  proof (intro wp_bind wp_first_signer, goal_cases)
    case (2 d)
    show ?case
    proof (rule wp_five, goal_cases)
      case (2 five s1)
      obtain tk rg pl pr sl where five: "five = (tk, rg, pl, pr, sl)" by (cases five)
      show ?case
        unfolding five prod.case
        by (rule wp_seven[OF 2(1)[unfolded five]]; (intro wp_then[OF wp_wire])?)
           (use 2 assms(1,2) in \<open>auto intro!: none wp_bind wp_now wp_save wired_here no_refunds_here simp: addresses_of_def\<close>)
    qed (simp add: none)
  qed (simp add: none)
  then have "?P (final (deploy_v2 env) w)" by (rule wp_final_now)
  then show ?thesis using assms(3) by blast
qed


section \<open>What the other scripts leave out\<close>

lemma complete_needs_keeper:
  "\<not> is_keeper self r \<Longrightarrow> p \<in> set ps \<Longrightarrow> al_active (k_alloc d p) \<Longrightarrow> \<exists>e. complete_shards self ps r d = Inl e"
  by (induction ps arbitrary: d) (auto simp: recordDealCompleted_def)

lemma completeDeal_needs_keeper:
  assumes "\<not> is_keeper (mk_self m) (mk_registry m)" and "shards_ok (mk_deals m i)"
  shows "\<exists>e. completeDeal T t i m = Inl e"
proof (rule ccontr)
  let ?d = "mk_deals m i"
  assume "\<nexists>e. completeDeal T t i m = Inl e"
  then obtain m' where ok: "completeDeal T t i m = Inr m'" by (cases "completeDeal T t i m") auto
  then have "10 \<le> k_activeShards ?d" by (auto simp: completeDeal_def Let_def)
  then have "{p \<in> set (k_providers ?d). al_active (k_alloc ?d p)} \<noteq> {}" using assms(2) unfolding shards_ok_def by (metis card.empty not_numeral_le_zero)
  then obtain p where "p \<in> set (k_providers ?d)" "al_active (k_alloc (?d\<lparr>k_status := SolCompleted\<rparr>) p)" by auto
  from complete_needs_keeper[OF assms(1) this] show False using ok by (auto simp: completeDeal_def Let_def)
qed

lemma slash_needs_burner:
  assumes "\<not> authorizedBurners (sl_token x) (sl_self x)"
  shows "\<exists>e. slashMissedPost T s t p n x = Inl e" "\<exists>e. slashDataLoss T s t p n x = Inl e"
  using assms
  by (auto simp: slashMissedPost_def slashDataLoss_def applySlashing_def burnFrom_def Let_def req_def and_then_def split: sum.splits)

lemma appeal_needs_minter:
  "\<not> authorizedMinters (sl_token x) (sl_self x) \<Longrightarrow> \<exists>e. resolveAppeal T s p i False x = Inl e"
  by (auto simp: resolveAppeal_def mint_def Let_def req_def)

definition amoy_left :: "addresses \<Rightarrow> 'k net \<Rightarrow> bool" where
  "amoy_left ad s = (\<exists>m x. load_market (ad_marketplace ad) s = Some m \<and> load_slashing (ad_slashing ad) s = Some x \<and>
     mk_paymentDistributor m = 0 \<and> \<not> is_keeper (mk_self m) (mk_registry m) \<and> \<not> authorizedBurners (sl_token x) (sl_self x))"

lemma amoy_saved:
  assumes "seven_ok d (tk, rg, pl, pr, sl) mk pay s" and "tokens s tk = Some tok" and "d < mk"
    and "tok' = tok\<lparr>authorizedMinters := mint'\<rparr>"
  shows "amoy_left (addresses_of env d (tk, rg, pl, pr, sl) mk pay t v) (s\<lparr>tokens := (tokens s)(tk \<mapsto> tok'), address_files := f\<rparr>)"
proof -
  obtain m x where s: "registries s rg = Some (new_registry d)" "markets s mk = Some (tk, rg, pl, m)" "mk_self m = mk" "mk_paymentDistributor m = 0"
      "slashings s sl = Some (tk, rg, x)" "sl_self x = sl" "authorizedBurners tok = (\<lambda>_. False)"
    using assms(1,2) by (auto simp: seven_ok_def five_ok_def)
  show ?thesis
    unfolding amoy_left_def addresses_of_def prod.case
    by (intro exI[of _ "m\<lparr>mk_registry := new_registry d, mk_token := tok'\<rparr>"] exI[of _ "x\<lparr>sl_registry := new_registry d, sl_token := tok'\<rparr>"])
       (use assms(3) in \<open>simp add: load_market_def load_slashing_def s is_keeper_def assms(4)\<close>)
qed

lemma amoy_result:
  assumes "f = file_of ''./deployed-addresses-'' env" and "address_files (db w) f = None" and "\<forall>d \<in> set (de_signers env). d < next_addr (db w)"
    and "address_files (final (deploy_amoy env) w) f = Some ad"
  shows "amoy_left ad (final (deploy_amoy env) w)"
proof -
  let ?P = "\<lambda>s :: 'a net. \<forall>ad. address_files s f = Some ad \<longrightarrow> amoy_left ad s"
  have none: "?P s" if "address_files s = address_files (db w)" for s using that assms(2) by simp
  have "wp (clock w) (deploy_amoy env) (\<lambda>_. ?P) (\<lambda>_. ?P) (db w)"
    unfolding deploy_amoy_def
  proof (intro wp_bind wp_first_signer, goal_cases)
    case (2 d)
    show ?case
    proof (rule wp_five, goal_cases)
      case (2 five s1)
      obtain tk rg pl pr sl where five: "five = (tk, rg, pl, pr, sl)" by (cases five)
      show ?case
        unfolding five prod.case
      proof (rule wp_seven[OF 2(1)[unfolded five]], goal_cases)
        case (2 mk pay s2)
        have d: "d < mk" using 2(3) \<open>d \<in> set (de_signers env)\<close> assms(3) \<open>next_addr (db w) < next_addr s1\<close> by fastforce
        note same = 2(2)[unfolded \<open>address_files s1 = address_files (db w)\<close>]
        obtain tok where tok: "tokens s2 tk = Some tok" using 2(1) by (auto simp: seven_ok_def five_ok_def)
        define M where "M mi = s2\<lparr>tokens := (tokens s2)(tk \<mapsto> tok\<lparr>authorizedMinters := mi\<rparr>)\<rparr>" for mi
        have s2: "s2 = M (authorizedMinters tok)" using tok by (simp add: M_def fun_upd_idem)
        have P: "?P (M mi)" for mi by (rule none) (simp add: M_def same)
        have auth: "wp (clock w) (call_token tk (authorizeMinter d a)) (\<lambda>_ s'. \<exists>mi. s' = M mi) (\<lambda>_. ?P) s'" if "\<exists>mi. s' = M mi" for a s'
          by (rule wp_call_token) (use that P in \<open>(auto simp: M_def authorizeMinter_def)[1], blast?\<close>)+
        have "?P (M mi\<lparr>address_files := (address_files (M mi))(f \<mapsto> addresses_of env d (tk, rg, pl, pr, sl) mk pay t None)\<rparr>)" for mi t
          using amoy_saved[OF 2(1) tok d refl] by (simp add: M_def)
        then have last: "wp (clock w) (bind now (\<lambda>t. save f (addresses_of env d (tk, rg, pl, pr, sl) mk pay t None))) (\<lambda>_. ?P) (\<lambda>_. ?P) s'"
          if "\<exists>mi. s' = M mi" for s' using that P by (intro wp_bind wp_now wp_save) blast+
        show ?case unfolding assms(1)[symmetric]
          by (rule wp_then[OF auth], use s2 in blast, rule wp_then[OF auth], assumption, rule last)
      qed (use 2 in \<open>simp add: none\<close>)
    qed (simp add: none)
  qed (simp add: none)
  then have "?P (final (deploy_amoy env) w)" by (rule wp_final_now)
  then show ?thesis using assms(4) by blast
qed


text \<open>
  No appeal can be won after the second version of the script: a refund is minted by the slashing manager, and the
  script makes it a burner only. Whatever was slashed and appealed, resolving an appeal in the provider's favour reverts.
\<close>

theorem appeals_cannot_be_won:
  assumes "f = file_of ''./deployed-addresses-v2-'' env" and "address_files (db w) f = None" and "s = final (deploy_v2 env) w" and "address_files s f = Some ad"
  shows "\<exists>x. load_slashing (ad_slashing ad) s = Some x \<and>
    (\<forall>T sender p i h. \<exists>e. resolveAppeal T sender p i False (x\<lparr>slashingHistory := h\<rparr>) = Inl e)"
proof -
  have "no_refunds ad s" using v2_result[OF assms(1,2)] assms(3,4) by simp
  then obtain x where x: "load_slashing (ad_slashing ad) s = Some x" "\<not> authorizedMinters (sl_token x) (sl_self x)"
    unfolding no_refunds_def by blast
  have "\<exists>e. resolveAppeal T sender p i False (x\<lparr>slashingHistory := h\<rparr>) = Inl e" for T sender p i h
    using x(2) by (intro appeal_needs_minter) simp
  with x(1) show ?thesis by blast
qed

text \<open>
  The script that replaces the marketplace breaks the wiring: the new marketplace has no right on the registry and no distributor, so its deals cannot be settled,
  and the distributor still reads the deals of the old one.
\<close>

theorem upgrade_unwires:
  assumes "address_files (db w) upgrade_file = Some dep_ad0" and "wired dep_ad0 (db w)" and "ad_marketplace dep_ad0 < next_addr (db w)"
    and "\<forall>r. registries (db w) (ad_registry dep_ad0) = Some r \<longrightarrow> \<not> is_keeper (next_addr (db w)) r"
    and "s = final (upgrade_marketplace env) w" and "address_files s upgrade_file = Some ad" and "ad \<noteq> dep_ad0"
  shows "\<exists>m. load_market (ad_marketplace ad) s = Some m \<and> mk_paymentDistributor m = 0 \<and>
    (\<forall>T t i deals. shards_ok (deals i) \<longrightarrow> (\<exists>e. completeDeal T t i (m\<lparr>mk_deals := deals\<rparr>) = Inl e)) \<and>
    ad_marketplace ad \<noteq> ad_marketplace dep_ad0 \<and>
    payments s (ad_payments ad) = Some (ad_token dep_ad0, ad_marketplace dep_ad0, ad_pledges dep_ad0, ad_registry dep_ad0, ad_deployer dep_ad0)"
proof -
  obtain tok r where s0: "tokens (db w) (ad_token dep_ad0) = Some tok" "registries (db w) (ad_registry dep_ad0) = Some r"
      "payments (db w) (ad_payments dep_ad0) = Some (ad_token dep_ad0, ad_marketplace dep_ad0, ad_pledges dep_ad0, ad_registry dep_ad0, ad_deployer dep_ad0)"
    using assms(2) unfolding wired_def by blast
  let ?a = "next_addr (db w)"
  define m where "m d = (new_market ?a d d (new_registry 0) (blank_token (de_k0 env)))\<lparr>mk_registry := r, mk_token := tok\<rparr>" for d
  let ?P = "\<lambda>s :: 'a net. address_files s upgrade_file = Some dep_ad0 \<or> (\<exists>ad d. address_files s upgrade_file = Some ad \<and>
    load_market (ad_marketplace ad) s = Some (m d) \<and> ad_marketplace ad = ?a \<and> ad_payments ad = ad_payments dep_ad0 \<and> payments s = payments (db w))"
  have "wp (clock w) (upgrade_marketplace env) (\<lambda>_. ?P) (\<lambda>_. ?P) (db w)"
    unfolding upgrade_marketplace_def
    by (intro wp_bind wp_first_signer wp_reads)
       (use assms(1) s0 in \<open>auto simp: construct_def Let_def m_def[symmetric] load_market_def intro!: wp_bind wp_deploy wp_now wp_save, blast\<close>)
  then have "?P s" unfolding assms(5) by (rule wp_final_now)
  then obtain d where d: "load_market (ad_marketplace ad) s = Some (m d)" "ad_marketplace ad = ?a" "ad_payments ad = ad_payments dep_ad0" "payments s = payments (db w)"
    using assms(6,7) by auto
  have "\<not> is_keeper (mk_self (m d)) (mk_registry (m d))" using assms(4) s0(2) by (simp add: m_def new_market_def)
  then have "\<exists>e. completeDeal T t i ((m d)\<lparr>mk_deals := deals\<rparr>) = Inl e" if "shards_ok (deals i)" for T t i deals
    using completeDeal_needs_keeper[of "(m d)\<lparr>mk_deals := deals\<rparr>" i T t] that by simp
  moreover have "mk_paymentDistributor (m d) = 0" by (simp add: m_def new_market_def)
  ultimately show ?thesis using d s0(3) assms(3) by (intro exI[of _ "m d"]) simp
qed

section \<open>The seeded chain\<close>

definition same_rights :: "'k token \<Rightarrow> 'k token \<Rightarrow> bool" where
  "same_rights tok tok' = (authorizedMinters tok' = authorizedMinters tok \<and> authorizedBurners tok' = authorizedBurners tok)"

definition keeps_rights :: "'k net \<Rightarrow> 'k net \<Rightarrow> bool" where
  "keeps_rights s s' = (markets s' = markets s \<and> slashings s' = slashings s \<and> payments s' = payments s \<and> address_files s' = address_files s \<and>
     (\<forall>a tok. tokens s a = Some tok \<longrightarrow> (\<exists>tok'. tokens s' a = Some tok' \<and> same_rights tok tok')) \<and>
     (\<forall>a r. registries s a = Some r \<longrightarrow> (\<exists>r'. registries s' a = Some r' \<and> reg_owner r' = reg_owner r \<and> recordKeepers r' = recordKeepers r)))"

interpretation rights: step_rel "keeps_rights :: 'k net \<Rightarrow> 'k net \<Rightarrow> bool"
proof
  fix a b c :: "'k net"
  show "keeps_rights a a" by (simp add: keeps_rights_def same_rights_def)
  assume ab: "keeps_rights a b" and bc: "keeps_rights b c"
  have "\<exists>tok'. tokens c x = Some tok' \<and> same_rights tok tok'" if "tokens a x = Some tok" for x tok
    using ab bc that unfolding keeps_rights_def same_rights_def by metis
  moreover have "\<exists>r'. registries c x = Some r' \<and> reg_owner r' = reg_owner r \<and> recordKeepers r' = recordKeepers r" if "registries a x = Some r" for x r
    using ab bc that unfolding keeps_rights_def by metis
  ultimately show "keeps_rights a c" using ab bc by (simp add: keeps_rights_def)
qed

lemma call_token_rights:
  assumes "\<And>tok tok'. f tok = Inr tok' \<Longrightarrow> same_rights tok tok'"
  shows "steps keeps_rights (call_token a f)"
  unfolding call_token_def
proof (rule rights.effect_steps)
  fix s s' :: "'a net" and x :: unit assume "(case tokens s a of None \<Rightarrow> None | Some tok \<Rightarrow> (case f tok of Inl _ \<Rightarrow> None
      | Inr tok' \<Rightarrow> Some ((), s\<lparr>tokens := (tokens s)(a \<mapsto> tok')\<rparr>))) = Some (x, s')"
  then obtain tok tok' where t: "tokens s a = Some tok" "f tok = Inr tok'" "s' = s\<lparr>tokens := (tokens s)(a \<mapsto> tok')\<rparr>"
    by (auto split: option.splits sum.splits)
  from assms[OF t(2)] show "keeps_rights s s'" using t(1,3) by (auto simp: keeps_rights_def same_rights_def)
qed

lemma call_registry_rights:
  assumes "\<And>r r'. f r = Inr r' \<Longrightarrow> reg_owner r' = reg_owner r \<and> recordKeepers r' = recordKeepers r"
  shows "steps keeps_rights (call_registry a f)"
  unfolding call_registry_def
proof (rule rights.effect_steps)
  fix s s' :: "'a net" and x :: unit assume "(case registries s a of None \<Rightarrow> None | Some r \<Rightarrow> (case f r of Inl _ \<Rightarrow> None
      | Inr r' \<Rightarrow> Some ((), s\<lparr>registries := (registries s)(a \<mapsto> r')\<rparr>))) = Some (x, s')"
  then obtain r r' where t: "registries s a = Some r" "f r = Inr r'" "s' = s\<lparr>registries := (registries s)(a \<mapsto> r')\<rparr>"
    by (auto split: option.splits sum.splits)
  from assms[OF t(2)] show "keeps_rights s s'" using t(1,3) by (auto simp: keeps_rights_def same_rights_def)
qed

lemma call_book_rights:
  assumes "\<And>b b'. f b = Inr b' \<Longrightarrow> same_rights (pb_token b) (pb_token b')"
  shows "steps keeps_rights (call_book a f)"
proof -
  have "same_rights tok (pb_token b')" if "f (b\<lparr>pb_token := tok\<rparr>) = Inr b'" for b b' tok using assms[OF that] by simp
  then show ?thesis
    unfolding call_book_def
    by (intro rights.effect_steps) (auto simp: keeps_rights_def same_rights_def split: option.splits sum.splits)
qed

lemma seed_provider_rights: "steps keeps_rights (seed_provider env tk rg pl x)"
proof (cases x)
  case (Pair i p)
  have "same_rights (pb_token b) (pb_token b')" if "createPledge T p t gb dur n b = Inr b'" for T t gb dur n and b b' :: "'a pledge_book"
    using that by (auto simp: createPledge_def transferFrom_def same_rights_def)
  then show ?thesis
    unfolding Pair seed_provider_def prod.case
    by (intro rights.andthen_steps call_token_rights call_registry_rights call_book_rights)
       (auto simp: registerProvider_def set_provider_def approve_def same_rights_def)
qed

lemma wired_at_rights:
  assumes "keeps_rights s s'" and "wired_at d tk rg pl sl mk pay s"
  shows "wired_at d tk rg pl sl mk pay s'"
proof -
  obtain tok r m x where s: "tokens s tk = Some tok" "registries s rg = Some r" "markets s mk = Some (tk, rg, pl, m)" "slashings s sl = Some (tk, rg, x)"
      "mk_self m = mk" "sl_self x = sl" "payments s pay = Some (tk, mk, pl, rg, d)" "mk_paymentDistributor m = pay" "authorizedMinters tok pay"
      "authorizedBurners tok sl" "is_keeper sl r" "is_keeper mk r" "sl \<noteq> pay" "\<forall>a. authorizedMinters tok a \<longrightarrow> a = pay"
    using assms(2) unfolding wired_at_def by blast
  obtain tok' where tok': "tokens s' tk = Some tok'" "authorizedMinters tok' = authorizedMinters tok" "authorizedBurners tok' = authorizedBurners tok"
    using assms(1) s(1) unfolding keeps_rights_def same_rights_def by blast
  obtain r' where r': "registries s' rg = Some r'" "reg_owner r' = reg_owner r" "recordKeepers r' = recordKeepers r"
    using assms(1) s(2) unfolding keeps_rights_def by blast
  have "markets s' = markets s" "slashings s' = slashings s" "payments s' = payments s" using assms(1) by (simp_all add: keeps_rights_def)
  moreover have "\<forall>a. authorizedMinters tok' a \<longrightarrow> a = pay" using s(14) unfolding tok'(2) .
  moreover have "is_keeper sl r'" "is_keeper mk r'" using s(11,12) r'(2,3) by (simp_all add: is_keeper_def)
  moreover have "authorizedMinters tok' pay" "authorizedBurners tok' sl" using s(9,10) tok'(2,3) by simp_all
  ultimately show ?thesis
    unfolding wired_at_def using s(3-8,13) tok'(1) r'(1) by metis
qed

definition deal_there :: "addr \<Rightarrow> addr \<Rightarrow> addr list \<Rightarrow> 'k net \<Rightarrow> bool" where
  "deal_there mk client ps s = (\<exists>m. load_market mk s = Some m \<and> mk_dealCount m = 1 \<and> k_client (mk_deals m 0) = client \<and>
     k_status (mk_deals m 0) = SolActive \<and> k_activeShards (mk_deals m 0) = 15 \<and> k_providers (mk_deals m 0) = ps \<and> k_escrow (mk_deals m 0) = 515 * 10 ^ 14)"

lemma test_deal_result:
  assumes "sol_createDeal T client t (test_deal ps) m = Inr m'" and "fresh_market m"
  shows "mk_dealCount m' = 1" "k_client (mk_deals m' 0) = client" "k_status (mk_deals m' 0) = SolActive" "k_activeShards (mk_deals m' 0) = 15"
    "k_providers (mk_deals m' 0) = ps" "k_escrow (mk_deals m' 0) = 515 * 10 ^ 14" "same_rights (mk_token m) (mk_token m')" "mk_registry m' = mk_registry m"
    "mk_self m' = mk_self m" "mk_paymentDistributor m' = mk_paymentDistributor m"
  using assms by (auto simp: sol_createDeal_def test_deal_def fresh_market_def Let_def no_deal_def transferFrom_def same_rights_def)

lemma load_market_files: "load_market mk (s\<lparr>address_files := f\<rparr>) = load_market mk s"
  by (simp add: load_market_def split: option.split prod.split)

lemma wp_test_deal:
  assumes "wired_at d tk rg pl sl mk pay s" and "fresh_at mk s" and files: "\<And>e s'. address_files s' = address_files s \<Longrightarrow> E e s'"
    and post: "\<And>s'. wired_at d tk rg pl sl mk pay s' \<Longrightarrow> deal_there mk client ps s' \<Longrightarrow> address_files s' = address_files s \<Longrightarrow> Q () s'"
  shows "wp t (call_market mk (sol_createDeal T client b (test_deal ps))) Q E s"
proof (rule wp_call_market)
  fix m m' assume m: "load_market mk s = Some m" "sol_createDeal T client b (test_deal ps) m = Inr m'"
  obtain tok r m0 x where s: "tokens s tk = Some tok" "registries s rg = Some r" "markets s mk = Some (tk, rg, pl, m0)" "slashings s sl = Some (tk, rg, x)"
      "mk_self m0 = mk" "sl_self x = sl" "payments s pay = Some (tk, mk, pl, rg, d)" "mk_paymentDistributor m0 = pay" "authorizedMinters tok pay"
      "authorizedBurners tok sl" "is_keeper sl r" "is_keeper mk r" "sl \<noteq> pay" "\<forall>a. authorizedMinters tok a \<longrightarrow> a = pay"
    using assms(1) unfolding wired_at_def by blast
  have m0: "m = m0\<lparr>mk_registry := r, mk_token := tok\<rparr>" using m(1) s(1-3) by (simp add: load_market_def)
  have "fresh_market m0" using assms(2) s(3) by (auto simp: fresh_at_def)
  then have "fresh_market m" by (simp add: m0 fresh_market_def)
  note res = test_deal_result[OF m(2) this]
  let ?s = "store_market mk m' s"
  have at: "tokens ?s tk = Some (mk_token m')" "registries ?s rg = Some r" "markets ?s mk = Some (tk, rg, pl, m')" "slashings ?s = slashings s"
      "payments ?s = payments s" "address_files ?s = address_files s"
    using s(3) res(8) by (simp_all add: store_market_def m0)
  have rights: "authorizedMinters (mk_token m') = authorizedMinters tok" "authorizedBurners (mk_token m') = authorizedBurners tok"
    using res(7) by (simp_all add: m0 same_rights_def)
  have "mk_self m' = mk" "mk_paymentDistributor m' = pay" using res(9,10) s(5,8) by (simp_all add: m0)
  moreover have "\<forall>a. authorizedMinters (mk_token m') a \<longrightarrow> a = pay" using s(14) unfolding rights(1) .
  moreover have "authorizedMinters (mk_token m') pay" "authorizedBurners (mk_token m') sl" using rights s(9,10) by simp_all
  ultimately have "wired_at d tk rg pl sl mk pay ?s" unfolding wired_at_def at(4,5) using at(1-3) s(4,6,7,11-13) by metis
  moreover have "load_market mk ?s = Some m'" using at(1-3) res(8) by (simp add: load_market_def m0)
  then have "deal_there mk client ps ?s" unfolding deal_there_def using res(1-6) by blast
  ultimately show "Q () ?s" using at(6) by (rule post)
qed (simp_all add: files)

lemma wp_seed:
  assumes "wired_at d tk rg pl sl mk pay s" and "fresh_at mk s" and files: "\<And>e s'. address_files s' = address_files s \<Longrightarrow> E e s'"
    and post: "\<And>s'. wired_at d tk rg pl sl mk pay s' \<Longrightarrow> deal_there mk client ps s' \<Longrightarrow> address_files s' = address_files s \<Longrightarrow> Q () s'"
  shows "wp t (seed env d client ps tk rg pl mk) Q E s"
proof -
  define fund where "fund = for_each (client # ps) (\<lambda>a. call_token tk (\<lambda>tok. transferring (transfer (de_oz env) d a (100000 * 10 ^ 18) tok) ''transfer''))"
  define reg where "reg = for_each (zip [0..<length ps] ps) (seed_provider env tk rg pl)"
  define app where "app = call_token tk (\<lambda>tok. transferring (approve (de_oz env) client mk (100 * 10 ^ 18) tok) ''approve'')"
  have ord: "orderly fund" "orderly reg" "orderly app"
    unfolding fund_def reg_def app_def seed_provider_def call_token_def call_registry_def call_book_def
    by (auto intro!: orderly_rules split: prod.splits)
  have st: "steps keeps_rights fund" "steps keeps_rights reg" "steps keeps_rights app"
    unfolding fund_def reg_def app_def
    by (intro rights.for_each_steps call_token_rights seed_provider_rights; auto simp: transfer_def approve_def same_rights_def)+
  have E: "keeps_rights s s' \<Longrightarrow> E e s'" for e s' by (rule files) (simp add: keeps_rights_def)
  have go: "wp t m (\<lambda>_. keeps_rights s) E s'" if "steps keeps_rights m" "orderly m" "keeps_rights s s'" for m :: "('a net, unit) act" and s'
    by (rule steps_wp[OF that(1,2)]) (use that(3) rights.trans E in blast)+
  have deal: "wp t (andthen (call_market mk (sol_createDeal (de_oz env) client (de_block env) (test_deal ps))) (reads (\<lambda>_. ()))) Q E s'" if "keeps_rights s s'" for s'
  proof (rule wp_andthen, rule wp_test_deal)
    show "wired_at d tk rg pl sl mk pay s'" by (rule wired_at_rights[OF that assms(1)])
    show "fresh_at mk s'" using that assms(2) by (simp add: fresh_at_def keeps_rights_def)
  qed (use that in \<open>auto simp: keeps_rights_def intro!: wp_reads files post\<close>)
  show ?thesis
    unfolding seed_def fund_def[symmetric] reg_def[symmetric] app_def[symmetric]
    by (rule wp_then[OF go[OF st(1) ord(1) rights.refl]], rule wp_then[OF go[OF st(2) ord(2)]], assumption,
        rule wp_then[OF go[OF st(3) ord(3)]], assumption, rule deal)
qed

text \<open>
  The local development chain is ready when its address file is there: the contracts are wired, and the marketplace holds one
  active deal of the second account with fifteen providers, each with its shard, and 0.0515 tokens in escrow.
\<close>

theorem local_chain_ready:
  assumes "address_files (db w) local_file = None" and "s = final (deploy_local env) w" and "address_files s local_file = Some ad"
  shows "wired ad s \<and> (\<exists>client ps m. ad_testAccounts ad = Some (client, ps) \<and> load_market (ad_marketplace ad) s = Some m \<and>
    mk_dealCount m = 1 \<and> k_client (mk_deals m 0) = client \<and> k_status (mk_deals m 0) = SolActive \<and> k_activeShards (mk_deals m 0) = 15 \<and>
    k_providers (mk_deals m 0) = ps \<and> k_escrow (mk_deals m 0) = 515 * 10 ^ 14)"
proof -
  let ?P = "\<lambda>s :: 'a net. \<forall>ad. address_files s local_file = Some ad \<longrightarrow> wired ad s \<and>
    (\<exists>client ps. ad_testAccounts ad = Some (client, ps) \<and> deal_there (ad_marketplace ad) client ps s)"
  have none: "?P s" if "address_files s = address_files (db w)" for s using that assms(1) by simp
  have saved: "deal_there mk c ps (s\<lparr>address_files := f\<rparr>) = deal_there mk c ps s" for mk c ps f and s :: "'a net"
    by (simp add: deal_there_def load_market_files)
  have "wp (clock w) (deploy_local env) (\<lambda>_. ?P) (\<lambda>_. ?P) (db w)"
  proof (cases "\<exists>d client rest. de_signers env = d # client # rest")
    case True
    then obtain d client rest where signers: "de_signers env = d # client # rest" by blast
    show ?thesis
      unfolding deploy_local_def signers list.case Let_def
    proof (intro wp_andthen wp_reads wp_bind, goal_cases)
      case 2
      show ?case
      proof (rule wp_five, goal_cases)
        case (2 five s1)
        obtain tk rg pl pr sl where five: "five = (tk, rg, pl, pr, sl)" by (cases five)
        show ?case
          unfolding five prod.case
          by (rule wp_seven[OF 2(1)[unfolded five]]; (intro wp_andthen wp_wire)?; (rule wp_seed)?)
             (use 2 assms(1) in \<open>auto intro!: wp_save wired_here simp: saved\<close>)
      qed (simp add: none)
    qed (simp add: none)
  next
    case False
    then have "deploy_local env = andthen (reads (\<lambda>_. ())) (throw ''Cannot read properties of undefined'')"
      by (auto simp: deploy_local_def split: list.splits)
    then show ?thesis by (auto intro!: wp_andthen wp_reads wp_throw none)
  qed
  then have "?P s" unfolding assms(2) by (rule wp_final_now)
  then show ?thesis using assms(3) unfolding deal_there_def by blast
qed

section \<open>When nothing fails, the scripts finish\<close>

lemma quietly_effect: "f s = Some (x, s') \<Longrightarrow> Q x s' \<Longrightarrow> quietly t (effect f) Q s"
  by (auto simp: quietly_def effect_def)

lemma quietly_deploy:
  assumes "length args = arity k" and "construct env d k args s \<noteq> None" and "\<And>s'. construct env d k args s = Some s' \<Longrightarrow> Q (next_addr s) s'"
  shows "quietly t (deploy env d k args) Q s"
  unfolding deploy_def using assms by (auto intro!: quiet_rules quietly_effect)

lemma quietly_five:
  assumes "new_token (de_oz env) d (de_block env) (de_k0 env) = Some tok"
    and "\<And>five s'. five_ok d five s' \<Longrightarrow> next_addr s < next_addr s' \<Longrightarrow> Q five s'"
  shows "quietly t (deploy_five env d (ret ())) Q s"
proof -
  have tok: "token_owner tok = d" "authorizedMinters tok = (\<lambda>_. False)" "authorizedBurners tok = (\<lambda>_. False)"
    using assms(1) by (auto simp: new_token_def)
  show ?thesis
    unfolding deploy_five_def
    by (intro quiet_rules quietly_deploy)
       (auto simp: construct_def Let_def assms(1) five_ok_def new_slashing_def tok intro!: assms(2))
qed

text \<open>What the calls that give rights need: the contracts are there, and the deployer owns them.\<close>

definition owned :: "addr \<Rightarrow> addr \<Rightarrow> addr \<Rightarrow> 'k net \<Rightarrow> bool" where
  "owned d tk rg s = ((\<exists>tok. tokens s tk = Some tok \<and> token_owner tok = d) \<and> (\<exists>r. registries s rg = Some r \<and> reg_owner r = d))"

lemma quietly_rights:
  assumes "owned d tk rg s" and "\<And>s'. owned d tk rg s' \<Longrightarrow> Q () s'"
  shows "quietly t (call_token tk (authorizeMinter d a)) Q s" "quietly t (call_token tk (authorizeBurner d a)) Q s"
    "quietly t (call_registry rg (authorizeRecordKeeper d a)) Q s"
proof -
  obtain tok r where s: "tokens s tk = Some tok" "token_owner tok = d" "registries s rg = Some r" "reg_owner r = d" using assms(1) by (auto simp: owned_def)
  have "owned d tk rg (s\<lparr>tokens := (tokens s)(tk \<mapsto> tok\<lparr>authorizedMinters := f\<rparr>)\<rparr>)" "owned d tk rg (s\<lparr>tokens := (tokens s)(tk \<mapsto> tok\<lparr>authorizedBurners := f\<rparr>)\<rparr>)"
    "owned d tk rg (s\<lparr>registries := (registries s)(rg \<mapsto> r\<lparr>recordKeepers := f\<rparr>)\<rparr>)" for f using s by (simp_all add: owned_def)
  then show "quietly t (call_token tk (authorizeMinter d a)) Q s" "quietly t (call_token tk (authorizeBurner d a)) Q s"
    "quietly t (call_registry rg (authorizeRecordKeeper d a)) Q s"
    unfolding call_token_def call_registry_def using s assms(2)
    by (auto intro!: quietly_effect simp: authorizeMinter_def authorizeBurner_def authorizeRecordKeeper_def)
qed

lemma quietly_wire:
  assumes "seven_ok d (tk, rg, pl, pr, sl) mk pay s" and "pay \<noteq> 0"
  shows "quietly t (wire d tk rg sl mk pay) (\<lambda>_. owned d tk rg) s"
proof -
  obtain tok m where s: "tokens s tk = Some tok" "token_owner tok = d" "registries s rg = Some (new_registry d)"
      "markets s mk = Some (tk, rg, pl, m)" "mk_paymentDistributor m = 0" "mk_owner m = d"
    using assms(1) by (auto simp: seven_ok_def five_ok_def)
  let ?m = "m\<lparr>mk_registry := new_registry d, mk_token := tok, mk_paymentDistributor := pay\<rparr>"
  have "owned d tk rg (store_market mk ?m s)" using s by (simp add: owned_def store_market_def)
  moreover have "load_market mk s = Some (m\<lparr>mk_registry := new_registry d, mk_token := tok\<rparr>)" using s by (simp add: load_market_def)
  ultimately have first: "quietly t (call_market mk (setPaymentDistributor d pay)) (\<lambda>_. owned d tk rg) s"
    unfolding call_market_def using s(5,6) assms(2) by (intro quietly_effect) (simp_all add: setPaymentDistributor_def)
  show ?thesis
    unfolding wire_def
    by (rule quietly_andthen, rule quietly_mono[OF first]) (auto intro!: quietly_andthen quietly_rights)
qed

lemma quietly_seven:
  assumes "five_ok d (tk, rg, pl, pr, sl) s"
    and "\<And>mk pay s'. seven_ok d (tk, rg, pl, pr, sl) mk pay s' \<Longrightarrow> pay \<noteq> 0 \<Longrightarrow> quietly t (f mk pay) Q s'"
  shows "quietly t (bind (deploy env d StorageMarketplace [tk, rg, pl, d]) (\<lambda>mk. bind (deploy env d PaymentDistributor [tk, mk, pl, rg]) (f mk))) Q s"
  by (intro quietly_bind quietly_deploy)
     (use assms(1) in \<open>auto simp: construct_def Let_def seven_ok_def five_ok_def new_market_def fresh_market_def intro!: assms(2)\<close>)

lemma seven_owned: "seven_ok d (tk, rg, pl, pr, sl) mk pay s \<Longrightarrow> owned d tk rg s"
  by (auto simp: seven_ok_def five_ok_def owned_def)

lemma quietly_save: "Q () (s\<lparr>address_files := (address_files s)(path \<mapsto> ad)\<rparr>) \<Longrightarrow> quietly t (save path ad) Q s"
  unfolding save_def by (rule quietly_writes)

lemma scripts_finish:
  assumes "de_signers env = d # ds" and "new_token (de_oz env) d (de_block env) (de_k0 env) = Some tok" and "script w = []"
  shows "\<exists>ad. address_files (final (deploy_v2 env) w) (file_of ''./deployed-addresses-v2-'' env) = Some ad"
    and "\<exists>ad. address_files (final (deploy_amoy env) w) (file_of ''./deployed-addresses-'' env) = Some ad"
proof -
  have five: "quietly (clock w) (bind (first_signer env) (\<lambda>d. bind (deploy_five env d (ret ())) (f d))) Q (db w)"
    if "\<And>five s. five_ok d five s \<Longrightarrow> quietly (clock w) (f d five) Q s" for f and Q :: "unit \<Rightarrow> 'a net \<Rightarrow> bool"
    unfolding first_signer_def assms(1) list.case by (intro quiet_rules quietly_five[OF assms(2)]) (rule that)
  have "quietly (clock w) (deploy_v2 env) (\<lambda>_ s. \<exists>ad. address_files s (file_of ''./deployed-addresses-v2-'' env) = Some ad) (db w)"
    unfolding deploy_v2_def
    by (rule five, clarsimp split: prod.split, erule quietly_seven) (auto intro!: quietly_andthen quietly_bind quietly_now quietly_save quietly_mono[OF quietly_wire])
  then show "\<exists>ad. address_files (final (deploy_v2 env) w) (file_of ''./deployed-addresses-v2-'' env) = Some ad"
    by (rule quietly_final) (rule assms(3))
  have "quietly (clock w) (deploy_amoy env) (\<lambda>_ s. \<exists>ad. address_files s (file_of ''./deployed-addresses-'' env) = Some ad) (db w)"
    unfolding deploy_amoy_def
    by (rule five, clarsimp split: prod.split, erule quietly_seven) (auto intro!: quietly_andthen quietly_bind quietly_now quietly_save quietly_rights dest: seven_owned)
  then show "\<exists>ad. address_files (final (deploy_amoy env) w) (file_of ''./deployed-addresses-'' env) = Some ad"
    by (rule quietly_final) (rule assms(3))
qed

text \<open>A chain with one account and no contract.\<close>

definition dep_env0 :: "book deploy_env" where
  "dep_env0 = \<lparr>de_oz = book_ledger, de_k0 = [], de_network = ''amoy'', de_chainId = 80002, de_signers = [1], de_block = 0\<rparr>"

definition dep_chain0 :: "book net world" where
  "dep_chain0 = \<lparr>db = \<lparr>next_addr = 100, tokens = (\<lambda>_. None), registries = (\<lambda>_. None), books = (\<lambda>_. None), provers = (\<lambda>_. None), slashings = (\<lambda>_. None),
     markets = (\<lambda>_. None), payments = (\<lambda>_. None), address_files = (\<lambda>_. None)\<rparr>, clock = 0, script = []\<rparr>"

lemma dep_chain0_runs:
  shows "\<exists>ad. address_files (final (deploy_v2 dep_env0) dep_chain0) (file_of ''./deployed-addresses-v2-'' dep_env0) = Some ad"
    and "\<exists>ad. address_files (final (deploy_amoy dep_env0) dep_chain0) (file_of ''./deployed-addresses-'' dep_env0) = Some ad"
proof -
  have s: "de_signers dep_env0 = 1 # []" "script dep_chain0 = []" by (simp_all add: dep_env0_def dep_chain0_def)
  have "\<exists>tok. new_token (de_oz dep_env0) 1 (de_block dep_env0) (de_k0 dep_env0) = Some tok" by (simp add: dep_env0_def new_token_def book_ledger_def)
  then obtain tok where "new_token (de_oz dep_env0) 1 (de_block dep_env0) (de_k0 dep_env0) = Some tok" by blast
  from scripts_finish[OF s(1) this s(2)]
  show "\<exists>ad. address_files (final (deploy_v2 dep_env0) dep_chain0) (file_of ''./deployed-addresses-v2-'' dep_env0) = Some ad"
    "\<exists>ad. address_files (final (deploy_amoy dep_env0) dep_chain0) (file_of ''./deployed-addresses-'' dep_env0) = Some ad" .
qed



theorem appeals_cannot_be_won_witness:
  "\<exists>ad x. address_files (final (deploy_v2 dep_env0) dep_chain0) (file_of ''./deployed-addresses-v2-'' dep_env0) = Some ad \<and>
     load_slashing (ad_slashing ad) (final (deploy_v2 dep_env0) dep_chain0) = Some x \<and>
     (\<exists>e. resolveAppeal book_ledger 1 7 0 False (x\<lparr>slashingHistory := (\<lambda>_. [\<lparr>sr_timestamp = 0, sr_amount = 5, sr_reason = [], sr_appealed = True, sr_resolved = False\<rparr>])\<rparr>) = Inl e)"
proof -
  obtain ad where ad: "address_files (final (deploy_v2 dep_env0) dep_chain0) (file_of ''./deployed-addresses-v2-'' dep_env0) = Some ad" using dep_chain0_runs(1) by blast
  have "address_files (db dep_chain0) (file_of ''./deployed-addresses-v2-'' dep_env0) = None" by (simp add: dep_chain0_def)
  from appeals_cannot_be_won[OF refl this refl ad] ad show ?thesis by blast
qed

text \<open>A wired network, to upgrade.\<close>

definition dep_ad0 :: addresses where
  "dep_ad0 = \<lparr>ad_network = ''amoy'', ad_chainId = 80002, ad_deployer = 1, ad_token = 100, ad_registry = 101, ad_pledges = 102, ad_prover = 103, ad_slashing = 104,
     ad_marketplace = 105, ad_payments = 106, ad_deployedAt = None, ad_version = None, ad_testAccounts = None\<rparr>"

definition dep_wired0 :: "book net world" where
  "dep_wired0 = \<lparr>db = \<lparr>next_addr = 107,
     tokens = [100 \<mapsto> (book_token [])\<lparr>authorizedMinters := (\<lambda>a. a = 106), authorizedBurners := (\<lambda>a. a = 104)\<rparr>],
     registries = [101 \<mapsto> (new_registry 1)\<lparr>recordKeepers := (\<lambda>a. a = 104 \<or> a = 105)\<rparr>],
     books = [102 \<mapsto> (100, new_pledge_book 102 1 (book_token []))], provers = [103 \<mapsto> 1],
     slashings = [104 \<mapsto> (100, 101, new_slashing 104 1 (new_registry 1) (book_token []))],
     markets = [105 \<mapsto> (100, 101, 102, (new_market 105 1 1 (new_registry 1) (book_token []))\<lparr>mk_paymentDistributor := 106\<rparr>)],
     payments = [106 \<mapsto> (100, 105, 102, 101, 1)], address_files = [upgrade_file \<mapsto> dep_ad0]\<rparr>, clock = 0, script = []\<rparr>"

lemma upgrade_finishes:
  assumes "de_signers env = d # ds" and "script w = []" and "address_files (db w) upgrade_file = Some ad"
  shows "address_files (final (upgrade_marketplace env) w) upgrade_file =
    Some (ad\<lparr>ad_marketplace := next_addr (db w), ad_deployedAt := Some (clock w), ad_version := Some ''2.1.0-delete-propagation''\<rparr>)"
proof -
  have "quietly (clock w) (upgrade_marketplace env) (\<lambda>_ s. address_files s upgrade_file =
      Some (ad\<lparr>ad_marketplace := next_addr (db w), ad_deployedAt := Some (clock w), ad_version := Some ''2.1.0-delete-propagation''\<rparr>)) (db w)"
    unfolding upgrade_marketplace_def first_signer_def assms(1) list.case
    by (intro quiet_rules) (auto simp: assms(3) construct_def Let_def intro!: quietly_bind quietly_deploy quietly_now quietly_save)
  then show ?thesis by (rule quietly_final) (rule assms(2))
qed

theorem upgrade_unwires_witness:
  "\<exists>ad m. address_files (final (upgrade_marketplace dep_env0) dep_wired0) upgrade_file = Some ad \<and>
     load_market (ad_marketplace ad) (final (upgrade_marketplace dep_env0) dep_wired0) = Some m \<and> mk_paymentDistributor m = 0"
proof -
  have f0: "address_files (db dep_wired0) upgrade_file = Some dep_ad0" by (simp add: dep_wired0_def)
  obtain ad where ad: "address_files (final (upgrade_marketplace dep_env0) dep_wired0) upgrade_file = Some ad" "ad_marketplace ad = 107"
    using upgrade_finishes[OF _ _ f0, of dep_env0 1 "[]"] by (simp add: dep_env0_def dep_wired0_def)
  have "wired dep_ad0 (db dep_wired0)"
    by (simp add: wired_def dep_ad0_def dep_wired0_def load_market_def load_slashing_def is_keeper_def new_market_def new_slashing_def)
  moreover have "ad_marketplace dep_ad0 < next_addr (db dep_wired0)" "\<forall>r. registries (db dep_wired0) (ad_registry dep_ad0) = Some r \<longrightarrow> \<not> is_keeper (next_addr (db dep_wired0)) r"
    by (simp_all add: dep_ad0_def dep_wired0_def is_keeper_def)
  moreover have "ad \<noteq> dep_ad0" using ad(2) by (auto simp: dep_ad0_def)
  ultimately show ?thesis using upgrade_unwires[OF f0 _ _ _ refl ad(1)] ad(1) by blast
qed

section \<open>The key the scripts sign with\<close>

definition key_digit :: "char \<Rightarrow> bool" where
  "key_digit c = (c \<in> set ''0123456789abcdefABCDEF'')"

text \<open>\<^verbatim>\<open>/^0x?[0-9a-fA-F]{64}$/\<close>, where the digit 0 is not optional.\<close>

definition key_pattern :: "string \<Rightarrow> bool" where
  "key_pattern pk = (case pk of c # r \<Rightarrow> c = CHR ''0'' \<and>
     ((length r = 64 \<and> list_all key_digit r) \<or> (case r of x # ds \<Rightarrow> x = CHR ''x'' \<and> length ds = 64 \<and> list_all key_digit ds | [] \<Rightarrow> False)) | [] \<Rightarrow> False)"

definition dummy_key :: string where
  "dummy_key = ''0xac0974bec39a17e36ba4a6b4d238ff944bacb478cbed5efcae784d7bf4f2ff80''"

definition getPrivateKey :: "string option \<Rightarrow> string" where
  "getPrivateKey pk = (case pk of None \<Rightarrow> dummy_key
     | Some k \<Rightarrow> if k \<noteq> [] \<and> key_pattern k then (if starts_with k ''0x'' then k else ''0x'' @ k) else dummy_key)"

text \<open>
  A private key without the prefix is not used: for the 64 digits of a key as wallets show it, the scripts sign with the
  key of the public development account; with the prefix the key is used as it is.
\<close>

theorem unprefixed_key_ignored:
  assumes "length ds = 64" and "list_all key_digit ds"
  shows "getPrivateKey (Some ds) = dummy_key \<and> getPrivateKey (Some (''0x'' @ ds)) = ''0x'' @ ds"
proof -
  have "\<not> key_pattern ds" using assms(1) by (auto simp: key_pattern_def split: list.split)
  then show ?thesis using assms by (simp add: getPrivateKey_def key_pattern_def)
qed

theorem unprefixed_key_ignored_witness: "getPrivateKey (Some (replicate 64 CHR ''7'')) = dummy_key"
  using unprefixed_key_ignored[of "replicate 64 CHR ''7''"] by (simp add: list_all_iff key_digit_def)

end
