(* ===== verification/Sol_Proofs.thy ===== *)
theory Sol_Proofs
  imports Sol_Registry
begin

text \<open>
  Proofs of storage on the chain (\<^verbatim>\<open>smart-contracts/contracts/core/ProofVerifier.sol\<close>). The hash of the chain, the check of a Merkle path (a library) and
  what a block gives (its time, the chain, the hash of the block before) are parameters. A packed argument of the hash is a word or an address.
\<close>

unbundle bit_operations_syntax

section \<open>State\<close>

type_synonym bytes32 = "256 word"

datatype packed = PWord bytes32 | PAddr addr

record prover_env =
  keccak_packed :: "packed list \<Rightarrow> bytes32"
  merkle_verify :: "bytes32 list \<Rightarrow> bytes32 \<Rightarrow> bytes32 \<Rightarrow> bool"
  chainid :: bytes32

record block_info =
  block_time :: nat
  previous_hash :: bytes32

record porep =
  po_sealedCID :: bytes32
  po_unsealedCID :: bytes32
  po_timestamp :: nat
  po_verified :: bool

record post_challenge =
  pc_dealId :: nat
  pc_provider :: addr
  pc_timestamp :: nat
  pc_deadline :: nat
  pc_leafIndices :: "nat list"
  pc_submitted :: bool
  pc_verified :: bool
  pc_checked :: bool
  pc_commitment :: bytes32

record prover =
  pv_owner :: addr
  poregDifficultyBits :: nat
  porepProofs :: "nat \<Rightarrow> addr \<Rightarrow> porep"
  postChallenges :: "nat \<Rightarrow> post_challenge"
  challengeCount :: nat
  lastPostSubmission :: "addr \<Rightarrow> nat \<Rightarrow> nat"
  consecutiveMisses :: "addr \<Rightarrow> nat"
  usedPoRepNonces :: "addr \<Rightarrow> bytes32 \<Rightarrow> bool"

definition no_porep :: porep where
  "no_porep = \<lparr>po_sealedCID = 0, po_unsealedCID = 0, po_timestamp = 0, po_verified = False\<rparr>"

definition no_challenge :: post_challenge where
  "no_challenge = \<lparr>pc_dealId = 0, pc_provider = 0, pc_timestamp = 0, pc_deadline = 0, pc_leafIndices = [], pc_submitted = False, pc_verified = False,
     pc_checked = False, pc_commitment = 0\<rparr>"

definition new_prover :: "addr \<Rightarrow> prover" where
  "new_prover deployer = \<lparr>pv_owner = deployer, poregDifficultyBits = 20, porepProofs = (\<lambda>_ _. no_porep), postChallenges = (\<lambda>_. no_challenge), challengeCount = 0,
     lastPostSubmission = (\<lambda>_ _. 0), consecutiveMisses = (\<lambda>_. 0), usedPoRepNonces = (\<lambda>_ _. False)\<rparr>"

section \<open>Proof of replication\<close>

definition byte_at :: "bytes32 \<Rightarrow> nat \<Rightarrow> bytes32" where
  "byte_at v i = drop_bit (8 * (31 - i)) v AND 0xFF"

definition hasLeadingZeroBits :: "bytes32 \<Rightarrow> nat \<Rightarrow> string + bool" where
  "hasLeadingZeroBits v bits =
     req (bits \<le> 256) ''Invalid bit count'' (Inr (
       let fullBytes = bits div 8; remainingBits = bits mod 8 in
       (\<forall>i \<in> {..<fullBytes}. byte_at v i = 0) \<and>
       (remainingBits > 0 \<longrightarrow> byte_at v fullBytes AND drop_bit remainingBits 0xFF = 0)))"

text \<open>The three words at the start of the proof data: commitment, nonce, hash.\<close>

definition verifyPoRepProof :: "prover_env \<Rightarrow> block_info \<Rightarrow> addr \<Rightarrow> bytes32 \<Rightarrow> bytes32 \<Rightarrow> bytes32 list \<Rightarrow> prover \<Rightarrow> string + bool" where
  "verifyPoRepProof env b sender sealedCID unsealedCID proofData s =
     (case proofData of
        commitment # nonce # powHash # _ \<Rightarrow>
          if sealedCID = 0 \<or> unsealedCID = 0 then Inr False
          else if sealedCID = unsealedCID then Inr False
          else if usedPoRepNonces s sender nonce then Inr False
          else if commitment \<noteq> keccak_packed env [PWord sealedCID, PAddr sender, PWord (chainid env)] then Inr False
          else if keccak_packed env [PWord nonce, PWord sealedCID, PWord unsealedCID, PWord (previous_hash b)] \<noteq> powHash then Inr False
          else hasLeadingZeroBits powHash (poregDifficultyBits s)
      | _ \<Rightarrow> Inr False)"

definition submitPoRep :: "prover_env \<Rightarrow> block_info \<Rightarrow> addr \<Rightarrow> nat \<Rightarrow> bytes32 \<Rightarrow> bytes32 \<Rightarrow> bytes32 list \<Rightarrow> prover \<Rightarrow> string + prover" where
  "submitPoRep env b sender dealId sealedCID unsealedCID proofData s =
     req (\<not> po_verified (porepProofs s dealId sender)) ''PoRep already verified'' (
     and_then (verifyPoRepProof env b sender sealedCID unsealedCID proofData s) (\<lambda>isValid.
     req isValid ''Invalid PoRep proof'' (
     Inr (s\<lparr>porepProofs := (porepProofs s)(dealId := (porepProofs s dealId)(sender :=
       \<lparr>po_sealedCID = sealedCID, po_unsealedCID = unsealedCID, po_timestamp = block_time b, po_verified = True\<rparr>))\<rparr>))))"

definition setPoRepDifficulty :: "addr \<Rightarrow> nat \<Rightarrow> prover \<Rightarrow> string + prover" where
  "setPoRepDifficulty sender bits s =
     req (sender = pv_owner s) ''OwnableUnauthorizedAccount'' (
     req (bits \<le> 256) ''Invalid difficulty'' (Inr (s\<lparr>poregDifficultyBits := bits\<rparr>)))"

definition markNonceUsed :: "addr \<Rightarrow> addr \<Rightarrow> bytes32 \<Rightarrow> prover \<Rightarrow> string + prover" where
  "markNonceUsed sender p nonce s =
     req (sender = pv_owner s) ''OwnableUnauthorizedAccount'' (
     Inr (s\<lparr>usedPoRepNonces := (usedPoRepNonces s)(p := (usedPoRepNonces s p)(nonce := True))\<rparr>))"

section \<open>Proof of space-time\<close>

definition createPoStChallenge :: "block_info \<Rightarrow> addr \<Rightarrow> nat \<Rightarrow> addr \<Rightarrow> nat list \<Rightarrow> bytes32 \<Rightarrow> prover \<Rightarrow> string + prover" where
  "createPoStChallenge b sender dealId p leafIndices seedCommitment s =
     req (sender = pv_owner s) ''OwnableUnauthorizedAccount'' (
     req (length leafIndices = 10) ''Invalid sector count'' (
     Inr (s\<lparr>challengeCount := challengeCount s + 1,
            postChallenges := (postChallenges s)(challengeCount s := \<lparr>pc_dealId = dealId, pc_provider = p, pc_timestamp = block_time b,
              pc_deadline = block_time b + 24 * 3600 + 2 * 3600, pc_leafIndices = leafIndices, pc_submitted = False, pc_verified = False, pc_checked = False,
              pc_commitment = seedCommitment\<rparr>)\<rparr>)))"

definition challenge_leaf :: "prover_env \<Rightarrow> bytes32 \<Rightarrow> bytes32 \<Rightarrow> nat \<Rightarrow> bytes32" where
  "challenge_leaf env entropy leaf i = keccak_packed env [PWord leaf, PWord entropy, PWord (of_nat i)]"

definition submitPoSt :: "prover_env \<Rightarrow> block_info \<Rightarrow> addr \<Rightarrow> nat \<Rightarrow> bytes32 list \<Rightarrow> bytes32 list list \<Rightarrow> bytes32 \<Rightarrow> prover \<Rightarrow> string + prover" where
  "submitPoSt env b sender challengeId leafData proofs providerSeed s =
     (let c = postChallenges s challengeId in
     req (pc_provider c = sender) ''Not challenge owner'' (
     req (\<not> pc_submitted c) ''Already submitted'' (
     req (block_time b \<le> pc_deadline c) ''Deadline passed'' (
     req (length leafData = 10) ''Invalid leaf count'' (
     req (keccak_packed env [PWord providerSeed] = pc_commitment c) ''Seed reveal does not match commitment'' (
     let entropy = keccak_packed env [PWord providerSeed, PWord (of_nat challengeId), PWord (of_nat (pc_dealId c)), PAddr sender];
         root = po_sealedCID (porepProofs s (pc_dealId c) sender)
     in req (root \<noteq> 0) ''PoRep not found'' (
        req (\<forall>i \<in> {..<min 10 (length proofs)}. merkle_verify env (proofs ! i) root (challenge_leaf env entropy (leafData ! i) i)) ''Invalid Merkle proof'' (
        req (10 \<le> length proofs) ''Panic'' (
        Inr (s\<lparr>postChallenges := (postChallenges s)(challengeId := c\<lparr>pc_submitted := True, pc_verified := True\<rparr>),
               lastPostSubmission := (lastPostSubmission s)(sender := (lastPostSubmission s sender)(pc_dealId c := block_time b)),
               consecutiveMisses := (consecutiveMisses s)(sender := 0)\<rparr>))))))))))"

definition checkMissedPoSt :: "block_info \<Rightarrow> addr \<Rightarrow> nat \<Rightarrow> prover \<Rightarrow> string + prover" where
  "checkMissedPoSt b sender challengeId s =
     (let c = postChallenges s challengeId in
     req (sender = pv_owner s) ''OwnableUnauthorizedAccount'' (
     req (pc_deadline c < block_time b) ''Deadline not passed'' (
     req (\<not> pc_submitted c) ''Already submitted'' (
     req (\<not> pc_checked c) ''Already checked'' (
     Inr (s\<lparr>postChallenges := (postChallenges s)(challengeId := c\<lparr>pc_checked := True\<rparr>),
            consecutiveMisses := (consecutiveMisses s)(pc_provider c := consecutiveMisses s (pc_provider c) + 1)\<rparr>))))))"

definition needsPoSt :: "block_info \<Rightarrow> addr \<Rightarrow> nat \<Rightarrow> prover \<Rightarrow> bool" where
  "needsPoSt b p dealId s = (let lastSubmission = lastPostSubmission s p dealId in
     if lastSubmission = 0 then True else lastSubmission + 24 * 3600 \<le> block_time b)"

datatype prover_call =
    VPoRep addr nat bytes32 bytes32 "bytes32 list"
  | VDifficulty addr nat
  | VNonce addr addr bytes32
  | VChallenge addr nat addr "nat list" bytes32
  | VPoSt addr nat "bytes32 list" "bytes32 list list" bytes32
  | VMissed addr nat

fun prover_exec :: "prover_env \<Rightarrow> block_info \<Rightarrow> prover_call \<Rightarrow> prover \<Rightarrow> string + prover" where
  "prover_exec env b (VPoRep s d x y ps) = submitPoRep env b s d x y ps"
| "prover_exec env b (VDifficulty s n) = setPoRepDifficulty s n"
| "prover_exec env b (VNonce s p n) = markNonceUsed s p n"
| "prover_exec env b (VChallenge s d p is c) = createPoStChallenge b s d p is c"
| "prover_exec env b (VPoSt s i ls ps x) = submitPoSt env b s i ls ps x"
| "prover_exec env b (VMissed s i) = checkMissedPoSt b s i"

definition prover_run :: "prover_env \<Rightarrow> (block_info \<times> prover_call) list \<Rightarrow> prover \<Rightarrow> prover" where
  "prover_run env cs s = fold (\<lambda>(b, c). transact (prover_exec env b c)) cs s"

section \<open>Leading zeros\<close>

lemma byte_zero: "i < 32 \<Longrightarrow> byte_at v i = 0 \<longleftrightarrow> (\<forall>k < 8. \<not> bit v (8 * (31 - i) + k))"
proof -
  assume i: "i < 32"
  have "(0xFF :: bytes32) = mask 8" by (simp add: mask_eq_exp_minus_1)
  then have "byte_at v i = take_bit 8 (drop_bit (8 * (31 - i)) v)" by (simp add: byte_at_def take_bit_eq_mask)
  then show ?thesis by (auto simp: bit_eq_iff bit_take_bit_iff bit_drop_bit_eq)
qed

lemma top_zero: "drop_bit (256 - n) (v :: bytes32) = 0 \<longleftrightarrow> (\<forall>k. 256 - n \<le> k \<and> k < 256 \<longrightarrow> \<not> bit v k)"
proof
  assume z: "drop_bit (256 - n) v = 0"
  show "\<forall>k. 256 - n \<le> k \<and> k < 256 \<longrightarrow> \<not> bit v k"
  proof (intro allI impI)
    fix k assume k: "256 - n \<le> k \<and> k < 256"
    have "\<not> bit (drop_bit (256 - n) v) (k - (256 - n))" unfolding z by simp
    then show "\<not> bit v k" using k by (simp add: bit_drop_bit_eq)
  qed
next
  assume z: "\<forall>k. 256 - n \<le> k \<and> k < 256 \<longrightarrow> \<not> bit v k"
  have "\<not> bit v (256 - n + k)" for k
    using z bit_imp_le_length[of v "256 - n + k"] by auto
  then show "drop_bit (256 - n) v = 0" by (simp add: bit_eq_iff bit_drop_bit_eq)
qed

lemma bytes_bits:
  assumes "m \<le> 32"
  shows "(\<forall>i < m. byte_at v i = 0) \<longleftrightarrow> (\<forall>k. 256 - 8 * m \<le> k \<and> k < 256 \<longrightarrow> \<not> bit v k)"
proof
  assume z: "\<forall>i < m. byte_at v i = 0"
  show "\<forall>k. 256 - 8 * m \<le> k \<and> k < 256 \<longrightarrow> \<not> bit v k"
  proof (intro allI impI)
    fix k assume k: "256 - 8 * m \<le> k \<and> k < 256"
    have i: "31 - k div 8 < m" "31 - k div 8 < 32" using k assms by auto
    have "31 - (31 - k div 8) = k div 8" using k by auto
    then have "k = 8 * (31 - (31 - k div 8)) + k mod 8" by simp
    moreover have "k mod 8 < 8" by simp
    ultimately show "\<not> bit v k" using z i byte_zero[OF i(2), of v] by metis
  qed
next
  assume z: "\<forall>k. 256 - 8 * m \<le> k \<and> k < 256 \<longrightarrow> \<not> bit v k"
  show "\<forall>i < m. byte_at v i = 0"
  proof (intro allI impI)
    fix i assume i: "i < m"
    have "i < 32" using i assms by simp
    moreover have "256 - 8 * m \<le> 8 * (31 - i) + k \<and> 8 * (31 - i) + k < 256" if "k < 8" for k using that i assms by linarith
    then have "\<not> bit v (8 * (31 - i) + k)" if "k < 8" for k using z that by blast
    ultimately show "byte_at v i = 0" using byte_zero by blast
  qed
qed

text \<open>
  C18. The check of the work done is right for a difficulty of whole bytes: it holds exactly for hashes with that many leading zero bits. At the
  initial difficulty of 20 it is not: the mask keeps the low bits of the third byte instead of the high ones, so a hash with 16
  leading zeros can pass and one with 23 fail.
\<close>

theorem leading_zero_check:
  "(bits \<le> 256 \<and> 8 dvd bits \<longrightarrow> hasLeadingZeroBits v bits = Inr (drop_bit (256 - bits) v = 0)) \<and>
   (\<exists>few. hasLeadingZeroBits few 20 = Inr True \<and> drop_bit (256 - 17) few \<noteq> 0) \<and>
   (\<exists>many. hasLeadingZeroBits many 20 = Inr False \<and> drop_bit (256 - 23) many = 0)"
proof (intro conjI impI)
  assume b: "bits \<le> 256 \<and> 8 dvd bits"
  then obtain m where m: "bits = 8 * m" "m \<le> 32" by (auto elim: dvdE)
  then have "hasLeadingZeroBits v bits = Inr (\<forall>i < m. byte_at v i = 0)" by (auto simp: hasLeadingZeroBits_def Let_def)
  also have "(\<forall>i < m. byte_at v i = 0) = (drop_bit (256 - bits) v = 0)" unfolding bytes_bits[OF m(2)] top_zero m(1) ..
  finally show "hasLeadingZeroBits v bits = Inr (drop_bit (256 - bits) v = 0)" .
next
  show "\<exists>few. hasLeadingZeroBits few 20 = Inr True \<and> drop_bit (256 - 17) few \<noteq> 0"
    by (rule exI[of _ "push_bit 232 0xF0"]) (simp add: hasLeadingZeroBits_def byte_at_def Let_def lessThan_nat_numeral lessThan_Suc)
  show "\<exists>many. hasLeadingZeroBits many 20 = Inr False \<and> drop_bit (256 - 23) many = 0"
    by (rule exI[of _ "push_bit 232 1"]) (simp add: hasLeadingZeroBits_def byte_at_def Let_def lessThan_nat_numeral lessThan_Suc)
qed

theorem leading_zero_check_witness:
  "hasLeadingZeroBits (push_bit 200 1) 24 = Inr (drop_bit (256 - 24) (push_bit 200 1 :: bytes32) = 0) \<and> drop_bit (256 - 24) (push_bit 200 1 :: bytes32) = 0"
proof -
  have "(24 :: nat) \<le> 256 \<and> 8 dvd (24 :: nat)" by simp
  then have "hasLeadingZeroBits (push_bit 200 1) 24 = Inr (drop_bit (256 - 24) (push_bit 200 1 :: bytes32) = 0)"
    using leading_zero_check[of 24 "push_bit 200 1"] by blast
  then show ?thesis by simp
qed

section \<open>One proof for many deals\<close>

text \<open>
  A proof of replication is not bound to its deal, and its nonce is never marked as used by submitting it: as long as the block before is the same, data that
  was accepted for one deal is accepted for any other deal the provider has not proved yet.
\<close>

theorem porep_replayable:
  assumes "submitPoRep env b p i sealed unsealed proof s = Inr s'" and "j \<noteq> i" and "\<not> po_verified (porepProofs s j p)"
  shows "\<exists>s''. submitPoRep env b p j sealed unsealed proof s' = Inr s'' \<and> po_verified (porepProofs s'' i p) \<and> po_verified (porepProofs s'' j p)"
proof -
  have "verifyPoRepProof env b p sealed unsealed proof s = Inr True"
    and s': "s' = s\<lparr>porepProofs := (porepProofs s)(i := (porepProofs s i)(p := \<lparr>po_sealedCID = sealed, po_unsealedCID = unsealed, po_timestamp = block_time b, po_verified = True\<rparr>))\<rparr>"
    using assms(1) by (auto simp: submitPoRep_def)
  moreover have "verifyPoRepProof env b p sealed unsealed proof s' = verifyPoRepProof env b p sealed unsealed proof s"
    by (simp add: s' verifyPoRepProof_def split: list.split)
  ultimately have "verifyPoRepProof env b p sealed unsealed proof s' = Inr True" by simp
  moreover have "\<not> po_verified (porepProofs s' j p)" "po_verified (porepProofs s' i p)" using assms(2,3) by (simp_all add: s')
  ultimately show ?thesis using assms(2) by (simp add: submitPoRep_def)
qed

theorem porep_replayable_witness:
  "\<exists>s''. submitPoRep \<lparr>keccak_packed = (\<lambda>_. 0), merkle_verify = (\<lambda>_ _ _. True), chainid = 1\<rparr> \<lparr>block_time = 5, previous_hash = 0\<rparr> 7 1 2 3 [0, 9, 0]
      ((new_prover 1)\<lparr>porepProofs := (\<lambda>_ _. no_porep)(0 := (\<lambda>_. no_porep)(7 :=
        \<lparr>po_sealedCID = 2, po_unsealedCID = 3, po_timestamp = 5, po_verified = True\<rparr>))\<rparr>) = Inr s'' \<and>
    po_verified (porepProofs s'' 0 7) \<and> po_verified (porepProofs s'' 1 7)"
  by (rule porep_replayable[where s = "new_prover 1"])
    (simp_all add: submitPoRep_def verifyPoRepProof_def hasLeadingZeroBits_def byte_at_def new_prover_def no_porep_def Let_def)

section \<open>Missed proofs\<close>

text \<open>Time does not run backwards between the calls.\<close>

definition in_order :: "(block_info \<times> prover_call) list \<Rightarrow> bool" where
  "in_order cs = sorted (map (block_time \<circ> fst) cs)"

definition counted :: "addr \<Rightarrow> prover \<Rightarrow> nat set" where
  "counted p s = {i. i < challengeCount s \<and> pc_provider (postChallenges s i) = p \<and> pc_checked (postChallenges s i)}"

definition prover_inv :: "nat \<Rightarrow> prover \<Rightarrow> bool" where
  "prover_inv t s = ((\<forall>i \<ge> challengeCount s. pc_provider (postChallenges s i) = 0 \<and> \<not> pc_submitted (postChallenges s i)) \<and>
     (\<forall>i. pc_checked (postChallenges s i) \<longrightarrow> pc_deadline (postChallenges s i) < t \<and> \<not> pc_submitted (postChallenges s i)) \<and>
     (\<forall>p. p \<noteq> 0 \<longrightarrow> consecutiveMisses s p \<le> card (counted p s)))"

lemma finite_counted [simp]: "finite (counted p s)"
  by (simp add: counted_def)

lemma prover_inv_later: "prover_inv t s \<Longrightarrow> t \<le> t' \<Longrightarrow> prover_inv t' s"
  unfolding prover_inv_def by (meson order_less_le_trans)

lemma challenge_inv:
  assumes "createPoStChallenge b s d p is c st = Inr st'" and "prover_inv t st"
  shows "prover_inv t st'"
proof -
  let ?n = "challengeCount st"
  obtain x where x: "st' = st\<lparr>challengeCount := ?n + 1, postChallenges := (postChallenges st)(?n := x)\<rparr>" "\<not> pc_checked x" "\<not> pc_submitted x"
    using assms(1) by (auto simp: createPoStChallenge_def)
  have "counted q st' = counted q st" for q using x by (auto simp: counted_def less_Suc_eq)
  then show ?thesis using assms(2) x by (auto simp: prover_inv_def)
qed

lemma missed_inv:
  assumes "checkMissedPoSt b s i st = Inr st'" and "prover_inv (block_time b) st"
  shows "prover_inv (block_time b) st'"
proof -
  let ?c = "postChallenges st i"
  have c: "pc_deadline ?c < block_time b" "\<not> pc_submitted ?c" "\<not> pc_checked ?c"
      "st' = st\<lparr>postChallenges := (postChallenges st)(i := ?c\<lparr>pc_checked := True\<rparr>),
        consecutiveMisses := (consecutiveMisses st)(pc_provider ?c := consecutiveMisses st (pc_provider ?c) + 1)\<rparr>"
    using assms(1) by (auto simp: checkMissedPoSt_def Let_def)
  have same: "counted q st' = (if q = pc_provider ?c \<and> i < challengeCount st then insert i (counted q st) else counted q st)" for q
    using c by (auto simp: counted_def)
  have new: "i \<notin> counted q st" for q using c(3) by (simp add: counted_def)
  have "consecutiveMisses st' q \<le> card (counted q st')" if "q \<noteq> 0" for q
  proof (cases "q = pc_provider ?c")
    case True
    then have "i < challengeCount st" using assms(2) that by (metis not_le prover_inv_def)
    then show ?thesis using True that assms(2) new same by (simp add: c(4) prover_inv_def)
  next
    case False
    then show ?thesis using that assms(2) same by (simp add: c(4) prover_inv_def)
  qed
  then show ?thesis using assms(2) c by (auto simp: prover_inv_def)
qed

lemma post_inv:
  assumes "submitPoSt env b s i ls ps x st = Inr st'" and "prover_inv (block_time b) st" and "s \<noteq> 0"
  shows "prover_inv (block_time b) st'"
proof -
  let ?c = "postChallenges st i"
  have c: "pc_provider ?c = s" "\<not> pc_submitted ?c" "block_time b \<le> pc_deadline ?c"
      "postChallenges st' = (postChallenges st)(i := ?c\<lparr>pc_submitted := True, pc_verified := True\<rparr>)" "challengeCount st' = challengeCount st"
      "consecutiveMisses st' = (consecutiveMisses st)(s := 0)"
    using assms(1) by (auto simp: submitPoSt_def Let_def)
  have "\<not> pc_checked ?c" using assms(2) c(3) by (auto simp: prover_inv_def)
  moreover have "i < challengeCount st" using assms(2,3) c(1) by (metis not_le prover_inv_def)
  moreover have "counted q st' = counted q st" for q using c by (auto simp: counted_def)
  ultimately show ?thesis using assms(2) c by (auto simp: prover_inv_def)
qed

text \<open>Nobody calls from the zero address.\<close>

fun prover_caller :: "prover_call \<Rightarrow> addr" where
  "prover_caller (VPoRep s d x y ps) = s"
| "prover_caller (VDifficulty s n) = s"
| "prover_caller (VNonce s p n) = s"
| "prover_caller (VChallenge s d p is c) = s"
| "prover_caller (VPoSt s i ls ps x) = s"
| "prover_caller (VMissed s i) = s"

lemma prover_exec_inv:
  assumes "prover_exec env b c st = Inr st'" and "prover_inv (block_time b) st" and "prover_caller c \<noteq> 0"
  shows "prover_inv (block_time b) st'"
proof (cases c)
  case (VChallenge s d p ix x)
  then show ?thesis using assms challenge_inv by simp
next
  case (VPoSt s i ls ps x)
  then show ?thesis using assms post_inv by simp
next
  case (VMissed s i)
  then show ?thesis using assms missed_inv by simp
qed (use assms in \<open>auto simp: submitPoRep_def setPoRepDifficulty_def markNonceUsed_def prover_inv_def counted_def\<close>)

lemma prover_run_inv:
  assumes "in_order cs" and "\<forall>x \<in> set cs. prover_caller (snd x) \<noteq> 0" and "\<forall>x \<in> set cs. t \<le> block_time (fst x)" and "prover_inv t s"
  shows "\<exists>t'. prover_inv t' (prover_run env cs s)"
  using assms unfolding prover_run_def
proof (induction cs arbitrary: t s)
  case (Cons x cs)
  obtain b c where x: "x = (b, c)" by force
  let ?s = "transact (prover_exec env b c) s"
  have "prover_inv (block_time b) s" using prover_inv_later[OF Cons.prems(4)] Cons.prems(3) by (simp add: x)
  then have inv: "prover_inv (block_time b) ?s"
    using prover_exec_inv[of env b c s] Cons.prems(2) by (auto simp: x transact_def split: sum.split)
  have "in_order cs" "\<forall>y \<in> set cs. block_time b \<le> block_time (fst y)" using Cons.prems(1) by (auto simp: in_order_def x)
  then show ?case using Cons.IH[OF _ _ _ inv] Cons.prems(2) by (simp add: x)
qed auto

text \<open>
  C36. A proof in time is never punished: after any calls in the order of their blocks, no challenge is both answered and counted as missed, and the misses in a row
  of a provider never exceed the challenges it really missed.
\<close>

theorem answered_never_missed:
  assumes "in_order calls" and "\<forall>x \<in> set calls. prover_caller (snd x) \<noteq> 0" and "s = prover_run env calls (new_prover deployer)"
  shows "\<not> (pc_submitted (postChallenges s i) \<and> pc_checked (postChallenges s i)) \<and>
    (p \<noteq> 0 \<longrightarrow> consecutiveMisses s p \<le> card {j. j < challengeCount s \<and> pc_provider (postChallenges s j) = p \<and> pc_checked (postChallenges s j) \<and> \<not> pc_submitted (postChallenges s j)})"
proof -
  have "prover_inv 0 (new_prover deployer)" by (simp add: prover_inv_def new_prover_def no_challenge_def)
  then obtain t where inv: "prover_inv t s"
    unfolding assms(3) using prover_run_inv[OF assms(1,2), of 0 "new_prover deployer" env] by auto
  then have "{j. j < challengeCount s \<and> pc_provider (postChallenges s j) = p \<and> pc_checked (postChallenges s j) \<and> \<not> pc_submitted (postChallenges s j)} = counted p s"
    by (auto simp: counted_def prover_inv_def)
  then show ?thesis using inv by (auto simp: prover_inv_def)
qed

theorem answered_never_missed_witness:
  "let s = prover_run \<lparr>keccak_packed = (\<lambda>_. 0), merkle_verify = (\<lambda>_ _ _. True), chainid = 1\<rparr>
     [(\<lparr>block_time = 5, previous_hash = 0\<rparr>, VChallenge 1 0 5 (replicate 10 0) 0), (\<lparr>block_time = 200000, previous_hash = 0\<rparr>, VMissed 1 0)] (new_prover 1)
   in consecutiveMisses s 5 = 1 \<and> \<not> (pc_submitted (postChallenges s 0) \<and> pc_checked (postChallenges s 0)) \<and>
      consecutiveMisses s 5 \<le> card {j. j < challengeCount s \<and> pc_provider (postChallenges s j) = 5 \<and> pc_checked (postChallenges s j) \<and> \<not> pc_submitted (postChallenges s j)}"
proof -
  let ?cs = "[(\<lparr>block_time = 5, previous_hash = 0\<rparr>, VChallenge 1 0 5 (replicate 10 0) 0), (\<lparr>block_time = 200000, previous_hash = 0\<rparr>, VMissed 1 0)]"
  let ?env = "\<lparr>keccak_packed = (\<lambda>_. 0), merkle_verify = (\<lambda>_ _ _. True), chainid = 1\<rparr>"
  define s where "s = prover_run ?env ?cs (new_prover 1)"
  have "consecutiveMisses s 5 = 1"
    by (simp add: s_def prover_run_def transact_def createPoStChallenge_def checkMissedPoSt_def new_prover_def no_challenge_def Let_def)
  moreover have "in_order ?cs" by (simp add: in_order_def)
  note answered_never_missed[OF this _ s_def, of 0 5]
  ultimately show ?thesis unfolding s_def[symmetric] by (simp add: Let_def)
qed

end
