(* ===== verification/Spec2Isabelle.thy ===== *)
theory Spec2Isabelle
  imports Chain_Listener Repair_Service Deal_Orchestrator Payment_Processor Proof_Generator Uptime_Monitor
    Deal_Pipeline Socket_Relay Provider_Daemon File_Encryption Auth_Wrapper Block_Indexer Dash_Views Cli_Tools Deployment Sol_Proofs
begin

text \<open>
  Kyneto: paid storage of files on IPFS nodes. A client's file is encrypted in the browser, erasure coded
  into fifteen shards (ten suffice to rebuild it) and spread over providers who pledge capacity against
  collateral. Services watch the chain and the providers, repair lost shards, pay and slash. This development
  models the storage protocol's own code under \<^verbatim>\<open>src/incentive-layer\<close>.

  \<^bold>\<open>Foundations.\<close>
  \<^item> \<open>Kyn_Prelude\<close>: JavaScript's numbers and strings, SQL statements on lists of rows.
  \<^item> \<open>Kyn_Effects\<close>: \<^verbatim>\<open>async\<close> code as state-passing actions. A world holds the state, the clock and a script that says which of
    the awaited effects reject; a theorem without an assumption on the script holds for every pattern of failures.
    Three ways to reason: relations every step keeps (locale \<open>step_rel\<close>), weakest preconditions (\<open>wp\<close>) over all
    failures, and \<open>quietly\<close> for runs without one.
  \<^item> \<open>Kyn_Database\<close>: the tables of \<^verbatim>\<open>config/database-schema.sql\<close>, which all services share; primary keys are enforced.
  \<^item> \<open>Settlement\<close>: the pattern query, transaction, mark of the paying and slashing services, as a locale
    interpreted by \<open>Payment_Processor\<close>, \<open>Proof_Generator\<close> and \<open>Uptime_Monitor\<close>.

  \<^bold>\<open>Services\<close> (\<^verbatim>\<open>services/*/src\<close>, one theory each).
  \<^item> \<open>Chain_Listener\<close> (\<^verbatim>\<open>blockchain-listener/src/index.js\<close>, the program that runs, and \<^verbatim>\<open>index.ts\<close>): handlers of contract events. The
    rows of deals refine an abstract life cycle of deals, and the tables' invariant is kept for any sequence of events.
  \<^item> \<open>Shard_Codec\<close> (\<^verbatim>\<open>erasure-coding/src/shard-manager.ts\<close>): padding, splitting, encoding, rebuilding. The Reed-Solomon
    module is a parameter with its documented laws; the round trip holds for every set of shards it can decode.
  \<^item> \<open>Health_Monitor\<close> (\<^verbatim>\<open>health-monitor.ts\<close>): loss is confirmed only after the cooldown. \<open>Repair_Service\<close> (\<^verbatim>\<open>repair-service.ts\<close>): a
    repair restores the lost bytes on an eligible provider, and the queue stays sound through all failures.
  \<^item> \<open>Replica_Selection\<close> (\<^verbatim>\<open>replication-orchestrator\<close>): both passes of the choice of providers and how far it spreads over regions.
  \<^item> \<open>Deal_Orchestrator\<close>, \<open>Payment_Processor\<close>, \<open>Proof_Generator\<close>, \<open>Uptime_Monitor\<close>: creating and repairing deals; rewards;
    challenges and missed proofs; slashing. What a pass pays, marks or slashes, and that it touches nothing else.

  \<^bold>\<open>API\<close> (\<^verbatim>\<open>api/rest-api/src/server.ts\<close>). \<open>Rest_Api\<close>: the data routes with their signatures; only the client of a deal can
  cancel it. \<open>Deal_Pipeline\<close>: upload, creation of deals, download, and the timer that completes expired deals, in a transaction.
  \<open>Socket_Relay\<close>: the relay to providers as a state machine and the exact set of those shown online.

  \<^bold>\<open>Provider\<close> (\<^verbatim>\<open>provider-stack/public-repo/src\<close>). \<open>Provider_Daemon\<close>: pinning, Merkle trees, answering challenges, clean-up;
  proofs sent belong to the data held. \<open>Storage_Vault\<close>: the vault file and its size. \<open>Block_Indexer\<close> (\<^verbatim>\<open>indexer/src\<close>): connection with
  backoff, which gives up after ten attempts: the fuel of the loop is the number of retries left.

  \<^bold>\<open>Encryption.\<close> \<open>File_Encryption\<close> (\<^verbatim>\<open>dashboard/kyneto-encrypt-browser.js\<close>, \<^verbatim>\<open>services/encryption\<close>): files and wrapped keys
  round trip; AES-GCM, key derivation and the wallet's signature are parameters, assumed only to invert. The hexadecimal
  and wrapping codecs interpret the locale \<open>codec\<close>. \<open>Auth_Wrapper\<close> (\<^verbatim>\<open>dashboard/kyneto-auth.js\<close>): the wrapper that signs requests,
  with the routes that check them.

  \<^bold>\<open>Dashboard\<close> (\<^verbatim>\<open>dashboard/app.js\<close>), a page as a record, its handlers as actions on it.
  \<^item> \<open>Dash_Page\<close>: state, notifications and feed (locale \<open>bounded_feed\<close>). \<open>Dash_Settings\<close>: settings, theme, profile, disconnecting.
  \<^item> \<open>Dash_Reputation\<close>: the provider portal with its penalty for offline time, against a closed form.
  \<^item> \<open>Dash_Wallet\<close>, \<open>Dash_Contracts\<close>, \<open>Dash_Deals\<close>: connecting, pledges, deals, governance. The transactions a handler sends
    are always a prefix of its plan, and the approved amount covers what the contract charges.
  \<^item> \<open>Dash_Files\<close>: selecting, uploading, downloading files and cancelling, on the page with the server behind it.
    \<open>Dash_Startup\<close>: looking for a wallet (one attempt more than the retries), the list of deals, the cost summary.
    \<open>Dash_Views\<close>: statistics, detail views, navigation, menus.
  \<^item> \<open>Cli_Tools\<close> (\<^verbatim>\<open>cli\<close>): the quote, and the transactions of a provider's commands.

  \<^bold>\<open>Contracts\<close> (\<^verbatim>\<open>smart-contracts/contracts/core\<close>, Solidity). A call is a function from the state to a new one or the reason of a revert;
  properties are about any sequence of calls by anybody. The ledger of the ERC-20 library is a parameter \<^verbatim>\<open>'k\<close> with what the library documents
  (\<open>oz_ok\<close>, \<open>oz_pays\<close>); \<open>book_ledger\<close> is an instance on which the examples run.
  \<^item> \<open>Sol_Registry\<close> (\<^verbatim>\<open>ProviderRegistry.sol\<close>): reputations stay in range, who is offered is active. \<open>Sol_Token\<close> (\<^verbatim>\<open>StorageToken.sol\<close>): the supply is bounded.
  \<^item> \<open>Sol_Pledge\<close> (\<^verbatim>\<open>CapacityPledge.sol\<close>): collateral can always be redeemed. \<open>Sol_Slashing\<close> (\<^verbatim>\<open>SlashingManager.sol\<close>): what a penalty costs, appeals, and that an
    empty wallet escapes.
  \<^item> \<open>Sol_Market\<close> (\<^verbatim>\<open>StorageMarketplace.sol\<close>): counts of shards match the shards, the balance covers every escrow until fees are withdrawn, and what
    the withdrawal breaks. \<open>Sol_Distributor\<close> (\<^verbatim>\<open>PaymentDistributor.sol\<close>): earnings are backed; the reward of a completed deal cannot be paid.
  \<^item> \<open>Sol_Proofs\<close> (\<^verbatim>\<open>ProofVerifier.sol\<close>): proofs of replication and of space-time. The work check is exact for whole bytes of difficulty and wrong at the
    initial one; who answered in time is never counted as missing. The hash and the check of a Merkle path are parameters.

  \<open>Deployment\<close> (\<^verbatim>\<open>smart-contracts/scripts\<close>, \<^verbatim>\<open>hardhat.config.js\<close>): the deployment scripts as actions on a network that holds all the contracts, under
  every pattern of failures. Which scripts leave a network whose contracts may call each other, and which do not; both the address files
  and the rights are relations pushed through the scripts by the locale \<open>step_rel\<close>.

  \<^bold>\<open>This theory\<close> joins components: monitor and repair; a file's way through browser, API, chain listener and back; the
  dashboard's approval and the contract's escrow.

  \<^bold>\<open>Idealisations.\<close> Numbers are exact; floating-point rounding and the overflow of 256-bit integers are left out. Texts shown lack
  icons. Foreign keys and \<^verbatim>\<open>NOT NULL\<close> are not checked: a statement they refuse is one of the failures of the script. An action
  runs without interleaving with another, except where a theory says so. A contract call is atomic, its events and the transfer of ownership are left out.

  \<^bold>\<open>Not modelled.\<close> The contract \<^verbatim>\<open>TokenVesting.sol\<close>, which no script deploys; scripts
  that print balances; the fork of kubo, in Go, and the adapter to it; the landing pages
  (three copies of a template); \<^verbatim>\<open>app_download.js\<close>, a copy of an older dashboard, and the older provider daemon; the first
  of two declarations of \<^verbatim>\<open>handleCreateDeal\<close>, which never runs; markup, charts, locale formatting, profile rendering and the wallet
  library AppKit; timers and process start-up; tests and the machine-learning experiments.
\<close>

section \<open>From a silent provider to a repaired shard\<close>


lemma pending_after_report:
  assumes "\<forall>r \<in> set (t_repairs s). r_status r \<noteq> Pending"
  shows "pending_repairs (delete_reports P (lose_shards i p t (enqueue_repair i p n c t s))) =
    [\<lparr>r_id = next_repair_id s, r_deal = i, r_old_provider = p, r_index = n, r_cid = c, r_status = Pending,
      r_new_provider = None, r_new_cid = None, r_error = None, r_created_at = t, r_started_at = None, r_completed_at = None\<rparr>]"
  using assms by (simp add: pending_repairs_def delete_reports_def lose_shards_def enqueue_repair_def filter_empty_conv)

lemma chosen_other: "chosen env d old s = Some q \<Longrightarrow> q \<noteq> old"
  unfolding chosen_def by (drule pick_best_sound) (auto simp: candidates_iff)

text \<open>
  C5. The monitor and the repair service together: when the cooldown of a shard reported missing has passed,
  the monitor's report takes it out of service and queues one repair, and the next round of the
  repair service rebuilds it from the remaining shards on another provider, with the original bytes; the
  shard of the silent provider stays out of service. Here no request fails, no other repair is pending, at least
  the shards needed for decoding are at hand and a provider without a shard of the deal is eligible.
\<close>

theorem lost_shard_is_restored:
  assumes "rs_systematic (rs_module env)" and "applyErasureCoding (rs_module env) data = Some sh"
    and "Health_Monitor.overdue d p n w" and "script w = []" and "\<forall>r \<in> set (t_repairs (db w)). r_status r \<noteq> Pending"
    and "s1 = final (reportPotentialShardLoss d p n c) w"
    and "available (repair_sources d s1) sh s1"
    and "rs_recovers (rs_module env) (map (\<lambda>j. j \<in> snd ` set (repair_sources d s1)) [0..<15])"
    and "n < 15" and "chosen env d p s1 = Some q" and "(d, q) \<notin> set (map shard_key (t_shards (db w)))" and "chain_configured env"
    and "s2 = final (processRepairQueue env) \<lparr>db = s1, clock = t, script = []\<rparr>"
  shows "(\<exists>h \<in> set (t_shards s2). s_active h \<and> s_deal h = d \<and> s_index h = n \<and> s_provider h = q \<and>
       blocks s2 (s_cid h) = Some (sh ! n)) \<and> q \<noteq> p \<and>
    (\<forall>h \<in> set (t_shards s2). shard_key h = (d, p) \<longrightarrow> \<not> s_active h)"
proof -
  let ?w1 = "\<lparr>db = s1, clock = t, script = []\<rparr>" and ?i = "next_repair_id (db w)"
  have s1: "s1 = delete_reports (\<lambda>l. l_deal l = d \<and> l_provider l = p)
      (lose_shards d p (clock w) (enqueue_repair d p n c (clock w) (db w)))"
    unfolding assms(6) by (rule report_overdue_run[OF assms(3,4)])
  have keys: "map shard_key (t_shards s1) = map shard_key (t_shards (db w))"
    by (simp add: s1 delete_reports_def lose_shards_def enqueue_repair_def map_sql_update shard_key_def)
  have old: "\<forall>h \<in> set (t_shards s1). shard_key h = (d, p) \<longrightarrow> \<not> s_active h"
    using lose_shards_inactive[of d p "clock w" "db w"] by (simp add: s1 delete_reports_def lose_shards_def enqueue_repair_def)
  have other: "q \<noteq> p" by (rule chosen_other[OF assms(10)])
  have "s2 = final (for_each (pending_repairs s1) (\<lambda>r. repairShard env (r_id r) (r_deal r) (r_old_provider r) (r_index r))) ?w1"
    unfolding assms(13) processRepairQueue_def final_logged by (simp add: final_def)
  also have "\<dots> = final (repairShard env ?i d p n) ?w1"
    unfolding s1 pending_after_report[OF assms(5)] by (simp add: final_def andthen_def bind_def split: prod.splits sum.splits)
  finally have s2: "s2 = final (repairShard env ?i d p n) ?w1" .
  from repair_restores[OF assms(1,2), of ?w1 d n p q ?i] assms(7-10,11,12) keys
  obtain h where h: "t_shards s2 = t_shards s1 @ [h]" "s_active h" "s_deal h = d" "s_provider h = q" "s_index h = n"
      "blocks s2 (s_cid h) = Some (sh ! n)"
    unfolding s2 by fastforce
  then show ?thesis using old other by (auto simp: shard_key_def)
qed

definition lossy_report :: report_row where
  "lossy_report = \<lparr>l_deal = ''d'', l_provider = ''old'', l_index = 2, l_cid = ''c'', l_reported_at = 0\<rparr>"

theorem lost_shard_is_restored_witness:
  "\<exists>w s1 s2. s1 = final (reportPotentialShardLoss ''d'' ''old'' 2 ''c'') w \<and>
     s2 = final (processRepairQueue repair_env0) \<lparr>db = s1, clock = 400000, script = []\<rparr> \<and>
     (\<exists>h \<in> set (t_shards s2). s_active h \<and> s_deal h = ''d'' \<and> s_index h = 2 \<and> s_provider h = ''new'' \<and>
        blocks s2 (s_cid h) = Some (sample_shards ! 2))"
proof -
  let ?h = "sample_shard ''d'' ''old'' 2"
  let ?l = "?h\<lparr>s_active := False, s_lost_at := Some 350000\<rparr>"
  let ?w = "\<lparr>db = (repair_db0 [?h])\<lparr>t_reports := [lossy_report], t_repairs := []\<rparr>, clock = 350000, script = []\<rparr>"
  let ?s1 = "final (reportPotentialShardLoss ''d'' ''old'' 2 ''c'') ?w"
  have od: "Health_Monitor.overdue ''d'' ''old'' 2 ?w" by (simp add: Health_Monitor.overdue_def lossy_report_def)
  have none: "\<forall>h \<in> set [?l]. \<not> s_active h" by simp
  have upd: "sql_update (\<lambda>h. s_deal h = ''d'' \<and> s_provider h = ''old'') (\<lambda>h. h\<lparr>s_active := False, s_lost_at := Some 350000\<rparr>)
      (t_shards (repair_db0 [?h])) = t_shards (repair_db0 [?l])"
    by (simp add: repair_db0_def sql_update_def sample_shard_def)
  have s1: "t_shards ?s1 = t_shards (repair_db0 [?l])" "t_providers ?s1 = t_providers (repair_db0 [?l])"
    "t_pledges ?s1 = t_pledges (repair_db0 [?l])" "blocks ?s1 = blocks (repair_db0 [?l])"
    unfolding report_overdue_run[OF od, simplified] delete_reports_def lose_shards_def enqueue_repair_def
    by (simp_all add: upd) (simp_all add: repair_db0_def)
  have facts: "repair_sources ''d'' ?s1 = repair_sources ''d'' (repair_db0 [?l])" "blocks ?s1 = blocks (repair_db0 [?l])"
    "chosen repair_env0 ''d'' ''old'' ?s1 = chosen repair_env0 ''d'' ''old'' (repair_db0 [?l])"
    by (simp_all add: s1 repair_sources_def chosen_def candidates_def Kyn_Database.active_shards_def)
  have avail: "available (repair_sources ''d'' ?s1) sample_shards ?s1"
    using available0[OF none] unfolding available_def facts .
  have rec: "rs_recovers (rs_module repair_env0) (map (\<lambda>j. j \<in> snd ` set (repair_sources ''d'' ?s1)) [0..<15])"
    using recovers0[OF none] unfolding facts .
  have ch: "chosen repair_env0 ''d'' ''old'' ?s1 = Some ''new''" unfolding facts by (rule chosen0[OF none])
  have fresh: "(''d'', ''new'') \<notin> set (map shard_key (t_shards (db ?w)))"
    by (simp add: repair_db0_def shard_key_def sample_shard_def)
  have cfg: "chain_configured repair_env0" "(2 :: nat) < 15" "script ?w = []" "\<forall>r \<in> set (t_repairs (db ?w)). r_status r \<noteq> Pending"
    by (simp_all add: repair_env0_def)
  from lost_shard_is_restored[OF module0 od cfg(3,4) refl avail rec cfg(2) ch fresh cfg(1) refl, of 400000]
  show ?thesis by blast
qed

section \<open>A file through the dashboard and back\<close>


text \<open>Selecting a file with a connected wallet when nothing fails.\<close>

lemma select_quiet:
  assumes "wallet_on s" and "e = encryptFile (b_lib env) (b_sign env (wallet_account (pg s))) aesKey iv content"
    and "cid = b_cid env (ef_data e)"
  shows "quietly t (handleFileSelect env aesKey iv name content)
    (\<lambda>_ s'. file_cid s' = cid \<and> server s' = (server s)\<lparr>blocks := (blocks (server s))(cid \<mapsto> ef_data e)\<rparr> \<and>
       wallet_on s' \<and> wallet_account (pg s') = wallet_account (pg s) \<and>
       opened s' = opened s \<and> saved s' = saved s \<and> alerted s' = alerted s) s"
  using assms(1) unfolding handleFileSelect_def encrypt_and_upload_def wallet_signature_def wallet_account_def[symmetric]
  by (auto intro!: quiet_rules quietly_uploadToIPFS simp: upload_done_def wallet_on_def assms(2,3) Let_def)
     (simp_all add: wallet_account_def)

lemma key_req_of_file:
  assumes "gcm_ok lib" and "aesKey \<noteq> []" and "iv \<noteq> []" and "e = encryptFile lib sg aesKey iv content"
  shows "ef_key e \<noteq> []" "ef_iv e \<noteq> []" "ef_tag e \<noteq> []"
proof -
  have hex: "arrayToHex xs \<noteq> []" if "xs \<noteq> []" for xs using that by (cases xs) (auto simp: arrayToHex_def byte_hex_def)
  show "ef_key e \<noteq> []" using ef_key_nonempty[OF assms(2)] assms(4) by simp
  show "ef_iv e \<noteq> []" "ef_tag e \<noteq> []" using hex assms by (simp_all add: encryptFile_def Let_def gcm_ok_def)
qed

text \<open>
  C6. A file through the dashboard and back: encrypted with a fresh key wrapped for the connected wallet
  and uploaded when it is selected, its key stored with the deal over the API by the deal's owner, it is
  saved by the download exactly as it was, and no gateway page is opened. The cipher is a parameter of which
  only decryption inverting encryption and a non-empty tag are assumed.
\<close>

theorem file_roundtrip_with_key:
  assumes "gcm_ok (b_lib env)" and "wallet_on (db w)" and "script w = []" and "aesKey \<noteq> []" and "iv \<noteq> []" and "i \<noteq> []"
    and "e = encryptFile (b_lib env) (b_sign env (wallet_account (pg (db w)))) aesKey iv content"
    and "cid = b_cid env (ef_data e)" and "cid \<noteq> []" and "remove_first ''ipfs://'' cid = cid"
    and "find_deal i (server (db w)) = Some d" and "d_client d = to_lower a" and "a \<noteq> []" and "sg \<noteq> []"
    and "verifySignature (b_recover env) (''store-key-'' @ i) sg a"
  shows "\<exists>w1 u w2. handleFileSelect env aesKey iv name content w = (Inr (), w1) \<and> file_cid (db w1) = cid \<and>
    post_key (b_recover env) i \<lparr>kr_key = ef_key e, kr_iv = ef_iv e, kr_tag = ef_tag e, kr_client = a, kr_signature = sg\<rparr>
      \<lparr>db = server (db w1), clock = clock w1, script = []\<rparr> = (Inr (Ok i), u) \<and>
    downloadFile env cid i \<lparr>db = (db w1)\<lparr>server := db u\<rparr>, clock = clock w1, script = []\<rparr> = (Inr (), w2) \<and>
    saved (db w2) = saved (db w) @ [(''kyneto_decrypted_deal_'' @ i, content)] \<and> opened (db w2) = opened (db w)"
proof -
  let ?r = "\<lparr>kr_key = ef_key e, kr_iv = ef_iv e, kr_tag = ef_tag e, kr_client = a, kr_signature = sg\<rparr>"
  obtain w1 where w1: "handleFileSelect env aesKey iv name content w = (Inr (), w1)" "file_cid (db w1) = cid"
      "server (db w1) = (server (db w))\<lparr>blocks := (blocks (server (db w)))(cid \<mapsto> ef_data e)\<rparr>" "wallet_on (db w1)"
      "wallet_account (pg (db w1)) = wallet_account (pg (db w))" "saved (db w1) = saved (db w)" "opened (db w1) = opened (db w)"
    using quietlyD[OF select_quiet[OF assms(2,7,8)] assms(3)] by auto
  let ?s = "(server (db w1))\<lparr>t_deals := sql_update (\<lambda>d. d_id d = i \<and> d_client d = to_lower a) (store_key ?r) (t_deals (server (db w1)))\<rparr>"
  let ?u = "\<lparr>db = ?s, clock = clock w1, script = []\<rparr>"
  have post: "post_key (b_recover env) i ?r \<lparr>db = server (db w1), clock = clock w1, script = []\<rparr> = (Inr (Ok i), ?u)"
    using key_req_of_file[OF assms(1,4,5,7)] assms(13-15) by (subst post_key_run) (simp_all add: key_req_ok_def)
  have row: "find_deal i ?s = Some (store_key ?r d)"
  proof -
    have "find_deal i (server (db w1)) = Some d" using assms(11) w1(3) by (simp add: find_deal_def)
    then show ?thesis using assms(12) by (subst find_deal_update) (simp_all add: store_key_def)
  qed
  let ?w2 = "\<lparr>db = (db w1)\<lparr>server := ?s\<rparr>, clock = clock w1, script = []\<rparr>"
  have "wallet_on (db ?w2)" "wallet_account (pg (db ?w2)) = wallet_account (pg (db w))"
    using w1(4,5) by (simp_all add: wallet_on_def)
  then obtain w2 where "downloadFile env cid i ?w2 = (Inr (), w2)"
      "saved (db w2) = saved (db ?w2) @ [(''kyneto_decrypted_deal_'' @ i, content)]" "opened (db w2) = opened (db ?w2)"
    using quietlyD[OF download_stored[OF assms(1), of "db ?w2" cid i aesKey e iv content "store_key ?r d" "clock ?w2"]]
      assms(4,6,7,9,10) row w1(3)
    by (auto simp: row_holds_key_def store_key_def)
  then show ?thesis using w1 post by (intro exI[of _ w1] exI[of _ ?u] exI[of _ w2]) simp
qed


text \<open>An action of the page in the tab.\<close>

definition on_page :: "'a ui \<Rightarrow> (tab, 'a) act" where
  "on_page m = zoom pg (\<lambda>p t. t\<lparr>pg := p\<rparr>) m"

lemma final_on_page: "server (final (on_page m) w) = server (db w)" "file_cid (final (on_page m) w) = file_cid (db w)"
  by (simp_all add: on_page_def zoom_def final_def split: prod.split)

lemma key_answer_created:
  assumes "nat_str n \<notin> set (map d_id (t_deals (db u)))" and "script u = []"
  shows "key_answer (nat_str n) (final (handleDealCreated n client g k b) u) = None \<and>
    blocks (final (handleDealCreated n client g k b) u) = blocks (db u)"
proof -
  have "find_deal (nat_str n) (db u) = None" using assms(1) by (simp add: find_deal_None)
  then show ?thesis
    using assms
    by (simp add: handleDealCreated_def js_handleDealCreated_def final_logged final_bind_now)
       (auto simp: final_def effect_Nil insert_deal_def key_answer_def find_deal_def find_append)
qed

text \<open>
  C7. What happens to a file ordered from the page itself. The declaration of handleCreateDeal that runs
  never stores the wrapped key, and the listener's row for the new deal has none either; so, however the order goes,
  after the chain announces the deal its file is on the server as ciphertext, and a download saves nothing: it opens the
  ciphertext on the public gateway, and the owner cannot read the file back through the dashboard.
\<close>

theorem ordered_file_stays_ciphertext:
  assumes "wallet_on (db w)" and "script w = []"
    and "e = encryptFile (b_lib env) (b_sign env (wallet_account (pg (db w)))) aesKey iv content"
    and "t1 = final (handleFileSelect env aesKey iv name content) w"
    and "t2 = final (on_page (handleCreateDeal dummies rnd f)) \<lparr>db = t1, clock = c2, script = sc\<rparr>"
    and "nat_str n \<notin> set (map d_id (t_deals (server t2)))"
    and "s3 = final (handleDealCreated n client g k b) \<lparr>db = server t2, clock = c3, script = []\<rparr>"
    and "db w3 = t3" and "server t3 = s3" and "wallet_on t3" and "script w3 = []" and "b_cid env (ef_data e) \<noteq> []"
  shows "file_cid t2 = b_cid env (ef_data e) \<and> blocks s3 (file_cid t2) = Some (ef_data e) \<and>
    saved (final (downloadFile env (file_cid t2) (nat_str n)) w3) = saved t3 \<and>
    opened (final (downloadFile env (file_cid t2) (nat_str n)) w3) =
      opened t3 @ [''https://ipfs.io/ipfs/'' @ remove_first ''ipfs://'' (file_cid t2)]"
proof -
  have t1: "file_cid t1 = b_cid env (ef_data e)" "blocks (server t1) (b_cid env (ef_data e)) = Some (ef_data e)"
    using quietly_final[OF select_quiet[OF assms(1,3) refl] assms(2)] unfolding assms(4) by auto
  have t2: "server t2 = server t1" "file_cid t2 = file_cid t1" by (simp_all add: assms(5) final_on_page)
  have s3: "key_answer (nat_str n) s3 = None" "blocks s3 = blocks (server t2)"
    using key_answer_created[of n "\<lparr>db = server t2, clock = c3, script = []\<rparr>"] assms(6) unfolding assms(7) by simp_all
  show ?thesis
    using download_unkeyed[of w3 "file_cid t2" "nat_str n" env] s3 t1 t2 assms(8-12) by simp
qed

lemma env0_facts: "b_lib env0 = toy_crypto" "b_sign env0 a = a" "b_cid env0 x = ''Q''"
  by (simp_all add: env0_def)

theorem file_roundtrip_with_key_witness:
  "\<exists>w1 (u :: database world) w2. handleFileSelect env0 [1] [7] ''a.txt'' [10, 20] (tab_world []) = (Inr (), w1) \<and>
     downloadFile env0 ''Q'' ''7'' \<lparr>db = (db w1)\<lparr>server := db u\<rparr>, clock = clock w1, script = []\<rparr> = (Inr (), w2) \<and>
     saved (db w2) = [(''kyneto_decrypted_deal_7'', [10, 20])]"
proof -
  let ?e = "encryptFile (b_lib env0) (b_sign env0 (wallet_account (pg (db (tab_world []))))) [1] [7] [10, 20]"
  have env: "gcm_ok (b_lib env0)" "b_cid env0 (ef_data ?e) \<noteq> []" "remove_first ''ipfs://'' (b_cid env0 (ef_data ?e)) = b_cid env0 (ef_data ?e)"
    by (simp_all add: env0_facts toy_gcm)
  have row: "find_deal ''7'' (server (db (tab_world []))) = Some (api_deal ''ab'' Active)" "d_client (api_deal ''ab'' Active) = to_lower ''aB''"
    by (simp_all add: api_sample to_lower_ab)
  have sig: "verifySignature (b_recover env0) (''store-key-'' @ ''7'') ''aB'' ''aB''"
    by (simp add: env0_def verifySignature_def plain_recovery_def)
  have on: "wallet_on (db (tab_world []))" "script (tab_world []) = []" by simp_all
  from file_roundtrip_with_key[OF env(1) on _ _ _ refl refl env(2,3) row _ _ sig, of "''a.txt''"]
  show ?thesis by (auto simp: env0_facts)
qed

theorem ordered_file_stays_ciphertext_witness:
  "\<exists>w3. saved (final (downloadFile env0 ''Q'' (nat_str 8)) w3) = [] \<and>
     opened (final (downloadFile env0 ''Q'' (nat_str 8)) w3) = [''https://ipfs.io/ipfs/Q''] \<and>
     blocks (server (db w3)) ''Q'' = Some (ef_data (encryptFile toy_crypto ''aB'' [1] [7] [10, 20]))"
proof -
  let ?t1 = "final (handleFileSelect env0 [1] [7] ''a.txt'' [10, 20]) (tab_world [])"
  let ?t2 = "final (on_page (handleCreateDeal [] [] deal0)) \<lparr>db = ?t1, clock = 0, script = []\<rparr>"
  let ?s3 = "final (handleDealCreated 8 ''c'' 2 2 2) \<lparr>db = server ?t2, clock = 0, script = []\<rparr>"
  let ?w3 = "\<lparr>db = tab0\<lparr>server := ?s3\<rparr>, clock = 0, script = []\<rparr>"
  have server1: "server ?t2 = (server tab0)\<lparr>blocks := (blocks (server tab0))(b_cid env0 (ef_data (encryptFile toy_crypto ''aB'' [1] [7] [10, 20])) \<mapsto>
      ef_data (encryptFile toy_crypto ''aB'' [1] [7] [10, 20]))\<rparr>"
    unfolding final_on_page
    using quietly_final[OF select_quiet[OF _ refl refl, where s = "db (tab_world [])" and env = env0 and t = "clock (tab_world [])" and
        aesKey = "[1]" and iv = "[7]" and name = "''a.txt''" and content = "[10, 20]"]]
    by (simp add: env0_def)
  have fresh: "nat_str 8 \<notin> set (map d_id (t_deals (server ?t2)))"
    unfolding server1 by (simp add: api_world_def api_deal_def empty_db_def) code_simp
  have on: "wallet_on (db ?w3)" by (simp add: tab0_def wallet_on_def page0_def)
  have "file_cid ?t2 = b_cid env0 (ef_data (encryptFile (b_lib env0) (b_sign env0 (wallet_account (pg (db (tab_world []))))) [1] [7] [10, 20])) \<and> blocks ?s3 (file_cid ?t2) = Some (ef_data (encryptFile (b_lib env0) (b_sign env0 (wallet_account (pg (db (tab_world []))))) [1] [7] [10, 20])) \<and>
      saved (final (downloadFile env0 (file_cid ?t2) (nat_str 8)) ?w3) = saved (db ?w3) \<and>
      opened (final (downloadFile env0 (file_cid ?t2) (nat_str 8)) ?w3) =
        opened (db ?w3) @ [''https://ipfs.io/ipfs/'' @ remove_first ''ipfs://'' (file_cid ?t2)]"
    by (rule ordered_file_stays_ciphertext[OF _ _ refl refl refl fresh refl refl _ on])
       (simp_all add: env0_facts)
  then show ?thesis by (intro exI[of _ ?w3]) (auto simp: env0_facts)
qed

section \<open>From the dashboard's approval to the contract's escrow\<close>

lemma createDeal_charge:
  assumes "sol_createDeal T s t q m = Inr m'"
  shows "transferFrom T (mk_self m) s (mk_self m) (sol_deal_charge (mk_feeBasisPoints m) (mk_kynPriceUSD m) (dp_fileSizeGB q) (dp_pricePerGBMonthUSD q) (dp_durationDays q)) (mk_token m) = Some (mk_token m')"
    and "k_escrow (mk_deals m' (mk_dealCount m)) = sol_deal_charge (mk_feeBasisPoints m) (mk_kynPriceUSD m) (dp_fileSizeGB q) (dp_pricePerGBMonthUSD q) (dp_durationDays q)"
  using assms by (auto simp: sol_createDeal_def sol_deal_charge_def months_of_def Let_def)

text \<open>
  C14. What the dashboard approves is enough for the contract. For every deal the marketplace accepts at its standard fee, with a price in the steps
  the form allows, the amount the contract takes from the client and holds in escrow is at most the amount the
  dashboard had approved, although the two round in different places.
\<close>

theorem approval_covers_contract:
  assumes "sol_createDeal T s t q m = Inr m'" and "mk_feeBasisPoints m = 300" and "0 < mk_kynPriceUSD m" and "1000 dvd dp_pricePerGBMonthUSD q"
  shows "\<exists>cost. transferFrom T (mk_self m) s (mk_self m) cost (mk_token m) = Some (mk_token m') \<and>
    k_escrow (mk_deals m' (mk_dealCount m)) = cost \<and>
    cost \<le> deal_approval (mk_kynPriceUSD m) (dp_fileSizeGB q) (dp_pricePerGBMonthUSD q) (dp_durationDays q)"
  using createDeal_charge[OF assms(1)] approval_covers_charge[OF assms(3)] assms(2,4) by auto

theorem approval_covers_contract_witness:
  "\<exists>m'. sol_createDeal book_ledger 2 0 sol_deal0 sol_market0 = Inr m' \<and> k_escrow (mk_deals m' 0) \<le> deal_approval 100000 1 5000 30"
proof -
  obtain m' where m': "sol_createDeal book_ledger 2 0 sol_deal0 sol_market0 = Inr m'" by (rule sol_deal0_runs)
  have s: "mk_feeBasisPoints sol_market0 = 300" "mk_kynPriceUSD sol_market0 = 100000" "mk_dealCount sol_market0 = 0" "dp_pricePerGBMonthUSD sol_deal0 = 5000"
      "dp_fileSizeGB sol_deal0 = 1" "dp_durationDays sol_deal0 = 30"
    by (simp_all add: sol_market0_def new_market_def sol_deal0_def)
  then have "0 < mk_kynPriceUSD sol_market0" "1000 dvd dp_pricePerGBMonthUSD sol_deal0" by simp_all
  from approval_covers_contract[OF m' s(1) this] m' show ?thesis unfolding s by auto
qed

end
